(* ===== verification/Kameo_Prelude.thy ===== *)
theory Kameo_Prelude
  imports Main "HOL-Library.Word" "HOL-Library.AList"
begin

text \<open>
  Shared vocabulary of the development: the Rust machine types, the results of fallible and of
  panicking code, the association list that stands for \<open>std::collections::HashMap\<close> and its
  interface, and the fixed-width byte encodings of the wire formats.
\<close>

section \<open>Machine types and results\<close>

type_synonym u8 = "8 word"
type_synonym u16 = "16 word"
type_synonym u32 = "32 word"
type_synonym u64 = "64 word"
type_synonym u128 = "128 word"
type_synonym bytes = "u8 list"

text \<open>
  \<open>Result<T, E>\<close>. Code that can also unwind (a Rust panic) or never complete (a future
  that is dropped while it waits) returns an \<open>outcome\<close>.
\<close>

datatype ('a, 'e) result = Ok 'a | Err 'e

datatype 'a outcome = Done 'a | Panicked

fun map_ok :: "('a \<Rightarrow> 'b) \<Rightarrow> ('a, 'e) result \<Rightarrow> ('b, 'e) result" where
  "map_ok f (Ok a) = Ok (f a)"
| "map_ok f (Err e) = Err e"

fun map_err :: "('e \<Rightarrow> 'f) \<Rightarrow> ('a, 'e) result \<Rightarrow> ('a, 'f) result" where
  "map_err f (Ok a) = Ok a"
| "map_err f (Err e) = Err (f e)"

fun map_outcome :: "('a \<Rightarrow> 'b) \<Rightarrow> 'a outcome \<Rightarrow> 'b outcome" where
  "map_outcome g (Done a) = Done (g a)"
| "map_outcome g Panicked = Panicked"

fun and_then :: "('a, 'e) result \<Rightarrow> ('a \<Rightarrow> ('b, 'e) result) \<Rightarrow> ('b, 'e) result" where
  "and_then (Ok a) f = f a"
| "and_then (Err e) f = Err e"

fun is_ok :: "('a, 'e) result \<Rightarrow> bool" where
  "is_ok (Ok a) = True"
| "is_ok (Err e) = False"

fun ok_or :: "'a option \<Rightarrow> 'e \<Rightarrow> ('a, 'e) result" where
  "ok_or (Some a) e = Ok a"
| "ok_or None e = Err e"

text \<open>Durations are counted in milliseconds: \<open>Duration::from_secs\<close>.\<close>

definition from_secs :: "nat \<Rightarrow> nat" where
  "from_secs s = s * 1000"

lemma map_ok_eq_Ok [simp]: "map_ok f r = Ok b \<longleftrightarrow> (\<exists>a. r = Ok a \<and> b = f a)"
  by (cases r) auto

lemma map_ok_eq_Err [simp]: "map_ok f r = Err e \<longleftrightarrow> r = Err e"
  by (cases r) auto

lemma map_err_eq_Ok [simp]: "map_err f r = Ok a \<longleftrightarrow> r = Ok a"
  by (cases r) auto

lemma map_err_eq_Err [simp]: "map_err f r = Err e' \<longleftrightarrow> (\<exists>e. r = Err e \<and> e' = f e)"
  by (cases r) auto

lemma map_outcome_eq_Done [simp]: "map_outcome f r = Done b \<longleftrightarrow> (\<exists>a. r = Done a \<and> b = f a)"
  by (cases r) auto

lemma map_outcome_eq_Panicked [simp]: "map_outcome f r = Panicked \<longleftrightarrow> r = Panicked"
  by (cases r) auto

lemma and_then_eq_Ok: "and_then r f = Ok b \<longleftrightarrow> (\<exists>a. r = Ok a \<and> f a = Ok b)"
  by (cases r) auto

lemma and_then_eq_Err: "and_then r f = Err e \<longleftrightarrow> r = Err e \<or> (\<exists>a. r = Ok a \<and> f a = Err e)"
  by (cases r) auto

lemma is_ok_iff: "is_ok r \<longleftrightarrow> (\<exists>a. r = Ok a)"
  by (cases r) auto


section \<open>Hash maps\<close>

text \<open>
  A \<open>HashMap\<close> is an association list with distinct keys. The list order stands for the
  iteration order, which the Rust library leaves open, so that a theorem about every list covers
  every iteration order.
\<close>

type_synonym ('k, 'v) hash_map = "('k \<times> 'v) list"

definition hm_get :: "('k, 'v) hash_map \<Rightarrow> 'k \<Rightarrow> 'v option" where
  "hm_get m k = map_of m k"

definition hm_contains :: "('k, 'v) hash_map \<Rightarrow> 'k \<Rightarrow> bool" where
  "hm_contains m k = (hm_get m k \<noteq> None)"

definition hm_insert :: "'k \<Rightarrow> 'v \<Rightarrow> ('k, 'v) hash_map \<Rightarrow> ('k, 'v) hash_map" where
  "hm_insert k v m = AList.update k v m"

definition hm_remove :: "'k \<Rightarrow> ('k, 'v) hash_map \<Rightarrow> ('k, 'v) hash_map" where
  "hm_remove k m = AList.delete k m"

definition hm_keys :: "('k, 'v) hash_map \<Rightarrow> 'k list" where
  "hm_keys m = map fst m"

definition hm_wf :: "('k, 'v) hash_map \<Rightarrow> bool" where
  "hm_wf m = distinct (hm_keys m)"

text \<open>\<open>HashMap::retain\<close> and \<open>values_mut\<close>: the closure sees every value once.\<close>

definition hm_map_values :: "('v \<Rightarrow> 'w) \<Rightarrow> ('k, 'v) hash_map \<Rightarrow> ('k, 'w) hash_map" where
  "hm_map_values f m = map (\<lambda>(k, v). (k, f v)) m"

definition hm_retain :: "('k \<Rightarrow> 'v \<Rightarrow> bool) \<Rightarrow> ('k, 'v) hash_map \<Rightarrow> ('k, 'v) hash_map" where
  "hm_retain p m = filter (\<lambda>(k, v). p k v) m"

named_theorems hm_simps \<open>how each operation of a hash map reads back\<close>

lemma hm_get_Nil [simp]: "hm_get [] k = None"
  by (simp add: hm_get_def)

lemma hm_get_Cons [simp]: "hm_get ((k', v) # m) k = (if k = k' then Some v else hm_get m k)"
  by (simp add: hm_get_def)

lemma hm_get_insert [hm_simps, simp]:
  "hm_get (hm_insert k v m) k' = (if k' = k then Some v else hm_get m k')"
  by (simp add: hm_get_def hm_insert_def update_conv')

lemma hm_get_remove [hm_simps, simp]:
  "hm_get (hm_remove k m) k' = (if k' = k then None else hm_get m k')"
  by (simp add: hm_get_def hm_remove_def delete_conv')

lemma hm_get_map_values [hm_simps, simp]:
  "hm_get (hm_map_values f m) k = map_option f (hm_get m k)"
  by (induction m) (auto simp: hm_map_values_def)

lemma hm_keys_map_values [hm_simps, simp]: "hm_keys (hm_map_values f m) = hm_keys m"
  by (induction m) (auto simp: hm_map_values_def hm_keys_def)

lemma hm_keys_Nil [simp]: "hm_keys [] = []"
  by (simp add: hm_keys_def)

lemma hm_keys_Cons [simp]: "hm_keys ((k, v) # m) = k # hm_keys m"
  by (simp add: hm_keys_def)

lemma set_hm_keys: "set (hm_keys m) = dom (hm_get m)"
  by (induction m) (auto split: if_splits)

lemma hm_contains_iff [simp]: "hm_contains m k \<longleftrightarrow> k \<in> set (hm_keys m)"
  by (auto simp: hm_contains_def set_hm_keys)

lemma set_hm_keys_insert [hm_simps]: "set (hm_keys (hm_insert k v m)) = insert k (set (hm_keys m))"
  by (auto simp: set_hm_keys split: if_splits)

lemma set_hm_keys_remove [hm_simps]: "set (hm_keys (hm_remove k m)) = set (hm_keys m) - {k}"
  by (auto simp: set_hm_keys split: if_splits)

lemma hm_wf_Nil [simp]: "hm_wf []"
  by (simp add: hm_wf_def)

lemma hm_wf_insert [simp, intro]: "hm_wf m \<Longrightarrow> hm_wf (hm_insert k v m)"
  by (simp add: hm_wf_def hm_keys_def hm_insert_def distinct_update)

lemma hm_wf_remove [simp, intro]: "hm_wf m \<Longrightarrow> hm_wf (hm_remove k m)"
  by (simp add: hm_wf_def hm_keys_def hm_remove_def distinct_delete)

lemma hm_wf_map_values [simp]: "hm_wf (hm_map_values f m) = hm_wf m"
  by (simp add: hm_wf_def)

lemma hm_wf_retain [simp, intro]: "hm_wf m \<Longrightarrow> hm_wf (hm_retain p m)"
  unfolding hm_wf_def hm_keys_def hm_retain_def by (rule distinct_map_filter)

lemma length_hm_keys [simp]: "length (hm_keys m) = length m"
  by (simp add: hm_keys_def)

lemma hm_length_card: "hm_wf m \<Longrightarrow> length m = card (set (hm_keys m))"
  using distinct_card [of "hm_keys m"] by (simp add: hm_wf_def)

lemma hm_get_in_set: "hm_get m k = Some v \<Longrightarrow> (k, v) \<in> set m"
  unfolding hm_get_def by (rule map_of_SomeD)

lemma hm_get_eq_Some_iff: "hm_wf m \<Longrightarrow> hm_get m k = Some v \<longleftrightarrow> (k, v) \<in> set m"
  unfolding hm_get_def hm_wf_def hm_keys_def by (rule map_of_eq_Some_iff)

lemma hm_get_None_iff: "hm_get m k = None \<longleftrightarrow> k \<notin> set (hm_keys m)"
  by (auto simp: set_hm_keys)

lemma set_hm_keys_retain: "set (hm_keys (hm_retain p m)) \<subseteq> set (hm_keys m)"
  by (auto simp: hm_keys_def hm_retain_def)

lemma hm_get_retain:
  assumes "hm_wf m"
  shows "hm_get (hm_retain p m) k =
    (case hm_get m k of None \<Rightarrow> None | Some v \<Rightarrow> if p k v then Some v else None)"
  using assms
proof (induction m)
  case Nil
  then show ?case by (simp add: hm_retain_def)
next
  case (Cons e m)
  obtain a b where e: "e = (a, b)" by force
  have wf: "hm_wf m" and fresh: "a \<notin> set (hm_keys m)"
    using Cons.prems by (auto simp: hm_wf_def e)
  have step: "hm_retain p ((a, b) # m) = (if p a b then (a, b) # hm_retain p m else hm_retain p m)"
    by (simp add: hm_retain_def)
  have none: "hm_get m a = None"
    using fresh by (simp add: hm_get_None_iff)
  show ?case
    using Cons.IH [OF wf] none by (cases "k = a") (simp_all add: step e)
qed

lemma hm_insert_fresh: "k \<notin> set (hm_keys m) \<Longrightarrow> hm_insert k v m = m @ [(k, v)]"
  by (induction m) (auto simp: hm_insert_def hm_keys_def)

lemma hm_length_remove:
  "hm_wf m \<Longrightarrow> k \<in> set (hm_keys m) \<Longrightarrow> length (hm_remove k m) = length m - 1"
  by (simp add: hm_length_card set_hm_keys_remove)

lemma hm_remove_absent [simp]: "k \<notin> set (hm_keys m) \<Longrightarrow> hm_remove k m = m"
  by (induction m) (auto simp: hm_remove_def hm_keys_def)

lemma hm_wf_fold_remove [simp]: "hm_wf m \<Longrightarrow> hm_wf (fold hm_remove ks m)"
  by (induction ks arbitrary: m) simp_all

lemma hm_get_fold_remove [hm_simps, simp]:
  "hm_get (fold hm_remove ks m) k = (if k \<in> set ks then None else hm_get m k)"
  by (induction ks arbitrary: m) auto

lemma hm_insert_not_Nil [simp]: "hm_insert k v m \<noteq> []"
  by (metis hm_get_Nil hm_get_insert option.distinct(1))

text \<open>\<open>map.entry(key).or_insert_with(..)\<close>: the value there, or the default.\<close>

definition entry_or :: "'v \<Rightarrow> ('k, 'v) hash_map \<Rightarrow> 'k \<Rightarrow> 'v" where
  "entry_or d m k = (case hm_get m k of Some v \<Rightarrow> v | None \<Rightarrow> d)"

lemma entry_or_insert: "entry_or d (hm_insert k v m) k' = (if k' = k then v else entry_or d m k')"
  by (simp add: entry_or_def)

lemma entry_or_remove: "entry_or d (hm_remove k m) k' = (if k' = k then d else entry_or d m k')"
  by (simp add: entry_or_def)

lemma entry_or_Nil [simp]: "entry_or d [] k = d"
  by (simp add: entry_or_def)

text \<open>A property of every entry.\<close>

definition hm_all :: "('k \<Rightarrow> 'v \<Rightarrow> bool) \<Rightarrow> ('k, 'v) hash_map \<Rightarrow> bool" where
  "hm_all p m \<longleftrightarrow> (\<forall>k v. hm_get m k = Some v \<longrightarrow> p k v)"

lemma hm_all_Nil [simp]: "hm_all p []"
  by (simp add: hm_all_def)

lemma hm_allD: "hm_all p m \<Longrightarrow> hm_get m k = Some v \<Longrightarrow> p k v"
  by (simp add: hm_all_def)

lemma hm_all_insert [intro, simp]: "hm_all p m \<Longrightarrow> p k v \<Longrightarrow> hm_all p (hm_insert k v m)"
  by (simp add: hm_all_def)

lemma hm_all_remove [intro, simp]: "hm_all p m \<Longrightarrow> hm_all p (hm_remove k m)"
  by (simp add: hm_all_def)

lemma hm_all_fold_remove [intro, simp]: "hm_all p m \<Longrightarrow> hm_all p (fold hm_remove ks m)"
  by (simp add: hm_all_def)

lemma hm_all_mono: "hm_all p m \<Longrightarrow> (\<And>k v. p k v \<Longrightarrow> q k v) \<Longrightarrow> hm_all q m"
  by (simp add: hm_all_def)

lemma hm_all_map_values: "hm_all p (hm_map_values f m) \<longleftrightarrow> hm_all (\<lambda>k v. p k (f v)) m"
  by (auto simp: hm_all_def)

lemma hm_all_retain [intro]: "hm_wf m \<Longrightarrow> hm_all p m \<Longrightarrow> hm_all (\<lambda>k v. p k v \<and> q k v) (hm_retain q m)"
  by (auto simp: hm_all_def hm_get_retain split: option.splits if_splits)


subsection \<open>The interface the components use\<close>

text \<open>
  What a component may rely on when it keeps its state in a map: reading back after an insert or a
  removal, and a key set that changes at one key only. The registries, caches and link tables of
  the program use it through the interpretation below.
\<close>

locale keyed_store =
  fixes get :: "'m \<Rightarrow> 'k \<Rightarrow> 'v option"
    and insert_at :: "'k \<Rightarrow> 'v \<Rightarrow> 'm \<Rightarrow> 'm"
    and remove_at :: "'k \<Rightarrow> 'm \<Rightarrow> 'm"
    and ok :: "'m \<Rightarrow> bool"
  assumes get_insert: "ok m \<Longrightarrow> get (insert_at k v m) k' = (if k' = k then Some v else get m k')"
    and get_remove: "ok m \<Longrightarrow> get (remove_at k m) k' = (if k' = k then None else get m k')"
    and ok_insert: "ok m \<Longrightarrow> ok (insert_at k v m)"
    and ok_remove: "ok m \<Longrightarrow> ok (remove_at k m)"
begin

lemma last_insert_wins: "ok m \<Longrightarrow> get (insert_at k w (insert_at k v m)) k = Some w"
  by (simp add: get_insert ok_insert)

lemma remove_undoes_insert:
  "ok m \<Longrightarrow> get m k = None \<Longrightarrow> get (remove_at k (insert_at k v m)) = get m"
  by (rule ext) (simp add: get_insert get_remove ok_insert)

lemma inserts_commute:
  "ok m \<Longrightarrow> k \<noteq> j \<Longrightarrow> get (insert_at k v (insert_at j w m)) = get (insert_at j w (insert_at k v m))"
  by (rule ext) (simp add: get_insert ok_insert)

lemma insert_then_remove_other:
  "ok m \<Longrightarrow> k \<noteq> j \<Longrightarrow> get (remove_at j (insert_at k v m)) k = Some v"
  by (simp add: get_insert get_remove ok_insert)

end

interpretation hm: keyed_store hm_get hm_insert hm_remove hm_wf
  by unfold_locales auto

subsection \<open>Fixed-size encodings\<close>

text \<open>
  The contract of an encoding of a fixed size: a value's bytes have that size, and the decoder
  accepts a string with a value as its result exactly if the value is encodable and its bytes are
  the first of the string. Everything else about round trips follows.
\<close>

locale byte_codec =
  fixes enc :: "'a \<Rightarrow> bytes"
    and dec :: "bytes \<Rightarrow> ('a, 'e) result"
    and size_of :: nat
    and ok :: "'a \<Rightarrow> bool"
  assumes length_enc: "length (enc a) = size_of"
    and dec_exact: "dec bs = Ok a \<longleftrightarrow> size_of \<le> length bs \<and> ok a \<and> enc a = take size_of bs"
begin

lemma prefix_iff: "size_of \<le> length bs \<and> enc a = take size_of bs \<longleftrightarrow> (\<exists>rest. bs = enc a @ rest)"
  using length_enc [of a] by (auto simp del: append_eq_conv_conj) (metis append_take_drop_id)

lemma dec_iff: "dec bs = Ok a \<longleftrightarrow> ok a \<and> (\<exists>rest. bs = enc a @ rest)"
  using prefix_iff by (auto simp: dec_exact)

lemma dec_enc: "ok a \<Longrightarrow> dec (enc a @ rest) = Ok a"
  by (auto simp: dec_iff)

lemma dec_short: "length bs < size_of \<Longrightarrow> \<exists>e. dec bs = Err e"
  by (cases "dec bs") (auto simp: dec_exact)

lemma enc_prefix_free: "ok a \<Longrightarrow> ok b \<Longrightarrow> enc a @ r = enc b @ r' \<Longrightarrow> a = b \<and> r = r'"
  by (metis append_eq_append_conv dec_enc length_enc result.inject(1))

end

text \<open>A reader takes one value off its input and leaves the rest; reading repeatedly gives a list.\<close>

locale stream_codec = byte_codec enc dec size_of ok
  for enc :: "'a \<Rightarrow> bytes" and dec :: "bytes \<Rightarrow> ('a, 'e) result" and size_of ok +
  fixes read_one :: "bytes \<Rightarrow> ('a, 'e) result \<times> bytes"
    and read_all :: "nat \<Rightarrow> bytes \<Rightarrow> ('a, 'e) result list \<times> bytes"
  assumes read_one_takes: "size_of \<le> length bs \<Longrightarrow> read_one bs = (dec (take size_of bs), drop size_of bs)"
    and read_all_none: "read_all 0 bs = ([], bs)"
    and read_all_more: "read_all (Suc n) bs =
      (let (x, bs) = read_one bs; (xs, bs) = read_all n bs in (x # xs, bs))"
begin

lemma read_one_enc: "ok a \<Longrightarrow> read_one (enc a @ rest) = (Ok a, rest)"
  using dec_enc [of a "[]"] by (simp add: read_one_takes length_enc)

lemma read_all_enc:
  "\<forall>a \<in> set as. ok a \<Longrightarrow> read_all (length as) (concat (map enc as) @ rest) = (map Ok as, rest)"
  by (induction as) (simp_all add: read_all_none read_all_more read_one_enc)

end


subsection \<open>Protocols\<close>

text \<open>
  A step relation with its reachable states and an invariant of them. What holds of every reachable
  state is proved from the two laws \<open>inv_first\<close> and \<open>inv_step\<close> once, here.
\<close>

locale protocol =
  fixes first :: "'s \<Rightarrow> bool"
    and step :: "'s \<Rightarrow> 's \<Rightarrow> bool"
    and reach :: "'s \<Rightarrow> bool"
    and inv :: "'s \<Rightarrow> bool"
  assumes reach_first: "first s \<Longrightarrow> reach s"
    and reach_step: "reach s \<Longrightarrow> step s s' \<Longrightarrow> reach s'"
    and reach_least: "reach s \<Longrightarrow> (\<And>s. first s \<Longrightarrow> P s) \<Longrightarrow> (\<And>s s'. P s \<Longrightarrow> step s s' \<Longrightarrow> P s') \<Longrightarrow> P s"
    and inv_first: "first s \<Longrightarrow> inv s"
    and inv_step: "inv s \<Longrightarrow> step s s' \<Longrightarrow> inv s'"
begin

lemma reach_inv: "reach s \<Longrightarrow> inv s"
  by (erule reach_least) (blast intro: inv_first inv_step)+

lemma runs_reach: "step\<^sup>*\<^sup>* s s' \<Longrightarrow> reach s \<Longrightarrow> reach s'"
  by (induction rule: rtranclp_induct) (blast intro: reach_step)+

lemma runs_inv: "step\<^sup>*\<^sup>* s s' \<Longrightarrow> inv s \<Longrightarrow> inv s'"
  by (induction rule: rtranclp_induct) (blast intro: inv_step)+

lemma reach_iff_run: "reach s \<longleftrightarrow> (\<exists>s0. first s0 \<and> step\<^sup>*\<^sup>* s0 s)"
proof
  assume "reach s"
  then show "\<exists>s0. first s0 \<and> step\<^sup>*\<^sup>* s0 s"
    by (rule reach_least) (blast intro: rtranclp.rtrancl_into_rtrancl)+
qed (blast intro: reach_first runs_reach)

end

text \<open>The steps of a list of states one after the other, and how many of them are of one kind.\<close>

fun is_run :: "('s \<Rightarrow> 's \<Rightarrow> bool) \<Rightarrow> 's list \<Rightarrow> bool" where
  "is_run step (s # s' # ss) \<longleftrightarrow> step s s' \<and> is_run step (s' # ss)"
| "is_run step _ \<longleftrightarrow> True"

fun count_steps :: "('s \<Rightarrow> 's \<Rightarrow> bool) \<Rightarrow> 's list \<Rightarrow> nat" where
  "count_steps kind (s # s' # ss) = (if kind s s' then 1 else 0) + count_steps kind (s' # ss)"
| "count_steps kind _ = 0"

lemma run_reaches: "is_run step ss \<Longrightarrow> ss \<noteq> [] \<Longrightarrow> step\<^sup>*\<^sup>* (hd ss) (last ss)"
  by (induction ss rule: induct_list012) (auto intro: converse_rtranclp_into_rtranclp)

text \<open>
  A protocol in which one party works towards an end: a step of this party lowers the rank, the
  steps of the others do not raise it, and while the rank is positive the party has a step to make.
\<close>

locale working_protocol = protocol first step reach inv
  for first :: "'s \<Rightarrow> bool" and step reach inv +
  fixes works :: "'s \<Rightarrow> 's \<Rightarrow> bool"
    and rank :: "'s \<Rightarrow> nat"
  assumes works_lower: "inv s \<Longrightarrow> step s s' \<Longrightarrow> works s s' \<Longrightarrow> rank s' < rank s"
    and others_keep: "inv s \<Longrightarrow> step s s' \<Longrightarrow> \<not> works s s' \<Longrightarrow> rank s' \<le> rank s"
    and has_work: "inv s \<Longrightarrow> 0 < rank s \<Longrightarrow> \<exists>s'. step s s' \<and> works s s'"
begin

lemma rank_step: "inv s \<Longrightarrow> step s s' \<Longrightarrow> (if works s s' then 1 else 0) + rank s' \<le> rank s"
  using works_lower others_keep by (auto simp: Suc_le_eq)

lemma work_bounded: "is_run step ss \<Longrightarrow> ss \<noteq> [] \<Longrightarrow> inv (hd ss) \<Longrightarrow>
    count_steps works ss + rank (last ss) \<le> rank (hd ss)"
proof (induction ss rule: induct_list012)
  case (3 s s' ss)
  then have "count_steps works (s' # ss) + rank (last (s' # ss)) \<le> rank s'"
    by (auto dest: inv_step)
  then show ?case
    using rank_step [of s s'] "3.prems" by simp
qed simp_all

lemma can_finish: "inv s \<Longrightarrow> \<exists>s'. step\<^sup>*\<^sup>* s s' \<and> rank s' = 0"
proof (induction "rank s" arbitrary: s rule: less_induct)
  case less
  show ?case
  proof (cases "rank s = 0")
    case False
    then obtain s' where s': "step s s'" "works s s'" using has_work less.prems by blast
    then show ?thesis
      using less.hyps [OF works_lower [OF less.prems s']] inv_step [OF less.prems s'(1)]
      by (blast intro: converse_rtranclp_into_rtranclp)
  qed blast
qed

end

end
