(* ===== verification/Type_Hash.thy ===== *)
theory Type_Hash
  imports Kameo_Prelude "HOL-Library.Multiset"
begin

unbundle bit_operations_syntax

text \<open>
  Type hashes (\<open>src/remote/type_hash.rs\<close>, \<open>src/remote/generic_type_hash.rs\<close>) and the type
  strings that the derive macro hashes (\<open>kameo_type_hash_macros/src/lib.rs\<close>). Loops over byte
  slices are recursions over lists; \<open>u64\<close> arithmetic is word arithmetic. The lemmas describe
  the FNV-1a chain, the truncation to 32 bits that goes on the wire and what combining two
  hashes keeps of them.
\<close>

section \<open>Hashes and their operations\<close>

datatype type_hash = TypeHash u64

primrec hash_u64 :: "type_hash \<Rightarrow> u64" where
  "hash_u64 (TypeHash h) = h"

definition FNV_OFFSET_BASIS :: u64 where "FNV_OFFSET_BASIS = 0xcbf29ce484222325"
definition FNV_PRIME :: u64 where "FNV_PRIME = 0x100000001b3"

fun fnv1a_from :: "u64 \<Rightarrow> bytes \<Rightarrow> u64" where
  "fnv1a_from hash [] = hash"
| "fnv1a_from hash (b # bs) = fnv1a_from ((hash XOR ucast b) * FNV_PRIME) bs"

definition compute_hash_fnv1a :: "bytes \<Rightarrow> u64" where
  "compute_hash_fnv1a bs = fnv1a_from FNV_OFFSET_BASIS bs"

definition from_bytes_hash :: "bytes \<Rightarrow> type_hash" where
  "from_bytes_hash bs = TypeHash (compute_hash_fnv1a bs)"

text \<open>\<open>from_type\<close>: the name \<open>std::any::type_name\<close> gives is an argument.\<close>

definition from_type :: "bytes \<Rightarrow> type_hash" where
  "from_type type_name = TypeHash (compute_hash_fnv1a type_name)"

definition as_u32 :: "type_hash \<Rightarrow> u32" where
  "as_u32 h = ucast (hash_u64 h)"

definition from_u32 :: "u32 \<Rightarrow> type_hash" where
  "from_u32 v = TypeHash (ucast v)"

definition combine_hash :: "type_hash \<Rightarrow> type_hash \<Rightarrow> type_hash" where
  "combine_hash a b = TypeHash (hash_u64 a XOR word_rotl 32 (hash_u64 b))"

text \<open>The macro \<open>type_hash!\<close> with a base string and parameter types.\<close>

fun combine_params :: "u64 \<Rightarrow> bytes list \<Rightarrow> u64" where
  "combine_params combined [] = combined"
| "combine_params combined (p # ps) = combine_params (combined + compute_hash_fnv1a p) ps"

definition type_hash_macro :: "bytes \<Rightarrow> bytes list \<Rightarrow> type_hash" where
  "type_hash_macro base params = TypeHash (combine_params (compute_hash_fnv1a base) params)"

text \<open>\<open>impl_type_hash!\<close> hashes the stringified type as it stands.\<close>

definition impl_type_hash :: "bytes \<Rightarrow> type_hash" where
  "impl_type_hash type_name = from_bytes_hash type_name"


section \<open>The instantiation string of \<open>generic_type_hash!\<close>\<close>

definition ASCII_LT :: u8 where "ASCII_LT = 60"
definition ASCII_GT :: u8 where "ASCII_GT = 62"
definition ASCII_COMMA :: u8 where "ASCII_COMMA = 44"

definition type_str :: "bytes \<Rightarrow> bytes list \<Rightarrow> bytes" where
  "type_str base concrete = base @ [ASCII_LT] @ concat (map (\<lambda>c. c @ [ASCII_COMMA]) concrete)"

text \<open>
  The copy loop of \<open>TYPE_STR_CLEAN\<close>: it stops at the trailing comma or when 255 bytes are
  written, and then puts the closing bracket. The rest of the 256-byte array is zero.
\<close>

fun copy_type_str :: "nat \<Rightarrow> bytes \<Rightarrow> bytes" where
  "copy_type_str j [] = []"
| "copy_type_str j (b # bs) =
    (if j \<ge> 255 then []
     else if bs = [] \<and> b = ASCII_COMMA then []
     else b # copy_type_str (j + 1) bs)"

definition type_str_clean :: "bytes \<Rightarrow> bytes" where
  "type_str_clean s = (let r = copy_type_str 0 s @ [ASCII_GT] in r @ replicate (256 - length r) 0)"

fun find_len :: "bytes \<Rightarrow> nat" where
  "find_len [] = 0"
| "find_len (b # bs) = (if b = 0 then 0 else Suc (find_len bs))"

definition generic_type_hash_macro :: "bytes \<Rightarrow> bytes list \<Rightarrow> type_hash" where
  "generic_type_hash_macro base concrete =
    (let clean = type_str_clean (type_str base concrete)
     in from_bytes_hash (take (find_len clean) clean))"

text \<open>
  \<open>RuntimeTypeHash::type_hash\<close> reads the constant of the type; \<open>generic_type_hash\<close> is
  \<open>from_type\<close>.
\<close>

definition generic_type_hash :: "bytes \<Rightarrow> type_hash" where
  "generic_type_hash type_name = from_type type_name"


section \<open>The strings the derive macro hashes\<close>

text \<open>
  A generic parameter of the deriving item. The macro keeps its identifier only; a lifetime's
  name includes its quote.
\<close>

datatype generic_param =
    TypeParam bytes
  | LifetimeParam bytes
  | ConstParam bytes

fun param_name :: "generic_param \<Rightarrow> bytes" where
  "param_name (TypeParam i) = i"
| "param_name (LifetimeParam l) = l"
| "param_name (ConstParam i) = i"

fun join_comma :: "bytes list \<Rightarrow> bytes" where
  "join_comma [] = []"
| "join_comma [x] = x"
| "join_comma (x # y # xs) = x @ [ASCII_COMMA] @ join_comma (y # xs)"

definition derive_type_string :: "bytes \<Rightarrow> generic_param list \<Rightarrow> bytes" where
  "derive_type_string name params =
    (if params = [] then name
     else name @ [ASCII_LT] @ join_comma (map param_name params) @ [ASCII_GT])"

definition derive_type_hash :: "bytes \<Rightarrow> generic_param list \<Rightarrow> type_hash" where
  "derive_type_hash name params = from_bytes_hash (derive_type_string name params)"

text \<open>The attribute \<open>#[type_hash("...")]\<close> and \<open>type_hash_for!\<close> hash the given string.\<close>

definition attr_type_hash :: "bytes \<Rightarrow> type_hash" where
  "attr_type_hash hash_str = from_bytes_hash hash_str"

definition type_hash_for :: "bytes \<Rightarrow> type_hash" where
  "type_hash_for type_string = from_bytes_hash type_string"


section \<open>Lemmas\<close>

lemma fnv1a_from_append: "fnv1a_from h (xs @ ys) = fnv1a_from (fnv1a_from h xs) ys"
  by (induction h xs rule: fnv1a_from.induct) simp_all

lemma compute_hash_fnv1a_append:
  "compute_hash_fnv1a (xs @ ys) = fnv1a_from (compute_hash_fnv1a xs) ys"
  by (simp add: compute_hash_fnv1a_def fnv1a_from_append)

lemma combine_params_sum: "combine_params h ps = h + sum_list (map compute_hash_fnv1a ps)"
  by (induction h ps rule: combine_params.induct) (simp_all add: add.assoc)

lemma ucast_xor_32: "(ucast (x XOR y) :: u32) = ucast x XOR ucast (y :: u64)"
  by (rule bit_eqI) (auto simp: bit_simps)

lemma word_rotl_32_low: "(ucast (word_rotl 32 (x :: u64)) :: u32) = ucast (drop_bit 32 x)"
proof (rule bit_eqI)
  fix n
  assume "possible_bit TYPE(u32) n"
  then have n: "n < 32" by simp
  then have "(n + 32) mod 64 = n + 32" by simp
  with n show "bit (ucast (word_rotl 32 x) :: u32) n = bit (ucast (drop_bit 32 x) :: u32) n"
    by (simp add: bit_simps bit_word_rotl_iff add.commute)
qed

lemma copy_type_str_closed:
  "copy_type_str j s =
    take (255 - j) (if s \<noteq> [] \<and> last s = ASCII_COMMA then butlast s else s)"
proof (induction j s rule: copy_type_str.induct)
  case (1 j)
  then show ?case by simp
next
  case (2 j b bs)
  show ?case
  proof (cases "j < 255")
    case True
    then have "255 - j = Suc (255 - (j + 1))" by simp
    with 2 True show ?thesis by (cases "bs = []") auto
  qed simp
qed

lemma find_len_prefix: "0 \<notin> set s \<Longrightarrow> find_len (s @ replicate n 0) = length s"
proof (induction s)
  case Nil
  show ?case by (cases n) simp_all
qed auto

lemma last_type_str: "concrete \<noteq> [] \<Longrightarrow> last (type_str base concrete) = ASCII_COMMA"
  by (cases concrete rule: rev_cases) (simp_all add: type_str_def)

lemma butlast_type_str:
  "concrete \<noteq> [] \<Longrightarrow> butlast (type_str base concrete) = base @ [ASCII_LT] @ join_comma concrete"
proof -
  have "concrete \<noteq> [] \<Longrightarrow>
    concat (map (\<lambda>c. c @ [ASCII_COMMA]) concrete) = join_comma concrete @ [ASCII_COMMA]"
    by (induction concrete rule: join_comma.induct) auto
  then show "concrete \<noteq> [] \<Longrightarrow> ?thesis"
    by (simp add: type_str_def butlast_append)
qed

lemma word_rotl_32_inj: "word_rotl 32 (x :: u64) = word_rotl 32 y \<longleftrightarrow> x = y"
  by (metis word_rot_lr)

lemma xor_cancel_left: "(x :: u64) XOR y = x XOR z \<longleftrightarrow> y = z"
proof
  assume "x XOR y = x XOR z"
  then have "x XOR (x XOR y) = x XOR (x XOR z)" by simp
  then show "y = z" by (simp flip: xor.assoc)
qed simp

lemma combine_cancel_left: "combine_hash a b = combine_hash a c \<longleftrightarrow> b = c"
  by (cases a; cases b; cases c) (simp add: combine_hash_def word_rotl_32_inj xor_cancel_left)


section \<open>Properties\<close>

text \<open>
  The 32-bit wire form of a combined hash is the lower half of the first hash XOR the UPPER
  half of the second: the lower half of the second hash never reaches the wire.
\<close>

theorem as_u32_combine:
  "as_u32 (combine_hash a b) = as_u32 a XOR ucast (drop_bit 32 (hash_u64 b))"
  by (simp add: as_u32_def combine_hash_def ucast_xor_32 word_rotl_32_low)

text \<open>
  Reconstructing a hash from its wire form and truncating it again gives the wire form back,
  and the reconstruction is the original hash exactly when its upper half is zero.
\<close>

theorem wire_hash_roundtrip:
  "as_u32 (from_u32 v) = v \<and> (from_u32 (as_u32 h) = h \<longleftrightarrow> drop_bit 32 (hash_u64 h) = 0)"
proof -
  have "as_u32 (from_u32 v) = v"
    unfolding as_u32_def from_u32_def hash_u64.simps by (rule bit_eqI) (simp add: bit_simps)
  moreover have "(ucast (ucast x :: u32) :: u64) = x \<longleftrightarrow> drop_bit 32 x = 0" for x :: u64
  proof -
    have "(ucast (ucast x :: u32) :: u64) = take_bit 32 x"
      by (rule bit_eqI) (auto simp: bit_simps)
    then show ?thesis by (simp add: take_bit_eq_self_iff_drop_bit_eq_0)
  qed
  then have "from_u32 (as_u32 h) = h \<longleftrightarrow> drop_bit 32 (hash_u64 h) = 0"
    by (cases h) (simp add: as_u32_def from_u32_def)
  ultimately show ?thesis by simp
qed

text \<open>
  The macro \<open>type_hash!\<close> with a base and parameters does not depend on the order of the
  parameters.
\<close>

theorem type_hash_macro_perm:
  assumes "mset params = mset params'"
  shows "type_hash_macro base params = type_hash_macro base params'"
proof -
  have "sum_list (map compute_hash_fnv1a params) = sum_list (map compute_hash_fnv1a params')"
    using assms by (metis mset_map sum_mset_sum_list)
  then show ?thesis
    by (simp add: type_hash_macro_def combine_params_sum)
qed

theorem type_hash_macro_perm_witness:
  "type_hash_macro [67] [[83], [105, 51]] = type_hash_macro [67] [[105, 51], [83]]"
  by (rule type_hash_macro_perm) simp

text \<open>
  \<open>generic_type_hash!\<close> hashes exactly the string \<open>Base<T1,...,Tn>\<close> when the part before the
  closing bracket has at most 255 bytes; of a longer name only the first 255 bytes count.
\<close>

theorem generic_type_hash_macro_string:
  assumes "concrete \<noteq> []" and "0 \<notin> set (type_str base concrete)"
  shows "generic_type_hash_macro base concrete =
    from_bytes_hash (take 255 (base @ [ASCII_LT] @ join_comma concrete) @ [ASCII_GT])"
proof -
  define s where "s = type_str base concrete"
  define r where "r = take 255 (base @ [ASCII_LT] @ join_comma concrete) @ [ASCII_GT]"
  have "s \<noteq> []" by (simp add: s_def type_str_def)
  then have copy: "copy_type_str 0 s @ [ASCII_GT] = r"
    using last_type_str [OF assms(1)] butlast_type_str [OF assms(1)]
    by (simp add: copy_type_str_closed s_def r_def)
  have "set (butlast s) \<subseteq> set s" by (meson in_set_butlastD subsetI)
  then have "0 \<notin> set r"
    using assms(2) butlast_type_str [OF assms(1), of base] set_take_subset
    by (fastforce simp: r_def s_def ASCII_GT_def)
  then show ?thesis
    unfolding s_def [symmetric] r_def [symmetric] generic_type_hash_macro_def type_str_clean_def
    by (simp add: copy find_len_prefix Let_def)
qed

theorem generic_type_hash_macro_string_witness:
  "generic_type_hash_macro [67] [[75], [86]] = from_bytes_hash [67, 60, 75, 44, 86, 62]"
  using generic_type_hash_macro_string [of "[[75], [86]]" "[67]"]
  by (simp add: type_str_def ASCII_LT_def ASCII_COMMA_def ASCII_GT_def)

end
