(* ===== verification/Wire_Protocol.thy ===== *)
theory Wire_Protocol
  imports Type_Hash
begin

unbundle bit_operations_syntax

text \<open>
  The v2 message header (\<open>src/remote/message_protocol.rs\<close>) and actor identifiers
  (\<open>src/actor/id.rs\<close>): their byte encodings, every error of the decoders, and the process-wide
  counter that generates identifiers.
\<close>

section \<open>Fixed-width integers as bytes\<close>

text \<open>
  \<open>to_le_bytes\<close> and \<open>to_be_bytes\<close> of Rust's integer types, at any width, and their
  inverses.
\<close>

fun le_bytes :: "nat \<Rightarrow> 'a::len word \<Rightarrow> bytes" where
  "le_bytes 0 w = []"
| "le_bytes (Suc n) w = ucast w # le_bytes n (drop_bit 8 w)"

fun le_word :: "bytes \<Rightarrow> 'a::len word" where
  "le_word [] = 0"
| "le_word (b # bs) = push_bit 8 (le_word bs) OR ucast b"

definition to_le_bytes :: "'a::len word \<Rightarrow> bytes" where
  "to_le_bytes w = le_bytes (LENGTH('a) div 8) w"

definition to_be_bytes :: "'a::len word \<Rightarrow> bytes" where
  "to_be_bytes w = rev (to_le_bytes w)"

definition from_be_bytes :: "bytes \<Rightarrow> 'a::len word" where
  "from_be_bytes bs = le_word (rev bs)"

lemma length_le_bytes [simp]: "length (le_bytes n w) = n"
  by (induction n arbitrary: w) simp_all

lemma length_to_le_bytes [simp]: "length (to_le_bytes (w :: 'a::len word)) = LENGTH('a) div 8"
  by (simp add: to_le_bytes_def)

lemma length_to_be_bytes [simp]: "length (to_be_bytes (w :: 'a::len word)) = LENGTH('a) div 8"
  by (simp add: to_be_bytes_def)

lemma bit_u8_bound: "bit (b :: u8) n \<Longrightarrow> n < 8"
  using bit_imp_le_length [of b n] by simp

lemma bit_le_word_bound: "bit (le_word bs) n \<Longrightarrow> n < 8 * length bs"
proof (induction bs arbitrary: n)
  case (Cons b bs)
  then show ?case
    by (auto simp: bit_simps dest!: bit_u8_bound Cons.IH)
qed simp

lemma le_word_le_bytes: "(le_word (le_bytes n w) :: 'a word) = take_bit (8 * n) (w :: 'a::len word)"
proof (induction n arbitrary: w)
  case (Suc n)
  show ?case
  proof (rule bit_eqI)
    fix i
    assume "possible_bit TYPE('a word) i"
    then have "i < LENGTH('a)" by simp
    then show "bit (le_word (le_bytes (Suc n) w) :: 'a word) i = bit (take_bit (8 * Suc n) w) i"
      by (cases "i < 8") (auto simp: Suc.IH bit_simps)
  qed
qed simp

lemma le_bytes_le_word:
  "8 * length bs \<le> LENGTH('a) \<Longrightarrow> le_bytes (length bs) (le_word bs :: 'a::len word) = bs"
proof (induction bs)
  case (Cons b bs)
  have low: "(ucast (push_bit 8 (le_word bs) OR ucast b :: 'a word) :: u8) = b"
    by (rule bit_eqI) (use Cons.prems in \<open>auto simp: bit_simps\<close>)
  have "drop_bit 8 (push_bit 8 (le_word bs) OR ucast b :: 'a word) = le_word bs"
    by (rule bit_eqI) (use Cons.prems in \<open>auto simp: bit_simps dest: bit_u8_bound bit_le_word_bound\<close>)
  with Cons low show ?case by simp
qed simp

lemma le_word_to_le_bytes [simp]:
  "LENGTH('a) mod 8 = 0 \<Longrightarrow> le_word (to_le_bytes w) = (w :: 'a::len word)"
  by (simp add: to_le_bytes_def le_word_le_bytes mult.commute [of 8] minus_mod_eq_div_mult [symmetric])

lemma from_be_to_be_bytes [simp]:
  "LENGTH('a) mod 8 = 0 \<Longrightarrow> from_be_bytes (to_be_bytes w) = (w :: 'a::len word)"
  by (simp add: from_be_bytes_def to_be_bytes_def)

lemma to_be_from_be_bytes:
  "8 * length bs = LENGTH('a) \<Longrightarrow> to_be_bytes (from_be_bytes bs :: 'a::len word) = bs"
proof -
  assume len: "8 * length bs = LENGTH('a)"
  then have "LENGTH('a) div 8 = length bs" by (metis nonzero_mult_div_cancel_left zero_neq_numeral)
  then show ?thesis
    using le_bytes_le_word [of "rev bs", where ?'a = 'a] len
    by (simp add: from_be_bytes_def to_be_bytes_def to_le_bytes_def)
qed


section \<open>Message types and flags\<close>

datatype message_type = Tell | Ask | Response

fun message_type_u8 :: "message_type \<Rightarrow> u8" where
  "message_type_u8 Tell = 0"
| "message_type_u8 Ask = 1"
| "message_type_u8 Response = 2"

datatype invalid_message_type = InvalidMessageTypeByte u8

definition message_type_try_from :: "u8 \<Rightarrow> (message_type, invalid_message_type) result" where
  "message_type_try_from value =
    (if value = 0 then Ok Tell
     else if value = 1 then Ok Ask
     else if value = 2 then Ok Response
     else Err (InvalidMessageTypeByte value))"

text \<open>The bit flags; \<open>from_bits\<close> accepts a byte only when no other bit is set.\<close>

definition GENERIC_ACTOR :: u8 where "GENERIC_ACTOR = 1"
definition COMPRESSED :: u8 where "COMPRESSED = 2"
definition PRIORITY :: u8 where "PRIORITY = 4"
definition EXTENDED_HEADER :: u8 where "EXTENDED_HEADER = 8"

definition ALL_FLAGS :: u8 where
  "ALL_FLAGS = GENERIC_ACTOR OR COMPRESSED OR PRIORITY OR EXTENDED_HEADER"

definition flags_from_bits :: "u8 \<Rightarrow> u8 option" where
  "flags_from_bits b = (if b AND ALL_FLAGS = b then Some b else None)"

section \<open>The message header\<close>

record message_header =
  msg_type :: message_type
  correlation_id :: u16
  header_flags :: u8
  header_type_hash :: u32
  header_reserved :: u32

datatype message_header_error = InvalidSize | InvalidMessageType | InvalidFlags | HeaderIo

definition HEADER_SIZE :: nat where "HEADER_SIZE = 12"

definition new_header :: "message_type \<Rightarrow> u16 \<Rightarrow> type_hash \<Rightarrow> message_header" where
  "new_header ty cid h =
    \<lparr>msg_type = ty, correlation_id = cid, header_flags = EXTENDED_HEADER OR GENERIC_ACTOR,
     header_type_hash = as_u32 h, header_reserved = 0\<rparr>"

definition header_to_bytes :: "message_header \<Rightarrow> bytes" where
  "header_to_bytes h =
    [message_type_u8 (msg_type h)] @ to_be_bytes (correlation_id h) @ [header_flags h]
    @ to_be_bytes (header_type_hash h) @ to_be_bytes (header_reserved h)"

definition header_from_bytes :: "bytes \<Rightarrow> (message_header, message_header_error) result" where
  "header_from_bytes bs =
    (if length bs < HEADER_SIZE then Err InvalidSize
     else case message_type_try_from (bs ! 0) of
       Err _ \<Rightarrow> Err InvalidMessageType
     | Ok ty \<Rightarrow>
         (case flags_from_bits (bs ! 3) of
            None \<Rightarrow> Err InvalidFlags
          | Some flags \<Rightarrow>
              Ok \<lparr>msg_type = ty,
                  correlation_id = from_be_bytes [bs ! 1, bs ! 2],
                  header_flags = flags,
                  header_type_hash = from_be_bytes [bs ! 4, bs ! 5, bs ! 6, bs ! 7],
                  header_reserved = from_be_bytes [bs ! 8, bs ! 9, bs ! 10, bs ! 11]\<rparr>))"

text \<open>
  \<open>write_to\<close> appends to an in-memory writer; \<open>read_from\<close> takes exactly twelve bytes off a
  reader and leaves the rest, or fails with the reader's error.
\<close>

definition header_write_to :: "message_header \<Rightarrow> bytes \<Rightarrow> bytes" where
  "header_write_to h writer = writer @ header_to_bytes h"

definition header_read_from ::
  "bytes \<Rightarrow> (message_header, message_header_error) result \<times> bytes" where
  "header_read_from reader =
    (if length reader < HEADER_SIZE then (Err HeaderIo, [])
     else (header_from_bytes (take HEADER_SIZE reader), drop HEADER_SIZE reader))"

definition header_wf :: "message_header \<Rightarrow> bool" where
  "header_wf h = (flags_from_bits (header_flags h) \<noteq> None)"


section \<open>Actor identifiers\<close>

datatype actor_id = ActorId (sequence_id: u64)

text \<open>The derived order compares the sequence numbers.\<close>

instantiation actor_id :: linorder
begin

definition less_eq_actor_id :: "actor_id \<Rightarrow> actor_id \<Rightarrow> bool" where
  "less_eq_actor_id a b = (sequence_id a \<le> sequence_id b)"

definition less_actor_id :: "actor_id \<Rightarrow> actor_id \<Rightarrow> bool" where
  "less_actor_id a b = (sequence_id a < sequence_id b)"

instance
  by standard (auto simp: less_eq_actor_id_def less_actor_id_def actor_id.expand)

end

datatype actor_id_error = MissingSequenceID

definition new_actor_id :: "u64 \<Rightarrow> actor_id" where
  "new_actor_id n = ActorId n"

text \<open>
  \<open>ACTOR_COUNTER\<close> is the state: an atomic \<open>usize\<close> (64 bits wide) that \<open>fetch_add\<close>
  wraps around; the returned value always fits a \<open>u64\<close>.
\<close>

definition generate_actor_id :: "u64 \<Rightarrow> actor_id \<times> u64" where
  "generate_actor_id counter = (new_actor_id counter, counter + 1)"

fun generate_actor_ids :: "nat \<Rightarrow> u64 \<Rightarrow> actor_id list \<times> u64" where
  "generate_actor_ids 0 counter = ([], counter)"
| "generate_actor_ids (Suc n) counter =
    (let (i, counter) = generate_actor_id counter;
         (is, counter) = generate_actor_ids n counter
     in (i # is, counter))"

definition actor_id_into_u64 :: "actor_id \<Rightarrow> u64" where
  "actor_id_into_u64 i = sequence_id i"

definition actor_id_from_u64 :: "u64 \<Rightarrow> actor_id" where
  "actor_id_from_u64 n = new_actor_id n"

definition actor_id_to_bytes :: "actor_id \<Rightarrow> bytes" where
  "actor_id_to_bytes i = to_le_bytes (sequence_id i)"

definition actor_id_from_bytes :: "bytes \<Rightarrow> (actor_id, actor_id_error) result" where
  "actor_id_from_bytes bs =
    (if length bs < 8 then Err MissingSequenceID
     else Ok (ActorId (le_word (take 8 bs))))"


section \<open>Lemmas\<close>

lemma message_type_roundtrip [simp]: "message_type_try_from (message_type_u8 ty) = Ok ty"
  by (cases ty) (simp_all add: message_type_try_from_def)

lemma message_type_try_from_Ok: "message_type_try_from b = Ok ty \<longleftrightarrow> b = message_type_u8 ty"
  by (cases ty) (auto simp: message_type_try_from_def)

lemma message_type_try_from_Err: "message_type_try_from b = Err e \<Longrightarrow> message_type_u8 ty \<noteq> b"
  by (cases ty) (auto simp: message_type_try_from_def)

lemma message_type_u8_inj: "message_type_u8 a = message_type_u8 b \<longleftrightarrow> a = b"
  by (cases a; cases b) simp_all

lemma flags_from_bits_Some: "flags_from_bits b = Some f \<Longrightarrow> f = b"
  by (simp add: flags_from_bits_def split: if_splits)

lemma header_wf_iff: "header_wf h \<longleftrightarrow> flags_from_bits (header_flags h) = Some (header_flags h)"
  by (auto simp: header_wf_def dest: flags_from_bits_Some)

lemma length_header_to_bytes [simp]: "length (header_to_bytes h) = HEADER_SIZE"
  by (simp add: header_to_bytes_def HEADER_SIZE_def)

lemma list_of_length_2: "length xs = 2 \<Longrightarrow> xs = [xs ! 0, xs ! 1]"
  by (cases xs; cases "tl xs"; auto)

lemma list_of_length_4: "length xs = 4 \<Longrightarrow> xs = [xs ! 0, xs ! 1, xs ! 2, xs ! 3]"
  by (simp add: list_eq_iff_nth_eq numeral_eq_Suc less_Suc_eq)

lemma be_eq_2: "to_be_bytes (w :: u16) = [a, b] \<longleftrightarrow> w = from_be_bytes [a, b]"
proof -
  have "to_be_bytes (from_be_bytes [a, b] :: u16) = [a, b]" by (rule to_be_from_be_bytes) simp
  moreover have "from_be_bytes (to_be_bytes w) = w" by simp
  ultimately show ?thesis by metis
qed

lemma be_eq_4: "to_be_bytes (w :: u32) = [a, b, c, d] \<longleftrightarrow> w = from_be_bytes [a, b, c, d]"
proof -
  have "to_be_bytes (from_be_bytes [a, b, c, d] :: u32) = [a, b, c, d]"
    by (rule to_be_from_be_bytes) simp
  moreover have "from_be_bytes (to_be_bytes w) = w" by simp
  ultimately show ?thesis by metis
qed

text \<open>The first twelve bytes, one by one.\<close>

lemma take_12:
  assumes "12 \<le> length bs"
  shows "take 12 bs = [bs ! 0] @ [bs ! 1, bs ! 2] @ [bs ! 3] @ [bs ! 4, bs ! 5, bs ! 6, bs ! 7]
    @ [bs ! 8, bs ! 9, bs ! 10, bs ! 11]"
  using assms by (simp add: list_eq_iff_nth_eq numeral_eq_Suc less_Suc_eq)

lemma header_bytes_eq:
  assumes "12 \<le> length bs"
  shows "header_to_bytes h = take 12 bs \<longleftrightarrow>
    message_type_u8 (msg_type h) = bs ! 0 \<and> correlation_id h = from_be_bytes [bs ! 1, bs ! 2]
    \<and> header_flags h = bs ! 3
    \<and> header_type_hash h = from_be_bytes [bs ! 4, bs ! 5, bs ! 6, bs ! 7]
    \<and> header_reserved h = from_be_bytes [bs ! 8, bs ! 9, bs ! 10, bs ! 11]"
  unfolding take_12 [OF assms] header_to_bytes_def
  by (subst append_eq_append_conv, simp)+ (simp add: be_eq_2 be_eq_4)

lemma header_from_bytes_char:
  "header_from_bytes bs = Ok h \<longleftrightarrow>
    12 \<le> length bs \<and> header_wf h \<and> header_to_bytes h = take 12 bs"
proof (cases "12 \<le> length bs")
  case True
  show ?thesis
    unfolding header_bytes_eq [OF True]
    using True
    by (cases h)
      (auto simp: header_from_bytes_def HEADER_SIZE_def header_wf_iff message_type_try_from_Ok
        message_type_u8_inj dest: message_type_try_from_Err flags_from_bits_Some split: result.splits option.splits)
qed (simp add: header_from_bytes_def HEADER_SIZE_def)

lemma generate_actor_ids_seq:
  "generate_actor_ids n c = (map (\<lambda>k. new_actor_id (c + of_nat k)) [0..<n], c + of_nat n)"
proof (induction n arbitrary: c)
  case (Suc n)
  have "[0..<Suc n] = 0 # map Suc [0..<n]"
    by (simp add: map_Suc_upt upt_conv_Cons del: upt_Suc)
  then show ?case
    by (simp add: Suc.IH generate_actor_id_def o_def add.assoc del: upt_Suc)
qed simp


section \<open>Properties\<close>

text \<open>Repeated reads from one reader.\<close>

fun read_headers ::
  "nat \<Rightarrow> bytes \<Rightarrow> (message_header, message_header_error) result list \<times> bytes" where
  "read_headers 0 reader = ([], reader)"
| "read_headers (Suc n) reader =
    (let (r, reader) = header_read_from reader; (rs, reader) = read_headers n reader
     in (r # rs, reader))"

interpretation header_codec: stream_codec header_to_bytes header_from_bytes HEADER_SIZE header_wf
  header_read_from read_headers
  by unfold_locales (simp_all add: header_from_bytes_char HEADER_SIZE_def header_read_from_def)

text \<open>
  C40. The header decoder is the exact inverse of the encoder on well-formed headers: it accepts
  a byte string with a header as its result if and only if the header's flags are known and its
  twelve encoded bytes are a prefix of the string. So encoding and decoding round-trip in both
  directions and no two byte prefixes decode to one header.
\<close>

theorem header_codec_exact:
  "header_from_bytes bs = Ok h \<longleftrightarrow> header_wf h \<and> (\<exists>rest. bs = header_to_bytes h @ rest)"
  by (rule header_codec.dec_iff)

text \<open>
  Which error the header decoder reports: a short input is \<open>InvalidSize\<close> whatever its
  bytes, then the type byte is checked before the flags byte, and nothing else fails.
\<close>

theorem header_decode_errors:
  "header_from_bytes bs = Err e \<longleftrightarrow>
    (if length bs < 12 then e = InvalidSize
     else if bs ! 0 \<notin> {0, 1, 2} then e = InvalidMessageType
     else e = InvalidFlags \<and> bs ! 3 AND NOT ALL_FLAGS \<noteq> 0)"
proof -
  have flags: "flags_from_bits b = None \<longleftrightarrow> b AND NOT ALL_FLAGS \<noteq> 0" for b
  proof -
    have "b AND ALL_FLAGS = b \<longleftrightarrow> b AND NOT ALL_FLAGS = 0"
      by (auto simp: bit_eq_iff bit_simps)
    then show ?thesis by (simp add: flags_from_bits_def)
  qed
  show ?thesis
    using flags [of "bs ! 3"]
    by (auto simp: header_from_bytes_def HEADER_SIZE_def message_type_try_from_def split: option.splits)
qed

text \<open>
  Reading a stream of written headers: headers written one after the other are read back in
  the same order, whatever follows them.
\<close>

theorem header_stream_roundtrip:
  assumes "\<forall>h \<in> set hs. header_wf h"
  shows "read_headers (length hs) (foldl (\<lambda>w h. header_write_to h w) [] hs @ rest) = (map Ok hs, rest)"
proof -
  have writes: "foldl (\<lambda>w h. header_write_to h w) w hs = w @ concat (map header_to_bytes hs)" for w
    by (induction hs arbitrary: w) (simp_all add: header_write_to_def)
  then show ?thesis using header_codec.read_all_enc [OF assms] by simp
qed

theorem header_stream_roundtrip_witness:
  "read_headers 2 (header_write_to (new_header Response 9 (TypeHash 5))
      (header_write_to (new_header Ask 7 (TypeHash 0x100000002)) []) @ [255])
    = ([Ok (new_header Ask 7 (TypeHash 0x100000002)), Ok (new_header Response 9 (TypeHash 5))], [255])"
proof -
  have wf: "header_wf (new_header ty c h)" for ty c h
    by (simp add: header_wf_def new_header_def flags_from_bits_def ALL_FLAGS_def GENERIC_ACTOR_def
        COMPRESSED_def PRIORITY_def EXTENDED_HEADER_def)
  show ?thesis
    using header_stream_roundtrip
      [of "[new_header Ask 7 (TypeHash 0x100000002), new_header Response 9 (TypeHash 5)]" "[255]"]
    by (simp add: wf numeral_2_eq_2)
qed

lemma actor_id_to_bytes_eq:
  "8 \<le> length bs \<Longrightarrow> actor_id_to_bytes i = take 8 bs \<longleftrightarrow> sequence_id i = le_word (take 8 bs)"
proof -
  assume "8 \<le> length bs"
  then have "to_le_bytes (le_word (take 8 bs) :: u64) = take 8 bs"
    using le_bytes_le_word [of "take 8 bs", where ?'a = 64] by (simp add: to_le_bytes_def)
  moreover have "le_word (to_le_bytes (sequence_id i)) = sequence_id i" by simp
  ultimately show ?thesis unfolding actor_id_to_bytes_def by metis
qed

interpretation id_codec: byte_codec actor_id_to_bytes actor_id_from_bytes 8 "\<lambda>_. True"
proof unfold_locales
  fix bs i
  show "actor_id_from_bytes bs = Ok i \<longleftrightarrow> 8 \<le> length bs \<and> True \<and> actor_id_to_bytes i = take 8 bs"
    by (cases i) (auto simp: actor_id_from_bytes_def actor_id_to_bytes_eq)
qed (simp add: actor_id_to_bytes_def)

text \<open>
  Actor identifiers round-trip through their bytes: decoding succeeds exactly on the byte
  strings that start with the eight little-endian bytes of the identifier, and the only failure is
  a string of fewer than eight bytes.
\<close>

theorem actor_id_codec_exact:
  "(actor_id_from_bytes bs = Ok i \<longleftrightarrow> (\<exists>rest. bs = actor_id_to_bytes i @ rest)) \<and>
   (actor_id_from_bytes bs = Err e \<longleftrightarrow> length bs < 8)"
  using id_codec.dec_iff [of bs i] by (cases e) (simp add: actor_id_from_bytes_def)

text \<open>
  Generated identifiers are pairwise different for as long as the counter has not gone all
  the way round its 64 bits, and count up from where it stood.
\<close>

theorem generated_ids_distinct:
  assumes "n \<le> 2 ^ 64"
  shows "distinct (fst (generate_actor_ids n c)) \<and>
    snd (generate_actor_ids n c) = c + of_nat n"
proof -
  have "inj_on (\<lambda>k. new_actor_id (c + of_nat k)) {0..<n}"
  proof (rule inj_onI)
    fix x y
    assume "x \<in> {0..<n}" "y \<in> {0..<n}" and eq: "new_actor_id (c + of_nat x) = new_actor_id (c + of_nat y)"
    then have "x < 2 ^ 64" "y < 2 ^ 64" using assms by auto
    moreover have "(of_nat x :: u64) = of_nat y" using eq by (simp add: new_actor_id_def)
    ultimately show "x = y" by (simp add: word_of_nat_eq_iff take_bit_nat_eq_self)
  qed
  then show ?thesis
    by (simp add: generate_actor_ids_seq distinct_map)
qed

theorem generated_ids_distinct_witness:
  "fst (generate_actor_ids 2 (-1)) = [new_actor_id (-1), new_actor_id 0] \<and>
   distinct (fst (generate_actor_ids 2 (-1)))"
proof -
  have "fst (generate_actor_ids 2 (-1)) = [new_actor_id (-1), new_actor_id 0]"
    by (simp add: numeral_2_eq_2 generate_actor_id_def)
  moreover have "distinct (fst (generate_actor_ids 2 (-1)))"
    using generated_ids_distinct [of 2 "-1"] by simp
  ultimately show ?thesis by blast
qed

end
