(* ===== verification/Exactly_Once.thy ===== *)
theory Exactly_Once
  imports Type_Hash
begin

unbundle bit_operations_syntax

text \<open>
  The exactly-once helpers (\<open>src/remote/exactly_once.rs\<close>): request identifiers, payload
  fingerprints and the two dedup caches. A cache is its capacity, the FIFO order of its
  identifiers and the cached replies. The future that computes a reply is a state transformer
  on an environment; it may also unwind or be dropped, which is \<open>Panicked\<close>. The contract both
  caches share is the locale \<open>dedup_cache\<close>, over the list of cached entries, oldest first.
\<close>

section \<open>Requests and fingerprints\<close>

datatype request_id = RequestId u128

primrec request_u128 :: "request_id \<Rightarrow> u128" where
  "request_u128 (RequestId v) = v"

definition request_id_from_u128 :: "u128 \<Rightarrow> request_id" where
  "request_id_from_u128 v = RequestId v"

text \<open>
  \<open>RequestId::next\<close>: the clock's microseconds (a \<open>u128\<close>, truncated) above a random nonce.
\<close>

definition next_request_id :: "u128 \<Rightarrow> u64 \<Rightarrow> request_id" where
  "next_request_id micros nonce =
    (let now = (ucast micros :: u64) in RequestId (push_bit 64 (ucast now) OR ucast nonce))"

record 'm exactly_once =
  eo_request_id :: request_id
  eo_message :: 'm

text \<open>The bytes of the literal \<open>b"ExactlyOnce"\<close>.\<close>

definition EXACTLY_ONCE_NAME :: bytes where
  "EXACTLY_ONCE_NAME = [69, 120, 97, 99, 116, 108, 121, 79, 110, 99, 101]"

definition exactly_once_type_hash :: "type_hash \<Rightarrow> type_hash" where
  "exactly_once_type_hash message_hash = combine_hash (from_bytes_hash EXACTLY_ONCE_NAME) message_hash"

text \<open>A fingerprint is what \<open>blake3::hash\<close> gives for the payload; the hash is an argument.\<close>

datatype fingerprint = PayloadFingerprint bytes

definition fingerprint_from_bytes :: "(bytes \<Rightarrow> bytes) \<Rightarrow> bytes \<Rightarrow> fingerprint" where
  "fingerprint_from_bytes blake3 bs = PayloadFingerprint (blake3 bs)"

datatype exactly_once_error = PayloadMismatch


section \<open>The cache of typed replies\<close>

record 'r dedup =
  dd_capacity :: nat
  dd_order :: "request_id list"
  dd_cached :: "(request_id, fingerprint option \<times> 'r) hash_map"

definition dedup_new :: "nat \<Rightarrow> 'r dedup" where
  "dedup_new capacity = \<lparr>dd_capacity = max capacity 1, dd_order = [], dd_cached = []\<rparr>"

definition dedup_insert ::
  "request_id \<Rightarrow> fingerprint option \<Rightarrow> 'r \<Rightarrow> 'r dedup \<Rightarrow> 'r dedup" where
  "dedup_insert i fp v d =
    (if hm_contains (dd_cached d) i then d
     else
       let d = (if length (dd_cached d) \<ge> dd_capacity d
                then (case dd_order d of
                        [] \<Rightarrow> d
                      | evicted # order \<Rightarrow>
                          d\<lparr>dd_order := order, dd_cached := hm_remove evicted (dd_cached d)\<rparr>)
                else d)
       in d\<lparr>dd_order := dd_order d @ [i], dd_cached := hm_insert i (fp, v) (dd_cached d)\<rparr>)"

text \<open>
  \<open>clone\<close> is the reply type's \<open>Clone\<close>, which can unwind; \<open>f\<close> is the closure, called at
  most once. Both act on the environment \<open>s\<close>.
\<close>

definition dedup_resolve ::
  "('r \<Rightarrow> 's \<Rightarrow> 'r outcome \<times> 's) \<Rightarrow> 'r dedup \<Rightarrow> request_id \<Rightarrow> ('s \<Rightarrow> 'r outcome \<times> 's) \<Rightarrow> 's
    \<Rightarrow> 'r outcome \<times> 'r dedup \<times> 's" where
  "dedup_resolve clone d i f s =
    (case hm_get (dd_cached d) i of
       Some (_, v) \<Rightarrow> (let (r, s) = clone v s in (r, d, s))
     | None \<Rightarrow>
         (case f s of
            (Panicked, s) \<Rightarrow> (Panicked, d, s)
          | (Done v, s) \<Rightarrow>
              (let d = dedup_insert i None v d
               in case hm_get (dd_cached d) i of
                    None \<Rightarrow> (Panicked, d, s)
                  | Some (_, v) \<Rightarrow> (let (r, s) = clone v s in (r, d, s)))))"

definition dedup_resolve_checked ::
  "('r \<Rightarrow> 's \<Rightarrow> 'r outcome \<times> 's) \<Rightarrow> 'r dedup \<Rightarrow> request_id \<Rightarrow> fingerprint \<Rightarrow> ('s \<Rightarrow> 'r outcome \<times> 's)
    \<Rightarrow> 's \<Rightarrow> ('r, exactly_once_error) result outcome \<times> 'r dedup \<times> 's" where
  "dedup_resolve_checked clone d i fp f s =
    (case hm_get (dd_cached d) i of
       Some (existing, v) \<Rightarrow>
         (case existing of
            Some existing_fp \<Rightarrow>
              (if existing_fp = fp then (let (r, s) = clone v s in (map_outcome Ok r, d, s))
               else (Done (Err PayloadMismatch), d, s))
          | None \<Rightarrow> (Done (Err PayloadMismatch), d, s))
     | None \<Rightarrow>
         (case f s of
            (Panicked, s) \<Rightarrow> (Panicked, d, s)
          | (Done v, s) \<Rightarrow>
              (let d = dedup_insert i (Some fp) v d
               in case hm_get (dd_cached d) i of
                    None \<Rightarrow> (Panicked, d, s)
                  | Some (_, v) \<Rightarrow> (let (r, s) = clone v s in (map_outcome Ok r, d, s)))))"


section \<open>The cache of replies in \<open>Bytes\<close>\<close>

text \<open>\<open>Bytes::clone\<close> shares the buffer and does not unwind, so there is no clone argument.\<close>

record bytes_dedup =
  bd_capacity :: nat
  bd_order :: "request_id list"
  bd_cached :: "(request_id, fingerprint option \<times> bytes) hash_map"

definition bytes_dedup_new :: "nat \<Rightarrow> bytes_dedup" where
  "bytes_dedup_new capacity = \<lparr>bd_capacity = max capacity 1, bd_order = [], bd_cached = []\<rparr>"

definition bytes_dedup_insert ::
  "request_id \<Rightarrow> fingerprint option \<Rightarrow> bytes \<Rightarrow> bytes_dedup \<Rightarrow> bytes_dedup" where
  "bytes_dedup_insert i fp v d =
    (if hm_contains (bd_cached d) i then d
     else
       let d = (if length (bd_cached d) \<ge> bd_capacity d
                then (case bd_order d of
                        [] \<Rightarrow> d
                      | evicted # order \<Rightarrow>
                          d\<lparr>bd_order := order, bd_cached := hm_remove evicted (bd_cached d)\<rparr>)
                else d)
       in d\<lparr>bd_order := bd_order d @ [i], bd_cached := hm_insert i (fp, v) (bd_cached d)\<rparr>)"

definition bytes_dedup_resolve ::
  "bytes_dedup \<Rightarrow> request_id \<Rightarrow> ('s \<Rightarrow> bytes outcome \<times> 's) \<Rightarrow> 's
    \<Rightarrow> bytes outcome \<times> bytes_dedup \<times> 's" where
  "bytes_dedup_resolve d i f s =
    (case hm_get (bd_cached d) i of
       Some (_, v) \<Rightarrow> (Done v, d, s)
     | None \<Rightarrow>
         (case f s of
            (Panicked, s) \<Rightarrow> (Panicked, d, s)
          | (Done v, s) \<Rightarrow>
              (let d = bytes_dedup_insert i None v d
               in case hm_get (bd_cached d) i of
                    None \<Rightarrow> (Panicked, d, s)
                  | Some (_, v) \<Rightarrow> (Done v, d, s))))"

definition bytes_dedup_resolve_checked ::
  "bytes_dedup \<Rightarrow> request_id \<Rightarrow> fingerprint \<Rightarrow> ('s \<Rightarrow> bytes outcome \<times> 's)
    \<Rightarrow> 's \<Rightarrow> (bytes, exactly_once_error) result outcome \<times> bytes_dedup \<times> 's" where
  "bytes_dedup_resolve_checked d i fp f s =
    (case hm_get (bd_cached d) i of
       Some (existing, v) \<Rightarrow>
         (case existing of
            Some existing_fp \<Rightarrow>
              (if existing_fp = fp then (Done (Ok v), d, s) else (Done (Err PayloadMismatch), d, s))
          | None \<Rightarrow> (Done (Err PayloadMismatch), d, s))
     | None \<Rightarrow>
         (case f s of
            (Panicked, s) \<Rightarrow> (Panicked, d, s)
          | (Done v, s) \<Rightarrow>
              (let d = bytes_dedup_insert i (Some fp) v d
               in case hm_get (bd_cached d) i of
                    None \<Rightarrow> (Panicked, d, s)
                  | Some (_, v) \<Rightarrow> (Done (Ok v), d, s))))"


section \<open>The contract of a dedup cache\<close>

text \<open>
  The abstract cache: a queue of entries, oldest first, into which a new identifier is pushed at
  the back, dropping the front when the queue is full.
\<close>

type_synonym 'r dedup_entry = "request_id \<times> fingerprint option \<times> 'r"

definition fifo_push :: "nat \<Rightarrow> 'r dedup_entry list \<Rightarrow> 'r dedup_entry \<Rightarrow> 'r dedup_entry list" where
  "fifo_push cap es e =
    (if fst e \<in> fst ` set es then es else (if length es \<ge> cap then tl es else es) @ [e])"

text \<open>
  A client that issues requests one after the other. The computation of each request returns its
  own value and records its identifier in the log, so the log shows what was executed.
\<close>

fun run_requests ::
  "('c \<Rightarrow> request_id \<Rightarrow> (request_id list \<Rightarrow> 'r outcome \<times> request_id list) \<Rightarrow> request_id list
     \<Rightarrow> 'r outcome \<times> 'c \<times> request_id list)
   \<Rightarrow> 'c \<Rightarrow> (request_id \<times> 'r) list \<Rightarrow> request_id list \<Rightarrow> 'r outcome list \<times> 'c \<times> request_id list" where
  "run_requests res c [] log = ([], c, log)"
| "run_requests res c ((i, v) # reqs) log =
    (let (r, c, log) = res c i (\<lambda>l. (Done v, l @ [i])) log;
         (rs, c, log) = run_requests res c reqs log
     in (r # rs, c, log))"

lemma map_of_snoc_fresh: "i \<notin> fst ` set xs \<Longrightarrow> map_of (xs @ [(i, e)]) i = Some e"
  by (induction xs) auto

lemma map_of_entry_values:
  "map_of (map (\<lambda>(j, fp, w). (j, w)) es) j = map_option snd (map_of es j)"
  by (induction es) auto

locale dedup_cache =
  fixes resolve :: "'c \<Rightarrow> request_id \<Rightarrow> (request_id list \<Rightarrow> 'r outcome \<times> request_id list)
      \<Rightarrow> request_id list \<Rightarrow> 'r outcome \<times> 'c \<times> request_id list"
    and resolve_checked :: "'c \<Rightarrow> request_id \<Rightarrow> fingerprint
      \<Rightarrow> (request_id list \<Rightarrow> 'r outcome \<times> request_id list) \<Rightarrow> request_id list
      \<Rightarrow> ('r, exactly_once_error) result outcome \<times> 'c \<times> request_id list"
    and store :: "request_id \<Rightarrow> fingerprint option \<Rightarrow> 'r \<Rightarrow> 'c \<Rightarrow> 'c"
    and entries :: "'c \<Rightarrow> 'r dedup_entry list"
    and cap :: "'c \<Rightarrow> nat"
    and inv :: "'c \<Rightarrow> bool"
  assumes cap_pos: "inv c \<Longrightarrow> 0 < cap c"
    and bounded: "inv c \<Longrightarrow> length (entries c) \<le> cap c"
    and distinct_ids: "inv c \<Longrightarrow> distinct (map fst (entries c))"
    and store_inv: "inv c \<Longrightarrow> inv (store i fp v c)"
    and store_cap: "cap (store i fp v c) = cap c"
    and store_entries: "inv c \<Longrightarrow> entries (store i fp v c) = fifo_push (cap c) (entries c) (i, fp, v)"
    and resolve_hit: "inv c \<Longrightarrow> map_of (entries c) i = Some (fp, v) \<Longrightarrow> resolve c i f s = (Done v, c, s)"
    and resolve_miss: "inv c \<Longrightarrow> map_of (entries c) i = None \<Longrightarrow>
      resolve c i f s =
        (case f s of (Panicked, s') \<Rightarrow> (Panicked, c, s') | (Done v, s') \<Rightarrow> (Done v, store i None v c, s'))"
    and checked_hit: "inv c \<Longrightarrow> map_of (entries c) i = Some (e, v) \<Longrightarrow>
      resolve_checked c i q f s =
        (Done (if e = Some q then Ok v else Err PayloadMismatch), c, s)"
    and checked_miss: "inv c \<Longrightarrow> map_of (entries c) i = None \<Longrightarrow>
      resolve_checked c i q f s =
        (case f s of (Panicked, s') \<Rightarrow> (Panicked, c, s')
         | (Done v, s') \<Rightarrow> (Done (Ok v), store i (Some q) v c, s'))"
begin

lemma map_of_store_same:
  assumes "inv c" and "map_of (entries c) i = None"
  shows "map_of (entries (store i fp v c)) i = Some (fp, v)"
proof -
  have "i \<notin> fst ` set (entries c)" using assms(2) by (simp add: map_of_eq_None_iff)
  moreover then have "i \<notin> fst ` set (tl (entries c))"
    by (cases "entries c") auto
  ultimately show ?thesis
    using assms(1) by (simp add: store_entries fifo_push_def map_of_snoc_fresh del: map_of_append)
qed

lemma resolve_inv: "inv c \<Longrightarrow> resolve c i f s = (r, c', s') \<Longrightarrow> inv c' \<and> cap c' = cap c"
  by (cases "map_of (entries c) i")
    (auto simp: resolve_miss resolve_hit store_inv store_cap split: prod.splits outcome.splits)

lemma replay:
  assumes "inv c" and "resolve c i f s = (Done v, c', s')"
  shows "resolve c' i g t = (Done v, c', t)"
proof (cases "map_of (entries c) i")
  case None
  then have "c' = store i None v c"
    using assms by (auto simp: resolve_miss split: prod.splits outcome.splits)
  then show ?thesis
    using map_of_store_same [OF assms(1) None] assms(1) by (auto simp: store_inv intro: resolve_hit)
next
  case (Some e)
  obtain fp w where "e = (fp, w)" by force
  then show ?thesis using assms Some by (auto simp: resolve_hit)
qed

text \<open>While the identifiers fit the capacity nothing is evicted: a store appends.\<close>

lemma store_appends:
  assumes "inv c" "map_of (entries c) i = None" "finite K" "insert i (fst ` set (entries c)) \<subseteq> K"
    "card K \<le> cap c"
  shows "entries (store i fp v c) = entries c @ [(i, fp, v)]"
proof -
  have fresh: "i \<notin> fst ` set (entries c)" using assms(2) by (simp add: map_of_eq_None_iff)
  have "length (entries c) = card (fst ` set (entries c))"
    using distinct_card [OF distinct_ids [OF assms(1)]] by simp
  then have "Suc (length (entries c)) = card (insert i (fst ` set (entries c)))"
    using fresh by simp
  also have "\<dots> \<le> cap c" using assms by (meson card_mono le_trans)
  finally show ?thesis using fresh assms(1) by (simp add: store_entries fifo_push_def)
qed

theorem run_at_most_once:
  assumes "inv c" "finite K" "fst ` set (entries c) \<union> fst ` set reqs \<subseteq> K" "card K \<le> cap c"
  shows "\<exists>new. snd (snd (run_requests resolve c reqs log)) = log @ new \<and> distinct new
    \<and> set new = fst ` set reqs - fst ` set (entries c)"
  using assms
proof (induction reqs arbitrary: c log)
  case (Cons req reqs)
  obtain i v where req: "req = (i, v)" by force
  show ?case
  proof (cases "map_of (entries c) i")
    case None
    define c' where "c' = store i None v c"
    have entries: "entries c' = entries c @ [(i, None, v)]"
      unfolding c'_def by (rule store_appends [OF Cons.prems(1) None Cons.prems(2) _ Cons.prems(4)])
        (use Cons.prems(3) in \<open>auto simp: req\<close>)
    have "inv c'" "cap c' = cap c" using Cons.prems by (simp_all add: c'_def store_inv store_cap)
    then obtain new where new: "snd (snd (run_requests resolve c' reqs (log @ [i]))) = (log @ [i]) @ new"
      "distinct new" "set new = fst ` set reqs - fst ` set (entries c')"
      using Cons.IH [of c' "log @ [i]"] Cons.prems by (auto simp: entries req)
    have "i \<notin> fst ` set (entries c)" using None by (simp add: map_of_eq_None_iff)
    then show ?thesis
      using new resolve_miss [OF Cons.prems(1) None] 
      by (intro exI [of _ "i # new"]) (auto simp: req entries c'_def [symmetric] split: prod.splits)
  next
    case (Some e)
    then have "i \<in> fst ` set (entries c)" by (metis domI dom_map_of_conv_image_fst)
    then show ?thesis
      using Cons.IH [of c log] Cons.prems Some resolve_hit [OF Cons.prems(1)]
      by (cases e) (auto simp: req split: prod.splits)
  qed
qed simp

text \<open>Every request is answered with the value of the first request that has its identifier.\<close>

theorem run_first_reply:
  assumes "inv c" "finite K" "fst ` set (entries c) \<union> fst ` set reqs \<subseteq> K" "card K \<le> cap c"
  shows "fst (run_requests resolve c reqs log) =
    map (\<lambda>(i, v). Done (the (map_of (map (\<lambda>(j, fp, w). (j, w)) (entries c) @ reqs) i))) reqs"
  using assms
proof (induction reqs arbitrary: c log)
  case (Cons req reqs)
  obtain i v where req: "req = (i, v)" by force
  let ?vals = "\<lambda>c. map (\<lambda>(j, fp, w). (j, w)) (entries c)"
  have vals: "map_of (?vals c) j = map_option snd (map_of (entries c) j)" for c j
    by (rule map_of_entry_values)
  show ?case
  proof (cases "map_of (entries c) i")
    case None
    define c' where "c' = store i None v c"
    have entries: "entries c' = entries c @ [(i, None, v)]"
      unfolding c'_def by (rule store_appends [OF Cons.prems(1) None Cons.prems(2) _ Cons.prems(4)])
        (use Cons.prems(3) in \<open>auto simp: req\<close>)
    have "inv c'" "cap c' = cap c" using Cons.prems by (simp_all add: c'_def store_inv store_cap)
    then have "fst (run_requests resolve c' reqs (log @ [i])) =
        map (\<lambda>(j, w). Done (the (map_of (?vals c' @ reqs) j))) reqs"
      using Cons.IH [of c' "log @ [i]"] Cons.prems by (auto simp: entries req)
    then show ?thesis
      using resolve_miss [OF Cons.prems(1) None] vals [of c i] None
      by (auto simp: req entries c'_def [symmetric] map_add_def split: prod.splits)
  next
    case (Some e)
    obtain fp w where e: "e = (fp, w)" by force
    have "fst (run_requests resolve c reqs log) =
        map (\<lambda>(j, w). Done (the (map_of (?vals c @ reqs) j))) reqs"
      using Cons.IH [of c log] Cons.prems by (auto simp: req)
    moreover have "map_of (?vals c @ reqs) j = map_of (?vals c @ req # reqs) j" for j
      using vals [of c i] Some by (auto simp: req e map_add_def split: option.splits)
    ultimately show ?thesis
      using resolve_hit [OF Cons.prems(1) Some [unfolded e]] vals [of c i] Some e
      by (auto simp: req map_add_def split: prod.splits)
  qed
qed simp

end


section \<open>The two caches implement the contract\<close>

definition dedup_inv :: "'r dedup \<Rightarrow> bool" where
  "dedup_inv d \<longleftrightarrow> 0 < dd_capacity d \<and> hm_wf (dd_cached d) \<and> distinct (dd_order d)
    \<and> set (dd_order d) = set (hm_keys (dd_cached d)) \<and> length (dd_order d) \<le> dd_capacity d"

definition dedup_entries :: "'r dedup \<Rightarrow> 'r dedup_entry list" where
  "dedup_entries d = map (\<lambda>i. (i, the (hm_get (dd_cached d) i))) (dd_order d)"

text \<open>Both caches have one shape; the byte cache is the typed one at replies in \<open>Bytes\<close>.\<close>

definition as_dedup :: "bytes_dedup \<Rightarrow> bytes dedup" where
  "as_dedup d = \<lparr>dd_capacity = bd_capacity d, dd_order = bd_order d, dd_cached = bd_cached d\<rparr>"

definition pure_clone :: "'r \<Rightarrow> 's \<Rightarrow> 'r outcome \<times> 's" where
  "pure_clone v s = (Done v, s)"

lemma as_dedup_simps [simp]:
  "dd_capacity (as_dedup d) = bd_capacity d" "dd_order (as_dedup d) = bd_order d"
  "dd_cached (as_dedup d) = bd_cached d"
  by (simp_all add: as_dedup_def)

lemma as_dedup_insert: "as_dedup (bytes_dedup_insert i fp v d) = dedup_insert i fp v (as_dedup d)"
  by (simp add: dedup_insert_def bytes_dedup_insert_def Let_def as_dedup_def split: list.split)

lemma bytes_cached_insert:
  "bd_cached (bytes_dedup_insert i fp v d) = dd_cached (dedup_insert i fp v (as_dedup d))"
  by (metis as_dedup_insert as_dedup_simps(3))

lemma entry_keys [simp]: "map fst (dedup_entries d) = dd_order d" "fst ` set (dedup_entries d) = set (dd_order d)"
  by (simp_all add: dedup_entries_def o_def image_image)

lemma length_dedup_entries [simp]: "length (dedup_entries d) = length (dd_order d)"
  by (simp add: dedup_entries_def)

lemma map_of_dedup_entries:
  assumes "dedup_inv d"
  shows "map_of (dedup_entries d) i = hm_get (dd_cached d) i"
proof -
  have "map_of (dedup_entries d) i = (if i \<in> set (dd_order d) then Some (the (hm_get (dd_cached d) i)) else None)"
    by (simp add: dedup_entries_def map_of_map_restrict restrict_map_def)
  then show ?thesis
    using assms by (cases "hm_get (dd_cached d) i") (auto simp: dedup_inv_def set_hm_keys)
qed

lemma dedup_new_inv: "dedup_inv (dedup_new n)"
  by (simp add: dedup_inv_def dedup_new_def)

lemma dedup_new_cap: "dd_capacity (dedup_new n) = max n 1" "dedup_entries (dedup_new n) = []"
  by (simp_all add: dedup_new_def dedup_entries_def)

lemma dedup_length_cached: "dedup_inv d \<Longrightarrow> length (dd_cached d) = length (dd_order d)"
  by (metis dedup_inv_def distinct_card hm_length_card)

lemma dedup_insert_cap [simp]: "dd_capacity (dedup_insert i fp v d) = dd_capacity d"
  by (simp add: dedup_insert_def Let_def split: list.split)

text \<open>An insert of a new identifier, with the eviction made explicit.\<close>

lemma dedup_insert_fresh:
  assumes "dedup_inv d" and "i \<notin> set (dd_order d)"
  shows "dedup_insert i fp v d =
    (let full = dd_capacity d \<le> length (dd_order d);
         order = (if full then tl (dd_order d) else dd_order d);
         cached = (if full then hm_remove (hd (dd_order d)) (dd_cached d) else dd_cached d)
     in d\<lparr>dd_order := order @ [i], dd_cached := hm_insert i (fp, v) cached\<rparr>)"
proof -
  have "\<not> hm_contains (dd_cached d) i"
    using assms by (simp add: dedup_inv_def)
  moreover have "dd_order d \<noteq> []" if "dd_capacity d \<le> length (dd_order d)"
    using assms(1) that by (auto simp: dedup_inv_def)
  ultimately show ?thesis
    using dedup_length_cached [OF assms(1)]
    by (cases "dd_order d") (auto simp: dedup_insert_def Let_def)
qed

lemma dedup_insert_inv: "dedup_inv d \<Longrightarrow> dedup_inv (dedup_insert i fp v d)"
proof (cases "i \<in> set (dd_order d)")
  case True
  assume "dedup_inv d"
  with True show ?thesis by (simp add: dedup_insert_def dedup_inv_def)
next
  case False
  assume inv: "dedup_inv d"
  with False show ?thesis
    by (cases "dd_order d")
      (auto simp: dedup_insert_fresh [OF inv False] Let_def dedup_inv_def set_hm_keys_insert set_hm_keys_remove)
qed

lemma dedup_insert_entries:
  assumes "dedup_inv d"
  shows "dedup_entries (dedup_insert i fp v d) = fifo_push (dd_capacity d) (dedup_entries d) (i, fp, v)"
proof (cases "i \<in> set (dd_order d)")
  case True
  then show ?thesis
    using assms by (simp add: fifo_push_def) (simp add: dedup_insert_def dedup_inv_def)
next
  case False
  have "distinct (dd_order d)" using assms by (simp add: dedup_inv_def)
  with False show ?thesis
    unfolding fifo_push_def dedup_insert_fresh [OF assms False]
    by (cases "dd_order d") (auto simp: Let_def dedup_entries_def)
qed

lemma dedup_get_insert_fresh:
  "dedup_inv d \<Longrightarrow> i \<notin> set (dd_order d) \<Longrightarrow> hm_get (dd_cached (dedup_insert i fp v d)) i = Some (fp, v)"
  by (simp add: dedup_insert_fresh Let_def)

lemma dedup_get_None: "dedup_inv d \<Longrightarrow> hm_get (dd_cached d) i = None \<longleftrightarrow> i \<notin> set (dd_order d)"
  by (simp add: dedup_inv_def hm_get_None_iff)

lemma dedup_get_absent: "dedup_inv d \<Longrightarrow> i \<notin> set (dd_order d) \<Longrightarrow> hm_get (dd_cached d) i = None"
  by (simp add: dedup_get_None)

lemmas dedup_entry_rules =
  map_of_dedup_entries dedup_get_None dedup_get_absent dedup_get_insert_fresh

interpretation typed_dedup: dedup_cache "dedup_resolve pure_clone" "dedup_resolve_checked pure_clone"
  dedup_insert dedup_entries dd_capacity dedup_inv
proof unfold_locales
  fix c :: "'a dedup" and i fp q f and s :: "request_id list" and v e
  assume inv: "dedup_inv c"
  then show "0 < dd_capacity c" "length (dedup_entries c) \<le> dd_capacity c" "distinct (map fst (dedup_entries c))"
    by (simp_all add: dedup_inv_def)
  show "dedup_inv (dedup_insert i fp v c)" using inv by (rule dedup_insert_inv)
  show "dedup_entries (dedup_insert i fp v c) = fifo_push (dd_capacity c) (dedup_entries c) (i, fp, v)"
    using inv by (rule dedup_insert_entries)
  show "dedup_resolve pure_clone c i f s = (Done v, c, s)" if "map_of (dedup_entries c) i = Some (fp, v)"
    using that inv by (simp add: dedup_resolve_def dedup_entry_rules pure_clone_def)
  show "dedup_resolve pure_clone c i f s =
      (case f s of (Panicked, s') \<Rightarrow> (Panicked, c, s') | (Done v, s') \<Rightarrow> (Done v, dedup_insert i None v c, s'))"
    if "map_of (dedup_entries c) i = None"
    using that inv
    by (auto simp: dedup_resolve_def dedup_entry_rules pure_clone_def Let_def split: prod.split outcome.split)
  show "dedup_resolve_checked pure_clone c i q f s =
      (Done (if e = Some q then Ok v else Err PayloadMismatch), c, s)"
    if "map_of (dedup_entries c) i = Some (e, v)"
    using that inv
    by (auto simp: dedup_resolve_checked_def dedup_entry_rules pure_clone_def split: option.split)
  show "dedup_resolve_checked pure_clone c i q f s =
      (case f s of (Panicked, s') \<Rightarrow> (Panicked, c, s')
       | (Done v, s') \<Rightarrow> (Done (Ok v), dedup_insert i (Some q) v c, s'))"
    if "map_of (dedup_entries c) i = None"
    using that inv
    by (auto simp: dedup_resolve_checked_def dedup_entry_rules pure_clone_def Let_def
        split: prod.split outcome.split)
qed simp


text \<open>The byte cache meets the contract because it does what the typed cache does.\<close>

lemma bytes_resolve_refines:
  "bytes_dedup_resolve d i f s = (r, d', s') \<Longrightarrow>
    dedup_resolve pure_clone (as_dedup d) i f s = (r, as_dedup d', s')"
  by (auto simp: bytes_dedup_resolve_def dedup_resolve_def pure_clone_def as_dedup_insert
      bytes_cached_insert Let_def split: option.splits prod.splits outcome.splits)

lemma bytes_resolve_checked_refines:
  "bytes_dedup_resolve_checked d i fp f s = (r, d', s') \<Longrightarrow>
    dedup_resolve_checked pure_clone (as_dedup d) i fp f s = (r, as_dedup d', s')"
  by (auto simp: bytes_dedup_resolve_checked_def dedup_resolve_checked_def pure_clone_def
      as_dedup_insert bytes_cached_insert Let_def
      split: option.splits prod.splits outcome.splits if_splits)

lemma as_dedup_inj: "as_dedup d = as_dedup d' \<longleftrightarrow> d = d'"
  by (cases d; cases d') (simp add: as_dedup_def)

lemma bytes_resolve_eqI:
  "dedup_resolve pure_clone (as_dedup d) i f s = (r, as_dedup d', s') \<Longrightarrow>
    bytes_dedup_resolve d i f s = (r, d', s')"
  by (cases "bytes_dedup_resolve d i f s") (auto dest: bytes_resolve_refines simp: as_dedup_inj)

lemma bytes_resolve_checked_eqI:
  "dedup_resolve_checked pure_clone (as_dedup d) i fp f s = (r, as_dedup d', s') \<Longrightarrow>
    bytes_dedup_resolve_checked d i fp f s = (r, d', s')"
  by (cases "bytes_dedup_resolve_checked d i fp f s")
    (auto dest: bytes_resolve_checked_refines simp: as_dedup_inj)

lemma as_dedup_new: "as_dedup (bytes_dedup_new n) = dedup_new n"
  by (simp add: as_dedup_def bytes_dedup_new_def dedup_new_def)

interpretation bytes_cache: dedup_cache bytes_dedup_resolve bytes_dedup_resolve_checked
  bytes_dedup_insert "\<lambda>d. dedup_entries (as_dedup d)" "\<lambda>d. dd_capacity (as_dedup d)"
  "\<lambda>d. dedup_inv (as_dedup d)"
proof unfold_locales
  fix c i fp q f and s :: "request_id list" and v e
  assume inv: "dedup_inv (as_dedup c)"
  show "0 < dd_capacity (as_dedup c)" "length (dedup_entries (as_dedup c)) \<le> dd_capacity (as_dedup c)"
    "distinct (map fst (dedup_entries (as_dedup c)))"
    using typed_dedup.cap_pos typed_dedup.bounded typed_dedup.distinct_ids inv by blast+
  show "dedup_inv (as_dedup (bytes_dedup_insert i fp v c))"
    using inv by (simp add: as_dedup_insert dedup_insert_inv)
  show "dedup_entries (as_dedup (bytes_dedup_insert i fp v c)) =
      fifo_push (dd_capacity (as_dedup c)) (dedup_entries (as_dedup c)) (i, fp, v)"
    using inv by (simp add: as_dedup_insert dedup_insert_entries del: as_dedup_simps)
  show "bytes_dedup_resolve c i f s = (Done v, c, s)"
    if "map_of (dedup_entries (as_dedup c)) i = Some (fp, v)"
    using typed_dedup.resolve_hit [OF inv that] by (rule bytes_resolve_eqI)
  show "bytes_dedup_resolve c i f s =
      (case f s of (Panicked, s') \<Rightarrow> (Panicked, c, s')
       | (Done v, s') \<Rightarrow> (Done v, bytes_dedup_insert i None v c, s'))"
    if "map_of (dedup_entries (as_dedup c)) i = None"
    using typed_dedup.resolve_miss [OF inv that, of f s]
    by (auto split: prod.split outcome.split simp: as_dedup_insert intro!: bytes_resolve_eqI)
  show "bytes_dedup_resolve_checked c i q f s =
      (Done (if e = Some q then Ok v else Err PayloadMismatch), c, s)"
    if "map_of (dedup_entries (as_dedup c)) i = Some (e, v)"
    using typed_dedup.checked_hit [OF inv that] by (rule bytes_resolve_checked_eqI)
  show "bytes_dedup_resolve_checked c i q f s =
      (case f s of (Panicked, s') \<Rightarrow> (Panicked, c, s')
       | (Done v, s') \<Rightarrow> (Done (Ok v), bytes_dedup_insert i (Some q) v c, s'))"
    if "map_of (dedup_entries (as_dedup c)) i = None"
    using typed_dedup.checked_miss [OF inv that, of q f s]
    by (auto split: prod.split outcome.split simp: as_dedup_insert intro!: bytes_resolve_checked_eqI)
qed (simp add: bytes_dedup_insert_def Let_def split: list.split)

lemma next_request_id_inj:
  "next_request_id m n = next_request_id m' n' \<longleftrightarrow> (ucast m :: u64) = ucast m' \<and> n = n'"
proof -
  have hi: "(ucast (drop_bit 64 (push_bit 64 (ucast a) OR ucast b :: u128)) :: u64) = a"
    and lo: "(ucast (push_bit 64 (ucast a) OR ucast b :: u128) :: u64) = b" for a b :: u64
    by (rule bit_eqI; auto simp: bit_simps dest: bit_imp_le_length)+
  show ?thesis
    unfolding next_request_id_def Let_def by (metis hi lo request_id.inject)
qed


section \<open>Properties\<close>

text \<open>
  C39. Exactly-once execution: a fresh cache that is given any sequence of requests whose distinct
  identifiers fit its capacity runs the computation of each identifier exactly once, and answers
  every request, retries included, with the value of the first request of its identifier.
\<close>

theorem dedup_exactly_once:
  fixes reqs :: "(request_id \<times> 'r) list"
  assumes "card (fst ` set reqs) \<le> max n 1"
  shows "\<exists>log d. run_requests (dedup_resolve pure_clone) (dedup_new n) reqs [] =
      (map (\<lambda>(i, v). Done (the (map_of reqs i))) reqs, d, log)
    \<and> distinct log \<and> set log = fst ` set reqs"
proof -
  have fits: "card (fst ` set reqs) \<le> dd_capacity (dedup_new n :: 'r dedup)"
    using assms by (simp add: dedup_new_cap)
  have "\<exists>new. snd (snd (run_requests (dedup_resolve pure_clone) (dedup_new n) reqs [])) = [] @ new
      \<and> distinct new \<and> set new = fst ` set reqs - fst ` set (dedup_entries (dedup_new n :: 'r dedup))"
    by (rule typed_dedup.run_at_most_once [OF dedup_new_inv _ _ fits]) (simp_all add: dedup_new_cap)
  moreover have "fst (run_requests (dedup_resolve pure_clone) (dedup_new n) reqs []) =
      map (\<lambda>(i, v). Done (the (map_of (map (\<lambda>(j, fp, w). (j, w)) (dedup_entries (dedup_new n :: 'r dedup)) @ reqs) i))) reqs"
    by (rule typed_dedup.run_first_reply [OF dedup_new_inv _ _ fits]) (simp_all add: dedup_new_cap)
  ultimately show ?thesis
    by (cases "run_requests (dedup_resolve pure_clone) (dedup_new n) reqs []")
      (simp add: dedup_new_cap)
qed

theorem dedup_exactly_once_witness:
  "\<exists>log d. run_requests (dedup_resolve pure_clone) (dedup_new 2)
      [(RequestId 1, 10), (RequestId 2, 20), (RequestId 1, 30 :: nat)] [] = ([Done 10, Done 20, Done 10], d, log)
    \<and> distinct log \<and> set log = {RequestId 1, RequestId 2}"
  using dedup_exactly_once [of "[(RequestId 1, 10), (RequestId 2, 20), (RequestId 1, 30 :: nat)]" 2]
  by (simp add: insert_commute)

text \<open>
  Eviction is first in, first out. On every reachable cache an insert keeps the invariant and
  acts on the list of entries, oldest first, as a push into a bounded queue: a known identifier
  changes nothing, a new one goes to the back, and only a full cache drops its oldest entry.
\<close>

theorem dedup_insert_is_fifo:
  assumes "dedup_inv d"
  shows "dedup_inv (dedup_insert i fp v d) \<and>
    dedup_entries (dedup_insert i fp v d) =
      (if i \<in> set (dd_order d) then dedup_entries d
       else if length (dd_order d) = dd_capacity d then tl (dedup_entries d) @ [(i, fp, v)]
       else dedup_entries d @ [(i, fp, v)])"
  using typed_dedup.store_entries [OF assms] typed_dedup.store_inv [OF assms] typed_dedup.bounded [OF assms]
  by (auto simp: fifo_push_def)

theorem dedup_insert_is_fifo_witness:
  "dedup_entries (dedup_insert (RequestId 2) None 5 (dedup_insert (RequestId 1) None 4 (dedup_new 0)))
    = [(RequestId 2, None, 5 :: nat)]"
proof -
  have inv: "dedup_inv (dedup_insert (RequestId 1) None (4 :: nat) (dedup_new 0))"
    by (simp add: dedup_insert_inv dedup_new_inv)
  show ?thesis
    using dedup_insert_is_fifo [OF inv, of "RequestId 2" None 5]
    by (simp add: dedup_insert_def dedup_new_def dedup_entries_def)
qed

text \<open>
  A computed reply is recorded before it is cloned for the caller: whatever the clone does,
  including unwinding, a retry finds the record and does not run its computation.
\<close>

theorem dedup_survives_clone_panic:
  assumes "dedup_inv d" and "i \<notin> set (dd_order d)" and "f s = (Done v, s1)"
    and "dedup_resolve clone d i f s = (r, d', s2)"
  shows "dedup_inv d' \<and> dedup_resolve pure_clone d' i g t = (Done v, d', t)"
proof -
  have "d' = dedup_insert i None v d"
    using assms by (auto simp: dedup_resolve_def dedup_entry_rules Let_def split: prod.splits)
  then show ?thesis
    using assms(1,2)
    by (simp add: dedup_insert_inv dedup_resolve_def dedup_get_insert_fresh pure_clone_def)
qed

theorem dedup_survives_clone_panic_witness:
  "let d' = fst (snd (dedup_resolve (\<lambda>v s. (Panicked, s)) (dedup_new 4) (RequestId 9) (\<lambda>s. (Done 7, s)) ()))
   in dedup_resolve pure_clone d' (RequestId 9) (\<lambda>t. (Done 8, t)) () = (Done (7 :: nat), d', ())"
  using dedup_survives_clone_panic [OF dedup_new_inv, of "RequestId 9" 4 "\<lambda>s. (Done (7 :: nat), s)" "()" 7 "()"
      "\<lambda>v s. (Panicked, s)" Panicked _ "()" "\<lambda>t. (Done 8, t)" "()"]
  by (simp add: dedup_new_def dedup_resolve_def dedup_insert_def)

text \<open>
  Checked resolution of a cached identifier never runs the computation and never changes the
  cache: it replays the reply exactly when the stored fingerprint is present and equal, and
  reports a mismatch otherwise, in particular for every reply that was stored unchecked.
\<close>

theorem checked_resolution_of_cached:
  assumes "dedup_inv d" and "hm_get (dd_cached d) i = Some (e, v)"
  shows "dedup_resolve_checked pure_clone d i fp f s =
      (Done (if e = Some fp then Ok v else Err PayloadMismatch), d, s)"
  using assms by (auto simp: dedup_resolve_checked_def pure_clone_def split: option.split)

theorem checked_resolution_of_cached_witness:
  "dedup_resolve_checked pure_clone (dedup_insert (RequestId 3) None (1 :: nat) (dedup_new 2)) (RequestId 3)
     (PayloadFingerprint [1]) (\<lambda>s. (Done 2, s + 1)) (0 :: nat)
   = (Done (Err PayloadMismatch), dedup_insert (RequestId 3) None 1 (dedup_new 2), 0)"
  using checked_resolution_of_cached [OF dedup_insert_inv [OF dedup_new_inv], of "RequestId 3" None "1 :: nat" 2
      "RequestId 3" None 1]
  by (simp add: dedup_insert_def dedup_new_def)

text \<open>
  The byte cache behaves as the typed cache at replies of type \<open>Bytes\<close> with a clone that
  cannot fail, for both ways of resolving: same reply, same effects, same cache.
\<close>

theorem bytes_cache_equivalent:
  "(bytes_dedup_resolve d i f s = (r, d', s') \<longleftrightarrow>
      dedup_resolve pure_clone (as_dedup d) i f s = (r, as_dedup d', s')) \<and>
   (bytes_dedup_resolve_checked d i fp f s = (q, d', s') \<longleftrightarrow>
      dedup_resolve_checked pure_clone (as_dedup d) i fp f s = (q, as_dedup d', s'))"
  by (blast intro: bytes_resolve_refines bytes_resolve_eqI bytes_resolve_checked_refines
      bytes_resolve_checked_eqI)

end
