(* ===== verification/Errors.thy ===== *)
theory Errors
  imports Wire_Protocol
begin

text \<open>
  The error types (\<open>src/error.rs\<close>) and the dynamically typed values they carry. A
  \<open>Box<dyn Any>\<close> is a value with the identity of its type; a downcast succeeds exactly when the
  types agree. A call of \<open>unwrap\<close> or \<open>panic!\<close> is a \<open>Panicked\<close> outcome.
\<close>

section \<open>Dynamically typed values\<close>

text \<open>
  Type identities: named types, and the type formers the library itself boxes.
\<close>

datatype type_id =
    TyUnit
  | TyStr
  | TyString
  | TyInfallible
  | TyBoxAny
  | TyNamed nat
  | TyPair type_id type_id
  | TyReplySender type_id
  | TyRecipient type_id
  | TySendError type_id type_id

datatype 'v any = Any type_id 'v | AnyBox "'v any"

fun any_type :: "'v any \<Rightarrow> type_id" where
  "any_type (Any t v) = t"
| "any_type (AnyBox a) = TyBoxAny"

fun any_downcast :: "type_id \<Rightarrow> 'v any \<Rightarrow> 'v option" where
  "any_downcast t (Any t' v) = (if t' = t then Some v else None)"
| "any_downcast t (AnyBox a) = None"

fun unwrap :: "'a option \<Rightarrow> 'a outcome" where
  "unwrap (Some a) = Done a"
| "unwrap None = Panicked"


section \<open>Errors of local sends\<close>

datatype ('m, 'e) send_error =
    ActorNotRunning 'm
  | ActorStopped
  | MissingConnection
  | ConnectionClosed
  | MailboxFull 'm
  | HandlerError 'e
  | Timeout "'m option"

fun map_msg :: "('m \<Rightarrow> 'n) \<Rightarrow> ('m, 'e) send_error \<Rightarrow> ('n, 'e) send_error" where
  "map_msg f (ActorNotRunning m) = ActorNotRunning (f m)"
| "map_msg f ActorStopped = ActorStopped"
| "map_msg f MissingConnection = MissingConnection"
| "map_msg f ConnectionClosed = ConnectionClosed"
| "map_msg f (MailboxFull m) = MailboxFull (f m)"
| "map_msg f (HandlerError e) = HandlerError e"
| "map_msg f (Timeout m) = Timeout (map_option f m)"

fun map_send_err :: "('e \<Rightarrow> 'f) \<Rightarrow> ('m, 'e) send_error \<Rightarrow> ('m, 'f) send_error" where
  "map_send_err f (ActorNotRunning m) = ActorNotRunning m"
| "map_send_err f ActorStopped = ActorStopped"
| "map_send_err f MissingConnection = MissingConnection"
| "map_send_err f ConnectionClosed = ConnectionClosed"
| "map_send_err f (MailboxFull m) = MailboxFull m"
| "map_send_err f (HandlerError e) = HandlerError (f e)"
| "map_send_err f (Timeout m) = Timeout m"

type_synonym 'v box_send_error = "('v any, 'v any) send_error"

fun send_error_boxed :: "type_id \<Rightarrow> type_id \<Rightarrow> ('v, 'v) send_error \<Rightarrow> 'v box_send_error" where
  "send_error_boxed tm te (ActorNotRunning m) = ActorNotRunning (Any tm m)"
| "send_error_boxed tm te ActorStopped = ActorStopped"
| "send_error_boxed tm te MissingConnection = MissingConnection"
| "send_error_boxed tm te ConnectionClosed = ConnectionClosed"
| "send_error_boxed tm te (MailboxFull m) = MailboxFull (Any tm m)"
| "send_error_boxed tm te (HandlerError e) = HandlerError (Any te e)"
| "send_error_boxed tm te (Timeout m) = Timeout (map_option (Any tm) m)"

fun send_error_msg :: "('m, 'e) send_error \<Rightarrow> 'm option" where
  "send_error_msg (ActorNotRunning m) = Some m"
| "send_error_msg (MailboxFull m) = Some m"
| "send_error_msg (Timeout m) = m"
| "send_error_msg _ = None"

fun send_error_err :: "('m, 'e) send_error \<Rightarrow> 'e option" where
  "send_error_err (HandlerError e) = Some e"
| "send_error_err _ = None"

definition unwrap_msg :: "('m, 'e) send_error \<Rightarrow> 'm outcome" where
  "unwrap_msg e = unwrap (send_error_msg e)"

definition unwrap_err :: "('m, 'e) send_error \<Rightarrow> 'e outcome" where
  "unwrap_err e = unwrap (send_error_err e)"

fun reset_err_infallible :: "('m, 'e) send_error \<Rightarrow> ('m, 'f) send_error outcome" where
  "reset_err_infallible (HandlerError e) = Panicked"
| "reset_err_infallible (ActorNotRunning m) = Done (ActorNotRunning m)"
| "reset_err_infallible ActorStopped = Done ActorStopped"
| "reset_err_infallible MissingConnection = Done MissingConnection"
| "reset_err_infallible ConnectionClosed = Done ConnectionClosed"
| "reset_err_infallible (MailboxFull m) = Done (MailboxFull m)"
| "reset_err_infallible (Timeout m) = Done (Timeout m)"

fun send_error_flatten :: "('m, ('m, 'e) send_error) send_error \<Rightarrow> ('m, 'e) send_error" where
  "send_error_flatten (ActorNotRunning m) = ActorNotRunning m"
| "send_error_flatten (HandlerError (ActorNotRunning m)) = ActorNotRunning m"
| "send_error_flatten ActorStopped = ActorStopped"
| "send_error_flatten (HandlerError ActorStopped) = ActorStopped"
| "send_error_flatten MissingConnection = MissingConnection"
| "send_error_flatten (HandlerError MissingConnection) = MissingConnection"
| "send_error_flatten ConnectionClosed = ConnectionClosed"
| "send_error_flatten (HandlerError ConnectionClosed) = ConnectionClosed"
| "send_error_flatten (MailboxFull m) = MailboxFull m"
| "send_error_flatten (HandlerError (MailboxFull m)) = MailboxFull m"
| "send_error_flatten (HandlerError (HandlerError e)) = HandlerError e"
| "send_error_flatten (Timeout m) = Timeout m"
| "send_error_flatten (HandlerError (Timeout m)) = Timeout m"

text \<open>\<open>try_downcast\<close> to the message type \<open>tm\<close> and the error type \<open>te\<close>.\<close>

fun send_error_try_downcast ::
  "type_id \<Rightarrow> type_id \<Rightarrow> 'v box_send_error \<Rightarrow> (('v, 'v) send_error, 'v box_send_error) result" where
  "send_error_try_downcast tm te (ActorNotRunning a) =
    (case any_downcast tm a of Some m \<Rightarrow> Ok (ActorNotRunning m) | None \<Rightarrow> Err (ActorNotRunning a))"
| "send_error_try_downcast tm te ActorStopped = Ok ActorStopped"
| "send_error_try_downcast tm te MissingConnection = Ok MissingConnection"
| "send_error_try_downcast tm te ConnectionClosed = Ok ConnectionClosed"
| "send_error_try_downcast tm te (MailboxFull a) =
    (case any_downcast tm a of Some m \<Rightarrow> Ok (MailboxFull m) | None \<Rightarrow> Err (MailboxFull a))"
| "send_error_try_downcast tm te (HandlerError a) =
    (case any_downcast te a of Some e \<Rightarrow> Ok (HandlerError e) | None \<Rightarrow> Err (HandlerError a))"
| "send_error_try_downcast tm te (Timeout None) = Ok (Timeout None)"
| "send_error_try_downcast tm te (Timeout (Some a)) =
    (case any_downcast tm a of Some m \<Rightarrow> Ok (Timeout (Some m)) | None \<Rightarrow> Err (Timeout (Some a)))"

fun result_unwrap :: "('a, 'e) result \<Rightarrow> 'a outcome" where
  "result_unwrap (Ok a) = Done a"
| "result_unwrap (Err e) = Panicked"

definition send_error_downcast ::
  "type_id \<Rightarrow> type_id \<Rightarrow> 'v box_send_error \<Rightarrow> ('v, 'v) send_error outcome" where
  "send_error_downcast tm te e = result_unwrap (send_error_try_downcast tm te e)"


section \<open>Panics and stop reasons\<close>

datatype panic_reason =
    HandlerPanic | OnMessage | OnStart | OnPanic | OnLinkDied | OnLinkEstablished | OnStop

definition is_lifecycle_hook :: "panic_reason \<Rightarrow> bool" where
  "is_lifecycle_hook r = (r \<in> {OnStart, OnPanic, OnLinkDied, OnLinkEstablished, OnStop})"

definition is_message_processing :: "panic_reason \<Rightarrow> bool" where
  "is_message_processing r = (r \<in> {HandlerPanic, OnMessage})"

text \<open>
  The error is shared behind a mutex; both arms of every lock, poisoned or not, read the value.
\<close>

record 'v panic_error =
  pe_err :: "'v any"
  pe_reason :: panic_reason

definition panic_error_new :: "'v any \<Rightarrow> panic_reason \<Rightarrow> 'v panic_error" where
  "panic_error_new err reason = \<lparr>pe_err = err, pe_reason = reason\<rparr>"

text \<open>
  A panic payload that is neither a string slice nor a \<open>String\<close> is boxed once more.
\<close>

definition new_from_panic_any :: "'v any \<Rightarrow> panic_reason \<Rightarrow> 'v panic_error" where
  "new_from_panic_any err reason =
    (case any_downcast TyStr err of
       Some s \<Rightarrow> panic_error_new (Any TyStr s) reason
     | None \<Rightarrow>
         (case any_downcast TyString err of
            Some s \<Rightarrow> panic_error_new (Any TyString s) reason
          | None \<Rightarrow> panic_error_new (AnyBox err) reason))"

definition pe_with :: "'v panic_error \<Rightarrow> ('v any \<Rightarrow> 'r) \<Rightarrow> 'r" where
  "pe_with p f = f (pe_err p)"

definition pe_with_str :: "'v panic_error \<Rightarrow> ('v \<Rightarrow> 'r) \<Rightarrow> 'r option" where
  "pe_with_str p f =
    pe_with p (\<lambda>a. map_option f
      (case any_downcast TyStr a of Some s \<Rightarrow> Some s | None \<Rightarrow> any_downcast TyString a))"

definition pe_with_downcast_ref :: "type_id \<Rightarrow> 'v panic_error \<Rightarrow> ('v \<Rightarrow> 'r) \<Rightarrow> 'r option" where
  "pe_with_downcast_ref t p f = map_option f (any_downcast t (pe_err p))"

definition pe_downcast :: "type_id \<Rightarrow> 'v panic_error \<Rightarrow> 'v option" where
  "pe_downcast t p = pe_with_downcast_ref t p (\<lambda>err. err)"

datatype 'v stop_reason =
    Normal
  | Killed
  | PanickedWith "'v panic_error"
  | LinkDiedReason actor_id "'v stop_reason"
  | PeerDisconnected

datatype ('v, 'e) hook_error = HookPanicked "'v panic_error" | HookError 'e

section \<open>Errors of remote sends\<close>

text \<open>An \<open>io::Error\<close> is its text.\<close>

datatype 'e remote_send_error =
    RActorNotRunning
  | RActorStopped
  | RMissingConnection
  | RUnknownActor string
  | RUnknownMessage string string
  | RBadActorType
  | RMailboxFull
  | RReplyTimeout
  | RHandlerError 'e
  | RSerializeMessage string
  | RDeserializeMessage string
  | RSerializeReply string
  | RSerializeHandlerError string
  | RDeserializeHandlerError string
  | RTransportNotBootstrapped
  | RDialFailure
  | RNetworkTimeout
  | RConnectionClosed
  | RUnsupportedProtocols
  | RIo "string option"

fun remote_map_err :: "('e \<Rightarrow> 'f) \<Rightarrow> 'e remote_send_error \<Rightarrow> 'f remote_send_error" where
  "remote_map_err f RActorNotRunning = RActorNotRunning"
| "remote_map_err f RActorStopped = RActorStopped"
| "remote_map_err f RMissingConnection = RMissingConnection"
| "remote_map_err f (RUnknownActor x) = RUnknownActor x"
| "remote_map_err f (RUnknownMessage x y) = RUnknownMessage x y"
| "remote_map_err f RBadActorType = RBadActorType"
| "remote_map_err f RMailboxFull = RMailboxFull"
| "remote_map_err f RReplyTimeout = RReplyTimeout"
| "remote_map_err f (RHandlerError e) = RHandlerError (f e)"
| "remote_map_err f (RSerializeMessage x) = RSerializeMessage x"
| "remote_map_err f (RDeserializeMessage x) = RDeserializeMessage x"
| "remote_map_err f (RSerializeReply x) = RSerializeReply x"
| "remote_map_err f (RSerializeHandlerError x) = RSerializeHandlerError x"
| "remote_map_err f (RDeserializeHandlerError x) = RDeserializeHandlerError x"
| "remote_map_err f RTransportNotBootstrapped = RTransportNotBootstrapped"
| "remote_map_err f RDialFailure = RDialFailure"
| "remote_map_err f RNetworkTimeout = RNetworkTimeout"
| "remote_map_err f RConnectionClosed = RConnectionClosed"
| "remote_map_err f RUnsupportedProtocols = RUnsupportedProtocols"
| "remote_map_err f (RIo x) = RIo x"

fun remote_flatten :: "'e remote_send_error remote_send_error \<Rightarrow> 'e remote_send_error" where
  "remote_flatten RActorNotRunning = RActorNotRunning"
| "remote_flatten (RHandlerError RActorNotRunning) = RActorNotRunning"
| "remote_flatten RActorStopped = RActorStopped"
| "remote_flatten (RHandlerError RActorStopped) = RActorStopped"
| "remote_flatten RMissingConnection = RMissingConnection"
| "remote_flatten (RHandlerError RMissingConnection) = RMissingConnection"
| "remote_flatten (RUnknownActor x) = RUnknownActor x"
| "remote_flatten (RHandlerError (RUnknownActor x)) = RUnknownActor x"
| "remote_flatten (RUnknownMessage x y) = RUnknownMessage x y"
| "remote_flatten (RHandlerError (RUnknownMessage x y)) = RUnknownMessage x y"
| "remote_flatten RBadActorType = RBadActorType"
| "remote_flatten (RHandlerError RBadActorType) = RBadActorType"
| "remote_flatten RMailboxFull = RMailboxFull"
| "remote_flatten (RHandlerError RMailboxFull) = RMailboxFull"
| "remote_flatten RReplyTimeout = RReplyTimeout"
| "remote_flatten (RHandlerError RReplyTimeout) = RReplyTimeout"
| "remote_flatten (RHandlerError (RHandlerError x)) = RHandlerError x"
| "remote_flatten (RSerializeMessage x) = RSerializeMessage x"
| "remote_flatten (RHandlerError (RSerializeMessage x)) = RSerializeMessage x"
| "remote_flatten (RDeserializeMessage x) = RDeserializeMessage x"
| "remote_flatten (RHandlerError (RDeserializeMessage x)) = RDeserializeMessage x"
| "remote_flatten (RSerializeReply x) = RSerializeReply x"
| "remote_flatten (RHandlerError (RSerializeReply x)) = RSerializeReply x"
| "remote_flatten (RSerializeHandlerError x) = RSerializeHandlerError x"
| "remote_flatten (RHandlerError (RSerializeHandlerError x)) = RSerializeHandlerError x"
| "remote_flatten (RDeserializeHandlerError x) = RDeserializeHandlerError x"
| "remote_flatten (RHandlerError (RDeserializeHandlerError x)) = RDeserializeHandlerError x"
| "remote_flatten RTransportNotBootstrapped = RTransportNotBootstrapped"
| "remote_flatten (RHandlerError RTransportNotBootstrapped) = RTransportNotBootstrapped"
| "remote_flatten RDialFailure = RDialFailure"
| "remote_flatten (RHandlerError RDialFailure) = RDialFailure"
| "remote_flatten RNetworkTimeout = RNetworkTimeout"
| "remote_flatten (RHandlerError RNetworkTimeout) = RNetworkTimeout"
| "remote_flatten RConnectionClosed = RConnectionClosed"
| "remote_flatten (RHandlerError RConnectionClosed) = RConnectionClosed"
| "remote_flatten RUnsupportedProtocols = RUnsupportedProtocols"
| "remote_flatten (RHandlerError RUnsupportedProtocols) = RUnsupportedProtocols"
| "remote_flatten (RIo x) = RIo x"
| "remote_flatten (RHandlerError (RIo x)) = RIo x"

fun remote_from_send_error :: "('m, 'e) send_error \<Rightarrow> 'e remote_send_error" where
  "remote_from_send_error (ActorNotRunning m) = RActorNotRunning"
| "remote_from_send_error ActorStopped = RActorStopped"
| "remote_from_send_error MissingConnection = RMissingConnection"
| "remote_from_send_error ConnectionClosed = RConnectionClosed"
| "remote_from_send_error (MailboxFull m) = RMailboxFull"
| "remote_from_send_error (HandlerError e) = RHandlerError e"
| "remote_from_send_error (Timeout m) = RReplyTimeout"

text \<open>Errors of registering and looking up actors by name.\<close>

datatype registry_error =
    BadActorType
  | NameAlreadyRegistered
  | QuorumFailed nat
  | TransportNotBootstrapped
  | RegistryTimeout


section \<open>Lemmas and properties\<close>

lemma any_downcast_Some: "any_downcast t a = Some v \<longleftrightarrow> a = Any t v"
  by (cases a) auto

lemma unwrap_eq_Done [simp]: "unwrap x = Done a \<longleftrightarrow> x = Some a"
  by (cases x) auto

lemma unwrap_eq_Panicked [simp]: "unwrap x = Panicked \<longleftrightarrow> x = None"
  by (cases x) auto

lemma try_downcast_boxed: "send_error_try_downcast tm te (send_error_boxed tm te e) = Ok e"
proof (cases e)
  case (Timeout m)
  then show ?thesis by (cases m) simp_all
qed simp_all

text \<open>
  Downcasting a boxed send error is exact: it gives an error of the requested types if and
  only if boxing that error at these types gives the argument, and a failed downcast hands the
  argument back unchanged, so a second attempt at other types loses nothing.
\<close>

theorem try_downcast_exact:
  "(send_error_try_downcast tm te b = Ok e \<longleftrightarrow> b = send_error_boxed tm te e) \<and>
   (send_error_try_downcast tm te b = Err b' \<longleftrightarrow> b' = b \<and> (\<nexists>e. b = send_error_boxed tm te e))"
proof -
  have ok: "send_error_try_downcast tm te b = Ok e \<longleftrightarrow> b = send_error_boxed tm te e" for e
  proof
    assume "send_error_try_downcast tm te b = Ok e"
    then show "b = send_error_boxed tm te e"
      by (cases "(tm, te, b)" rule: send_error_try_downcast.cases)
        (auto simp: any_downcast_Some split: option.splits)
  qed (simp add: try_downcast_boxed)
  have err: "send_error_try_downcast tm te b = Err b' \<Longrightarrow> b' = b" for b'
    by (cases "(tm, te, b)" rule: send_error_try_downcast.cases) (auto split: option.splits)
  show ?thesis
    using ok err by (cases "send_error_try_downcast tm te b") auto
qed

text \<open>
  Flattening commutes with the conversion from local to remote errors: a nested local error
  may be flattened before or after it crosses the process boundary.
\<close>

theorem flatten_commutes_with_remote:
  "remote_from_send_error (send_error_flatten e) =
    remote_flatten (remote_map_err remote_from_send_error (remote_from_send_error e))"
  by (cases e rule: send_error_flatten.cases) simp_all

end
