(* ===== verification/Mailbox.thy ===== *)
theory Mailbox
  imports Errors
begin

text \<open>
  Mailboxes and signals (\<open>src/mailbox.rs\<close>). The channels themselves are tokio's and a
  parameter: the records \<open>mpsc_send\<close>,
  \<open>mpsc_handles\<close> and \<open>mpsc_recv\<close> list the operations the code calls, over a channel world
  \<open>'c\<close> and handles \<open>'h\<close> (senders), \<open>'k\<close> (weak senders) and \<open>'r\<close> (receivers). What this
  file adds is modelled in full: the choice between the bounded and the unbounded channel, the
  translation of errors, the metrics counters and the control signals.
\<close>

section \<open>Signals\<close>

text \<open>
  A message signal carries the boxed message, the identity behind its actor reference, the reply
  channel and the flag that says it was sent by the actor itself.
\<close>

datatype 'v signal =
    StartupFinished
  | MessageSignal "'v any" actor_id "nat option" bool
  | LinkDied actor_id "'v stop_reason"
  | LinkEstablished actor_id
  | Stop

fun downcast_message :: "type_id \<Rightarrow> 'v signal \<Rightarrow> 'v option" where
  "downcast_message t (MessageSignal m _ _ _) = any_downcast t m"
| "downcast_message t _ = None"

datatype signal_kind = MessageKind | LifecycleKind | LinkDiedKind

fun kind_of_signal :: "'v signal \<Rightarrow> signal_kind" where
  "kind_of_signal (MessageSignal _ _ _ _) = MessageKind"
| "kind_of_signal StartupFinished = LifecycleKind"
| "kind_of_signal Stop = LifecycleKind"
| "kind_of_signal (LinkDied _ _) = LinkDiedKind"
| "kind_of_signal (LinkEstablished _) = LifecycleKind"


section \<open>Tokio's channels\<close>

datatype 's try_send_error = TryFull 's | TryClosed 's
datatype 's send_timeout_error = SendTimedOut 's | SendTimeoutClosed 's
datatype try_recv_error = TryRecvEmpty | TryRecvDisconnected
datatype 'a poll = Ready 'a | Pending

text \<open>
  An asynchronous or blocking operation that keeps waiting gives \<open>None\<close>.
\<close>

record ('h, 'k, 'r, 's, 'c) mpsc_send =
  mp_channel :: "nat \<Rightarrow> 'c \<Rightarrow> (('h \<times> 'r) \<times> 'c) outcome"
  mp_unbounded_channel :: "'c \<Rightarrow> ('h \<times> 'r) \<times> 'c"
  mp_send :: "'h \<Rightarrow> 's \<Rightarrow> 'c \<Rightarrow> ((unit, 's) result \<times> 'c) option"
  mp_try_send :: "'h \<Rightarrow> 's \<Rightarrow> 'c \<Rightarrow> (unit, 's try_send_error) result \<times> 'c"
  mp_send_timeout :: "'h \<Rightarrow> 's \<Rightarrow> nat \<Rightarrow> 'c \<Rightarrow> (unit, 's send_timeout_error) result \<times> 'c"
  mp_blocking_send :: "'h \<Rightarrow> 's \<Rightarrow> 'c \<Rightarrow> ((unit, 's) result \<times> 'c) option"
  mp_usend :: "'h \<Rightarrow> 's \<Rightarrow> 'c \<Rightarrow> (unit, 's) result \<times> 'c"
  mp_closed :: "'h \<Rightarrow> 'c \<Rightarrow> (unit \<times> 'c) option"
  mp_is_closed :: "'h \<Rightarrow> 'c \<Rightarrow> bool"
  mp_upgrade :: "'k \<Rightarrow> 'c \<Rightarrow> 'h option \<times> 'c"

record ('h, 'k, 'c) mpsc_handles =
  mp_same_channel :: "'h \<Rightarrow> 'h \<Rightarrow> bool"
  mp_capacity :: "'h \<Rightarrow> 'c \<Rightarrow> nat"
  mp_downgrade :: "'h \<Rightarrow> 'c \<Rightarrow> 'k \<times> 'c"
  mp_clone :: "'h \<Rightarrow> 'c \<Rightarrow> 'h \<times> 'c"
  mp_strong_count :: "'h \<Rightarrow> 'c \<Rightarrow> nat"
  mp_weak_count :: "'h \<Rightarrow> 'c \<Rightarrow> nat"
  mp_clone_weak :: "'k \<Rightarrow> 'c \<Rightarrow> 'k \<times> 'c"
  mp_weak_strong_count :: "'k \<Rightarrow> 'c \<Rightarrow> nat"
  mp_weak_weak_count :: "'k \<Rightarrow> 'c \<Rightarrow> nat"

record ('r, 's, 'c) mpsc_recv =
  mp_recv :: "'r \<Rightarrow> 'c \<Rightarrow> ('s option \<times> 'c) option"
  mp_recv_many :: "'r \<Rightarrow> nat \<Rightarrow> 'c \<Rightarrow> ('s list \<times> 'c) option"
  mp_try_recv :: "'r \<Rightarrow> 'c \<Rightarrow> ('s, try_recv_error) result \<times> 'c"
  mp_blocking_recv :: "'r \<Rightarrow> 'c \<Rightarrow> ('s option \<times> 'c) option"
  mp_blocking_recv_many :: "'r \<Rightarrow> nat \<Rightarrow> 'c \<Rightarrow> ('s list \<times> 'c) option"
  mp_poll_recv :: "'r \<Rightarrow> 'c \<Rightarrow> ('s option) poll \<times> 'c"
  mp_poll_recv_many :: "'r \<Rightarrow> nat \<Rightarrow> 'c \<Rightarrow> ('s list) poll \<times> 'c"
  mp_close :: "'r \<Rightarrow> 'c \<Rightarrow> 'c"
  mp_rx_is_closed :: "'r \<Rightarrow> 'c \<Rightarrow> bool"
  mp_is_empty :: "'r \<Rightarrow> 'c \<Rightarrow> bool"
  mp_len :: "'r \<Rightarrow> 'c \<Rightarrow> nat"
  mp_rx_strong_count :: "'r \<Rightarrow> 'c \<Rightarrow> nat"
  mp_rx_weak_count :: "'r \<Rightarrow> 'c \<Rightarrow> nat"


section \<open>Mailbox state\<close>

text \<open>
  A handle is bounded or unbounded. The counters are process-wide and shared by all clones, so
  they live in the state beside the channel world. \<open>metrics\<close> is the compile-time feature.
\<close>

datatype 'h mailbox_sender = Bounded 'h | Unbounded 'h
datatype 'k weak_mailbox_sender = WeakBounded 'k | WeakUnbounded 'k
datatype 'r mailbox_receiver = BoundedRx 'r | UnboundedRx 'r

record counters =
  c_messages :: nat
  c_lifecycle :: nat
  c_link_died :: nat

record 'c mailbox_state =
  mb_chan :: 'c
  mb_sent :: counters
  mb_received :: counters

fun count_signal :: "signal_kind \<Rightarrow> counters \<Rightarrow> counters" where
  "count_signal MessageKind c = c\<lparr>c_messages := c_messages c + 1\<rparr>"
| "count_signal LifecycleKind c = c\<lparr>c_lifecycle := c_lifecycle c + 1\<rparr>"
| "count_signal LinkDiedKind c = c\<lparr>c_link_died := c_link_died c + 1\<rparr>"

definition apply_metric :: "signal_kind \<Rightarrow> 'c mailbox_state \<Rightarrow> 'c mailbox_state" where
  "apply_metric k st = st\<lparr>mb_sent := count_signal k (mb_sent st)\<rparr>"

definition count_received :: "'v signal \<Rightarrow> 'c mailbox_state \<Rightarrow> 'c mailbox_state" where
  "count_received s st = st\<lparr>mb_received := count_signal (kind_of_signal s) (mb_received st)\<rparr>"

text \<open>\<open>bounded\<close> unwinds for a capacity that tokio rejects (zero).\<close>

definition mailbox_bounded ::
  "('h, 'k, 'r, 'v signal, 'c) mpsc_send \<Rightarrow> nat \<Rightarrow> 'c mailbox_state
    \<Rightarrow> (('h mailbox_sender \<times> 'r mailbox_receiver) \<times> 'c mailbox_state) outcome" where
  "mailbox_bounded ops buffer st =
    (case mp_channel ops buffer (mb_chan st) of
       Panicked \<Rightarrow> Panicked
     | Done ((tx, rx), c) \<Rightarrow> Done ((Bounded tx, BoundedRx rx), st\<lparr>mb_chan := c\<rparr>))"

definition mailbox_unbounded ::
  "('h, 'k, 'r, 'v signal, 'c) mpsc_send \<Rightarrow> 'c mailbox_state
    \<Rightarrow> ('h mailbox_sender \<times> 'r mailbox_receiver) \<times> 'c mailbox_state" where
  "mailbox_unbounded ops st =
    (let ((tx, rx), c) = mp_unbounded_channel ops (mb_chan st)
     in ((Unbounded tx, UnboundedRx rx), st\<lparr>mb_chan := c\<rparr>))"


section \<open>The sender\<close>

definition mailbox_is_bounded :: "'h mailbox_sender \<Rightarrow> bool" where
  "mailbox_is_bounded tx = (case tx of Bounded _ \<Rightarrow> True | Unbounded _ \<Rightarrow> False)"

text \<open>The tail of every send: the counter of the signal's kind moves only on success.\<close>

definition after_send ::
  "bool \<Rightarrow> signal_kind \<Rightarrow> 'c mailbox_state \<Rightarrow> ('a, 'e) result \<times> 'c \<Rightarrow> ('a, 'e) result \<times> 'c mailbox_state" where
  "after_send metrics k st rc =
    (let (res, c) = rc; st = st\<lparr>mb_chan := c\<rparr>
     in (res, if metrics \<and> is_ok res then apply_metric k st else st))"

definition mailbox_send ::
  "('h, 'k, 'r, 'v signal, 'c) mpsc_send \<Rightarrow> bool \<Rightarrow> 'h mailbox_sender \<Rightarrow> 'v signal \<Rightarrow> 'c mailbox_state
    \<Rightarrow> ((unit, 'v signal) result \<times> 'c mailbox_state) option" where
  "mailbox_send ops metrics tx signal st =
    map_option (after_send metrics (kind_of_signal signal) st)
      (case tx of
         Bounded h \<Rightarrow> mp_send ops h signal (mb_chan st)
       | Unbounded h \<Rightarrow> Some (mp_usend ops h signal (mb_chan st)))"

definition mailbox_try_send ::
  "('h, 'k, 'r, 'v signal, 'c) mpsc_send \<Rightarrow> bool \<Rightarrow> 'h mailbox_sender \<Rightarrow> 'v signal \<Rightarrow> 'c mailbox_state
    \<Rightarrow> (unit, 'v signal try_send_error) result \<times> 'c mailbox_state" where
  "mailbox_try_send ops metrics tx signal st =
    after_send metrics (kind_of_signal signal) st
      (case tx of
         Bounded h \<Rightarrow> mp_try_send ops h signal (mb_chan st)
       | Unbounded h \<Rightarrow> (let (r, c) = mp_usend ops h signal (mb_chan st) in (map_err TryClosed r, c)))"

definition mailbox_send_timeout ::
  "('h, 'k, 'r, 'v signal, 'c) mpsc_send \<Rightarrow> bool \<Rightarrow> 'h mailbox_sender \<Rightarrow> 'v signal \<Rightarrow> nat
    \<Rightarrow> 'c mailbox_state \<Rightarrow> (unit, 'v signal send_timeout_error) result \<times> 'c mailbox_state" where
  "mailbox_send_timeout ops metrics tx signal timeout st =
    after_send metrics (kind_of_signal signal) st
      (case tx of
         Bounded h \<Rightarrow> mp_send_timeout ops h signal timeout (mb_chan st)
       | Unbounded h \<Rightarrow>
           (let (r, c) = mp_usend ops h signal (mb_chan st) in (map_err SendTimeoutClosed r, c)))"

definition mailbox_blocking_send ::
  "('h, 'k, 'r, 'v signal, 'c) mpsc_send \<Rightarrow> bool \<Rightarrow> 'h mailbox_sender \<Rightarrow> 'v signal \<Rightarrow> 'c mailbox_state
    \<Rightarrow> ((unit, 'v signal) result \<times> 'c mailbox_state) option" where
  "mailbox_blocking_send ops metrics tx signal st =
    map_option (after_send metrics (kind_of_signal signal) st)
      (case tx of
         Bounded h \<Rightarrow> mp_blocking_send ops h signal (mb_chan st)
       | Unbounded h \<Rightarrow> Some (mp_usend ops h signal (mb_chan st)))"

fun sender_handle :: "'h mailbox_sender \<Rightarrow> 'h" where
  "sender_handle (Bounded h) = h"
| "sender_handle (Unbounded h) = h"

text \<open>
  The queries pass through to tokio on either arm; two senders of different kinds are never of
  one channel and an unbounded mailbox has no capacity.
\<close>

definition mailbox_closed ::
  "('h, 'k, 'r, 'v signal, 'c) mpsc_send \<Rightarrow> 'h mailbox_sender \<Rightarrow> 'c \<Rightarrow> (unit \<times> 'c) option" where
  "mailbox_closed ops tx c =
    (case tx of Bounded h \<Rightarrow> mp_closed ops h c | Unbounded h \<Rightarrow> mp_closed ops h c)"

definition mailbox_is_closed :: "('h, 'k, 'r, 'v signal, 'c) mpsc_send \<Rightarrow> 'h mailbox_sender \<Rightarrow> 'c \<Rightarrow> bool" where
  "mailbox_is_closed ops tx c =
    (case tx of Bounded h \<Rightarrow> mp_is_closed ops h c | Unbounded h \<Rightarrow> mp_is_closed ops h c)"

fun mailbox_same_channel ::
  "('h, 'k, 'c) mpsc_handles \<Rightarrow> 'h mailbox_sender \<Rightarrow> 'h mailbox_sender \<Rightarrow> bool" where
  "mailbox_same_channel ops (Bounded a) (Bounded b) = mp_same_channel ops a b"
| "mailbox_same_channel ops (Bounded _) (Unbounded _) = False"
| "mailbox_same_channel ops (Unbounded _) (Bounded _) = False"
| "mailbox_same_channel ops (Unbounded a) (Unbounded b) = mp_same_channel ops a b"

definition mailbox_capacity :: "('h, 'k, 'c) mpsc_handles \<Rightarrow> 'h mailbox_sender \<Rightarrow> 'c \<Rightarrow> nat option" where
  "mailbox_capacity ops tx c =
    (case tx of Bounded h \<Rightarrow> Some (mp_capacity ops h c) | Unbounded _ \<Rightarrow> None)"

definition mailbox_downgrade ::
  "('h, 'k, 'c) mpsc_handles \<Rightarrow> 'h mailbox_sender \<Rightarrow> 'c \<Rightarrow> 'k weak_mailbox_sender \<times> 'c" where
  "mailbox_downgrade ops tx c =
    (case tx of
       Bounded h \<Rightarrow> map_prod WeakBounded id (mp_downgrade ops h c)
     | Unbounded h \<Rightarrow> map_prod WeakUnbounded id (mp_downgrade ops h c))"

definition mailbox_clone ::
  "('h, 'k, 'c) mpsc_handles \<Rightarrow> 'h mailbox_sender \<Rightarrow> 'c \<Rightarrow> 'h mailbox_sender \<times> 'c" where
  "mailbox_clone ops tx c =
    (case tx of
       Bounded h \<Rightarrow> map_prod Bounded id (mp_clone ops h c)
     | Unbounded h \<Rightarrow> map_prod Unbounded id (mp_clone ops h c))"

definition mailbox_strong_count :: "('h, 'k, 'c) mpsc_handles \<Rightarrow> 'h mailbox_sender \<Rightarrow> 'c \<Rightarrow> nat" where
  "mailbox_strong_count ops tx c =
    (case tx of Bounded h \<Rightarrow> mp_strong_count ops h c | Unbounded h \<Rightarrow> mp_strong_count ops h c)"

definition mailbox_weak_count :: "('h, 'k, 'c) mpsc_handles \<Rightarrow> 'h mailbox_sender \<Rightarrow> 'c \<Rightarrow> nat" where
  "mailbox_weak_count ops tx c =
    (case tx of Bounded h \<Rightarrow> mp_weak_count ops h c | Unbounded h \<Rightarrow> mp_weak_count ops h c)"

definition weak_upgrade ::
  "('h, 'k, 'r, 'v signal, 'c) mpsc_send \<Rightarrow> 'k weak_mailbox_sender \<Rightarrow> 'c \<Rightarrow> 'h mailbox_sender option \<times> 'c" where
  "weak_upgrade ops wtx c =
    (case wtx of
       WeakBounded k \<Rightarrow> map_prod (map_option Bounded) id (mp_upgrade ops k c)
     | WeakUnbounded k \<Rightarrow> map_prod (map_option Unbounded) id (mp_upgrade ops k c))"

definition weak_strong_count :: "('h, 'k, 'c) mpsc_handles \<Rightarrow> 'k weak_mailbox_sender \<Rightarrow> 'c \<Rightarrow> nat" where
  "weak_strong_count ops wtx c =
    (case wtx of WeakBounded k \<Rightarrow> mp_weak_strong_count ops k c
               | WeakUnbounded k \<Rightarrow> mp_weak_strong_count ops k c)"

definition weak_weak_count :: "('h, 'k, 'c) mpsc_handles \<Rightarrow> 'k weak_mailbox_sender \<Rightarrow> 'c \<Rightarrow> nat" where
  "weak_weak_count ops wtx c =
    (case wtx of WeakBounded k \<Rightarrow> mp_weak_weak_count ops k c
               | WeakUnbounded k \<Rightarrow> mp_weak_weak_count ops k c)"

definition weak_clone ::
  "('h, 'k, 'c) mpsc_handles \<Rightarrow> 'k weak_mailbox_sender \<Rightarrow> 'c \<Rightarrow> 'k weak_mailbox_sender \<times> 'c" where
  "weak_clone ops wtx c =
    (case wtx of
       WeakBounded k \<Rightarrow> map_prod WeakBounded id (mp_clone_weak ops k c)
     | WeakUnbounded k \<Rightarrow> map_prod WeakUnbounded id (mp_clone_weak ops k c))"


section \<open>The receiver\<close>

definition mailbox_recv ::
  "('r, 'v signal, 'c) mpsc_recv \<Rightarrow> bool \<Rightarrow> 'r mailbox_receiver \<Rightarrow> 'c mailbox_state
    \<Rightarrow> ('v signal option \<times> 'c mailbox_state) option" where
  "mailbox_recv ops metrics rx st =
    map_option
      (\<lambda>(signal, c). let st = st\<lparr>mb_chan := c\<rparr> in
        (signal, case signal of Some s \<Rightarrow> if metrics then count_received s st else st | None \<Rightarrow> st))
      (case rx of BoundedRx r \<Rightarrow> mp_recv ops r (mb_chan st) | UnboundedRx r \<Rightarrow> mp_recv ops r (mb_chan st))"

definition mailbox_blocking_recv ::
  "('r, 'v signal, 'c) mpsc_recv \<Rightarrow> bool \<Rightarrow> 'r mailbox_receiver \<Rightarrow> 'c mailbox_state
    \<Rightarrow> ('v signal option \<times> 'c mailbox_state) option" where
  "mailbox_blocking_recv ops metrics rx st =
    map_option
      (\<lambda>(signal, c). let st = st\<lparr>mb_chan := c\<rparr> in
        (signal, case signal of Some s \<Rightarrow> if metrics then count_received s st else st | None \<Rightarrow> st))
      (case rx of BoundedRx r \<Rightarrow> mp_blocking_recv ops r (mb_chan st)
                | UnboundedRx r \<Rightarrow> mp_blocking_recv ops r (mb_chan st))"

definition mailbox_try_recv ::
  "('r, 'v signal, 'c) mpsc_recv \<Rightarrow> bool \<Rightarrow> 'r mailbox_receiver \<Rightarrow> 'c mailbox_state
    \<Rightarrow> ('v signal, try_recv_error) result \<times> 'c mailbox_state" where
  "mailbox_try_recv ops metrics rx st =
    (let (res, c) = (case rx of BoundedRx r \<Rightarrow> mp_try_recv ops r (mb_chan st)
                              | UnboundedRx r \<Rightarrow> mp_try_recv ops r (mb_chan st));
         st = st\<lparr>mb_chan := c\<rparr>
     in (res, case res of Ok s \<Rightarrow> if metrics then count_received s st else st | Err _ \<Rightarrow> st))"

definition mailbox_poll_recv ::
  "('r, 'v signal, 'c) mpsc_recv \<Rightarrow> bool \<Rightarrow> 'r mailbox_receiver \<Rightarrow> 'c mailbox_state
    \<Rightarrow> ('v signal option) poll \<times> 'c mailbox_state" where
  "mailbox_poll_recv ops metrics rx st =
    (let (poll, c) = (case rx of BoundedRx r \<Rightarrow> mp_poll_recv ops r (mb_chan st)
                               | UnboundedRx r \<Rightarrow> mp_poll_recv ops r (mb_chan st));
         st = st\<lparr>mb_chan := c\<rparr>
     in (poll, case poll of
                 Ready (Some s) \<Rightarrow> if metrics then count_received s st else st
               | Ready None \<Rightarrow> st
               | Pending \<Rightarrow> st))"

text \<open>
  Counting a batch reads the slice \<open>buffer[len - 1 - count..len - 1]\<close>. Where \<open>len - 1 - count\<close>
  is negative the subtraction overflows, and the slice is out of range: both unwind.
\<close>

definition count_batch :: "'v signal list \<Rightarrow> nat \<Rightarrow> 'c mailbox_state \<Rightarrow> 'c mailbox_state outcome" where
  "count_batch buffer n st =
    (let len = length buffer
     in if len < 1 + n then Panicked
        else Done (fold count_received (take n (drop (len - 1 - n) buffer)) st))"

definition after_recv_many ::
  "bool \<Rightarrow> 'v signal list \<Rightarrow> 'c mailbox_state \<Rightarrow> 'v signal list \<times> 'c
    \<Rightarrow> (nat \<times> 'v signal list \<times> 'c mailbox_state) outcome" where
  "after_recv_many metrics buffer st rc =
    (let (new, c) = rc; st = st\<lparr>mb_chan := c\<rparr>; buffer = buffer @ new; n = length new
     in if metrics
        then (case count_batch buffer n st of
                Panicked \<Rightarrow> Panicked
              | Done st \<Rightarrow> Done (n, buffer, st))
        else Done (n, buffer, st))"

definition mailbox_recv_many ::
  "('r, 'v signal, 'c) mpsc_recv \<Rightarrow> bool \<Rightarrow> 'r mailbox_receiver \<Rightarrow> 'v signal list \<Rightarrow> nat \<Rightarrow> 'c mailbox_state
    \<Rightarrow> (nat \<times> 'v signal list \<times> 'c mailbox_state) outcome option" where
  "mailbox_recv_many ops metrics rx buffer limit st =
    map_option (after_recv_many metrics buffer st)
      (case rx of BoundedRx r \<Rightarrow> mp_recv_many ops r limit (mb_chan st)
                | UnboundedRx r \<Rightarrow> mp_recv_many ops r limit (mb_chan st))"

definition mailbox_blocking_recv_many ::
  "('r, 'v signal, 'c) mpsc_recv \<Rightarrow> bool \<Rightarrow> 'r mailbox_receiver \<Rightarrow> 'v signal list \<Rightarrow> nat \<Rightarrow> 'c mailbox_state
    \<Rightarrow> (nat \<times> 'v signal list \<times> 'c mailbox_state) outcome option" where
  "mailbox_blocking_recv_many ops metrics rx buffer limit st =
    map_option (after_recv_many metrics buffer st)
      (case rx of BoundedRx r \<Rightarrow> mp_blocking_recv_many ops r limit (mb_chan st)
                | UnboundedRx r \<Rightarrow> mp_blocking_recv_many ops r limit (mb_chan st))"

definition mailbox_poll_recv_many ::
  "('r, 'v signal, 'c) mpsc_recv \<Rightarrow> bool \<Rightarrow> 'r mailbox_receiver \<Rightarrow> 'v signal list \<Rightarrow> nat \<Rightarrow> 'c mailbox_state
    \<Rightarrow> (nat poll \<times> 'v signal list \<times> 'c mailbox_state) outcome" where
  "mailbox_poll_recv_many ops metrics rx buffer limit st =
    (case (case rx of BoundedRx r \<Rightarrow> mp_poll_recv_many ops r limit (mb_chan st)
                    | UnboundedRx r \<Rightarrow> mp_poll_recv_many ops r limit (mb_chan st)) of
       (Pending, c) \<Rightarrow> Done (Pending, buffer, st\<lparr>mb_chan := c\<rparr>)
     | (Ready new, c) \<Rightarrow>
         (case after_recv_many metrics buffer st (new, c) of
            Panicked \<Rightarrow> Panicked
          | Done (n, buffer, st) \<Rightarrow> Done (Ready n, buffer, st)))"

definition mailbox_close :: "('r, 'v signal, 'c) mpsc_recv \<Rightarrow> 'r mailbox_receiver \<Rightarrow> 'c \<Rightarrow> 'c" where
  "mailbox_close ops rx c =
    (case rx of BoundedRx r \<Rightarrow> mp_close ops r c | UnboundedRx r \<Rightarrow> mp_close ops r c)"

definition mailbox_rx_is_closed :: "('r, 'v signal, 'c) mpsc_recv \<Rightarrow> 'r mailbox_receiver \<Rightarrow> 'c \<Rightarrow> bool" where
  "mailbox_rx_is_closed ops rx c =
    (case rx of BoundedRx r \<Rightarrow> mp_rx_is_closed ops r c | UnboundedRx r \<Rightarrow> mp_rx_is_closed ops r c)"

definition mailbox_is_empty :: "('r, 'v signal, 'c) mpsc_recv \<Rightarrow> 'r mailbox_receiver \<Rightarrow> 'c \<Rightarrow> bool" where
  "mailbox_is_empty ops rx c =
    (case rx of BoundedRx r \<Rightarrow> mp_is_empty ops r c | UnboundedRx r \<Rightarrow> mp_is_empty ops r c)"

definition mailbox_len :: "('r, 'v signal, 'c) mpsc_recv \<Rightarrow> 'r mailbox_receiver \<Rightarrow> 'c \<Rightarrow> nat" where
  "mailbox_len ops rx c =
    (case rx of BoundedRx r \<Rightarrow> mp_len ops r c | UnboundedRx r \<Rightarrow> mp_len ops r c)"

definition mailbox_sender_counts ::
  "('r, 'v signal, 'c) mpsc_recv \<Rightarrow> 'r mailbox_receiver \<Rightarrow> 'c \<Rightarrow> nat \<times> nat" where
  "mailbox_sender_counts ops rx c =
    (case rx of BoundedRx r \<Rightarrow> (mp_rx_strong_count ops r c, mp_rx_weak_count ops r c)
              | UnboundedRx r \<Rightarrow> (mp_rx_strong_count ops r c, mp_rx_weak_count ops r c))"


section \<open>Control signals\<close>

text \<open>
  \<open>SignalMailbox\<close>: the control signals go to the channel directly, so the send counters do not
  see them. A reference that is weak is upgraded first.
\<close>

definition signal_startup_finished ::
  "('h, 'k, 'r, 'v signal, 'c) mpsc_send \<Rightarrow> 'h mailbox_sender \<Rightarrow> 'c \<Rightarrow> (unit, (unit, 'e) send_error) result \<times> 'c" where
  "signal_startup_finished ops tx c =
    (case tx of
       Bounded h \<Rightarrow>
         (let (r, c) = mp_try_send ops h StartupFinished c
          in (map_err (\<lambda>err. case err of TryFull _ \<Rightarrow> MailboxFull () | TryClosed _ \<Rightarrow> ActorNotRunning ()) r, c))
     | Unbounded h \<Rightarrow>
         (let (r, c) = mp_usend ops h StartupFinished c in (map_err (\<lambda>_. ActorNotRunning ()) r, c)))"

definition send_control ::
  "('h, 'k, 'r, 'v signal, 'c) mpsc_send \<Rightarrow> 'h mailbox_sender \<Rightarrow> 'v signal \<Rightarrow> 'c
    \<Rightarrow> ((unit, (unit, 'e) send_error) result \<times> 'c) option" where
  "send_control ops tx signal c =
    map_option (map_prod (map_err (\<lambda>_. ActorNotRunning ())) id)
      (case tx of
         Bounded h \<Rightarrow> mp_send ops h signal c
       | Unbounded h \<Rightarrow> Some (mp_usend ops h signal c))"

definition signal_link_died ::
  "('h, 'k, 'r, 'v signal, 'c) mpsc_send \<Rightarrow> 'h mailbox_sender \<Rightarrow> actor_id \<Rightarrow> 'v stop_reason \<Rightarrow> 'c
    \<Rightarrow> ((unit, (unit, 'e) send_error) result \<times> 'c) option" where
  "signal_link_died ops tx i reason c = send_control ops tx (LinkDied i reason) c"

definition signal_link_established ::
  "('h, 'k, 'r, 'v signal, 'c) mpsc_send \<Rightarrow> 'h mailbox_sender \<Rightarrow> actor_id \<Rightarrow> 'c
    \<Rightarrow> ((unit, (unit, 'e) send_error) result \<times> 'c) option" where
  "signal_link_established ops tx i c = send_control ops tx (LinkEstablished i) c"

definition signal_stop ::
  "('h, 'k, 'r, 'v signal, 'c) mpsc_send \<Rightarrow> 'h mailbox_sender \<Rightarrow> 'c
    \<Rightarrow> ((unit, (unit, 'e) send_error) result \<times> 'c) option" where
  "signal_stop ops tx c = send_control ops tx Stop c"

text \<open>The upgraded handle is dropped after the send, which the channel world accounts for.\<close>

definition weak_signal_startup_finished ::
  "('h, 'k, 'r, 'v signal, 'c) mpsc_send \<Rightarrow> 'k weak_mailbox_sender \<Rightarrow> 'c
    \<Rightarrow> (unit, (unit, 'e) send_error) result \<times> 'c" where
  "weak_signal_startup_finished ops wtx c =
    (case weak_upgrade ops wtx c of
       (Some tx, c) \<Rightarrow> signal_startup_finished ops tx c
     | (None, c) \<Rightarrow> (Err (ActorNotRunning ()), c))"

definition weak_signal_link_died ::
  "('h, 'k, 'r, 'v signal, 'c) mpsc_send \<Rightarrow> 'k weak_mailbox_sender \<Rightarrow> actor_id \<Rightarrow> 'v stop_reason \<Rightarrow> 'c
    \<Rightarrow> ((unit, (unit, 'e) send_error) result \<times> 'c) option" where
  "weak_signal_link_died ops wtx i reason c =
    (case weak_upgrade ops wtx c of
       (Some tx, c) \<Rightarrow> signal_link_died ops tx i reason c
     | (None, c) \<Rightarrow> Some (Err (ActorNotRunning ()), c))"

definition weak_signal_link_established ::
  "('h, 'k, 'r, 'v signal, 'c) mpsc_send \<Rightarrow> 'k weak_mailbox_sender \<Rightarrow> actor_id \<Rightarrow> 'c
    \<Rightarrow> ((unit, (unit, 'e) send_error) result \<times> 'c) option" where
  "weak_signal_link_established ops wtx i c =
    (case weak_upgrade ops wtx c of
       (Some tx, c) \<Rightarrow> signal_link_established ops tx i c
     | (None, c) \<Rightarrow> Some (Err (ActorNotRunning ()), c))"

definition weak_signal_stop ::
  "('h, 'k, 'r, 'v signal, 'c) mpsc_send \<Rightarrow> 'k weak_mailbox_sender \<Rightarrow> 'c
    \<Rightarrow> ((unit, (unit, 'e) send_error) result \<times> 'c) option" where
  "weak_signal_stop ops wtx c =
    (case weak_upgrade ops wtx c of
       (Some tx, c) \<Rightarrow> signal_stop ops tx c
     | (None, c) \<Rightarrow> Some (Err (ActorNotRunning ()), c))"


section \<open>Sends back to typed errors\<close>

text \<open>
  The \<open>From\<close> conversions of a failed send into a \<open>SendError<M, E>\<close>: the signal is downcast
  to the message type \<open>t\<close> and the result is unwrapped.
\<close>

definition from_mpsc_send_error :: "type_id \<Rightarrow> 'v signal \<Rightarrow> ('v, 'e) send_error outcome" where
  "from_mpsc_send_error t signal = map_outcome ActorNotRunning (unwrap (downcast_message t signal))"

fun from_try_send_error :: "type_id \<Rightarrow> 'v signal try_send_error \<Rightarrow> ('v, 'e) send_error outcome" where
  "from_try_send_error t (TryFull signal) = map_outcome MailboxFull (unwrap (downcast_message t signal))"
| "from_try_send_error t (TryClosed signal) =
    map_outcome ActorNotRunning (unwrap (downcast_message t signal))"

fun from_send_timeout_error ::
  "type_id \<Rightarrow> 'v signal send_timeout_error \<Rightarrow> ('v, 'e) send_error outcome" where
  "from_send_timeout_error t (SendTimedOut signal) =
    map_outcome (\<lambda>m. Timeout (Some m)) (unwrap (downcast_message t signal))"
| "from_send_timeout_error t (SendTimeoutClosed signal) =
    map_outcome ActorNotRunning (unwrap (downcast_message t signal))"

text \<open>A reply channel that closes and an elapsed reply timeout.\<close>

definition from_recv_error :: "('m, 'e) send_error" where
  "from_recv_error = ActorStopped"

definition from_elapsed :: "('m, 'e) send_error" where
  "from_elapsed = Timeout None"


section \<open>Lemmas\<close>

lemma from_mpsc_send_error_Panicked:
  "from_mpsc_send_error t signal = Panicked \<longleftrightarrow> downcast_message t signal = None"
  by (simp add: from_mpsc_send_error_def)

lemma downcast_message_Some:
  "downcast_message t s = Some v \<longleftrightarrow> (\<exists>r i b. s = MessageSignal (Any t v) r i b)"
  by (cases s) (auto simp: any_downcast_Some)

lemma count_batch_window:
  assumes "buffer \<noteq> []"
  shows "count_batch (buffer @ new) (length new) st =
    Done (fold count_received (butlast (last buffer # new)) st)"
proof -
  obtain front b where b: "buffer = front @ [b]"
    using assms by (cases buffer rule: rev_cases) auto
  have "drop (length buffer - 1) (buffer @ new) = last buffer # new"
    by (simp add: b)
  then show ?thesis
    using assms by (simp add: count_batch_def Let_def butlast_conv_take b)
qed

lemma count_batch_empty: "count_batch new (length new) st = Panicked"
  by (simp add: count_batch_def)

lemma mb_chan_count_received [simp]: "mb_chan (fold count_received ss st) = mb_chan st"
  by (induction ss arbitrary: st) (simp_all add: count_received_def)

text \<open>Repeated sends and receives on one mailbox.\<close>

fun send_all ::
  "('h, 'k, 'r, 'v signal, 'c) mpsc_send \<Rightarrow> bool \<Rightarrow> 'h mailbox_sender \<Rightarrow> 'v signal list \<Rightarrow> 'c mailbox_state
    \<Rightarrow> 'c mailbox_state option" where
  "send_all ops metrics tx [] st = Some st"
| "send_all ops metrics tx (s # ss) st =
    (case mailbox_send ops metrics tx s st of
       Some (Ok _, st) \<Rightarrow> send_all ops metrics tx ss st
     | _ \<Rightarrow> None)"

fun recv_n ::
  "('r, 'v signal, 'c) mpsc_recv \<Rightarrow> bool \<Rightarrow> 'r mailbox_receiver \<Rightarrow> nat \<Rightarrow> 'c mailbox_state
    \<Rightarrow> ('v signal list \<times> 'c mailbox_state) option" where
  "recv_n ops metrics rx 0 st = Some ([], st)"
| "recv_n ops metrics rx (Suc n) st =
    (case mailbox_recv ops metrics rx st of
       Some (Some s, st) \<Rightarrow>
         (case recv_n ops metrics rx n st of
            Some (ss, st) \<Rightarrow> Some (s # ss, st)
          | None \<Rightarrow> None)
     | _ \<Rightarrow> None)"

text \<open>
  What tokio documents of an open channel with capacity \<open>cap\<close> (\<open>None\<close> when unbounded), whose
  content is \<open>q c\<close>: a send with room succeeds at once and goes to the back, a receive with
  something queued takes the front.
\<close>

definition open_fifo_channel ::
  "('h, 'k, 'r, 'v signal, 'c) mpsc_send \<Rightarrow> ('r, 'v signal, 'c) mpsc_recv \<Rightarrow> 'h mailbox_sender
    \<Rightarrow> 'r mailbox_receiver \<Rightarrow> ('c \<Rightarrow> 'v signal list) \<Rightarrow> nat option \<Rightarrow> bool" where
  "open_fifo_channel so ro tx rx q cap \<longleftrightarrow>
    (\<forall>s c. (case cap of None \<Rightarrow> True | Some n \<Rightarrow> length (q c) < n) \<longrightarrow>
      (\<exists>c'. q c' = q c @ [s] \<and>
        (case tx of Bounded h \<Rightarrow> mp_send so h s c = Some (Ok (), c')
                  | Unbounded h \<Rightarrow> mp_usend so h s c = (Ok (), c')))) \<and>
    (\<forall>c s ss. q c = s # ss \<longrightarrow>
      (\<exists>c'. q c' = ss \<and>
        (case rx of BoundedRx r \<Rightarrow> mp_recv ro r c | UnboundedRx r \<Rightarrow> mp_recv ro r c) = Some (Some s, c')))"

definition count_kinds :: "'v signal list \<Rightarrow> counters \<Rightarrow> counters" where
  "count_kinds ss c = fold (\<lambda>s. count_signal (kind_of_signal s)) ss c"

lemma fifo_send:
  assumes "open_fifo_channel so ro tx rx q cap" "case cap of None \<Rightarrow> True | Some n \<Rightarrow> length (q c) < n"
  obtains c' where "q c' = q c @ [s]"
    "case tx of Bounded h \<Rightarrow> mp_send so h s c = Some (Ok (), c') | Unbounded h \<Rightarrow> mp_usend so h s c = (Ok (), c')"
  using assms unfolding open_fifo_channel_def by blast

lemma fifo_recv:
  assumes "open_fifo_channel so ro tx rx q cap" "q c = s # ss"
  obtains c' where "q c' = ss"
    "(case rx of BoundedRx r \<Rightarrow> mp_recv ro r c | UnboundedRx r \<Rightarrow> mp_recv ro r c) = Some (Some s, c')"
  using assms unfolding open_fifo_channel_def by blast

lemma mailbox_send_Ok:
  assumes "case tx of Bounded h \<Rightarrow> mp_send so h s (mb_chan st) = Some (Ok (), c')
    | Unbounded h \<Rightarrow> mp_usend so h s (mb_chan st) = (Ok (), c')"
  shows "mailbox_send so metrics tx s st = Some (Ok (),
    if metrics then apply_metric (kind_of_signal s) (st\<lparr>mb_chan := c'\<rparr>) else st\<lparr>mb_chan := c'\<rparr>)"
  using assms by (cases tx) (simp_all add: mailbox_send_def after_send_def)

lemma send_all_fifo:
  assumes ch: "open_fifo_channel so ro tx rx q cap"
    and room: "case cap of None \<Rightarrow> True | Some n \<Rightarrow> length (q (mb_chan st)) + length ss \<le> n"
  shows "\<exists>st'. send_all so metrics tx ss st = Some st' \<and> q (mb_chan st') = q (mb_chan st) @ ss
    \<and> mb_sent st' = (if metrics then count_kinds ss (mb_sent st) else mb_sent st)
    \<and> mb_received st' = mb_received st"
  using room
proof (induction ss arbitrary: st)
  case (Cons s ss)
  have "case cap of None \<Rightarrow> True | Some n \<Rightarrow> length (q (mb_chan st)) < n"
    using Cons.prems by (cases cap) auto
  then obtain c' where c': "q c' = q (mb_chan st) @ [s]"
    "case tx of Bounded h \<Rightarrow> mp_send so h s (mb_chan st) = Some (Ok (), c')
      | Unbounded h \<Rightarrow> mp_usend so h s (mb_chan st) = (Ok (), c')"
    by (rule fifo_send [OF ch])
  define st1 where "st1 = (if metrics then apply_metric (kind_of_signal s) (st\<lparr>mb_chan := c'\<rparr>) else st\<lparr>mb_chan := c'\<rparr>)"
  have send: "mailbox_send so metrics tx s st = Some (Ok (), st1)"
    unfolding st1_def by (rule mailbox_send_Ok [OF c'(2)])
  have st1: "q (mb_chan st1) = q (mb_chan st) @ [s]" "mb_received st1 = mb_received st"
    "mb_sent st1 = (if metrics then count_signal (kind_of_signal s) (mb_sent st) else mb_sent st)"
    using c'(1) by (simp_all add: st1_def apply_metric_def)
  have "case cap of None \<Rightarrow> True | Some n \<Rightarrow> length (q (mb_chan st1)) + length ss \<le> n"
    using Cons.prems by (cases cap) (simp_all add: st1)
  from Cons.IH [OF this] obtain st' where "send_all so metrics tx ss st1 = Some st'"
    "q (mb_chan st') = q (mb_chan st1) @ ss" "mb_received st' = mb_received st1"
    "mb_sent st' = (if metrics then count_kinds ss (mb_sent st1) else mb_sent st1)"
    by blast
  moreover from this(1) have "send_all so metrics tx (s # ss) st = Some st'"
    using send by simp
  ultimately show ?case
    by (simp add: st1 count_kinds_def)
qed (simp add: count_kinds_def)

lemma recv_n_fifo:
  assumes ch: "open_fifo_channel so ro tx rx q cap" and queued: "q (mb_chan st) = ss @ rest"
  shows "\<exists>st'. recv_n ro metrics rx (length ss) st = Some (ss, st') \<and> q (mb_chan st') = rest
    \<and> mb_received st' = (if metrics then count_kinds ss (mb_received st) else mb_received st)
    \<and> mb_sent st' = mb_sent st"
  using queued
proof (induction ss arbitrary: st)
  case (Cons s ss)
  then have "q (mb_chan st) = s # (ss @ rest)" by simp
  then obtain c' where c': "q c' = ss @ rest"
    "(case rx of BoundedRx r \<Rightarrow> mp_recv ro r (mb_chan st) | UnboundedRx r \<Rightarrow> mp_recv ro r (mb_chan st))
      = Some (Some s, c')"
    by (rule fifo_recv [OF ch])
  define st1 where "st1 = (if metrics then count_received s (st\<lparr>mb_chan := c'\<rparr>) else st\<lparr>mb_chan := c'\<rparr>)"
  have recv: "mailbox_recv ro metrics rx st = Some (Some s, st1)"
    using c'(2) by (simp add: mailbox_recv_def st1_def Let_def)
  have st1: "q (mb_chan st1) = ss @ rest" "mb_sent st1 = mb_sent st"
    "mb_received st1 = (if metrics then count_signal (kind_of_signal s) (mb_received st) else mb_received st)"
    using c'(1) by (simp_all add: st1_def count_received_def)
  from Cons.IH [OF st1(1)] show ?case
    by (auto simp: recv st1 count_kinds_def)
qed (simp add: count_kinds_def)


section \<open>Properties\<close>

text \<open>
  A mailbox over an open FIFO channel with room delivers what is sent, in order, for bounded
  and unbounded mailboxes alike, and with metrics enabled the counters of both sides advance by
  the number of signals of each kind.
\<close>

theorem mailbox_delivers_in_order:
  assumes "open_fifo_channel so ro tx rx q cap" and "q (mb_chan st) = []"
    and "case cap of None \<Rightarrow> True | Some n \<Rightarrow> length ss \<le> n"
  shows "\<exists>st1 st2. send_all so metrics tx ss st = Some st1 \<and>
    recv_n ro metrics rx (length ss) st1 = Some (ss, st2) \<and>
    mb_sent st2 = (if metrics then count_kinds ss (mb_sent st) else mb_sent st) \<and>
    mb_received st2 = (if metrics then count_kinds ss (mb_received st) else mb_received st)"
proof -
  obtain st1 where st1: "send_all so metrics tx ss st = Some st1" "q (mb_chan st1) = ss @ []"
    "mb_sent st1 = (if metrics then count_kinds ss (mb_sent st) else mb_sent st)"
    "mb_received st1 = mb_received st"
    using send_all_fifo [OF assms(1), of st ss metrics] assms(2,3) by (cases cap) auto
  show ?thesis
    using recv_n_fifo [OF assms(1) st1(2), of metrics] st1 by auto
qed

text \<open>A concrete unbounded channel: the queue itself.\<close>

definition queue_send :: "(unit, 'k, unit, 's, 's list) mpsc_send" where
  "queue_send =
    \<lparr>mp_channel = (\<lambda>n c. if n = 0 then Panicked else Done (((), ()), c)), mp_unbounded_channel = (\<lambda>c. (((), ()), c)),
     mp_send = (\<lambda>h s c. Some (Ok (), c @ [s])), mp_try_send = (\<lambda>h s c. (Ok (), c @ [s])),
     mp_send_timeout = (\<lambda>h s t c. (Ok (), c @ [s])), mp_blocking_send = (\<lambda>h s c. Some (Ok (), c @ [s])),
     mp_usend = (\<lambda>h s c. (Ok (), c @ [s])), mp_closed = (\<lambda>h c. None), mp_is_closed = (\<lambda>h c. False),
     mp_upgrade = (\<lambda>k c. (Some (), c))\<rparr>"

definition queue_recv :: "(unit, 's, 's list) mpsc_recv" where
  "queue_recv =
    (let next = (\<lambda>c. case c of [] \<Rightarrow> None | s # ss \<Rightarrow> Some (Some s, ss));
         many = (\<lambda>n c. if c = [] then None else Some (take n c, drop n c))
     in \<lparr>mp_recv = (\<lambda>r c. next c), mp_recv_many = (\<lambda>r n c. many n c),
         mp_try_recv = (\<lambda>r c. case c of [] \<Rightarrow> (Err TryRecvEmpty, c) | s # ss \<Rightarrow> (Ok s, ss)),
         mp_blocking_recv = (\<lambda>r c. next c), mp_blocking_recv_many = (\<lambda>r n c. many n c),
         mp_poll_recv = (\<lambda>r c. case c of [] \<Rightarrow> (Pending, c) | s # ss \<Rightarrow> (Ready (Some s), ss)),
         mp_poll_recv_many = (\<lambda>r n c. if c = [] then (Pending, c) else (Ready (take n c), drop n c)),
         mp_close = (\<lambda>r c. c), mp_rx_is_closed = (\<lambda>r c. False), mp_is_empty = (\<lambda>r c. c = []),
         mp_len = (\<lambda>r c. length c), mp_rx_strong_count = (\<lambda>r c. 1), mp_rx_weak_count = (\<lambda>r c. 0)\<rparr>)"

lemma queue_is_fifo: "open_fifo_channel queue_send queue_recv (Unbounded ()) (UnboundedRx ()) (\<lambda>c. c) None"
  by (simp add: open_fifo_channel_def queue_send_def queue_recv_def Let_def)

definition empty_mailbox :: "'s list mailbox_state" where
  "empty_mailbox = \<lparr>mb_chan = [], mb_sent = \<lparr>c_messages = 0, c_lifecycle = 0, c_link_died = 0\<rparr>,
    mb_received = \<lparr>c_messages = 0, c_lifecycle = 0, c_link_died = 0\<rparr>\<rparr>"

theorem mailbox_delivers_in_order_witness:
  "\<exists>st1 st2. send_all queue_send True (Unbounded ()) [StartupFinished, Stop] (empty_mailbox :: nat signal list mailbox_state) = Some st1 \<and>
    recv_n queue_recv True (UnboundedRx ()) 2 st1 = Some ([StartupFinished, Stop], st2) \<and>
    c_lifecycle (mb_sent st2) = 2 \<and> c_lifecycle (mb_received st2) = 2"
  using mailbox_delivers_in_order [OF queue_is_fifo, of "empty_mailbox :: nat signal list mailbox_state"
      "[StartupFinished, Stop]" True]
  by (auto simp: empty_mailbox_def count_kinds_def numeral_2_eq_2)

text \<open>
  With metrics enabled a batch receive of a non-empty batch into an empty buffer unwinds, on
  every channel; into a buffer that already holds signals it succeeds, but counts the last signal
  that was there before instead of the last one received. Without metrics the batch is appended and
  its size returned.
\<close>

theorem batch_receive_counts_wrong_window:
  assumes "(case rx of BoundedRx r \<Rightarrow> mp_recv_many ops r limit (mb_chan st)
      | UnboundedRx r \<Rightarrow> mp_recv_many ops r limit (mb_chan st)) = Some (new, c)"
  shows "mailbox_recv_many ops True rx buffer limit st =
      Some (if buffer = [] then Panicked
            else Done (length new, buffer @ new,
              fold count_received (butlast (last buffer # new)) (st\<lparr>mb_chan := c\<rparr>))) \<and>
    mailbox_recv_many ops False rx buffer limit st =
      Some (Done (length new, buffer @ new, st\<lparr>mb_chan := c\<rparr>))"
  using assms
  by (simp_all add: mailbox_recv_many_def after_recv_many_def count_batch_empty count_batch_window Let_def)

theorem batch_receive_counts_wrong_window_witness:
  "mailbox_recv_many queue_recv True (UnboundedRx ()) [] 8 (empty_mailbox\<lparr>mb_chan := [Stop :: nat signal]\<rparr>)
    = Some Panicked"
  using batch_receive_counts_wrong_window [where rx = "UnboundedRx ()" and ops = queue_recv and limit = 8
      and st = "empty_mailbox\<lparr>mb_chan := [Stop :: nat signal]\<rparr>" and new = "[Stop]" and c = "[]" and buffer = "[]"]
  by (simp add: queue_recv_def Let_def)

end
