(* ===== verification/Registry.thy ===== *)
theory Registry
  imports Errors
begin

text \<open>
  The local actor registry (\<open>src/registry.rs\<close>) and the operations of an actor reference that use
  it (\<open>register_local\<close> and \<open>lookup\<close> in \<open>src/actor/actor_ref.rs\<close>). An entry is the actor's
  identifier and its reference as a dynamically typed value; the type of the actor is the tag.
\<close>

section \<open>State and operations\<close>

record registered_actor_ref =
  reg_id :: actor_id
  reg_actor_ref :: "actor_id any"

text \<open>An actor reference of actor type \<open>t\<close> is represented by the identity it points to.\<close>

definition registered_new :: "type_id \<Rightarrow> actor_id \<Rightarrow> registered_actor_ref" where
  "registered_new t r = \<lparr>reg_id = r, reg_actor_ref = Any t r\<rparr>"

definition registered_actor_ref :: "type_id \<Rightarrow> registered_actor_ref \<Rightarrow> actor_id option" where
  "registered_actor_ref t e = any_downcast t (reg_actor_ref e)"

type_synonym actor_registry = "(string, registered_actor_ref) hash_map"

definition registry_new :: actor_registry where
  "registry_new = []"

text \<open>The capacity is an allocation hint and not part of the state.\<close>

definition registry_with_capacity :: "nat \<Rightarrow> actor_registry" where
  "registry_with_capacity capacity = []"

definition registry_names :: "actor_registry \<Rightarrow> string list" where
  "registry_names r = hm_keys r"

definition registry_len :: "actor_registry \<Rightarrow> nat" where
  "registry_len r = length r"

definition registry_is_empty :: "actor_registry \<Rightarrow> bool" where
  "registry_is_empty r = (r = [])"

definition registry_clear :: "actor_registry \<Rightarrow> actor_registry" where
  "registry_clear r = []"

definition registry_get ::
  "type_id \<Rightarrow> string \<Rightarrow> actor_registry \<Rightarrow> (actor_id option, registry_error) result" where
  "registry_get t name r =
    (case hm_get r name of
       None \<Rightarrow> Ok None
     | Some e \<Rightarrow> map_ok Some (ok_or (registered_actor_ref t e) BadActorType))"

definition registry_contains_name :: "string \<Rightarrow> actor_registry \<Rightarrow> bool" where
  "registry_contains_name name r = hm_contains r name"

definition registry_insert :: "string \<Rightarrow> type_id \<Rightarrow> actor_id \<Rightarrow> actor_registry \<Rightarrow> bool \<times> actor_registry" where
  "registry_insert name t a r =
    (if hm_contains r name then (False, r)
     else (True, hm_insert name (registered_new t a) r))"

definition registry_remove :: "string \<Rightarrow> actor_registry \<Rightarrow> bool \<times> actor_registry" where
  "registry_remove name r = (hm_get r name \<noteq> None, hm_remove name r)"

text \<open>
  \<open>extract_if(..).next()\<close> removes the first entry that the iteration finds; the rest of the
  iterator is dropped and keeps its entries.
\<close>

fun registry_remove_by_id :: "actor_id \<Rightarrow> actor_registry \<Rightarrow> bool \<times> actor_registry" where
  "registry_remove_by_id i [] = (False, [])"
| "registry_remove_by_id i ((name, e) # r) =
    (if reg_id e = i then (True, r)
     else (let (found, r) = registry_remove_by_id i r in (found, (name, e) # r)))"

definition register_local ::
  "string \<Rightarrow> type_id \<Rightarrow> actor_id \<Rightarrow> actor_registry \<Rightarrow> (unit, registry_error) result \<times> actor_registry" where
  "register_local name t a r =
    (let (was_inserted, r) = registry_insert name t a r
     in (if \<not> was_inserted then Err NameAlreadyRegistered else Ok (), r))"

definition actor_lookup ::
  "type_id \<Rightarrow> string \<Rightarrow> actor_registry \<Rightarrow> (actor_id option, registry_error) result" where
  "actor_lookup t name r = registry_get t name r"


section \<open>Lemmas\<close>

text \<open>An entry's identifier is the one of the reference it holds.\<close>

definition registry_ok :: "actor_registry \<Rightarrow> bool" where
  "registry_ok r \<longleftrightarrow> hm_wf r \<and> (\<forall>(name, e) \<in> set r. \<exists>t. e = registered_new t (reg_id e))"

lemma registry_ok_Cons:
  "registry_ok ((name, e) # r) \<longleftrightarrow>
    name \<notin> set (hm_keys r) \<and> (\<exists>t. e = registered_new t (reg_id e)) \<and> registry_ok r"
  by (auto simp: registry_ok_def hm_wf_def)

lemma set_hm_remove: "set (hm_remove k m) \<subseteq> set m"
  by (auto simp: hm_remove_def AList.delete_eq)

lemma registry_ok_remove: "registry_ok r \<Longrightarrow> registry_ok (snd (registry_remove name r))"
  using set_hm_remove [of name r] by (auto simp: registry_remove_def registry_ok_def)

lemma registry_insert_ok: "registry_ok r \<Longrightarrow> registry_ok (snd (registry_insert name t a r))"
  by (auto simp: registry_insert_def registry_ok_def hm_insert_fresh hm_wf_def hm_keys_def
      registered_new_def)

lemma registry_remove_by_id_keys:
  "set (hm_keys (snd (registry_remove_by_id i r))) \<subseteq> set (hm_keys r)"
  by (induction r rule: registry_remove_by_id.induct) (auto split: prod.splits)

lemma registry_remove_by_id_ok: "registry_ok r \<Longrightarrow> registry_ok (snd (registry_remove_by_id i r))"
proof (induction r)
  case (Cons x r)
  obtain name e where x: "x = (name, e)" by force
  show ?case
    using Cons registry_remove_by_id_keys [of i r]
    by (auto simp: x registry_ok_Cons split: prod.splits)
qed simp

lemmas registry_ok_rules = registry_ok_remove registry_insert_ok registry_remove_by_id_ok


section \<open>Properties\<close>

text \<open>
  Registering under a name succeeds exactly when the name is free, keeps the registry well
  formed, and a successful registration is found under its name at its actor type only: every
  other type gives \<open>BadActorType\<close>, and every other name is looked up as before.
\<close>

theorem register_then_lookup:
  assumes "registry_ok r"
  shows "case register_local name t a r of
      (Err e, r') \<Rightarrow> e = NameAlreadyRegistered \<and> name \<in> set (registry_names r) \<and> r' = r
    | (Ok _, r') \<Rightarrow> name \<notin> set (registry_names r) \<and> registry_ok r' \<and>
        (\<forall>t' name'. actor_lookup t' name' r' =
          (if name' = name then (if t' = t then Ok (Some a) else Err BadActorType)
           else actor_lookup t' name' r))"
proof (cases "hm_contains r name")
  case True
  then show ?thesis
    by (simp add: register_local_def registry_insert_def registry_names_def)
next
  case False
  then show ?thesis
    using registry_insert_ok [OF assms, of name t a]
    by (simp add: register_local_def registry_insert_def registry_names_def actor_lookup_def
        registry_get_def registered_actor_ref_def registered_new_def)
qed

theorem register_then_lookup_witness:
  "actor_lookup (TyNamed 1) ''a'' (snd (register_local ''a'' (TyNamed 0) (ActorId 7) registry_new))
    = Err BadActorType"
proof -
  have "registry_ok registry_new" by (simp add: registry_ok_def registry_new_def)
  from register_then_lookup [OF this, of "''a''" "TyNamed 0" "ActorId 7"] show ?thesis
    by (simp add: register_local_def registry_insert_def registry_new_def split: prod.splits)
qed

text \<open>
  Removing by identifier takes away at most one entry: the number of names the actor is
  registered under drops by exactly one when it had any, and the result says whether it had, so an
  actor registered under two names stays reachable after the call.
\<close>

theorem remove_by_id_removes_one:
  "case registry_remove_by_id i r of (found, r') \<Rightarrow>
    length (filter (\<lambda>(_, e). reg_id e = i) r') = length (filter (\<lambda>(_, e). reg_id e = i) r) - 1 \<and>
    filter (\<lambda>(_, e). reg_id e \<noteq> i) r' = filter (\<lambda>(_, e). reg_id e \<noteq> i) r \<and>
    found = (\<exists>(_, e) \<in> set r. reg_id e = i)"
proof (induction r rule: registry_remove_by_id.induct)
  case (2 i name e r)
  show ?case
  proof (cases "reg_id e = i")
    case False
    with 2 show ?thesis by (auto split: prod.splits)
  qed simp
qed simp

end
