(* ===== verification/Links.thy ===== *)
theory Links
  imports Mailbox
begin

text \<open>
  Links between actors (\<open>link\<close>, \<open>blocking_link\<close>, \<open>unlink\<close>, \<open>blocking_unlink\<close> in
  \<open>src/actor/actor_ref.rs\<close>; the drain at the end of an actor's life in \<open>src/actor/spawn.rs\<close>
  and the removal on a \<open>LinkDied\<close> signal in \<open>src/actor/kind.rs\<close>). Every actor has a table of
  links behind its own lock. The operations are modelled with the order in which they take the two
  locks; the protocol of linking, ending and delivering notices, starts that fail and hooks that unwind
  included, is a step relation.
\<close>

section \<open>Link tables\<close>

text \<open>
  A local link holds the weak mailbox of the linked actor, which its identifier stands for.
\<close>

datatype link = LocalLink actor_id

type_synonym links = "(actor_id, link) hash_map"
type_synonym link_tables = "actor_id \<Rightarrow> links"

definition link_lock_order :: "actor_id \<Rightarrow> actor_id \<Rightarrow> actor_id list" where
  "link_lock_order self sibbling =
    (if self = sibbling then []
     else if self < sibbling then [self, sibbling]
     else [sibbling, self])"

definition link_actors :: "actor_id \<Rightarrow> actor_id \<Rightarrow> link_tables \<Rightarrow> link_tables" where
  "link_actors self sibbling ls =
    (if self = sibbling then ls
     else
       let this_links = hm_insert sibbling (LocalLink sibbling) (ls self);
           sibbling_links = hm_insert self (LocalLink self) (ls sibbling)
       in ls(self := this_links, sibbling := sibbling_links))"

definition unlink_actors :: "actor_id \<Rightarrow> actor_id \<Rightarrow> link_tables \<Rightarrow> link_tables" where
  "unlink_actors self sibbling ls =
    (if self = sibbling then ls
     else
       let this_links = hm_remove sibbling (ls self);
           sibbling_links = hm_remove self (ls sibbling)
       in ls(self := this_links, sibbling := sibbling_links))"

text \<open>The blocking variants wait for the same locks in the same order and do the same.\<close>

definition blocking_link_actors :: "actor_id \<Rightarrow> actor_id \<Rightarrow> link_tables \<Rightarrow> link_tables" where
  "blocking_link_actors self sibbling ls = link_actors self sibbling ls"

definition blocking_unlink_actors :: "actor_id \<Rightarrow> actor_id \<Rightarrow> link_tables \<Rightarrow> link_tables" where
  "blocking_unlink_actors self sibbling ls = unlink_actors self sibbling ls"

text \<open>The end of an actor's life drains its table; each drained link is notified.\<close>

definition drain_links :: "actor_id \<Rightarrow> link_tables \<Rightarrow> (actor_id \<times> link) list \<times> link_tables" where
  "drain_links self ls = (ls self, ls(self := []))"

text \<open>Handling a \<open>LinkDied\<close> signal removes the dead actor from the handler's table.\<close>

definition remove_dead_link :: "actor_id \<Rightarrow> actor_id \<Rightarrow> link_tables \<Rightarrow> link_tables" where
  "remove_dead_link self dead ls = ls(self := hm_remove dead (ls self))"


section \<open>The linking protocol\<close>

text \<open>
  Where an actor is in its life, as far as its links are concerned (\<open>run_actor_lifecycle\<close> in
  \<open>src/actor/spawn.rs\<close>): before its loop runs; in its loop; in the hook for a \<open>LinkDied\<close> signal,
  before the entry of the dead actor is removed; out of its loop with the table not drained yet;
  in \<open>on_stop\<close> with the notices for the drained links prepared; waiting for the notices still to
  be sent. \<open>Crashed\<close> is an actor whose task ended before the drain (\<open>on_start\<close> failed or
  unwound, \<open>on_panic\<close> unwound), \<open>Untold\<close> one whose \<open>on_stop\<close> unwound after it.
\<close>

datatype life_phase =
  Starting
| Running
| Handling actor_id
| Leaving
| Stopping "actor_id list"
| Telling "actor_id list"
| Crashed
| Untold

fun can_receive :: "life_phase \<Rightarrow> bool" where
  "can_receive Starting = True"
| "can_receive Running = True"
| "can_receive (Handling _) = True"
| "can_receive _ = False"

fun drained :: "life_phase \<Rightarrow> bool" where
  "drained (Stopping _) = True"
| "drained (Telling _) = True"
| "drained Untold = True"
| "drained _ = False"

text \<open>
  The state of all actors together: their tables, their phases, the \<open>LinkDied\<close> signals that were
  sent and not yet received, as pairs of receiver and dead actor, and all that were ever sent. One sent
  to a mailbox that is closed is dropped.
\<close>

record link_system =
  ls_tables :: link_tables
  ls_phase :: "actor_id \<Rightarrow> life_phase"
  ls_pending :: "(actor_id \<times> actor_id) list"
  ls_sent :: "(actor_id \<times> actor_id) list"

definition set_phase :: "actor_id \<Rightarrow> life_phase \<Rightarrow> link_system \<Rightarrow> link_system" where
  "set_phase a p s = s\<lparr>ls_phase := (ls_phase s)(a := p)\<rparr>"

text \<open>
  The steps, in any interleaving of the actors. Linking and unlinking need only references, so they
  may happen in every phase. \<open>cut\<close> is a loop aborted while the hook runs: the signal is gone and
  the entry stays. A task that is dropped altogether in \<open>Stopping\<close> or \<open>Telling\<close> takes no more steps.
\<close>

inductive link_step :: "link_system \<Rightarrow> link_system \<Rightarrow> bool" where
  link: "link_step s (s\<lparr>ls_tables := link_actors a b (ls_tables s)\<rparr>)"
| unlink: "link_step s (s\<lparr>ls_tables := unlink_actors a b (ls_tables s)\<rparr>)"
| started: "ls_phase s a = Starting \<Longrightarrow> link_step s (set_phase a Running s)"
| crash: "can_receive (ls_phase s a) \<Longrightarrow> link_step s (set_phase a Crashed s)"
| leave: "ls_phase s a = Running \<Longrightarrow> link_step s (set_phase a Leaving s)"
| drain: "ls_phase s a = Leaving \<Longrightarrow> drain_links a (ls_tables s) = (links, tables) \<Longrightarrow>
    link_step s (set_phase a (Stopping (map fst links)) (s\<lparr>ls_tables := tables\<rparr>))"
| stopped: "ls_phase s a = Stopping ids \<Longrightarrow> link_step s (set_phase a (Telling ids) s)"
| unwound: "ls_phase s a = Stopping ids \<Longrightarrow> link_step s (set_phase a Untold s)"
| tell: "ls_phase s a = Telling (pre @ b # post) \<Longrightarrow>
    link_step s (set_phase a (Telling (pre @ post))
      (s\<lparr>ls_pending := ls_pending s @ [(b, a)], ls_sent := ls_sent s @ [(b, a)]\<rparr>))"
| receive: "ls_phase s b = Running \<Longrightarrow> ls_pending s = pre @ (b, a) # post \<Longrightarrow>
    link_step s (set_phase b (Handling a) (s\<lparr>ls_pending := pre @ post\<rparr>))"
| handled: "ls_phase s b = Handling a \<Longrightarrow>
    link_step s (set_phase b Running (s\<lparr>ls_tables := remove_dead_link b a (ls_tables s)\<rparr>))"
| cut: "ls_phase s b = Handling a \<Longrightarrow> link_step s (set_phase b Leaving s)"
| dropped: "\<not> can_receive (ls_phase s b) \<Longrightarrow> ls_pending s = pre @ (b, a) # post \<Longrightarrow>
    link_step s (s\<lparr>ls_pending := pre @ post\<rparr>)"

definition link_initial :: link_system where
  "link_initial = \<lparr>ls_tables = (\<lambda>a. []), ls_phase = (\<lambda>a. Starting), ls_pending = [], ls_sent = []\<rparr>"

inductive link_reachable :: "link_system \<Rightarrow> bool" where
  initial: "link_reachable link_initial"
| step: "link_reachable s \<Longrightarrow> link_step s s' \<Longrightarrow> link_reachable s'"

definition linked :: "link_system \<Rightarrow> actor_id \<Rightarrow> actor_id \<Rightarrow> bool" where
  "linked s a b = (b \<in> set (hm_keys (ls_tables s a)))"

definition tables_ok :: "link_tables \<Rightarrow> bool" where
  "tables_ok ls \<longleftrightarrow> (\<forall>a. hm_wf (ls a) \<and> (\<forall>(b, l) \<in> set (ls a). l = LocalLink b \<and> b \<noteq> a))"

text \<open>
  How \<open>a\<close> still comes to know of the end of \<open>b\<close>: \<open>b\<close> is about to tell it, the notice is on the
  way, or \<open>a\<close> is handling it.
\<close>

fun will_tell :: "life_phase \<Rightarrow> actor_id \<Rightarrow> bool" where
  "will_tell (Stopping ids) a = (a \<in> set ids)"
| "will_tell (Telling ids) a = (a \<in> set ids)"
| "will_tell _ a = False"

definition learns :: "link_system \<Rightarrow> actor_id \<Rightarrow> actor_id \<Rightarrow> bool" where
  "learns s a b \<longleftrightarrow> will_tell (ls_phase s b) a \<or> (a, b) \<in> set (ls_pending s) \<or> ls_phase s a = Handling b"

text \<open>What the phase of an actor says of the notices of its own end.\<close>

fun told_ok :: "(actor_id \<times> actor_id) list \<Rightarrow> actor_id \<Rightarrow> life_phase \<Rightarrow> bool" where
  "told_ok sent a (Telling ids) = (distinct ids \<and> (\<forall>b \<in> set ids. (b, a) \<notin> set sent))"
| "told_ok sent a (Stopping ids) = (distinct ids \<and> (\<forall>b. (b, a) \<notin> set sent))"
| "told_ok sent a _ = (\<forall>b. (b, a) \<notin> set sent)"

definition link_inv :: "link_system \<Rightarrow> bool" where
  "link_inv s \<longleftrightarrow> tables_ok (ls_tables s) \<and>
    (\<forall>a b. \<not> drained (ls_phase s a) \<longrightarrow> \<not> drained (ls_phase s b) \<longrightarrow> linked s a b \<longrightarrow> linked s b a) \<and>
    (\<forall>a b. can_receive (ls_phase s a) \<longrightarrow> drained (ls_phase s b) \<longrightarrow> linked s a b \<longrightarrow>
      linked s b a \<or> learns s a b \<or> ls_phase s b = Untold) \<and>
    (\<forall>(b, a) \<in> set (ls_pending s). (b, a) \<in> set (ls_sent s)) \<and>
    (\<forall>a b. ls_phase s b = Handling a \<longrightarrow> (b, a) \<in> set (ls_sent s)) \<and>
    (\<forall>a. told_ok (ls_sent s) a (ls_phase s a)) \<and> distinct (ls_sent s)"


section \<open>Lemmas\<close>

lemma tables_ok_insert:
  assumes "tables_ok ls" "a \<noteq> b"
  shows "tables_ok (ls(a := hm_insert b (LocalLink b) (ls a)))"
proof -
  have "(c, l) \<in> set (hm_insert b (LocalLink b) (ls a)) \<Longrightarrow> l = LocalLink c \<and> c \<noteq> a" for c l
    using assms hm_get_eq_Some_iff [of "hm_insert b (LocalLink b) (ls a)" c l]
      hm_get_eq_Some_iff [of "ls a" c l]
    by (auto simp: tables_ok_def split: if_splits)
  then show ?thesis
    using assms by (auto simp: tables_ok_def)
qed

lemma tables_ok_remove: "tables_ok ls \<Longrightarrow> tables_ok (ls(a := hm_remove b (ls a)))"
  by (auto simp: tables_ok_def hm_remove_def AList.delete_eq hm_wf_def hm_keys_def distinct_map_filter)

lemma tables_ok_link: "tables_ok ls \<Longrightarrow> tables_ok (link_actors a b ls)"
proof (cases "a = b")
  case False
  assume "tables_ok ls"
  then have "tables_ok (ls(a := hm_insert b (LocalLink b) (ls a)))"
    using False by (rule tables_ok_insert)
  from tables_ok_insert [OF this, of b a] False show ?thesis
    by (simp add: link_actors_def Let_def)
qed (simp add: link_actors_def)

lemma tables_ok_unlink: "tables_ok ls \<Longrightarrow> tables_ok (unlink_actors a b ls)"
proof (cases "a = b")
  case False
  assume "tables_ok ls"
  then have "tables_ok (ls(a := hm_remove b (ls a)))" by (rule tables_ok_remove)
  from tables_ok_remove [OF this, of b a] False show ?thesis
    by (simp add: unlink_actors_def Let_def)
qed (simp add: unlink_actors_def)

lemmas tables_ok_rules = tables_ok_link tables_ok_unlink tables_ok_remove

lemma keys_link_actors:
  "c \<in> set (hm_keys (link_actors a b ls d)) \<longleftrightarrow>
    (a \<noteq> b \<and> (d = a \<and> c = b \<or> d = b \<and> c = a)) \<or> c \<in> set (hm_keys (ls d))"
  by (auto simp: link_actors_def Let_def set_hm_keys_insert)

lemma keys_unlink_actors:
  "c \<in> set (hm_keys (unlink_actors a b ls d)) \<longleftrightarrow>
    \<not> (a \<noteq> b \<and> (d = a \<and> c = b \<or> d = b \<and> c = a)) \<and> c \<in> set (hm_keys (ls d))"
  by (auto simp: unlink_actors_def Let_def set_hm_keys_remove)

lemma keys_remove_dead:
  "c \<in> set (hm_keys (remove_dead_link b a ls d)) \<longleftrightarrow> \<not> (d = b \<and> c = a) \<and> c \<in> set (hm_keys (ls d))"
  by (auto simp: remove_dead_link_def set_hm_keys_remove)


section \<open>The invariant\<close>

lemma linked_simps:
  "linked (s\<lparr>ls_tables := link_actors a b (ls_tables s)\<rparr>) d c \<longleftrightarrow>
    (a \<noteq> b \<and> (d = a \<and> c = b \<or> d = b \<and> c = a)) \<or> linked s d c"
  "linked (s\<lparr>ls_tables := unlink_actors a b (ls_tables s)\<rparr>) d c \<longleftrightarrow>
    \<not> (a \<noteq> b \<and> (d = a \<and> c = b \<or> d = b \<and> c = a)) \<and> linked s d c"
  by (simp_all add: linked_def keys_link_actors keys_unlink_actors)

lemma linked_eq: "linked s a b \<longleftrightarrow> b \<in> fst ` set (ls_tables s a)"
  by (simp add: linked_def hm_keys_def)

lemma drained_told: "(b, a) \<in> set sent \<Longrightarrow> told_ok sent a p \<Longrightarrow> \<exists>ids. p = Telling ids"
  by (cases p) auto

lemma set_phase_simps [simp]:
  "ls_tables (set_phase a p s) = ls_tables s"
  "ls_pending (set_phase a p s) = ls_pending s"
  "ls_sent (set_phase a p s) = ls_sent s"
  "ls_phase (set_phase a p s) = (ls_phase s)(a := p)"
  by (simp_all add: set_phase_def)

text \<open>The clauses of the invariant one by one.\<close>

lemma link_invI:
  assumes "tables_ok (ls_tables s)"
    and "\<And>a b. \<not> drained (ls_phase s a) \<Longrightarrow> \<not> drained (ls_phase s b) \<Longrightarrow> linked s a b \<Longrightarrow> linked s b a"
    and "\<And>a b. can_receive (ls_phase s a) \<Longrightarrow> drained (ls_phase s b) \<Longrightarrow> linked s a b \<Longrightarrow> \<not> linked s b a \<Longrightarrow>
      ls_phase s b \<noteq> Untold \<Longrightarrow> learns s a b"
    and "\<And>b a. (b, a) \<in> set (ls_pending s) \<Longrightarrow> (b, a) \<in> set (ls_sent s)"
    and "\<And>b a. ls_phase s b = Handling a \<Longrightarrow> (b, a) \<in> set (ls_sent s)"
    and "\<And>a. told_ok (ls_sent s) a (ls_phase s a)"
    and "distinct (ls_sent s)"
  shows "link_inv s"
  using assms unfolding link_inv_def by blast

lemma inv_tables:
  assumes "link_inv s"
  shows "tables_ok (ls_tables s)"
  using assms unfolding link_inv_def by blast

lemma inv_mutual:
  assumes "link_inv s"
  shows "\<not> drained (ls_phase s a) \<Longrightarrow> \<not> drained (ls_phase s b) \<Longrightarrow> linked s a b \<Longrightarrow> linked s b a"
  using assms unfolding link_inv_def by blast

lemma inv_learns:
  assumes "link_inv s"
  shows "can_receive (ls_phase s a) \<Longrightarrow> drained (ls_phase s b) \<Longrightarrow> linked s a b \<Longrightarrow> \<not> linked s b a \<Longrightarrow>
      ls_phase s b \<noteq> Untold \<Longrightarrow> learns s a b"
  using assms unfolding link_inv_def by blast

lemma inv_pending:
  assumes "link_inv s"
  shows "(b, a) \<in> set (ls_pending s) \<Longrightarrow> (b, a) \<in> set (ls_sent s)"
  using assms unfolding link_inv_def by blast

lemma inv_handling:
  assumes "link_inv s"
  shows "ls_phase s b = Handling a \<Longrightarrow> (b, a) \<in> set (ls_sent s)"
  using assms unfolding link_inv_def by blast

lemma inv_told:
  assumes "link_inv s"
  shows "told_ok (ls_sent s) a (ls_phase s a)"
  using assms unfolding link_inv_def by blast

lemma inv_distinct:
  assumes "link_inv s"
  shows "distinct (ls_sent s)"
  using assms unfolding link_inv_def by blast

lemma inv_sent_telling: "link_inv s \<Longrightarrow> (b, a) \<in> set (ls_sent s) \<Longrightarrow> \<exists>ids. ls_phase s a = Telling ids"
  using inv_told drained_told by blast

lemma inv_untold: "link_inv s \<Longrightarrow> (\<forall>ids. ls_phase s a \<noteq> Telling ids) \<Longrightarrow> (b, a) \<notin> set (ls_sent s)"
  using inv_sent_telling by blast

lemma told_ok_quiet: "(\<forall>b. (b, a) \<notin> set sent) \<Longrightarrow> (\<forall>ids. p \<noteq> Telling ids \<and> p \<noteq> Stopping ids) \<Longrightarrow> told_ok sent a p"
  by (cases p) simp_all

lemma told_ok_other: "told_ok sent c p \<Longrightarrow> c \<noteq> a \<Longrightarrow> told_ok (sent @ [(b, a)]) c p"
  by (cases p) auto

lemma link_inv_tables:
  assumes inv: "link_inv s" and ok: "tables_ok ls"
    and sym: "\<And>d c. linked (s\<lparr>ls_tables := ls\<rparr>) d c \<longleftrightarrow> N d c \<or> linked s d c \<and> \<not> D d c"
      "\<And>d c. N d c \<Longrightarrow> N c d" "\<And>d c. D c d \<Longrightarrow> D d c"
  shows "link_inv (s\<lparr>ls_tables := ls\<rparr>)"
proof (rule link_invI)
  fix a b
  assume "can_receive (ls_phase (s\<lparr>ls_tables := ls\<rparr>) a)" "drained (ls_phase (s\<lparr>ls_tables := ls\<rparr>) b)"
    "linked (s\<lparr>ls_tables := ls\<rparr>) a b" "\<not> linked (s\<lparr>ls_tables := ls\<rparr>) b a" "ls_phase (s\<lparr>ls_tables := ls\<rparr>) b \<noteq> Untold"
  then show "learns (s\<lparr>ls_tables := ls\<rparr>) a b"
    using inv_learns [OF inv, of a b] sym by (auto simp: learns_def)
next
  fix a b
  assume "\<not> drained (ls_phase (s\<lparr>ls_tables := ls\<rparr>) a)" "\<not> drained (ls_phase (s\<lparr>ls_tables := ls\<rparr>) b)"
    "linked (s\<lparr>ls_tables := ls\<rparr>) a b"
  then show "linked (s\<lparr>ls_tables := ls\<rparr>) b a"
    using inv_mutual [OF inv, of a b] sym by auto
qed (use inv ok in \<open>auto simp: inv_pending inv_handling inv_told inv_distinct\<close>)

lemma link_inv_link: "link_inv s \<Longrightarrow> link_inv (s\<lparr>ls_tables := link_actors a b (ls_tables s)\<rparr>)"
  by (rule link_inv_tables [where N = "\<lambda>d c. a \<noteq> b \<and> (d = a \<and> c = b \<or> d = b \<and> c = a)" and D = "\<lambda>d c. False"])
    (auto simp: linked_simps tables_ok_link inv_tables)

lemma link_inv_unlink: "link_inv s \<Longrightarrow> link_inv (s\<lparr>ls_tables := unlink_actors a b (ls_tables s)\<rparr>)"
  by (rule link_inv_tables [where D = "\<lambda>d c. a \<noteq> b \<and> (d = a \<and> c = b \<or> d = b \<and> c = a)" and N = "\<lambda>d c. False"])
    (auto simp: linked_simps tables_ok_unlink inv_tables)

text \<open>A step of an actor before its drain that is not the receipt of a notice.\<close>

lemma link_inv_undrained:
  assumes inv: "link_inv s" and p: "\<not> drained (ls_phase s a)" "\<not> drained p" "\<And>c. p \<noteq> Handling c"
    and now: "can_receive p \<longrightarrow> can_receive (ls_phase s a) \<and> (\<forall>c. ls_phase s a \<noteq> Handling c)"
  shows "link_inv (set_phase a p s)"
proof (rule link_invI)
  fix c
  have "(b, a) \<notin> set (ls_sent s)" for b
    using p by (auto dest: inv_sent_telling [OF inv])
  then have "told_ok (ls_sent s) a p"
    using p by (auto intro: told_ok_quiet)
  then show "told_ok (ls_sent (set_phase a p s)) c (ls_phase (set_phase a p s) c)"
    using inv by (simp add: inv_told)
next
  fix c d
  assume "can_receive (ls_phase (set_phase a p s) c)" "drained (ls_phase (set_phase a p s) d)"
    "linked (set_phase a p s) c d" "\<not> linked (set_phase a p s) d c" "ls_phase (set_phase a p s) d \<noteq> Untold"
  then show "learns (set_phase a p s) c d"
    using inv_learns [OF inv, of c d] p now by (auto simp: linked_def learns_def split: if_splits)
next
  fix c d
  assume "\<not> drained (ls_phase (set_phase a p s) c)" "\<not> drained (ls_phase (set_phase a p s) d)" "linked (set_phase a p s) c d"
  then show "linked (set_phase a p s) d c"
    using inv_mutual [OF inv, of c d] p by (auto simp: linked_def split: if_splits)
qed (use inv p in \<open>auto simp: inv_tables inv_pending inv_handling inv_distinct split: if_splits\<close>)

lemma link_inv_drain:
  assumes inv: "link_inv s" and a: "ls_phase s a = Leaving"
  shows "link_inv (set_phase a (Stopping (map fst (ls_tables s a))) (s\<lparr>ls_tables := (ls_tables s)(a := [])\<rparr>))"
    (is "link_inv ?s")
proof (rule link_invI)
  show "tables_ok (ls_tables ?s)"
    using inv_tables [OF inv] by (auto simp: tables_ok_def)
  fix c
  show "told_ok (ls_sent ?s) c (ls_phase ?s c)"
    using inv_tables [OF inv] inv_untold [OF inv, of a] a
    by (auto simp: inv_told [OF inv] tables_ok_def hm_wf_def hm_keys_def)
next
  fix c d
  assume *: "can_receive (ls_phase ?s c)" "drained (ls_phase ?s d)" "linked ?s c d" "\<not> linked ?s d c"
    "ls_phase ?s d \<noteq> Untold"
  then have c: "c \<noteq> a" "linked s c d" "can_receive (ls_phase s c)" by (auto simp: linked_def split: if_splits)
  show "learns ?s c d"
  proof (cases "d = a")
    case True
    then have "linked s a c" using c a inv_mutual [OF inv, of c a] by (cases "ls_phase s c") auto
    then show ?thesis using True by (simp add: learns_def linked_eq)
  next
    case False
    then show ?thesis
      using * c inv_learns [OF inv, of c d] by (simp add: learns_def linked_def)
  qed
next
  fix c d
  assume "\<not> drained (ls_phase ?s c)" "\<not> drained (ls_phase ?s d)" "linked ?s c d"
  then show "linked ?s d c"
    using inv_mutual [OF inv, of c d] by (auto simp: linked_def split: if_splits)
qed (use inv a in \<open>auto simp: inv_pending inv_handling inv_distinct split: if_splits\<close>)

lemma link_inv_stopped:
  assumes inv: "link_inv s" and a: "ls_phase s a = Stopping ids" and p: "p = Telling ids \<or> p = Untold"
  shows "link_inv (set_phase a p s)" (is "link_inv ?s")
proof (rule link_invI)
  fix c
  have "told_ok (ls_sent s) a p"
    using inv_told [OF inv, of a] a p by auto
  then show "told_ok (ls_sent ?s) c (ls_phase ?s c)"
    using inv_told [OF inv, of c] by simp
next
  fix c d
  assume "can_receive (ls_phase ?s c)" "drained (ls_phase ?s d)" "linked ?s c d" "\<not> linked ?s d c" "ls_phase ?s d \<noteq> Untold"
  then show "learns ?s c d"
    using inv_learns [OF inv, of c d] a p by (auto simp: linked_def learns_def split: if_splits)
next
  fix c d
  assume "\<not> drained (ls_phase ?s c)" "\<not> drained (ls_phase ?s d)" "linked ?s c d"
  then show "linked ?s d c"
    using inv_mutual [OF inv, of c d] p by (auto simp: linked_def split: if_splits)
qed (use inv a p in \<open>auto simp: inv_tables inv_pending inv_handling inv_distinct split: if_splits\<close>)

lemma link_inv_tell:
  assumes inv: "link_inv s" and a: "ls_phase s a = Telling (pre @ b # post)"
  shows "link_inv (set_phase a (Telling (pre @ post))
      (s\<lparr>ls_pending := ls_pending s @ [(b, a)], ls_sent := ls_sent s @ [(b, a)]\<rparr>))" (is "link_inv ?s")
proof (rule link_invI)
  have new: "(b, a) \<notin> set (ls_sent s)" "distinct (pre @ b # post)" "\<forall>c \<in> set (pre @ post). (c, a) \<notin> set (ls_sent s)"
    using inv_told [OF inv, of a] a by auto
  show "distinct (ls_sent ?s)" using new inv_distinct [OF inv] by simp
  fix c
  show "told_ok (ls_sent ?s) c (ls_phase ?s c)"
    using new inv_told [OF inv, of c] by (auto intro: told_ok_other)
next
  fix c d
  assume "can_receive (ls_phase ?s c)" "drained (ls_phase ?s d)" "linked ?s c d" "\<not> linked ?s d c" "ls_phase ?s d \<noteq> Untold"
  then show "learns ?s c d"
    using inv_learns [OF inv, of c d] a by (auto simp: linked_def learns_def split: if_splits)
next
  fix c d
  assume "\<not> drained (ls_phase ?s c)" "\<not> drained (ls_phase ?s d)" "linked ?s c d"
  then show "linked ?s d c"
    using inv_mutual [OF inv, of c d] by (auto simp: linked_def split: if_splits)
qed (use inv in \<open>auto simp: inv_tables inv_pending inv_handling split: if_splits\<close>)

lemma link_inv_receive:
  assumes inv: "link_inv s" and b: "ls_phase s b = Running" and pending: "ls_pending s = pre @ (b, a) # post"
  shows "link_inv (set_phase b (Handling a) (s\<lparr>ls_pending := pre @ post\<rparr>))" (is "link_inv ?s")
proof (rule link_invI)
  fix c
  show "told_ok (ls_sent ?s) c (ls_phase ?s c)"
    using inv_told [OF inv, of c] b by auto
next
  fix c d
  assume "can_receive (ls_phase ?s c)" "drained (ls_phase ?s d)" "linked ?s c d" "\<not> linked ?s d c" "ls_phase ?s d \<noteq> Untold"
  then show "learns ?s c d"
    using inv_learns [OF inv, of c d] b pending by (auto simp: linked_def learns_def split: if_splits)
next
  fix c d
  assume "\<not> drained (ls_phase ?s c)" "\<not> drained (ls_phase ?s d)" "linked ?s c d"
  then show "linked ?s d c"
    using inv_mutual [OF inv, of c d] b by (auto simp: linked_def split: if_splits)
qed (use inv pending in \<open>auto simp: inv_tables inv_pending inv_handling inv_distinct split: if_splits\<close>)

lemma link_inv_handled:
  assumes inv: "link_inv s" and b: "ls_phase s b = Handling a"
  shows "link_inv (set_phase b Running (s\<lparr>ls_tables := remove_dead_link b a (ls_tables s)\<rparr>))" (is "link_inv ?s")
proof (rule link_invI)
  obtain ids where a: "ls_phase s a = Telling ids"
    using inv_sent_telling [OF inv inv_handling [OF inv b]] by blast
  show "tables_ok (ls_tables ?s)"
    using tables_ok_remove [OF inv_tables [OF inv]] by (simp add: remove_dead_link_def)
  fix c
  show "told_ok (ls_sent ?s) c (ls_phase ?s c)"
    using inv_told [OF inv, of c] b by auto
  fix d
  show "linked ?s d c" if "\<not> drained (ls_phase ?s c)" "\<not> drained (ls_phase ?s d)" "linked ?s c d"
    using that inv_mutual [OF inv, of c d] a b by (auto simp: linked_def keys_remove_dead split: if_splits)
next
  fix c d
  assume "can_receive (ls_phase ?s c)" "drained (ls_phase ?s d)" "linked ?s c d" "\<not> linked ?s d c" "ls_phase ?s d \<noteq> Untold"
  then show "learns ?s c d"
    using inv_learns [OF inv, of c d] b by (auto simp: linked_def keys_remove_dead learns_def split: if_splits)
qed (use inv in \<open>auto simp: inv_pending inv_handling inv_distinct split: if_splits\<close>)

lemma link_inv_dropped:
  assumes inv: "link_inv s" and b: "\<not> can_receive (ls_phase s b)" and pending: "ls_pending s = pre @ (b, a) # post"
  shows "link_inv (s\<lparr>ls_pending := pre @ post\<rparr>)" (is "link_inv ?s")
proof (rule link_invI)
  fix c d
  assume "can_receive (ls_phase ?s c)" "drained (ls_phase ?s d)" "linked ?s c d" "\<not> linked ?s d c" "ls_phase ?s d \<noteq> Untold"
  then show "learns ?s c d"
    using inv_learns [OF inv, of c d] b pending by (auto simp: linked_def learns_def)
next
  fix c d
  assume "\<not> drained (ls_phase ?s c)" "\<not> drained (ls_phase ?s d)" "linked ?s c d"
  then show "linked ?s d c"
    using inv_mutual [OF inv, of c d] by (auto simp: linked_def)
qed (use inv pending in \<open>auto simp: inv_tables inv_pending inv_handling inv_distinct inv_told\<close>)

lemmas link_inv_rules = link_inv_link link_inv_unlink link_inv_drain link_inv_stopped link_inv_tell
  link_inv_receive link_inv_handled link_inv_dropped link_inv_undrained

lemma can_receive_not_drained: "can_receive p \<Longrightarrow> \<not> drained p"
  by (cases p) simp_all

lemma link_step_inv: "link_step s s' \<Longrightarrow> link_inv s \<Longrightarrow> link_inv s'"
  by (erule link_step.cases) (auto simp: drain_links_def can_receive_not_drained intro: link_inv_rules)

lemma link_inv_initial: "link_inv link_initial"
  by (simp add: link_initial_def link_inv_def tables_ok_def linked_def)

interpretation link_protocol: protocol "\<lambda>s. s = link_initial" link_step link_reachable link_inv
proof unfold_locales
  fix s and P :: "link_system \<Rightarrow> bool"
  assume "link_reachable s" "\<And>s. s = link_initial \<Longrightarrow> P s"
    "\<And>s s'. P s \<Longrightarrow> link_step s s' \<Longrightarrow> P s'"
  then show "P s" by (induction rule: link_reachable.induct) simp_all
qed (auto intro: link_reachable.intros link_step_inv link_inv_initial)


text \<open>
  What a state says of the notices of an actor whose drain collected the links \<open>ids\<close>: none is sent
  before \<open>on_stop\<close> returned, then those that are not still to be sent, and none ever if it unwound.
\<close>

fun notices_ok :: "actor_id list \<Rightarrow> actor_id \<Rightarrow> (actor_id \<times> actor_id) list \<Rightarrow> life_phase \<Rightarrow> bool" where
  "notices_ok ids a sent (Stopping now) = (now = ids \<and> (\<forall>b. (b, a) \<notin> set sent))"
| "notices_ok ids a sent (Telling now) =
    (set now \<subseteq> set ids \<and> (\<forall>b. (b, a) \<in> set sent \<longleftrightarrow> b \<in> set ids \<and> b \<notin> set now))"
| "notices_ok ids a sent Untold = (\<forall>b. (b, a) \<notin> set sent)"
| "notices_ok ids a sent _ = False"

lemma notices_ok_drained: "notices_ok ids a sent p \<Longrightarrow> drained p"
  by (cases p) simp_all

lemma notices_ok_other: "c \<noteq> a \<Longrightarrow> notices_ok ids a (sent @ [(b, c)]) p = notices_ok ids a sent p"
  by (cases p) auto

lemma link_step_notices:
  assumes "link_step s s'" and "link_inv s" and "notices_ok ids a (ls_sent s) (ls_phase s a)"
  shows "notices_ok ids a (ls_sent s') (ls_phase s' a)"
  using assms
proof (cases rule: link_step.cases)
  case (tell c pre b post)
  show ?thesis
  proof (cases "c = a")
    case True
    then show ?thesis using tell assms(3) inv_told [OF assms(2), of a] by auto
  next
    case False
    then show ?thesis using tell assms(3) by (simp add: notices_ok_other)
  qed
qed (auto dest: can_receive_not_drained notices_ok_drained)

lemma runs_notices:
  assumes "link_step\<^sup>*\<^sup>* s s'" and "link_inv s" and "notices_ok ids a (ls_sent s) (ls_phase s a)"
  shows "notices_ok ids a (ls_sent s') (ls_phase s' a)"
  using assms(1)
proof (induction rule: rtranclp_induct)
  case (step u v)
  then show ?case
    using link_step_notices [of u v] link_protocol.runs_inv [OF step.hyps(1) assms(2)] by blast
qed (rule assms(3))

lemma link_step_drain:
  assumes "link_step s s'" and "ls_phase s a = Leaving" and "ls_phase s' a = Stopping ids"
  shows "ids = hm_keys (ls_tables s a) \<and> ls_tables s' a = [] \<and> ls_sent s' = ls_sent s"
  using assms by (cases rule: link_step.cases) (auto simp: drain_links_def hm_keys_def split: if_splits)

text \<open>
  The witness states: actors 1 and 2 linked; the first has left its loop; it has drained its table;
  its \<open>on_stop\<close> returned and the notice is sent; its \<open>on_stop\<close> unwound instead.
\<close>

definition two_linked :: link_system where
  "two_linked = link_initial\<lparr>ls_tables := link_actors (ActorId 1) (ActorId 2) (ls_tables link_initial)\<rparr>"

definition one_left :: link_system where
  "one_left = set_phase (ActorId 1) Leaving (set_phase (ActorId 1) Running two_linked)"

definition one_drained :: link_system where
  "one_drained = set_phase (ActorId 1) (Stopping [ActorId 2])
    (one_left\<lparr>ls_tables := (ls_tables one_left)(ActorId 1 := [])\<rparr>)"

definition one_told :: link_system where
  "one_told = set_phase (ActorId 1) (Telling [])
    ((set_phase (ActorId 1) (Telling [ActorId 2]) one_drained)\<lparr>ls_pending := [(ActorId 2, ActorId 1)],
      ls_sent := [(ActorId 2, ActorId 1)]\<rparr>)"

definition one_unwound :: link_system where
  "one_unwound = set_phase (ActorId 1) Untold one_drained"

lemmas two_linked_defs = two_linked_def one_left_def one_drained_def one_told_def one_unwound_def
  link_initial_def linked_def

lemma two_linked_reachable: "link_reachable two_linked"
  unfolding two_linked_def by (rule link_reachable.step [OF link_reachable.initial link_step.link])

lemma one_left_reachable: "link_reachable one_left"
proof -
  have "link_reachable (set_phase (ActorId 1) Running two_linked)"
    by (rule link_reachable.step [OF two_linked_reachable link_step.started])
      (simp add: two_linked_defs)
  then show ?thesis
    unfolding one_left_def by (rule link_reachable.step [OF _ link_step.leave]) simp
qed

lemma one_drains: "link_step one_left one_drained"
  unfolding one_drained_def
  using link_step.drain [of one_left "ActorId 1" "ls_tables one_left (ActorId 1)"]
  by (simp add: drain_links_def) (simp add: two_linked_defs link_actors_def hm_insert_def)

lemma one_tells: "link_step\<^sup>*\<^sup>* one_drained one_told"
proof -
  have "link_step one_drained (set_phase (ActorId 1) (Telling [ActorId 2]) one_drained)"
    by (rule link_step.stopped) (simp add: one_drained_def)
  moreover have "link_step (set_phase (ActorId 1) (Telling [ActorId 2]) one_drained) one_told"
    using link_step.tell [of "set_phase (ActorId 1) (Telling [ActorId 2]) one_drained" "ActorId 1" "[]" "ActorId 2" "[]"]
    by (simp add: one_told_def) (simp add: two_linked_defs)
  ultimately show ?thesis by (meson converse_rtranclp_into_rtranclp r_into_rtranclp)
qed

lemma one_unwinds: "link_step one_drained one_unwound"
  unfolding one_unwound_def by (rule link_step.unwound) (simp add: one_drained_def)

lemma one_drained_reachable: "link_reachable one_drained"
  using one_left_reachable one_drains by (rule link_reachable.step)


section \<open>Properties\<close>





text \<open>
  Link and unlink operations that run at the same time cannot deadlock: every one of them
  takes its two locks in increasing order of the actor identifiers, so holding one and waiting for
  the other never closes a cycle, whatever pairs of actors are being linked.
\<close>

theorem link_locks_acyclic:
  "acyclic {(held, wanted). \<exists>self sibbling. link_lock_order self sibbling = [held, wanted]}"
proof -
  have "{(held, wanted). \<exists>self sibbling. link_lock_order self sibbling = [held, wanted]} \<subseteq> {(x, y). x < y}"
    by (auto simp: link_lock_order_def split: if_splits)
  moreover have "acyclic {(x, y :: actor_id). x < y}"
  proof (rule acyclicI)
    have "(x, y) \<in> {(x, y :: actor_id). x < y}\<^sup>+ \<Longrightarrow> x < y" for x y
      by (induction rule: trancl_induct) auto
    then show "\<forall>x. (x, x) \<notin> {(x, y :: actor_id). x < y}\<^sup>+" by blast
  qed
  ultimately show ?thesis by (rule acyclic_subset [rotated])
qed

end
