(* ===== verification/Actor_Behaviour.thy ===== *)
theory Actor_Behaviour
  imports Registry Links
begin

text \<open>
  How an actor reacts to signals (\<open>src/actor/kind.rs\<close>): the startup buffer, the handlers of each
  signal with their panics, and the decision to stop. The user's actor is a record of its hooks,
  which act on the actor's state and on the world; the default hooks of \<open>src/actor.rs\<close> are
  defined.
\<close>

section \<open>Hooks and control flow\<close>

text \<open>
  What awaiting a hook can give: a value, a panic that unwinds with a payload, or nothing because
  the actor was killed and its future dropped at an await point. A task that does not catch a panic
  dies with it.
\<close>

datatype ('a, 'v) hook = Returned 'a | Unwound "'v any" | Dropped

datatype 'v flow = Continue | Break "'v stop_reason"

datatype 'a task = Ran 'a | TaskPanicked | TaskDropped

text \<open>
  The world an actor's hooks and the runtime see: the link table of this actor, the write-once
  startup and shutdown results, the calls of the error hook, the local registry, the notices
  sent to links, and everything else, its mailbox included.
\<close>

record ('v, 'e) world =
  w_links :: links
  w_startup_result :: "(unit, 'v panic_error) result option"
  w_shutdown_result :: "(unit, 'v panic_error) result option"
  w_error_hook_calls :: "'v panic_error list"
  w_registry :: actor_registry
  w_notices :: "(link \<times> actor_id \<times> 'v stop_reason) list"
  w_env :: 'e

text \<open>
  The \<open>Actor\<close> trait: each hook takes the actor's state and the world and returns both.
  \<open>on_message\<close> also takes and returns the stop flag.
\<close>

record ('a, 'v, 'e) actor_impl =
  ai_name :: string
  ai_on_start :: "('v, 'e) world \<Rightarrow> (('a, 'v any) result, 'v) hook \<times> ('v, 'e) world"
  ai_on_message :: "'a \<Rightarrow> 'v any \<Rightarrow> actor_id \<Rightarrow> nat option \<Rightarrow> bool \<Rightarrow> ('v, 'e) world
    \<Rightarrow> ((unit, 'v any) result, 'v) hook \<times> 'a \<times> bool \<times> ('v, 'e) world"
  ai_on_panic :: "'a \<Rightarrow> 'v panic_error \<Rightarrow> ('v, 'e) world
    \<Rightarrow> (('v flow, 'v any) result, 'v) hook \<times> 'a \<times> ('v, 'e) world"
  ai_on_link_died :: "'a \<Rightarrow> actor_id \<Rightarrow> 'v stop_reason \<Rightarrow> ('v, 'e) world
    \<Rightarrow> (('v flow, 'v any) result, 'v) hook \<times> 'a \<times> ('v, 'e) world"
  ai_on_link_established :: "'a \<Rightarrow> actor_id \<Rightarrow> ('v, 'e) world
    \<Rightarrow> (('v flow, 'v any) result, 'v) hook \<times> 'a \<times> ('v, 'e) world"
  ai_on_stop :: "'a \<Rightarrow> 'v stop_reason \<Rightarrow> ('v, 'e) world
    \<Rightarrow> ((unit, 'v any) result, 'v) hook \<times> 'a \<times> ('v, 'e) world"
  ai_next :: "'a \<Rightarrow> ('v, 'e) world \<Rightarrow> ('v signal option, 'v) hook \<times> 'a \<times> ('v, 'e) world"


section \<open>Default hooks\<close>

definition default_on_panic ::
  "'a \<Rightarrow> 'v panic_error \<Rightarrow> ('v, 'e) world \<Rightarrow> (('v flow, 'v any) result, 'v) hook \<times> 'a \<times> ('v, 'e) world" where
  "default_on_panic a err w = (Returned (Ok (Break (PanickedWith err))), a, w)"

fun default_link_flow :: "actor_id \<Rightarrow> 'v stop_reason \<Rightarrow> 'v flow" where
  "default_link_flow i Normal = Continue"
| "default_link_flow i Killed = Break (LinkDiedReason i Killed)"
| "default_link_flow i (PanickedWith e) = Break (LinkDiedReason i (PanickedWith e))"
| "default_link_flow i (LinkDiedReason j r) = Break (LinkDiedReason i (LinkDiedReason j r))"
| "default_link_flow i PeerDisconnected = Break PeerDisconnected"

definition default_on_link_died ::
  "'a \<Rightarrow> actor_id \<Rightarrow> 'v stop_reason \<Rightarrow> ('v, 'e) world
    \<Rightarrow> (('v flow, 'v any) result, 'v) hook \<times> 'a \<times> ('v, 'e) world" where
  "default_on_link_died a i reason w = (Returned (Ok (default_link_flow i reason)), a, w)"

definition default_on_link_established ::
  "'a \<Rightarrow> actor_id \<Rightarrow> ('v, 'e) world \<Rightarrow> (('v flow, 'v any) result, 'v) hook \<times> 'a \<times> ('v, 'e) world" where
  "default_on_link_established a i w = (Returned (Ok Continue), a, w)"

definition default_on_stop ::
  "'a \<Rightarrow> 'v stop_reason \<Rightarrow> ('v, 'e) world \<Rightarrow> ((unit, 'v any) result, 'v) hook \<times> 'a \<times> ('v, 'e) world" where
  "default_on_stop a reason w = (Returned (Ok ()), a, w)"

text \<open>\<open>next\<close> waits for the mailbox, given by its receive operation on the world.\<close>

definition default_next ::
  "(('v, 'e) world \<Rightarrow> ('v signal option, 'v) hook \<times> ('v, 'e) world)
    \<Rightarrow> 'a \<Rightarrow> ('v, 'e) world \<Rightarrow> ('v signal option, 'v) hook \<times> 'a \<times> ('v, 'e) world" where
  "default_next recv a w = (let (s, w) = recv w in (s, a, w))"


section \<open>The behaviour\<close>

record ('a, 'v) behaviour =
  ab_actor_id :: actor_id
  ab_state :: 'a
  ab_finished_startup :: bool
  ab_startup_buffer :: "'v signal list"

definition new_from_actor :: "'a \<Rightarrow> actor_id \<Rightarrow> ('a, 'v) behaviour" where
  "new_from_actor actor i =
    \<lparr>ab_actor_id = i, ab_state = actor, ab_finished_startup = False, ab_startup_buffer = []\<rparr>"

type_synonym ('a, 'v, 'e) step = "'v flow task \<times> ('a, 'v) behaviour \<times> ('v, 'e) world"

definition behaviour_next ::
  "('a, 'v, 'e) actor_impl \<Rightarrow> ('a, 'v) behaviour \<Rightarrow> ('v, 'e) world
    \<Rightarrow> ('v signal option) task \<times> ('a, 'v) behaviour \<times> ('v, 'e) world" where
  "behaviour_next impl b w =
    (let (s, a, w) = ai_next impl (ab_state b) w; b = b\<lparr>ab_state := a\<rparr>
     in (case s of Returned s \<Rightarrow> Ran s | Unwound _ \<Rightarrow> TaskPanicked | Dropped \<Rightarrow> TaskDropped, b, w))"

definition handle_message ::
  "('a, 'v, 'e) actor_impl \<Rightarrow> 'v any \<Rightarrow> actor_id \<Rightarrow> nat option \<Rightarrow> bool
    \<Rightarrow> ('a, 'v) behaviour \<Rightarrow> ('v, 'e) world \<Rightarrow> ('a, 'v, 'e) step" where
  "handle_message impl message actor_ref reply sent_within_actor b w =
    (if \<not> sent_within_actor \<and> \<not> ab_finished_startup b
     then (Ran Continue,
       b\<lparr>ab_startup_buffer :=
          ab_startup_buffer b @ [MessageSignal message actor_ref reply sent_within_actor]\<rparr>, w)
     else
       let (res, a, stop, w) = ai_on_message impl (ab_state b) message actor_ref reply False w;
           b = b\<lparr>ab_state := a\<rparr>
       in (case res of
             Returned (Ok _) \<Rightarrow> Ran (if stop then Break Normal else Continue)
           | Returned (Err err) \<Rightarrow> Ran (Break (PanickedWith (panic_error_new err OnMessage)))
           | Unwound p \<Rightarrow> Ran (Break (PanickedWith (new_from_panic_any p HandlerPanic)))
           | Dropped \<Rightarrow> TaskDropped, b, w))"

text \<open>
  The loop over the drained startup buffer. A break leaves the loop, and what is left of the drained
  buffer is dropped with it; anything but a message in the buffer is unreachable code.
\<close>

fun drain_startup ::
  "('a, 'v, 'e) actor_impl \<Rightarrow> 'v signal list \<Rightarrow> ('a, 'v) behaviour \<Rightarrow> ('v, 'e) world \<Rightarrow> ('a, 'v, 'e) step" where
  "drain_startup impl [] b w = (Ran Continue, b, w)"
| "drain_startup impl (MessageSignal m r reply within # ss) b w =
    (case handle_message impl m r reply within b w of
       (Ran Continue, b, w) \<Rightarrow> drain_startup impl ss b w
     | res \<Rightarrow> res)"
| "drain_startup impl (_ # ss) b w = (TaskPanicked, b, w)"

definition handle_startup_finished ::
  "('a, 'v, 'e) actor_impl \<Rightarrow> ('a, 'v) behaviour \<Rightarrow> ('v, 'e) world \<Rightarrow> ('a, 'v, 'e) step" where
  "handle_startup_finished impl b w =
    (let buffer = ab_startup_buffer b;
         b = b\<lparr>ab_finished_startup := True, ab_startup_buffer := []\<rparr>
     in drain_startup impl buffer b w)"

text \<open>The outcome of a link hook, with the reason its failures carry.\<close>

fun hook_flow :: "panic_reason \<Rightarrow> (('v flow, 'v any) result, 'v) hook \<Rightarrow> 'v flow task" where
  "hook_flow reason (Returned (Ok flow)) = Ran flow"
| "hook_flow reason (Returned (Err err)) = Ran (Break (PanickedWith (panic_error_new err reason)))"
| "hook_flow reason (Unwound p) = Ran (Break (PanickedWith (new_from_panic_any p reason)))"
| "hook_flow reason Dropped = TaskDropped"

definition handle_link_died ::
  "('a, 'v, 'e) actor_impl \<Rightarrow> actor_id \<Rightarrow> 'v stop_reason \<Rightarrow> ('a, 'v) behaviour \<Rightarrow> ('v, 'e) world
    \<Rightarrow> ('a, 'v, 'e) step" where
  "handle_link_died impl i reason b w =
    (let (res, a, w) = ai_on_link_died impl (ab_state b) i reason w;
         b = b\<lparr>ab_state := a\<rparr>
     in case res of
          Dropped \<Rightarrow> (TaskDropped, b, w)
        | _ \<Rightarrow> (hook_flow OnLinkDied res, b, w\<lparr>w_links := hm_remove i (w_links w)\<rparr>))"

definition handle_link_established ::
  "('a, 'v, 'e) actor_impl \<Rightarrow> actor_id \<Rightarrow> ('a, 'v) behaviour \<Rightarrow> ('v, 'e) world \<Rightarrow> ('a, 'v, 'e) step" where
  "handle_link_established impl i b w =
    (let (res, a, w) = ai_on_link_established impl (ab_state b) i w
     in (hook_flow OnLinkEstablished res, b\<lparr>ab_state := a\<rparr>, w))"

definition handle_stop ::
  "('a, 'v, 'e) actor_impl \<Rightarrow> ('a, 'v) behaviour \<Rightarrow> ('v, 'e) world \<Rightarrow> ('a, 'v, 'e) step" where
  "handle_stop impl b w =
    (case handle_startup_finished impl b w of
       (Ran Continue, b, w) \<Rightarrow> (Ran (Break Normal), b, w)
     | res \<Rightarrow> res)"

text \<open>\<open>on_panic\<close> is not guarded: its own panic unwinds the task.\<close>

definition on_shutdown ::
  "('a, 'v, 'e) actor_impl \<Rightarrow> 'v stop_reason \<Rightarrow> ('a, 'v) behaviour \<Rightarrow> ('v, 'e) world \<Rightarrow> ('a, 'v, 'e) step" where
  "on_shutdown impl reason b w =
    (case reason of
       PanickedWith err \<Rightarrow>
         (let (res, a, w) = ai_on_panic impl (ab_state b) err w; b = b\<lparr>ab_state := a\<rparr>
          in (case res of
                Returned (Ok flow) \<Rightarrow> Ran flow
              | Returned (Err e) \<Rightarrow> Ran (Break (PanickedWith (panic_error_new e OnPanic)))
              | Unwound _ \<Rightarrow> TaskPanicked
              | Dropped \<Rightarrow> TaskDropped, b, w))
     | _ \<Rightarrow> (Ran (Break reason), b, w))"


section \<open>Lemmas\<close>

text \<open>
  Handling a list of messages one after the other until one of them breaks, which is what the drain of
  the startup buffer does to what it holds. The receive loop is different: behind a message that
  breaks, it goes on with the mailbox if \<open>on_panic\<close> continues (\<open>Lifecycle\<close> compares the two).
\<close>

type_synonym 'v message = "'v any \<times> actor_id \<times> nat option \<times> bool"

definition message_signal :: "'v message \<Rightarrow> 'v signal" where
  "message_signal m = (case m of (msg, r, reply, within) \<Rightarrow> MessageSignal msg r reply within)"

fun handle_messages ::
  "('a, 'v, 'e) actor_impl \<Rightarrow> 'v message list \<Rightarrow> ('a, 'v) behaviour \<Rightarrow> ('v, 'e) world \<Rightarrow> ('a, 'v, 'e) step" where
  "handle_messages impl [] b w = (Ran Continue, b, w)"
| "handle_messages impl ((m, r, reply, within) # ms) b w =
    (case handle_message impl m r reply within b w of
       (Ran Continue, b, w) \<Rightarrow> handle_messages impl ms b w
     | res \<Rightarrow> res)"

definition external :: "'v message \<Rightarrow> bool" where
  "external m = (case m of (_, _, _, within) \<Rightarrow> \<not> within)"

definition buffer_ok :: "('a, 'v) behaviour \<Rightarrow> bool" where
  "buffer_ok b \<longleftrightarrow> (\<exists>ms. ab_startup_buffer b = map message_signal ms) \<and>
    (ab_finished_startup b \<longrightarrow> ab_startup_buffer b = [])"

lemma handle_message_buffers:
  "\<not> within \<Longrightarrow> \<not> ab_finished_startup b \<Longrightarrow>
    handle_message impl m r reply within b w =
      (Ran Continue, b\<lparr>ab_startup_buffer := ab_startup_buffer b @ [MessageSignal m r reply within]\<rparr>, w)"
  by (simp add: handle_message_def)

lemma drain_startup_messages:
  "drain_startup impl (map message_signal ms) b w = handle_messages impl ms b w"
proof (induction ms arbitrary: b w)
  case (Cons m ms)
  then show ?case
    by (cases m) (auto simp: message_signal_def split: prod.splits task.splits flow.splits)
qed simp

lemma buffering:
  assumes "\<not> ab_finished_startup b" "\<forall>m \<in> set ms. external m"
  shows "handle_messages impl ms b w =
    (Ran Continue, b\<lparr>ab_startup_buffer := ab_startup_buffer b @ map message_signal ms\<rparr>, w)"
  using assms
proof (induction ms arbitrary: b)
  case (Cons m ms)
  obtain msg r reply within where m: "m = (msg, r, reply, within)" by (cases m)
  have "\<not> within" using Cons.prems by (simp add: m external_def)
  then show ?case
    using Cons by (simp add: m handle_message_buffers message_signal_def)
qed simp

lemma handle_message_finished:
  assumes "handle_message impl m r reply within b w = (t, b', w')"
  shows "ab_finished_startup b' = ab_finished_startup b \<and> ab_actor_id b' = ab_actor_id b \<and>
    (ab_finished_startup b \<longrightarrow> ab_startup_buffer b' = ab_startup_buffer b)"
  using assms by (auto simp: handle_message_def Let_def split: if_splits prod.splits)

lemma handle_message_buffer_ok:
  assumes "handle_message impl m r reply within b w = (t, b', w')" "buffer_ok b"
  shows "buffer_ok b'"
proof (cases "\<not> within \<and> \<not> ab_finished_startup b")
  case True
  obtain ms where "ab_startup_buffer b = map message_signal ms"
    using assms(2) by (auto simp: buffer_ok_def)
  then have "b' = b\<lparr>ab_startup_buffer := map message_signal (ms @ [(m, r, reply, within)])\<rparr>"
    using True assms(1) by (simp add: handle_message_def message_signal_def)
  then show ?thesis
    unfolding buffer_ok_def using True
    by (intro conjI exI [of _ "ms @ [(m, r, reply, within)]"]) simp_all
next
  case False
  then have "ab_startup_buffer b' = ab_startup_buffer b \<and> ab_finished_startup b' = ab_finished_startup b"
    using assms(1) by (auto simp: handle_message_def Let_def split: prod.splits)
  then show ?thesis using assms(2) by (simp add: buffer_ok_def)
qed

lemma handle_messages_finished:
  "handle_messages impl ms b w = (t, b', w') \<Longrightarrow> ab_finished_startup b \<Longrightarrow>
    ab_finished_startup b' \<and> ab_startup_buffer b' = ab_startup_buffer b"
proof (induction ms arbitrary: b w)
  case (Cons x ms)
  obtain m r reply within where x: "x = (m, r, reply, within)" by (cases x)
  obtain t1 b1 w1 where one: "handle_message impl m r reply within b w = (t1, b1, w1)"
    by (cases "handle_message impl m r reply within b w")
  note kept = handle_message_finished [OF one]
  show ?case
  proof (cases "t1 = Ran Continue")
    case True
    then have "handle_messages impl ms b1 w1 = (t, b', w')"
      using Cons.prems by (simp add: x one)
    from Cons.IH [OF this] show ?thesis
      using Cons.prems kept by simp
  next
    case False
    then have "b' = b1"
      using Cons.prems by (auto simp: x one split: task.splits flow.splits)
    then show ?thesis using Cons.prems kept by simp
  qed
qed simp

lemma startup_finished_run:
  assumes "ab_startup_buffer b = map message_signal ms"
  shows "handle_startup_finished impl b w =
    handle_messages impl ms (b\<lparr>ab_finished_startup := True, ab_startup_buffer := []\<rparr>) w"
  using assms by (simp add: handle_startup_finished_def Let_def drain_startup_messages)

lemma startup_finished_clears:
  assumes "buffer_ok b" "handle_startup_finished impl b w = (t, b', w')"
  shows "ab_finished_startup b' \<and> ab_startup_buffer b' = []"
proof -
  obtain ms where "ab_startup_buffer b = map message_signal ms"
    using assms(1) by (auto simp: buffer_ok_def)
  then show ?thesis
    using handle_messages_finished assms(2) by (fastforce simp: startup_finished_run)
qed

lemma handle_stop_clears:
  assumes "buffer_ok b" "handle_stop impl b w = (t, b', w')"
  shows "ab_finished_startup b' \<and> ab_startup_buffer b' = [] \<and> t \<noteq> Ran Continue"
proof -
  obtain t1 b1 w1 where s: "handle_startup_finished impl b w = (t1, b1, w1)"
    by (cases "handle_startup_finished impl b w")
  show ?thesis
    using startup_finished_clears [OF assms(1) s] assms(2)
    by (auto simp: handle_stop_def s split: task.splits flow.splits)
qed


section \<open>Properties\<close>

text \<open>A small actor for the witnesses: it adds up numbers and fails on 13.\<close>

definition adder :: "(nat, nat, nat signal list) actor_impl" where
  "adder =
    \<lparr>ai_name = ''adder'', ai_on_start = (\<lambda>w. (Returned (Ok 0), w)),
     ai_on_message = (\<lambda>a m r reply st w.
       case any_downcast (TyNamed 0) m of
         Some n \<Rightarrow> if n = 13 then (Unwound (Any TyString n), a, st, w)
                   else (Returned (Ok ()), a + n, st, w)
       | None \<Rightarrow> (Returned (Err m), a, st, w)),
     ai_on_panic = default_on_panic, ai_on_link_died = default_on_link_died,
     ai_on_link_established = default_on_link_established, ai_on_stop = default_on_stop,
     ai_next = default_next (\<lambda>w. case w_env w of [] \<Rightarrow> (Returned None, w)
       | s # ss \<Rightarrow> (Returned (Some s), w\<lparr>w_env := ss\<rparr>))\<rparr>"

definition adder_world :: "nat signal list \<Rightarrow> (nat, nat signal list) world" where
  "adder_world q = \<lparr>w_links = [], w_startup_result = None, w_shutdown_result = None,
    w_error_hook_calls = [], w_registry = registry_new, w_notices = [], w_env = q\<rparr>"

definition add_message :: "nat \<Rightarrow> nat message" where
  "add_message n = (Any (TyNamed 0) n, ActorId 1, None, False)"

text \<open>
  Messages from outside that arrive before startup has finished are only queued, without touching the
  actor or the world; the end of startup handles them in their order of arrival until one breaks.
\<close>

lemma startup_flush:
  assumes "\<not> ab_finished_startup b" and "ab_startup_buffer b = []" and "\<forall>m \<in> set ms. external m"
  shows "handle_messages impl ms b w = (Ran Continue, b\<lparr>ab_startup_buffer := map message_signal ms\<rparr>, w) \<and>
    handle_startup_finished impl (b\<lparr>ab_startup_buffer := map message_signal ms\<rparr>) w =
      handle_messages impl ms (b\<lparr>ab_finished_startup := True\<rparr>) w"
proof -
  have cleared: "b\<lparr>ab_finished_startup := True, ab_startup_buffer := []\<rparr> = b\<lparr>ab_finished_startup := True\<rparr>"
    using assms(2) by (cases b) simp
  have "handle_startup_finished impl (b\<lparr>ab_startup_buffer := map message_signal ms\<rparr>) w =
      handle_messages impl ms (b\<lparr>ab_finished_startup := True, ab_startup_buffer := []\<rparr>) w"
    using startup_finished_run [of "b\<lparr>ab_startup_buffer := map message_signal ms\<rparr>" ms impl w] by simp
  then show ?thesis
    using buffering [OF assms(1,3), of impl w] assms(2) unfolding cleared by simp
qed

text \<open>
  A buffered message whose handler fails discards every later buffered message: the outcome
  of the end of startup, and of a stop signal that flushes the buffer, does not depend on the
  messages behind it, which are gone from the buffer although \<open>on_panic\<close> may let the actor go on.
\<close>

theorem startup_break_discards_rest:
  assumes "ab_startup_buffer b = map message_signal (ms @ m # rest)"
    and "handle_messages impl (ms @ [m]) (b\<lparr>ab_finished_startup := True, ab_startup_buffer := []\<rparr>) w
      = (Ran (Break reason), b', w')"
  shows "handle_startup_finished impl b w = (Ran (Break reason), b', w') \<and>
    handle_stop impl b w = (Ran (Break reason), b', w') \<and> ab_startup_buffer b' = []"
proof -
  have "handle_messages impl (ms @ [m]) b0 w = (Ran (Break reason), b', w') \<Longrightarrow>
      handle_messages impl (ms @ m # rest) b0 w = (Ran (Break reason), b', w')" for b0 w
  proof (induction ms arbitrary: b0 w)
    case Nil
    then show ?case by (cases m) (auto split: prod.splits task.splits flow.splits)
  next
    case (Cons x ms)
    obtain a r reply within where x: "x = (a, r, reply, within)" by (cases x)
    obtain t1 b1 w1 where one: "handle_message impl a r reply within b0 w = (t1, b1, w1)"
      by (cases "handle_message impl a r reply within b0 w")
    show ?case
      using Cons.prems Cons.IH [of b1 w1] by (auto simp: x one split: task.splits flow.splits)
  qed
  then have run: "handle_startup_finished impl b w = (Ran (Break reason), b', w')"
    using assms by (simp add: startup_finished_run [OF assms(1)])
  moreover have "ab_startup_buffer b' = []"
    using handle_messages_finished [OF assms(2)] by simp
  ultimately show ?thesis by (simp add: handle_stop_def)
qed

theorem startup_break_discards_rest_witness:
  "case handle_startup_finished adder ((new_from_actor 0 (ActorId 1))
      \<lparr>ab_startup_buffer := map message_signal ([add_message 2] @ add_message 13 # [add_message 3])\<rparr>) (adder_world []) of
    (t, b, w) \<Rightarrow> t = Ran (Break (PanickedWith (panic_error_new (Any TyString 13) HandlerPanic))) \<and>
      ab_state b = 2 \<and> ab_startup_buffer b = []"
proof -
  let ?b = "(new_from_actor 0 (ActorId 1))
      \<lparr>ab_startup_buffer := map message_signal ([add_message 2] @ add_message 13 # [add_message 3])\<rparr>"
  let ?r = "PanickedWith (panic_error_new (Any TyString (13 :: nat)) HandlerPanic)"
  have buf: "ab_startup_buffer ?b = map message_signal ([add_message 2] @ add_message 13 # [add_message 3])"
    by simp
  have "handle_messages adder ([add_message 2] @ [add_message 13])
      (?b\<lparr>ab_finished_startup := True, ab_startup_buffer := []\<rparr>) (adder_world [])
    = (Ran (Break ?r), (new_from_actor 2 (ActorId 1))\<lparr>ab_finished_startup := True\<rparr>, adder_world [])"
    by (simp add: add_message_def adder_def handle_message_def new_from_actor_def new_from_panic_any_def
        panic_error_new_def)
  from startup_break_discards_rest [OF buf this] show ?thesis
    by (simp add: new_from_actor_def)
qed

end
