(* ===== verification/Lifecycle.thy ===== *)
theory Lifecycle
  imports Actor_Behaviour
begin

text \<open>
  The life of an actor (\<open>src/actor/spawn.rs\<close>): start, the receive loop with recovery from panics,
  the stop with its notices, and the results waiters see. The loops may run for ever and are partial
  functions in the option monad, where \<open>None\<close> means that the call does not return. What the
  runtime provides is a record of parameters.
\<close>

section \<open>The receive loop\<close>

text \<open>One turn of the loop: what the received signal does.\<close>

fun dispatch ::
  "('a, 'v, 'e) actor_impl \<Rightarrow> 'v signal option \<Rightarrow> ('a, 'v) behaviour \<Rightarrow> ('v, 'e) world \<Rightarrow> ('a, 'v, 'e) step" where
  "dispatch impl (Some StartupFinished) b w = handle_startup_finished impl b w"
| "dispatch impl (Some (MessageSignal m r reply within)) b w = handle_message impl m r reply within b w"
| "dispatch impl (Some (LinkDied i reason)) b w = handle_link_died impl i reason b w"
| "dispatch impl (Some (LinkEstablished i)) b w = handle_link_established impl i b w"
| "dispatch impl (Some Stop) b w = handle_stop impl b w"
| "dispatch impl None b w = handle_stop impl b w"

definition loop_turn ::
  "('a, 'v, 'e) actor_impl \<Rightarrow> ('a, 'v) behaviour \<Rightarrow> ('v, 'e) world \<Rightarrow> ('a, 'v, 'e) step" where
  "loop_turn impl b w =
    (case behaviour_next impl b w of
       (Ran signal, b, w) \<Rightarrow> dispatch impl signal b w
     | (TaskPanicked, b, w) \<Rightarrow> (TaskPanicked, b, w)
     | (TaskDropped, b, w) \<Rightarrow> (TaskDropped, b, w))"

type_synonym ('a, 'v, 'e) stopped = "'v stop_reason task \<times> ('a, 'v) behaviour \<times> ('v, 'e) world"

partial_function (option) recv_mailbox_loop ::
  "('a, 'v, 'e) actor_impl \<Rightarrow> ('a, 'v) behaviour \<Rightarrow> ('v, 'e) world \<Rightarrow> ('a, 'v, 'e) stopped option" where
  "recv_mailbox_loop impl b w =
    (case loop_turn impl b w of
       (Ran Continue, b, w) \<Rightarrow> recv_mailbox_loop impl b w
     | (Ran (Break reason), b, w) \<Rightarrow> Some (Ran reason, b, w)
     | (TaskPanicked, b, w) \<Rightarrow> Some (TaskPanicked, b, w)
     | (TaskDropped, b, w) \<Rightarrow> Some (TaskDropped, b, w))"

partial_function (option) shutdown_loop ::
  "('a, 'v, 'e) actor_impl \<Rightarrow> ('a, 'v) behaviour \<Rightarrow> ('v, 'e) world \<Rightarrow> ('a, 'v, 'e) stopped option" where
  "shutdown_loop impl b w =
    Option.bind (recv_mailbox_loop impl b w) (\<lambda>(t, b, w).
      case t of
        Ran reason \<Rightarrow>
          (case on_shutdown impl reason b w of
             (Ran Continue, b, w) \<Rightarrow> shutdown_loop impl b w
           | (Ran (Break reason), b, w) \<Rightarrow> Some (Ran reason, b, w)
           | (TaskPanicked, b, w) \<Rightarrow> Some (TaskPanicked, b, w)
           | (TaskDropped, b, w) \<Rightarrow> Some (TaskDropped, b, w))
      | TaskPanicked \<Rightarrow> Some (TaskPanicked, b, w)
      | TaskDropped \<Rightarrow> Some (TaskDropped, b, w))"

definition abortable_actor_loop ::
  "('a, 'v, 'e) actor_impl \<Rightarrow> bool \<Rightarrow> ('a, 'v) behaviour \<Rightarrow> ('v, 'e) world \<Rightarrow> ('a, 'v, 'e) stopped option" where
  "abortable_actor_loop impl startup_finished b w =
    (if startup_finished
     then (case handle_startup_finished impl b w of
             (Ran Continue, b, w) \<Rightarrow> shutdown_loop impl b w
           | (Ran (Break reason), b, w) \<Rightarrow> Some (Ran reason, b, w)
           | (TaskPanicked, b, w) \<Rightarrow> Some (TaskPanicked, b, w)
           | (TaskDropped, b, w) \<Rightarrow> Some (TaskDropped, b, w))
     else shutdown_loop impl b w)"


section \<open>The whole life\<close>

text \<open>
  The runtime: sending the startup signal to the own mailbox, sending a notice to a linked actor
  (an error of which is only logged), and whether a strong reference is still alive at the end.
\<close>

record ('v, 'e) runtime =
  rt_signal_startup :: "('v, 'e) world \<Rightarrow> (unit, (unit, unit) send_error) result \<times> ('v, 'e) world"
  rt_notify :: "link \<Rightarrow> actor_id \<Rightarrow> 'v stop_reason \<Rightarrow> ('v, 'e) world \<Rightarrow> ('v, 'e) world"
  rt_upgrade :: "('v, 'e) world \<Rightarrow> bool"

text \<open>What the task of an actor returns: \<open>Result<(A, ActorStopReason), PanicError>\<close>.\<close>

type_synonym ('a, 'v) life_result = "('a \<times> 'v stop_reason, 'v panic_error) result"

fun start_result ::
  "(('a, 'v any) result, 'v) hook \<Rightarrow> ('a, 'v panic_error) result task" where
  "start_result (Returned (Ok a)) = Ran (Ok a)"
| "start_result (Returned (Err e)) = Ran (Err (panic_error_new e OnStart))"
| "start_result (Unwound p) = Ran (Err (new_from_panic_any p OnStart))"
| "start_result Dropped = TaskDropped"

definition invoke_actor_error_hook :: "'v panic_error \<Rightarrow> ('v, 'e) world \<Rightarrow> ('v, 'e) world" where
  "invoke_actor_error_hook err w = w\<lparr>w_error_hook_calls := w_error_hook_calls w @ [err]\<rparr>"

text \<open>\<open>SetOnce::set(..).expect(..)\<close>: a second set unwinds.\<close>

definition set_startup_result ::
  "(unit, 'v panic_error) result \<Rightarrow> ('v, 'e) world \<Rightarrow> ('v, 'e) world outcome" where
  "set_startup_result r w =
    (if w_startup_result w = None then Done (w\<lparr>w_startup_result := Some r\<rparr>) else Panicked)"

definition set_shutdown_result ::
  "(unit, 'v panic_error) result \<Rightarrow> ('v, 'e) world \<Rightarrow> ('v, 'e) world outcome" where
  "set_shutdown_result r w =
    (if w_shutdown_result w = None then Done (w\<lparr>w_shutdown_result := Some r\<rparr>) else Panicked)"

text \<open>
  Each drained link becomes a notice; the notices are sent while the function waits for all of
  them, after the user's \<open>on_stop\<close>.
\<close>

fun send_notices ::
  "('v, 'e) runtime \<Rightarrow> actor_id \<Rightarrow> 'v stop_reason \<Rightarrow> (actor_id \<times> link) list \<Rightarrow> ('v, 'e) world \<Rightarrow> ('v, 'e) world" where
  "send_notices rt i reason [] w = w"
| "send_notices rt i reason ((_, l) # ls) w =
    send_notices rt i reason ls
      (rt_notify rt l i reason (w\<lparr>w_notices := w_notices w @ [(l, i, reason)]\<rparr>))"

definition finish_life ::
  "('v, 'e) runtime \<Rightarrow> (unit, 'v any) result \<Rightarrow> ('v, 'e) world \<Rightarrow> ('v, 'e) world outcome" where
  "finish_life rt on_stop_res w =
    (case on_stop_res of
       Ok _ \<Rightarrow> (if rt_upgrade rt w then set_shutdown_result (Ok ()) w else Done w)
     | Err e \<Rightarrow>
         (let err = panic_error_new e OnStop; w = invoke_actor_error_hook err w
          in if rt_upgrade rt w then set_shutdown_result (Err err) w else Done w))"

text \<open>The part after the loop, for the reason it stopped with.\<close>

definition stop_actor ::
  "('a, 'v, 'e) actor_impl \<Rightarrow> ('v, 'e) runtime \<Rightarrow> bool \<Rightarrow> 'v stop_reason \<Rightarrow> ('a, 'v) behaviour \<Rightarrow> ('v, 'e) world
    \<Rightarrow> ('a, 'v) life_result task \<times> ('v, 'e) world" where
  "stop_actor impl rt remote reason b w =
    (let drained = w_links w;
         w = w\<lparr>w_links := []\<rparr>;
         (res, a, w) = ai_on_stop impl (ab_state b) reason w
     in case res of
          Unwound _ \<Rightarrow> (TaskPanicked, w)
        | Dropped \<Rightarrow> (TaskDropped, w)
        | Returned on_stop_res \<Rightarrow>
            (let w = send_notices rt (ab_actor_id b) reason drained w;
                 w = (if remote then w
                      else w\<lparr>w_registry := snd (registry_remove (ai_name impl) (w_registry w))\<rparr>)
             in case finish_life rt on_stop_res w of
                  Panicked \<Rightarrow> (TaskPanicked, w)
                | Done w \<Rightarrow> (Ran (Ok (a, reason)), w)))"

text \<open>\<open>Abortable\<close> turns a dropped loop into the reason \<open>Killed\<close>.\<close>

definition run_actor_lifecycle ::
  "('a, 'v, 'e) actor_impl \<Rightarrow> ('v, 'e) runtime \<Rightarrow> bool \<Rightarrow> actor_id \<Rightarrow> ('v, 'e) world
    \<Rightarrow> (('a, 'v) life_result task \<times> ('v, 'e) world) option" where
  "run_actor_lifecycle impl rt remote i w =
    (let (started, w) = ai_on_start impl w
     in case start_result started of
          TaskPanicked \<Rightarrow> Some (TaskPanicked, w)
        | TaskDropped \<Rightarrow> Some (TaskDropped, w)
        | Ran start_res \<Rightarrow>
            (let w = (case start_res of Ok _ \<Rightarrow> w | Err err \<Rightarrow> invoke_actor_error_hook err w)
             in case set_startup_result (map_ok (\<lambda>_. ()) start_res) w of
                  Panicked \<Rightarrow> Some (TaskPanicked, w)
                | Done w \<Rightarrow>
                    (let (signalled, w) = rt_signal_startup rt w;
                         startup_finished = (signalled = Err (MailboxFull ()))
                     in case start_res of
                          Err err \<Rightarrow> Some (Ran (Err err), w)
                        | Ok actor \<Rightarrow>
                            (case abortable_actor_loop impl startup_finished (new_from_actor actor i) w of
                               None \<Rightarrow> None
                             | Some (Ran reason, b, w) \<Rightarrow> Some (stop_actor impl rt remote reason b w)
                             | Some (TaskDropped, b, w) \<Rightarrow> Some (stop_actor impl rt remote Killed b w)
                             | Some (TaskPanicked, b, w) \<Rightarrow> Some (TaskPanicked, w)))))"


section \<open>Termination of the loops\<close>

text \<open>
  An actor whose mailbox \<open>q\<close> is what is left of a finite, closed channel: \<open>next\<close> takes the front
  or reports the end, and no hook puts anything back. The hooks may fail, panic, ask to stop or be
  dropped in any way.
\<close>

definition inbox_actor :: "('a, 'v, 'e) actor_impl \<Rightarrow> (('v, 'e) world \<Rightarrow> 'v signal list) \<Rightarrow> bool" where
  "inbox_actor impl q \<longleftrightarrow>
    (\<forall>a w. q w = [] \<longrightarrow> (\<exists>a' w'. ai_next impl a w = (Returned None, a', w') \<and> q w' = [])) \<and>
    (\<forall>a w s ss. q w = s # ss \<longrightarrow>
      (\<exists>a' w'. ai_next impl a w = (Returned (Some s), a', w') \<and> q w' = ss)) \<and>
    (\<forall>a m r reply st w. q (snd (snd (snd (ai_on_message impl a m r reply st w)))) = q w) \<and>
    (\<forall>a e w. q (snd (snd (ai_on_panic impl a e w))) = q w) \<and>
    (\<forall>a i r w. q (snd (snd (ai_on_link_died impl a i r w))) = q w) \<and>
    (\<forall>a i w. q (snd (snd (ai_on_link_established impl a i w))) = q w) \<and>
    (\<forall>w ls. q (w\<lparr>w_links := ls\<rparr>) = q w)"

lemma inbox_on_message:
  "inbox_actor impl q \<Longrightarrow> ai_on_message impl a m r reply st w = (x, a', st', w') \<Longrightarrow> q w' = q w"
  unfolding inbox_actor_def by (metis snd_conv)

lemma inbox_on_panic: "inbox_actor impl q \<Longrightarrow> ai_on_panic impl a e w = (x, a', w') \<Longrightarrow> q w' = q w"
  unfolding inbox_actor_def by (metis snd_conv)

lemma inbox_on_link_died:
  "inbox_actor impl q \<Longrightarrow> ai_on_link_died impl a i r w = (x, a', w') \<Longrightarrow> q w' = q w"
  unfolding inbox_actor_def by (metis snd_conv)

lemma inbox_on_link_established:
  "inbox_actor impl q \<Longrightarrow> ai_on_link_established impl a i w = (x, a', w') \<Longrightarrow> q w' = q w"
  unfolding inbox_actor_def by (metis snd_conv)

lemma inbox_links: "inbox_actor impl q \<Longrightarrow> q (w\<lparr>w_links := ls\<rparr>) = q w"
  by (simp add: inbox_actor_def)

lemmas inbox_rules = inbox_on_message inbox_on_panic inbox_on_link_died inbox_on_link_established

lemma inbox_handle_message:
  assumes "inbox_actor impl q" "handle_message impl m r reply within b w = (t, b', w')"
  shows "q w' = q w"
  using assms by (auto simp: handle_message_def Let_def dest: inbox_on_message split: if_splits prod.splits)

lemma inbox_handle_messages:
  "inbox_actor impl q \<Longrightarrow> handle_messages impl ms b w = (t, b', w') \<Longrightarrow> q w' = q w"
proof (induction ms arbitrary: b w)
  case (Cons x ms)
  obtain m r reply within where x: "x = (m, r, reply, within)" by (cases x)
  obtain t1 b1 w1 where one: "handle_message impl m r reply within b w = (t1, b1, w1)"
    by (cases "handle_message impl m r reply within b w")
  have "q w1 = q w" using inbox_handle_message [OF Cons.prems(1) one] .
  then show ?case
    using Cons.IH [OF Cons.prems(1), of b1 w1] Cons.prems(2)
    by (auto simp: x one split: task.splits flow.splits)
qed simp

lemma inbox_startup_finished:
  assumes "inbox_actor impl q" "buffer_ok b" "handle_startup_finished impl b w = (t, b', w')"
  shows "q w' = q w"
  using assms by (auto simp: buffer_ok_def startup_finished_run dest: inbox_handle_messages)

lemma inbox_handle_stop:
  assumes "inbox_actor impl q" "buffer_ok b" "handle_stop impl b w = (t, b', w')"
  shows "q w' = q w"
proof -
  obtain t1 b1 w1 where s: "handle_startup_finished impl b w = (t1, b1, w1)"
    by (cases "handle_startup_finished impl b w")
  show ?thesis
    using inbox_startup_finished [OF assms(1,2) s] assms(3)
    by (auto simp: handle_stop_def s split: task.splits flow.splits)
qed

lemma cleared_buffer_ok: "ab_startup_buffer b = [] \<Longrightarrow> buffer_ok b"
  by (auto simp: buffer_ok_def)

lemma dispatch_keeps:
  assumes "inbox_actor impl q" "buffer_ok b" "dispatch impl s b w = (t, b', w')"
  shows "buffer_ok b' \<and> q w' = q w"
proof (cases s)
  case None
  then show ?thesis
    using assms handle_stop_clears inbox_handle_stop by (fastforce intro: cleared_buffer_ok)
next
  case (Some sig)
  show ?thesis
  proof (cases sig)
    case StartupFinished
    then show ?thesis
      using assms Some startup_finished_clears inbox_startup_finished
      by (fastforce intro: cleared_buffer_ok)
  next
    case (MessageSignal m r reply within)
    then show ?thesis
      using assms Some by (auto dest: handle_message_buffer_ok inbox_handle_message)
  next
    case (LinkDied i reason)
    obtain x a w1 where h: "ai_on_link_died impl (ab_state b) i reason w = (x, a, w1)"
      by (cases "ai_on_link_died impl (ab_state b) i reason w")
    then have q: "q w1 = q w" using assms(1) by (auto dest: inbox_on_link_died)
    have "buffer_ok (b\<lparr>ab_state := a\<rparr>)" using assms(2) by (simp add: buffer_ok_def)
    then show ?thesis
      using assms(3) q inbox_links [OF assms(1)]
      by (auto simp: LinkDied Some handle_link_died_def h Let_def split: hook.splits)
  next
    case (LinkEstablished i)
    obtain x a w1 where h: "ai_on_link_established impl (ab_state b) i w = (x, a, w1)"
      by (cases "ai_on_link_established impl (ab_state b) i w")
    then have "q w1 = q w" using assms(1) by (auto dest: inbox_on_link_established)
    then show ?thesis
      using assms(2,3) by (auto simp: LinkEstablished Some handle_link_established_def h buffer_ok_def)
  next
    case Stop
    then show ?thesis
      using assms Some handle_stop_clears inbox_handle_stop by (fastforce intro: cleared_buffer_ok)
  qed
qed


lemma turn_keeps:
  assumes inbox: "inbox_actor impl q" and b: "buffer_ok b" and turn: "loop_turn impl b w = (t, b', w')"
  shows "buffer_ok b' \<and>
    (if q w = [] then q w' = [] \<and> ab_startup_buffer b' = [] \<and> t \<noteq> Ran Continue \<and>
        (ab_startup_buffer b = [] \<longrightarrow> t = Ran (Break Normal))
     else length (q w') < length (q w))"
proof (cases "q w")
  case Nil
  then obtain a w1 where n: "ai_next impl (ab_state b) w = (Returned None, a, w1)" "q w1 = []"
    using inbox unfolding inbox_actor_def by meson
  define b1 where "b1 = b\<lparr>ab_state := a\<rparr>"
  have b1: "buffer_ok b1" "ab_startup_buffer b1 = ab_startup_buffer b"
    using b by (simp_all add: b1_def buffer_ok_def)
  have stop: "handle_stop impl b1 w1 = (t, b', w')"
    using turn by (simp add: loop_turn_def behaviour_next_def n b1_def Let_def)
  have "t = Ran (Break Normal)" if "ab_startup_buffer b = []"
    using stop b1(2) that by (auto simp: handle_stop_def handle_startup_finished_def Let_def)
  then show ?thesis
    using handle_stop_clears [OF b1(1) stop] inbox_handle_stop [OF inbox b1(1) stop] n(2) Nil
    by (auto intro: cleared_buffer_ok)
next
  case (Cons s ss)
  then obtain a w1 where n: "ai_next impl (ab_state b) w = (Returned (Some s), a, w1)" "q w1 = ss"
    using inbox unfolding inbox_actor_def by meson
  have "buffer_ok (b\<lparr>ab_state := a\<rparr>)"
    using b by (simp add: buffer_ok_def)
  moreover have "dispatch impl (Some s) (b\<lparr>ab_state := a\<rparr>) w1 = (t, b', w')"
    using turn by (simp add: loop_turn_def behaviour_next_def n Let_def)
  ultimately show ?thesis
    using dispatch_keeps [OF inbox] n(2) Cons by fastforce
qed

lemma recv_loop_returns:
  assumes "inbox_actor impl q" "buffer_ok b"
  shows "\<exists>t b' w'. recv_mailbox_loop impl b w = Some (t, b', w') \<and> buffer_ok b' \<and>
    (length (q w') < length (q w) \<or>
     q w = [] \<and> q w' = [] \<and> ab_startup_buffer b' = [] \<and> (ab_startup_buffer b = [] \<longrightarrow> t = Ran Normal))"
  using assms(2)
proof (induction "length (q w)" arbitrary: b w rule: less_induct)
  case less
  obtain t b1 w1 where turn: "loop_turn impl b w = (t, b1, w1)" by (cases "loop_turn impl b w")
  note keep = turn_keeps [OF assms(1) less.prems turn]
  show ?case
  proof (cases "t = Ran Continue")
    case True
    then have shorter: "length (q w1) < length (q w)" "buffer_ok b1"
      using keep by (auto split: if_splits)
    have "recv_mailbox_loop impl b w = recv_mailbox_loop impl b1 w1"
      by (subst recv_mailbox_loop.simps) (simp add: turn True)
    then show ?thesis
      using less.hyps [OF shorter] shorter(1) by fastforce
  next
    case False
    then have "\<exists>r. recv_mailbox_loop impl b w = Some (r, b1, w1) \<and>
        (t = Ran (Break Normal) \<longrightarrow> r = Ran Normal)"
      by (subst recv_mailbox_loop.simps) (auto simp: turn split: task.splits flow.splits)
    then show ?thesis
      using keep by (auto split: if_splits)
  qed
qed

lemma inbox_on_shutdown:
  assumes "inbox_actor impl q" "on_shutdown impl reason b w = (t, b', w')"
  shows "q w' = q w \<and> ab_startup_buffer b' = ab_startup_buffer b \<and> (buffer_ok b \<longrightarrow> buffer_ok b') \<and>
    (reason = Normal \<longrightarrow> t = Ran (Break Normal))"
proof (cases reason)
  case (PanickedWith err)
  obtain x a w1 where h: "ai_on_panic impl (ab_state b) err w = (x, a, w1)"
    by (cases "ai_on_panic impl (ab_state b) err w")
  then have "q w1 = q w" using assms(1) by (auto dest: inbox_on_panic)
  then show ?thesis
    using assms(2) by (auto simp: on_shutdown_def PanickedWith h Let_def buffer_ok_def)
qed (use assms(2) in \<open>auto simp: on_shutdown_def\<close>)

lemma shutdown_loop_returns:
  assumes "inbox_actor impl q" "buffer_ok b"
  shows "\<exists>r. shutdown_loop impl b w = Some r"
  using assms(2)
proof (induction "(length (q w), if ab_startup_buffer b = [] then 0 else 1 :: nat)"
    arbitrary: b w rule: wf_induct_rule [OF wf_less_than [THEN wf_lex_prod [OF wf_less_than]]])
  case 1
  obtain t b1 w1 where r: "recv_mailbox_loop impl b w = Some (t, b1, w1)" "buffer_ok b1"
    "length (q w1) < length (q w) \<or>
      q w = [] \<and> q w1 = [] \<and> ab_startup_buffer b1 = [] \<and> (ab_startup_buffer b = [] \<longrightarrow> t = Ran Normal)"
    using recv_loop_returns [OF assms(1) 1(2)] by blast
  show ?case
  proof (cases t)
    case (Ran reason)
    obtain t2 b2 w2 where sh: "on_shutdown impl reason b1 w1 = (t2, b2, w2)"
      by (cases "on_shutdown impl reason b1 w1")
    note keep = inbox_on_shutdown [OF assms(1) sh]
    show ?thesis
    proof (cases "t2 = Ran Continue")
      case True
      then have step: "shutdown_loop impl b w = shutdown_loop impl b2 w2"
        by (subst shutdown_loop.simps) (simp add: r(1) Ran sh)
      have "reason \<noteq> Normal" using keep True by auto
      then have "((length (q w2), if ab_startup_buffer b2 = [] then 0 else 1 :: nat),
          (length (q w), if ab_startup_buffer b = [] then 0 else 1)) \<in> less_than <*lex*> less_than"
        using r(3) keep Ran by auto
      moreover have "buffer_ok b2" using keep r(2) by blast
      ultimately have "\<exists>x. shutdown_loop impl b2 w2 = Some x" using 1(1) by blast
      then show ?thesis by (simp add: step)
    next
      case False
      then show ?thesis
        by (subst shutdown_loop.simps) (auto simp: r(1) Ran sh split: task.splits flow.splits)
    qed
  qed (simp_all add: shutdown_loop.simps r(1))
qed


section \<open>What the startup buffer does to the mailbox\<close>

text \<open>
  A mailbox \<open>q\<close> inside the world, with its update \<open>put\<close>, whose front \<open>next\<close> takes. A message handler
  does the same whatever is queued and may send to its own actor, behind what is queued already. The
  other hooks may do anything.
\<close>

definition mailbox_actor ::
  "('a, 'v, 'e) actor_impl \<Rightarrow> (('v, 'e) world \<Rightarrow> 'v signal list)
    \<Rightarrow> ('v signal list \<Rightarrow> ('v, 'e) world \<Rightarrow> ('v, 'e) world) \<Rightarrow> bool" where
  "mailbox_actor impl q put \<longleftrightarrow>
    (\<forall>ss w. q (put ss w) = ss) \<and> (\<forall>ss ts w. put ss (put ts w) = put ss w) \<and>
    (\<forall>a s ss w. ai_next impl a (put (s # ss) w) = (Returned (Some s), a, put ss w)) \<and>
    (\<forall>a m r reply st w. \<exists>x a' st' w' sent. \<forall>ss.
      ai_on_message impl a m r reply st (put ss w) = (x, a', st', put (ss @ sent) w'))"

text \<open>The messages up to the first one whose handling does not continue, that one included.\<close>

fun up_to_break ::
  "('a, 'v, 'e) actor_impl \<Rightarrow> 'v message list \<Rightarrow> ('a, 'v) behaviour \<Rightarrow> ('v, 'e) world \<Rightarrow> 'v message list" where
  "up_to_break impl [] b w = []"
| "up_to_break impl ((m, r, reply, within) # ms) b w = (m, r, reply, within) #
    (case handle_message impl m r reply within b w of
       (Ran Continue, b, w) \<Rightarrow> up_to_break impl ms b w
     | _ \<Rightarrow> [])"

text \<open>What the receive loop makes of a turn.\<close>

definition after_turn ::
  "('a, 'v, 'e) actor_impl \<Rightarrow> ('a, 'v, 'e) step \<Rightarrow> ('a, 'v, 'e) stopped option" where
  "after_turn impl t = (case t of
     (Ran Continue, b, w) \<Rightarrow> recv_mailbox_loop impl b w
   | (Ran (Break reason), b, w) \<Rightarrow> Some (Ran reason, b, w)
   | (TaskPanicked, b, w) \<Rightarrow> Some (TaskPanicked, b, w)
   | (TaskDropped, b, w) \<Rightarrow> Some (TaskDropped, b, w))"

lemma recv_after_turn: "recv_mailbox_loop impl b w = after_turn impl (loop_turn impl b w)"
  by (subst recv_mailbox_loop.simps) (simp add: after_turn_def)

lemma shutdown_loop_cong:
  "recv_mailbox_loop impl b w = recv_mailbox_loop impl b' w' \<Longrightarrow> shutdown_loop impl b w = shutdown_loop impl b' w'"
  by (subst (1 2) shutdown_loop.simps) simp

lemma turn_continues:
  "loop_turn impl b w = (Ran Continue, b1, w1) \<Longrightarrow> shutdown_loop impl b w = shutdown_loop impl b1 w1"
  by (rule shutdown_loop_cong) (subst recv_after_turn, simp add: after_turn_def)

lemma turn_panics:
  assumes "loop_turn impl b w = (Ran (Break (PanickedWith err)), b1, w1)"
    and "ai_on_panic impl (ab_state b1) err w1 = (Returned (Ok Continue), a, w2)"
  shows "shutdown_loop impl b w = shutdown_loop impl (b1\<lparr>ab_state := a\<rparr>) w2"
  using assms by (subst shutdown_loop.simps) (simp add: recv_after_turn after_turn_def on_shutdown_def)

lemma turn_stops:
  "loop_turn impl b w = (Ran (Break Normal), b1, w1) \<Longrightarrow> shutdown_loop impl b w = Some (Ran Normal, b1, w1)"
  by (subst shutdown_loop.simps) (simp add: recv_after_turn after_turn_def on_shutdown_def)

lemma message_signal_eq: "message_signal (m, r, reply, within) = MessageSignal m r reply within"
  by (simp add: message_signal_def)

lemma mailbox_turn:
  assumes "mailbox_actor impl q put"
  shows "loop_turn impl b (put (s # ss) w) = dispatch impl (Some s) b (put ss w)"
  using assms by (simp add: mailbox_actor_def loop_turn_def behaviour_next_def)

lemma mailbox_handle_message:
  assumes "mailbox_actor impl q put"
  shows "\<exists>t b' w' sent. \<forall>ss. handle_message impl m r reply within b (put ss w) = (t, b', put (ss @ sent) w')"
proof (cases "\<not> within \<and> \<not> ab_finished_startup b")
  case True
  show ?thesis by (rule exI, rule exI, rule exI [of _ w], rule exI [of _ "[]"]) (simp add: handle_message_def True)
next
  case False
  obtain x a st w' sent where
    "\<forall>ss. ai_on_message impl (ab_state b) m r reply False (put ss w) = (x, a, st, put (ss @ sent) w')"
    using assms unfolding mailbox_actor_def by meson
  then show ?thesis
    using False by (auto simp: handle_message_def)
qed

text \<open>During startup, messages from outside go from the mailbox to the buffer.\<close>

lemma startup_buffers:
  assumes mb: "mailbox_actor impl q put"
  shows "\<not> ab_finished_startup b \<Longrightarrow> \<forall>m \<in> set ms. external m \<Longrightarrow>
    recv_mailbox_loop impl b (put (map message_signal ms @ ss) w) =
    recv_mailbox_loop impl (b\<lparr>ab_startup_buffer := ab_startup_buffer b @ map message_signal ms\<rparr>) (put ss w)"
proof (induction ms arbitrary: b)
  case (Cons m ms)
  obtain msg r reply within where m: "m = (msg, r, reply, within)" by (cases m)
  have "\<not> within" using Cons.prems by (simp add: m external_def)
  then show ?case
    using Cons by (subst recv_after_turn)
      (simp add: mailbox_turn [OF mb] m message_signal_eq handle_message_buffers after_turn_def)
qed simp

text \<open>
  After startup, handling the messages up to the first break from the mailbox is the same as
  handling the list: what is left of it behind a break plays no role.
\<close>

lemma handled_up_to_break:
  assumes mb: "mailbox_actor impl q put"
  shows "ab_finished_startup b \<Longrightarrow>
    recv_mailbox_loop impl b (put (map message_signal (up_to_break impl ms b (put ts w)) @ ss) w) =
    after_turn impl (handle_messages impl ms b (put ss w))"
proof (induction ms arbitrary: b ts ss w)
  case (Cons m ms)
  obtain msg r reply within where m: "m = (msg, r, reply, within)" by (cases m)
  obtain t b1 w1 sent where one: "\<And>ss. handle_message impl msg r reply within b (put ss w) = (t, b1, put (ss @ sent) w1)"
    using mailbox_handle_message [OF mb] by meson
  have "ab_finished_startup b1"
    using handle_message_finished [OF one] Cons.prems by simp
  from Cons.IH [OF this, of "ts @ sent" w1 "ss @ sent"] show ?case
    by (subst recv_after_turn)
      (simp add: mailbox_turn [OF mb] m message_signal_eq one after_turn_def split: task.split flow.split)
qed (simp add: after_turn_def)

section \<open>Properties\<close>

lemma adder_inbox: "inbox_actor adder w_env"
  unfolding inbox_actor_def adder_def
  by (auto simp: default_next_def default_on_panic_def default_on_link_died_def
      default_on_link_established_def split: option.splits)

text \<open>
  C1. An actor whose mailbox is closed and holds finitely many signals stops: whatever its hooks
  return, and however often \<open>on_panic\<close> lets it go on, the loop returns.
\<close>

theorem actor_loop_terminates:
  assumes "inbox_actor impl q" and "buffer_ok b"
  shows "\<exists>t b' w'. abortable_actor_loop impl startup_finished b w = Some (t, b', w')"
proof (cases startup_finished)
  case True
  obtain t b1 w1 where s: "handle_startup_finished impl b w = (t, b1, w1)"
    by (cases "handle_startup_finished impl b w")
  have "buffer_ok b1"
    using startup_finished_clears [OF assms(2) s] by (auto intro: cleared_buffer_ok)
  then have "\<exists>r. shutdown_loop impl b1 w1 = Some r"
    using shutdown_loop_returns [OF assms(1)] by blast
  then show ?thesis
    using True by (auto simp: abortable_actor_loop_def s split: task.splits flow.splits)
next
  case False
  then show ?thesis
    using shutdown_loop_returns [OF assms, of w] by (auto simp: abortable_actor_loop_def)
qed

theorem actor_loop_terminates_witness:
  "\<exists>t b' w'. abortable_actor_loop adder True (new_from_actor 0 (ActorId 1))
    (adder_world [message_signal (add_message 2), LinkEstablished (ActorId 4), Stop]) = Some (t, b', w')"
  using actor_loop_terminates [OF adder_inbox] by (simp add: buffer_ok_def new_from_actor_def)

text \<open>
  C19. Recovery from a failed handler: when a turn of the loop ends in a panic and \<open>on_panic\<close>
  continues, the actor goes on with the state the handler and \<open>on_panic\<close> left and with the world,
  so the queued signals, as they are; the default \<open>on_panic\<close> stops it with that very error.
\<close>

theorem panic_recovery:
  assumes "loop_turn impl b w = (Ran (Break (PanickedWith err)), b1, w1)"
  shows "(\<forall>a w2. ai_on_panic impl (ab_state b1) err w1 = (Returned (Ok Continue), a, w2) \<longrightarrow>
      shutdown_loop impl b w = shutdown_loop impl (b1\<lparr>ab_state := a\<rparr>) w2) \<and>
    (ai_on_panic impl = default_on_panic \<longrightarrow> shutdown_loop impl b w = Some (Ran (PanickedWith err), b1, w1))"
proof -
  have "recv_mailbox_loop impl b w = Some (Ran (PanickedWith err), b1, w1)"
    by (subst recv_mailbox_loop.simps) (simp add: assms)
  then show ?thesis
    by (subst (1 3) shutdown_loop.simps) (simp add: on_shutdown_def default_on_panic_def Let_def)
qed

theorem panic_recovery_witness:
  "shutdown_loop adder ((new_from_actor 5 (ActorId 1))\<lparr>ab_finished_startup := True\<rparr>)
     (adder_world [message_signal (add_message 13), Stop]) =
   Some (Ran (PanickedWith (panic_error_new (Any TyString 13) HandlerPanic)),
     (new_from_actor 5 (ActorId 1))\<lparr>ab_finished_startup := True\<rparr>, adder_world [Stop])"
proof -
  have turn: "loop_turn adder ((new_from_actor 5 (ActorId 1))\<lparr>ab_finished_startup := True\<rparr>)
     (adder_world [message_signal (add_message 13), Stop]) =
     (Ran (Break (PanickedWith (panic_error_new (Any TyString 13) HandlerPanic))),
      (new_from_actor 5 (ActorId 1))\<lparr>ab_finished_startup := True\<rparr>, adder_world [Stop])"
    by (simp add: loop_turn_def behaviour_next_def adder_def adder_world_def message_signal_def add_message_def
        handle_message_def new_from_actor_def default_next_def new_from_panic_any_def panic_error_new_def)
  have "ai_on_panic adder = default_on_panic" by (simp add: adder_def)
  with panic_recovery [OF turn] show ?thesis by blast
qed

text \<open>
  C5. The startup buffer, measured against the same loop with nothing to buffer. Messages from outside
  that arrive before the startup signal, then that signal and whatever is queued behind it, have the
  effect of the same mailbox without the signal on an actor that has started, if none but the last
  of them fails or stops the actor. If one does, the messages buffered behind it are lost: the effect
  is that of a mailbox that never held them, even where \<open>on_panic\<close> lets the actor go on and a message
  in the mailbox behind a failing one would be handled.
\<close>

theorem startup_buffer_loses_behind_break:
  assumes "mailbox_actor impl q put" and "\<not> ab_finished_startup b" and "ab_startup_buffer b = []"
    and "\<forall>m \<in> set ms. external m"
  shows "shutdown_loop impl b (put (map message_signal ms @ StartupFinished # rest) w) =
    shutdown_loop impl (b\<lparr>ab_finished_startup := True\<rparr>)
      (put (map message_signal (up_to_break impl ms (b\<lparr>ab_finished_startup := True\<rparr>) (put rest w)) @ rest) w)"
proof (rule shutdown_loop_cong)
  let ?b = "b\<lparr>ab_startup_buffer := map message_signal ms\<rparr>"
  have flush: "handle_startup_finished impl ?b (put rest w) =
      handle_messages impl ms (b\<lparr>ab_finished_startup := True\<rparr>) (put rest w)"
    using startup_flush [OF assms(2-4)] by blast
  have "recv_mailbox_loop impl b (put (map message_signal ms @ StartupFinished # rest) w) =
      recv_mailbox_loop impl ?b (put (StartupFinished # rest) w)"
    using startup_buffers [OF assms(1,2,4)] assms(3) by simp
  also have "\<dots> = after_turn impl (handle_messages impl ms (b\<lparr>ab_finished_startup := True\<rparr>) (put rest w))"
    by (subst recv_after_turn) (simp add: mailbox_turn [OF assms(1)] flush)
  also have "\<dots> = recv_mailbox_loop impl (b\<lparr>ab_finished_startup := True\<rparr>)
      (put (map message_signal (up_to_break impl ms (b\<lparr>ab_finished_startup := True\<rparr>) (put rest w)) @ rest) w)"
    by (rule handled_up_to_break [OF assms(1), symmetric]) simp
  finally show "recv_mailbox_loop impl b (put (map message_signal ms @ StartupFinished # rest) w) = \<dots>" .
qed

text \<open>The adder with an \<open>on_panic\<close> that continues: a failing message of its buffer takes the rest with it.\<close>

definition stubborn_adder :: "(nat, nat, nat signal list) actor_impl" where
  "stubborn_adder = adder\<lparr>ai_on_panic := (\<lambda>a err w. (Returned (Ok Continue), a, w))\<rparr>"

definition set_env :: "'v signal list \<Rightarrow> ('v, 'v signal list) world \<Rightarrow> ('v, 'v signal list) world" where
  "set_env ss w = w\<lparr>w_env := ss\<rparr>"

lemma stubborn_mailbox: "mailbox_actor stubborn_adder w_env set_env"
  unfolding mailbox_actor_def
proof (intro conjI allI)
  fix a m r reply st and w :: "(nat, nat signal list) world"
  obtain x a' st' where "\<And>w. ai_on_message stubborn_adder a m r reply st w = (x, a', st', w)"
    by (cases "any_downcast (TyNamed 0) m"; cases "any_downcast (TyNamed 0) m = Some 13")
      (auto simp: stubborn_adder_def adder_def)
  then show "\<exists>x a' st' w' sent. \<forall>ss. ai_on_message stubborn_adder a m r reply st (set_env ss w) = (x, a', st', set_env (ss @ sent) w')"
    by (metis append_Nil2)
qed (simp_all add: set_env_def stubborn_adder_def adder_def default_next_def)

lemmas stubborn_defs = stubborn_adder_def adder_def adder_world_def add_message_def new_from_actor_def set_env_def

definition stubborn_state :: "nat \<Rightarrow> (nat, nat) behaviour" where
  "stubborn_state n = (new_from_actor n (ActorId 1))\<lparr>ab_finished_startup := True\<rparr>"

lemma stubborn_turn:
  "loop_turn stubborn_adder (stubborn_state n) (adder_world (message_signal (add_message k) # ss)) =
    (if k = 13 then (Ran (Break (PanickedWith (panic_error_new (Any TyString 13) HandlerPanic))), stubborn_state n, adder_world ss)
     else (Ran Continue, stubborn_state (n + k), adder_world ss))"
  by (simp add: loop_turn_def behaviour_next_def stubborn_defs default_next_def message_signal_def handle_message_def
      stubborn_state_def new_from_panic_any_def panic_error_new_def)

lemma stubborn_message:
  "shutdown_loop stubborn_adder (stubborn_state n) (adder_world (message_signal (add_message k) # ss)) =
    shutdown_loop stubborn_adder (stubborn_state (if k = 13 then n else n + k)) (adder_world ss)"
proof (cases "k = 13")
  case True
  have "shutdown_loop stubborn_adder (stubborn_state n) (adder_world (message_signal (add_message k) # ss)) =
      shutdown_loop stubborn_adder ((stubborn_state n)\<lparr>ab_state := n\<rparr>) (adder_world ss)"
    by (rule turn_panics) (simp_all add: stubborn_turn True, simp add: stubborn_adder_def stubborn_state_def new_from_actor_def)
  then show ?thesis using True by (simp add: stubborn_state_def new_from_actor_def)
qed (simp add: turn_continues stubborn_turn)

lemma stubborn_stop:
  "shutdown_loop stubborn_adder (stubborn_state n) (adder_world [Stop]) = Some (Ran Normal, stubborn_state n, adder_world [])"
  by (rule turn_stops)
    (simp add: loop_turn_def behaviour_next_def stubborn_defs default_next_def stubborn_state_def handle_stop_def handle_startup_finished_def)

theorem startup_buffer_loses_behind_break_witness:
  "map_option (\<lambda>(t, b, w). (t, ab_state b)) (shutdown_loop stubborn_adder (new_from_actor 0 (ActorId 1))
      (adder_world (map message_signal [add_message 2, add_message 13, add_message 3] @ [StartupFinished, Stop]))) =
     Some (Ran Normal, 2) \<and>
   map_option (\<lambda>(t, b, w). (t, ab_state b)) (shutdown_loop stubborn_adder
      ((new_from_actor 0 (ActorId 1))\<lparr>ab_finished_startup := True\<rparr>)
      (adder_world (map message_signal [add_message 2, add_message 13, add_message 3] @ [Stop]))) =
     Some (Ran Normal, 5)"
proof -
  have env: "adder_world ss = set_env ss (adder_world [])" for ss
    by (simp add: adder_world_def set_env_def)
  have kept: "up_to_break stubborn_adder [add_message 2, add_message 13, add_message 3] (stubborn_state 0) (adder_world [Stop]) =
      [add_message 2, add_message 13]"
    by (simp add: stubborn_defs stubborn_state_def handle_message_def)
  have ext: "\<forall>m \<in> set [add_message 2, add_message 13, add_message 3]. external m"
    by (simp add: add_message_def external_def)
  have "shutdown_loop stubborn_adder (new_from_actor 0 (ActorId 1))
      (adder_world (map message_signal [add_message 2, add_message 13, add_message 3] @ [StartupFinished, Stop])) =
    shutdown_loop stubborn_adder (stubborn_state 0) (adder_world (map message_signal [add_message 2, add_message 13] @ [Stop]))"
    using startup_buffer_loses_behind_break [OF stubborn_mailbox _ _ ext, of "new_from_actor 0 (ActorId 1)" "[Stop]" "adder_world []"]
    unfolding stubborn_state_def [symmetric] env [symmetric] by (simp add: kept) (simp add: new_from_actor_def)
  then show ?thesis
    by (simp add: stubborn_message stubborn_stop stubborn_state_def [symmetric])
      (simp add: stubborn_state_def new_from_actor_def)
qed

lemma send_notices_log:
  assumes "\<And>l i r w. w_notices (rt_notify rt l i r w) = w_notices w"
  shows "w_notices (send_notices rt i reason ls w) = w_notices w @ map (\<lambda>(_, l). (l, i, reason)) ls"
  by (induction ls arbitrary: w) (auto simp: assms)

lemma finish_life_keeps:
  "finish_life rt res w = Done w' \<Longrightarrow> w_notices w' = w_notices w \<and> w_registry w' = w_registry w
    \<and> w_links w' = w_links w"
  by (auto simp: finish_life_def set_shutdown_result_def invoke_actor_error_hook_def Let_def
      split: result.splits if_splits)

definition quiet_runtime :: "(nat, nat signal list) runtime" where
  "quiet_runtime = \<lparr>rt_signal_startup = (\<lambda>w. (Ok (), w)), rt_notify = (\<lambda>l i r w. w), rt_upgrade = (\<lambda>w. True)\<rparr>"

text \<open>
  C7. The end of an actor's life notifies every link it had exactly once, with its identifier and
  the reason it stopped, if \<open>on_stop\<close> returns, be it with an error; if \<open>on_stop\<close> panics no link is
  notified, although the link table was already emptied.
\<close>

theorem stop_notifies_links:
  assumes "\<And>l i r w. w_notices (rt_notify rt l i r w) = w_notices w"
    and "ai_on_stop impl (ab_state b) reason (w\<lparr>w_links := []\<rparr>) = (res, a, w1)"
  shows "w_notices (snd (stop_actor impl rt remote reason b w)) =
    w_notices w1 @ (case res of Returned _ \<Rightarrow> map (\<lambda>(_, l). (l, ab_actor_id b, reason)) (w_links w) | _ \<Rightarrow> [])"
proof (cases res)
  case (Returned r)
  define w2 where "w2 = send_notices rt (ab_actor_id b) reason (w_links w) w1"
  define w3 where "w3 = (if remote then w2 else w2\<lparr>w_registry := snd (registry_remove (ai_name impl) (w_registry w2))\<rparr>)"
  have w3: "w_notices w3 = w_notices w1 @ map (\<lambda>(_, l). (l, ab_actor_id b, reason)) (w_links w)"
    by (simp add: w3_def w2_def send_notices_log [OF assms(1)])
  have "stop_actor impl rt remote reason b w =
      (case finish_life rt r w3 of Panicked \<Rightarrow> (TaskPanicked, w3) | Done w4 \<Rightarrow> (Ran (Ok (a, reason)), w4))"
    unfolding stop_actor_def Let_def assms(2) Returned w3_def w2_def by (simp only: prod.case hook.case)
  then show ?thesis
    using w3 by (cases "finish_life rt r w3") (auto simp: Returned dest: finish_life_keeps)
qed (simp_all add: stop_actor_def assms(2))

theorem stop_notifies_links_witness:
  "w_notices (snd (stop_actor adder quiet_runtime False Killed (new_from_actor 0 (ActorId 1))
     ((adder_world [])\<lparr>w_links := [(ActorId 2, LocalLink (ActorId 2))]\<rparr>))) = [(LocalLink (ActorId 2), ActorId 1, Killed)]"
  using stop_notifies_links [of quiet_runtime adder "new_from_actor 0 (ActorId 1)" Killed
      "(adder_world [])\<lparr>w_links := [(ActorId 2, LocalLink (ActorId 2))]\<rparr>"]
  by (simp add: quiet_runtime_def adder_def default_on_stop_def adder_world_def new_from_actor_def)

text \<open>
  An actor whose \<open>on_start\<close> fails or panics publishes that error as its startup result, calls
  the error hook once with it and returns it; its links, those made before it was started
  included, are neither drained nor notified.
\<close>

theorem start_failure:
  assumes "ai_on_start impl w = (started, w1)" and "start_result started = Ran (Err err)"
    and "w_startup_result w1 = None"
    and "\<And>v. snd (rt_signal_startup rt v) = v"
  shows "\<exists>w'. run_actor_lifecycle impl rt remote i w = Some (Ran (Err err), w') \<and>
    w_startup_result w' = Some (Err err) \<and> w_error_hook_calls w' = w_error_hook_calls w1 @ [err] \<and>
    w_links w' = w_links w1 \<and> w_notices w' = w_notices w1"
proof -
  define w2 where "w2 = (invoke_actor_error_hook err w1)\<lparr>w_startup_result := Some (Err err)\<rparr>"
  have "run_actor_lifecycle impl rt remote i w = Some (Ran (Err err), w2)"
    by (simp add: run_actor_lifecycle_def set_startup_result_def invoke_actor_error_hook_def Let_def
        w2_def assms case_prod_beta)
  then show ?thesis by (simp add: w2_def invoke_actor_error_hook_def)
qed

theorem start_failure_witness:
  "\<exists>w'. run_actor_lifecycle (adder\<lparr>ai_on_start := (\<lambda>w. (Unwound (Any TyUnit 0), w))\<rparr>) quiet_runtime False (ActorId 1)
     ((adder_world [])\<lparr>w_links := [(ActorId 2, LocalLink (ActorId 2))]\<rparr>) =
     Some (Ran (Err (panic_error_new (AnyBox (Any TyUnit 0)) OnStart)), w') \<and> w_notices w' = []"
  using start_failure [of "adder\<lparr>ai_on_start := (\<lambda>w. (Unwound (Any TyUnit 0), w))\<rparr>"
      "(adder_world [])\<lparr>w_links := [(ActorId 2, LocalLink (ActorId 2))]\<rparr>" "Unwound (Any TyUnit 0)" _
      "panic_error_new (AnyBox (Any TyUnit 0)) OnStart" quiet_runtime False "ActorId 1"]
  by (auto simp: quiet_runtime_def new_from_panic_any_def adder_world_def)

text \<open>
  Without the remote feature the end of a life removes from the local registry the entry
  named after the actor's type, and no other: an actor registered under any other name is still
  found under it after it has stopped.
\<close>

theorem stop_unregisters_type_name_only:
  assumes "\<And>l i r w. w_registry (rt_notify rt l i r w) = w_registry w"
    and "ai_on_stop impl (ab_state b) reason (w\<lparr>w_links := []\<rparr>) = (Returned res, a, w1)"
  shows "registry_get t name (w_registry (snd (stop_actor impl rt False reason b w))) =
    (if name = ai_name impl then Ok None else registry_get t name (w_registry w1))"
proof -
  define w2 where "w2 = send_notices rt (ab_actor_id b) reason (w_links w) w1"
  define w3 where "w3 = w2\<lparr>w_registry := snd (registry_remove (ai_name impl) (w_registry w2))\<rparr>"
  have "w_registry (send_notices rt i reason ls v) = w_registry v" for i ls v
    by (induction ls arbitrary: v) (auto simp: assms(1))
  then have w3: "w_registry w3 = snd (registry_remove (ai_name impl) (w_registry w1))"
    by (simp add: w3_def w2_def)
  have "stop_actor impl rt False reason b w =
      (case finish_life rt res w3 of Panicked \<Rightarrow> (TaskPanicked, w3) | Done w4 \<Rightarrow> (Ran (Ok (a, reason)), w4))"
    unfolding stop_actor_def Let_def assms(2) w3_def w2_def by (simp only: prod.case hook.case if_False)
  then have "w_registry (snd (stop_actor impl rt False reason b w)) = snd (registry_remove (ai_name impl) (w_registry w1))"
    using w3 by (cases "finish_life rt res w3") (auto dest: finish_life_keeps)
  then show ?thesis
    by (simp add: registry_get_def registry_remove_def)
qed

theorem stop_unregisters_type_name_only_witness:
  "registry_get (TyNamed 0) ''mine'' (w_registry (snd (stop_actor adder quiet_runtime False Normal (new_from_actor 0 (ActorId 1))
     ((adder_world [])\<lparr>w_registry := snd (register_local ''mine'' (TyNamed 0) (ActorId 1) registry_new)\<rparr>)))) = Ok (Some (ActorId 1))"
  using stop_unregisters_type_name_only [of quiet_runtime adder "new_from_actor 0 (ActorId 1)" Normal
      "(adder_world [])\<lparr>w_registry := snd (register_local ''mine'' (TyNamed 0) (ActorId 1) registry_new)\<rparr>" "Ok ()" 0 _
      "TyNamed 0" "''mine''"]
  by (simp add: quiet_runtime_def adder_def default_on_stop_def adder_world_def new_from_actor_def
      register_local_def registry_insert_def registry_new_def registry_get_def registered_new_def
      registered_actor_ref_def)

end
