(* ===== verification/Streaming.thy ===== *)
theory Streaming
  imports Errors
begin

text \<open>
  Streams of large messages (\<open>src/remote/streaming.rs\<close>). The sender cuts a payload into chunks and
  writes frames to a connection; the receiver collects chunks and reassembles the payload. The
  connection, the encoding of \<open>kameo_remote::StreamHeader\<close> and the rkyv serializer are parameters;
  lengths are natural numbers and the fields of a frame are words, so that every cast is visible.
\<close>

section \<open>Frames\<close>

record stream_header =
  sh_stream_id :: u64
  sh_total_size :: u64
  sh_chunk_size :: u32
  sh_chunk_index :: u32
  sh_type_hash :: u32
  sh_actor_id :: u64

datatype stream_error = SerializationFailed | StreamConnectionClosed | NotConnected | StreamClosed | InvalidFrame

fun send_error_of_stream_error :: "stream_error \<Rightarrow> ('m, 'e) send_error" where
  "send_error_of_stream_error SerializationFailed = ActorStopped"
| "send_error_of_stream_error StreamConnectionClosed = ConnectionClosed"
| "send_error_of_stream_error NotConnected = MissingConnection"
| "send_error_of_stream_error StreamClosed = ConnectionClosed"
| "send_error_of_stream_error InvalidFrame = ActorStopped"

definition STREAM_START :: u8 where "STREAM_START = 0x10"
definition STREAM_DATA :: u8 where "STREAM_DATA = 0x11"
definition STREAM_END :: u8 where "STREAM_END = 0x12"

text \<open>
  A frame up to its payload: the size of what follows, the frame type, an empty correlation id,
  nine reserved bytes and the encoded header.
\<close>

definition frame_bytes :: "u8 \<Rightarrow> nat \<Rightarrow> bytes \<Rightarrow> bytes" where
  "frame_bytes ty payload_len header_bytes =
    to_be_bytes (of_nat (12 + length header_bytes + payload_len) :: u32) @ [ty] @ to_be_bytes (0 :: u16)
    @ replicate 9 0 @ header_bytes"


section \<open>The sender\<close>

text \<open>
  The three ways the code writes to a connection: one buffer, a header with its payload, and a
  list of buffers in one vectored write. The flag is success.
\<close>

record 'c connection =
  cn_send :: "bytes \<Rightarrow> 'c \<Rightarrow> bool \<times> 'c"
  cn_write_vectored :: "bytes \<Rightarrow> bytes \<Rightarrow> 'c \<Rightarrow> bool \<times> 'c"
  cn_write_chunks :: "bytes list \<Rightarrow> 'c \<Rightarrow> bool \<times> 'c"

record message_stream =
  ms_stream_id :: u64
  ms_name :: string
  ms_actor_id :: actor_id

definition stream_new :: "string \<Rightarrow> actor_id \<Rightarrow> u64 \<Rightarrow> message_stream \<times> u64" where
  "stream_new name i counter =
    (\<lparr>ms_stream_id = counter, ms_name = name, ms_actor_id = i\<rparr>, counter + 1)"

definition MAX_SINGLE_FRAME :: nat where "MAX_SINGLE_FRAME = 256 * 1024"
definition MAX_CHUNK_SIZE :: nat where "MAX_CHUNK_SIZE = 256 * 1024"
definition CHUNKS_PER_BATCH :: nat where "CHUNKS_PER_BATCH = 8"

definition div_ceil :: "nat \<Rightarrow> nat \<Rightarrow> nat" where
  "div_ceil n k = (if n mod k = 0 then n div k else n div k + 1)"

text \<open>\<open>map_err(|_| ConnectionClosed)\<close> of a write.\<close>

definition written :: "bool \<times> 'c \<Rightarrow> (unit, stream_error) result \<times> 'c" where
  "written r = (case r of (ok, c) \<Rightarrow> (if ok then Ok () else Err StreamConnectionClosed, c))"

definition stream_hdr ::
  "message_stream \<Rightarrow> nat \<Rightarrow> nat \<Rightarrow> nat \<Rightarrow> u32 \<Rightarrow> stream_header" where
  "stream_hdr ms total_size chunk_size chunk_index type_hash =
    \<lparr>sh_stream_id = ms_stream_id ms, sh_total_size = of_nat total_size, sh_chunk_size = of_nat chunk_size,
     sh_chunk_index = of_nat chunk_index, sh_type_hash = type_hash,
     sh_actor_id = actor_id_into_u64 (ms_actor_id ms)\<rparr>"

definition write_single_frame_owned ::
  "(stream_header \<Rightarrow> bytes) \<Rightarrow> 'c connection \<Rightarrow> message_stream \<Rightarrow> u32 \<Rightarrow> bytes \<Rightarrow> 'c
    \<Rightarrow> (unit, stream_error) result \<times> 'c" where
  "write_single_frame_owned hb cn ms type_hash data c =
    (let header = stream_hdr ms (length data) (length data) 0 type_hash;
         frame_header = frame_bytes STREAM_DATA (length data) (hb header)
     in written (cn_write_vectored cn frame_header data c))"

text \<open>
  The inner loop: the frames of one batch of chunk indices, and the offset after it. The slice is
  the part of the data from \<open>offset\<close> on, at most one chunk long.
\<close>

fun batch_frames ::
  "(stream_header \<Rightarrow> bytes) \<Rightarrow> message_stream \<Rightarrow> u32 \<Rightarrow> bytes \<Rightarrow> nat list \<Rightarrow> nat \<Rightarrow> bytes list \<times> nat" where
  "batch_frames hb ms type_hash data [] offset = ([], offset)"
| "batch_frames hb ms type_hash data (i # is) offset =
    (let chunk_size = min MAX_CHUNK_SIZE (length data - offset);
         chunk_data = take chunk_size (drop offset data);
         header = stream_hdr ms (length data) chunk_size i type_hash;
         frame_header = frame_bytes STREAM_DATA chunk_size (hb header);
         (frames, offset) = batch_frames hb ms type_hash data is (offset + chunk_size)
     in (frame_header # chunk_data # frames, offset))"

fun write_batches ::
  "(stream_header \<Rightarrow> bytes) \<Rightarrow> 'c connection \<Rightarrow> message_stream \<Rightarrow> u32 \<Rightarrow> bytes \<Rightarrow> nat \<Rightarrow> nat list \<Rightarrow> nat \<Rightarrow> 'c
    \<Rightarrow> (unit, stream_error) result \<times> 'c" where
  "write_batches hb cn ms type_hash data total_chunks [] offset c = (Ok (), c)"
| "write_batches hb cn ms type_hash data total_chunks (batch_start # starts) offset c =
    (let batch_end = min (batch_start + CHUNKS_PER_BATCH) total_chunks;
         (frames, offset) = batch_frames hb ms type_hash data [batch_start..<batch_end] offset
     in case written (cn_write_chunks cn frames c) of
          (Err e, c) \<Rightarrow> (Err e, c)
        | (Ok _, c) \<Rightarrow> write_batches hb cn ms type_hash data total_chunks starts offset c)"

text \<open>\<open>(0..n).step_by(k)\<close>\<close>

definition step_by :: "nat \<Rightarrow> nat \<Rightarrow> nat list" where
  "step_by n k = map (\<lambda>i. i * k) [0..<div_ceil n k]"

definition write_chunked_frames_vectored ::
  "(stream_header \<Rightarrow> bytes) \<Rightarrow> 'c connection \<Rightarrow> message_stream \<Rightarrow> u32 \<Rightarrow> bytes \<Rightarrow> 'c
    \<Rightarrow> (unit, stream_error) result \<times> 'c" where
  "write_chunked_frames_vectored hb cn ms type_hash data c =
    (let total_chunks = div_ceil (length data) MAX_CHUNK_SIZE;
         start_frame = frame_bytes STREAM_START 0 (hb (stream_hdr ms (length data) 0 0 type_hash))
     in case written (cn_send cn start_frame c) of
          (Err e, c) \<Rightarrow> (Err e, c)
        | (Ok _, c) \<Rightarrow>
            (case write_batches hb cn ms type_hash data total_chunks
                    (step_by total_chunks CHUNKS_PER_BATCH) 0 c of
               (Err e, c) \<Rightarrow> (Err e, c)
             | (Ok _, c) \<Rightarrow>
                 (let end_frame = frame_bytes STREAM_END 0
                        (hb (stream_hdr ms (length data) 0 total_chunks type_hash))
                  in written (cn_send cn end_frame c))))"

definition write_frame_owned ::
  "(stream_header \<Rightarrow> bytes) \<Rightarrow> 'c connection \<Rightarrow> message_stream \<Rightarrow> u32 \<Rightarrow> bytes \<Rightarrow> 'c
    \<Rightarrow> (unit, stream_error) result \<times> 'c" where
  "write_frame_owned hb cn ms type_hash data c =
    (if length data \<le> MAX_SINGLE_FRAME then write_single_frame_owned hb cn ms type_hash data c
     else write_chunked_frames_vectored hb cn ms type_hash data c)"

definition write_frame ::
  "(stream_header \<Rightarrow> bytes) \<Rightarrow> 'c connection \<Rightarrow> message_stream \<Rightarrow> u32 \<Rightarrow> bytes \<Rightarrow> 'c
    \<Rightarrow> (unit, stream_error) result \<times> 'c" where
  "write_frame hb cn ms type_hash data c = write_frame_owned hb cn ms type_hash data c"

definition stream_send_raw where
  "stream_send_raw hb cn ms type_hash data c = write_frame hb cn ms type_hash data c"

definition stream_send_pre_serialized where
  "stream_send_pre_serialized hb cn ms type_hash data c = write_frame_owned hb cn ms type_hash data c"

definition stream_send_rkyv_aligned where
  "stream_send_rkyv_aligned hb cn ms type_hash aligned_vec c =
    write_frame_owned hb cn ms type_hash aligned_vec c"

text \<open>\<open>send\<close>: the message type's hash and its serializer are arguments.\<close>

definition stream_send ::
  "('m \<Rightarrow> bytes option) \<Rightarrow> type_hash \<Rightarrow> (stream_header \<Rightarrow> bytes) \<Rightarrow> 'c connection \<Rightarrow> message_stream \<Rightarrow> 'm \<Rightarrow> 'c
    \<Rightarrow> (unit, stream_error) result \<times> 'c" where
  "stream_send serialize h hb cn ms message c =
    (case serialize message of
       None \<Rightarrow> (Err SerializationFailed, c)
     | Some aligned_vec \<Rightarrow> stream_send_rkyv_aligned hb cn ms (as_u32 h) aligned_vec c)"

definition stream_close ::
  "type_hash \<Rightarrow> (stream_header \<Rightarrow> bytes) \<Rightarrow> 'c connection \<Rightarrow> message_stream \<Rightarrow> 'c
    \<Rightarrow> (unit, stream_error) result \<times> 'c" where
  "stream_close h hb cn ms c =
    written (cn_send cn (frame_bytes STREAM_END 0 (hb (stream_hdr ms 0 0 0 (as_u32 h)))) c)"

text \<open>\<open>create_stream\<close> needs a cached connection.\<close>

definition create_stream ::
  "string \<Rightarrow> actor_id \<Rightarrow> 'c connection option \<Rightarrow> u64 \<Rightarrow> (message_stream \<times> 'c connection, stream_error) result \<times> u64" where
  "create_stream name i connection counter =
    (case connection of
       Some cn \<Rightarrow> (let (ms, counter) = stream_new name i counter in (Ok (ms, cn), counter))
     | None \<Rightarrow> (Err NotConnected, counter))"


section \<open>The receiver\<close>

text \<open>
  The chunks are a \<open>BTreeMap\<close> by index. Time stamps are numbers of a clock that is passed in.
  Error messages are the data they print.
\<close>

record stream_receiver =
  sr_stream_id :: u64
  sr_name :: string
  sr_chunks :: "(u32, bytes) hash_map"
  sr_expected_chunks :: "u32 option"
  sr_total_size :: "nat option"
  sr_created_at :: nat
  sr_last_activity :: nat
  sr_max_memory_bytes :: nat

record stream_info =
  si_stream_id :: u64
  si_name :: string
  si_chunks_received :: nat
  si_expected_chunks :: "u32 option"
  si_memory_usage :: nat
  si_age :: nat
  si_last_activity :: nat

datatype receiver_error =
    CleanedUp stream_info
  | MemoryLimit u64 string nat nat
  | DeserializeFailed
  | StreamCorruption u32 nat "u32 list" "u32 list"

definition receiver_new_with_limits :: "u64 \<Rightarrow> string \<Rightarrow> nat \<Rightarrow> nat \<Rightarrow> stream_receiver" where
  "receiver_new_with_limits i name max_memory_bytes now =
    \<lparr>sr_stream_id = i, sr_name = name, sr_chunks = [], sr_expected_chunks = None, sr_total_size = None,
     sr_created_at = now, sr_last_activity = now, sr_max_memory_bytes = max_memory_bytes\<rparr>"

definition receiver_new :: "u64 \<Rightarrow> string \<Rightarrow> nat \<Rightarrow> stream_receiver" where
  "receiver_new i name now =
    \<lparr>sr_stream_id = i, sr_name = name, sr_chunks = [], sr_expected_chunks = None, sr_total_size = None,
     sr_created_at = now, sr_last_activity = now, sr_max_memory_bytes = 32 * 1024 * 1024\<rparr>"

definition is_timed_out :: "stream_receiver \<Rightarrow> nat \<Rightarrow> nat \<Rightarrow> bool" where
  "is_timed_out r timeout now = (now - sr_last_activity r > timeout)"

definition is_too_old :: "stream_receiver \<Rightarrow> nat \<Rightarrow> nat \<Rightarrow> bool" where
  "is_too_old r max_age now = (now - sr_created_at r > max_age)"

definition chunks_memory :: "(u32, bytes) hash_map \<Rightarrow> nat" where
  "chunks_memory chunks = sum_list (map (\<lambda>(_, chunk). length chunk) chunks)"

definition memory_usage :: "stream_receiver \<Rightarrow> nat" where
  "memory_usage r = chunks_memory (sr_chunks r)"

definition is_over_memory_limit :: "stream_receiver \<Rightarrow> bool" where
  "is_over_memory_limit r = (memory_usage r > sr_max_memory_bytes r)"

definition stream_info_of :: "stream_receiver \<Rightarrow> nat \<Rightarrow> stream_info" where
  "stream_info_of r now =
    \<lparr>si_stream_id = sr_stream_id r, si_name = sr_name r, si_chunks_received = length (sr_chunks r),
     si_expected_chunks = sr_expected_chunks r, si_memory_usage = memory_usage r,
     si_age = now - sr_created_at r, si_last_activity = now - sr_last_activity r\<rparr>"

definition reset_receiver :: "stream_receiver \<Rightarrow> stream_receiver" where
  "reset_receiver r = r\<lparr>sr_chunks := [], sr_expected_chunks := None, sr_total_size := None\<rparr>"

definition receiver_cleanup :: "stream_receiver \<Rightarrow> nat \<Rightarrow> (unit, receiver_error) result \<times> stream_receiver" where
  "receiver_cleanup r now = (Err (CleanedUp (stream_info_of r now)), reset_receiver r)"

definition process_frame :: "(bytes \<Rightarrow> 'm option) \<Rightarrow> bytes \<Rightarrow> ('m option, receiver_error) result" where
  "process_frame de data = (case de data of Some m \<Rightarrow> Ok (Some m) | None \<Rightarrow> Err DeserializeFailed)"

text \<open>The assembly loop removes the chunks one by one; a missing one unwinds.\<close>

fun assemble :: "(u32, bytes) hash_map \<Rightarrow> u32 list \<Rightarrow> bytes \<Rightarrow> bytes outcome \<times> (u32, bytes) hash_map" where
  "assemble chunks [] complete_data = (Done complete_data, chunks)"
| "assemble chunks (i # is) complete_data =
    (case hm_get chunks i of
       None \<Rightarrow> (Panicked, chunks)
     | Some chunk \<Rightarrow> assemble (hm_remove i chunks) is (complete_data @ chunk))"

definition indices :: "u32 \<Rightarrow> u32 list" where
  "indices n = map of_nat [0..<unat n]"

text \<open>
  \<open>BytesMut::with_capacity\<close> unwinds beyond \<open>isize::MAX\<close> (of a target with 64 bits); the size is the one
  that chunk 0 announced.
\<close>

definition ISIZE_MAX :: nat where
  "ISIZE_MAX = 2 ^ 63 - 1"

definition announced_size :: "stream_receiver \<Rightarrow> nat" where
  "announced_size r = (case sr_total_size r of Some n \<Rightarrow> n | None \<Rightarrow> 0)"

text \<open>\<open>process_chunk\<close> from the check of the expected count on.\<close>

definition try_complete ::
  "(bytes \<Rightarrow> 'm option) \<Rightarrow> u32 \<Rightarrow> stream_receiver
    \<Rightarrow> ('m option, receiver_error) result outcome \<times> stream_receiver" where
  "try_complete de total_chunks r =
    (let expected = (case sr_expected_chunks r of Some n \<Rightarrow> n | None \<Rightarrow> 0)
     in if expected > 0 \<and> length (sr_chunks r) = unat expected
        then if list_all (\<lambda>i. hm_contains (sr_chunks r) i) (indices expected)
             then if announced_size r > ISIZE_MAX then (Panicked, r)
                  else (case assemble (sr_chunks r) (indices total_chunks) [] of
                          (Panicked, chunks) \<Rightarrow> (Panicked, r\<lparr>sr_chunks := chunks\<rparr>)
                        | (Done complete_data, chunks) \<Rightarrow>
                            (case de complete_data of
                               None \<Rightarrow> (Done (Err DeserializeFailed), r\<lparr>sr_chunks := chunks\<rparr>)
                             | Some message \<Rightarrow> (Done (Ok (Some message)), reset_receiver r)))
             else (Done (Err (StreamCorruption expected (length (sr_chunks r))
                     (filter (\<lambda>i. \<not> hm_contains (sr_chunks r) i) (indices expected))
                     (sort (map fst (sr_chunks r))))), r)
        else (Done (Ok None), r))"

definition process_chunk ::
  "(bytes \<Rightarrow> 'm option) \<Rightarrow> u32 \<Rightarrow> u32 \<Rightarrow> nat \<Rightarrow> bytes \<Rightarrow> nat \<Rightarrow> stream_receiver
    \<Rightarrow> ('m option, receiver_error) result outcome \<times> stream_receiver" where
  "process_chunk de chunk_index total_chunks total_size chunk_data now r =
    (let r = r\<lparr>sr_last_activity := now\<rparr>;
         r = (if chunk_index = 0
              then r\<lparr>sr_expected_chunks := Some total_chunks, sr_total_size := Some total_size, sr_chunks := []\<rparr>
              else r);
         r = r\<lparr>sr_chunks := hm_insert chunk_index chunk_data (sr_chunks r)\<rparr>
     in if is_over_memory_limit r
        then (Done (Err (MemoryLimit (sr_stream_id r) (sr_name r) (memory_usage r) (sr_max_memory_bytes r))),
              reset_receiver r)
        else try_complete de total_chunks r)"


section \<open>Lemmas on the sender\<close>

text \<open>The chunk with a given index.\<close>

definition chunk_at :: "bytes \<Rightarrow> nat \<Rightarrow> bytes" where
  "chunk_at data i = take MAX_CHUNK_SIZE (drop (i * MAX_CHUNK_SIZE) data)"

definition chunk_count :: "bytes \<Rightarrow> nat" where
  "chunk_count data = div_ceil (length data) MAX_CHUNK_SIZE"

definition chunk_frame :: "(stream_header \<Rightarrow> bytes) \<Rightarrow> message_stream \<Rightarrow> u32 \<Rightarrow> bytes \<Rightarrow> nat \<Rightarrow> bytes list" where
  "chunk_frame hb ms type_hash data i =
    [frame_bytes STREAM_DATA (length (chunk_at data i))
       (hb (stream_hdr ms (length data) (length (chunk_at data i)) i type_hash)), chunk_at data i]"

lemma div_ceil_bounds: "0 < k \<Longrightarrow> n \<le> div_ceil n k * k \<and> (\<forall>i < div_ceil n k. i * k < n)"
proof -
  assume k: "0 < k"
  have n: "n = n div k * k + n mod k" by simp
  have "i * k < n" if "i < div_ceil n k" for i
  proof (cases "n mod k = 0")
    case True
    then have "i < n div k" using that by (simp add: div_ceil_def)
    then have "Suc i * k \<le> n div k * k" by (intro mult_le_mono1) simp
    then show ?thesis using k True n by simp
  next
    case False
    then have "i * k \<le> n div k * k" using that by (intro mult_le_mono1) (simp add: div_ceil_def)
    then show ?thesis using False n by linarith
  qed
  moreover have "n \<le> div_ceil n k * k"
  proof (cases "n mod k = 0")
    case False
    have "n < n div k * k + k" using n mod_less_divisor [OF k, of n] by linarith
    then show ?thesis using False by (simp add: div_ceil_def algebra_simps)
  qed (auto simp: div_ceil_def)
  ultimately show ?thesis by blast
qed

lemma concat_chunks: "concat (map (chunk_at data) [0..<n]) = take (n * MAX_CHUNK_SIZE) data"
proof (induction n)
  case (Suc n)
  have "concat (map (chunk_at data) [0..<Suc n]) = take (n * MAX_CHUNK_SIZE) data @ chunk_at data n"
    by (simp add: Suc)
  also have "\<dots> = take (n * MAX_CHUNK_SIZE + MAX_CHUNK_SIZE) data"
    unfolding chunk_at_def by (rule take_add [symmetric])
  finally show ?case by (simp add: add.commute)
qed simp

lemma concat_all_chunks: "concat (map (chunk_at data) [0..<chunk_count data]) = data"
  using div_ceil_bounds [of MAX_CHUNK_SIZE "length data"]
  by (simp add: concat_chunks chunk_count_def MAX_CHUNK_SIZE_def)

lemma chunk_start: "i < chunk_count data \<Longrightarrow> i * MAX_CHUNK_SIZE < length data"
  using div_ceil_bounds [of MAX_CHUNK_SIZE "length data"]
  by (simp add: chunk_count_def MAX_CHUNK_SIZE_def)

lemma length_chunk_at: "length (chunk_at data i) = min MAX_CHUNK_SIZE (length data - i * MAX_CHUNK_SIZE)"
  by (simp add: chunk_at_def min.commute)

text \<open>One batch, from the index where the offset stands.\<close>

lemma batch_frames_closed:
  assumes "a \<le> b" "b \<le> chunk_count data"
  shows "batch_frames hb ms type_hash data [a..<b] (min (a * MAX_CHUNK_SIZE) (length data)) =
    (concat (map (chunk_frame hb ms type_hash data) [a..<b]), min (b * MAX_CHUNK_SIZE) (length data))"
  using assms(1)
proof (induction rule: inc_induct)
  case base
  show ?case by simp
next
  case (step a)
  have start: "a * MAX_CHUNK_SIZE < length data"
    using step(2) assms(2) by (intro chunk_start) simp
  have size: "min MAX_CHUNK_SIZE (length data - a * MAX_CHUNK_SIZE) = length (chunk_at data a)"
    by (simp add: length_chunk_at)
  have chunk: "take (length (chunk_at data a)) (drop (a * MAX_CHUNK_SIZE) data) = chunk_at data a"
    by (simp add: chunk_at_def min_def)
  have "a * MAX_CHUNK_SIZE + length (chunk_at data a) = min (Suc a * MAX_CHUNK_SIZE) (length data)"
    using start by (simp add: length_chunk_at)
  then show ?case
    using step start by (simp add: upt_conv_Cons size chunk chunk_frame_def Let_def)
qed

text \<open>A connection that accepts every write and records it.\<close>

definition recorder :: "bytes list list connection" where
  "recorder =
    \<lparr>cn_send = (\<lambda>f c. (True, c @ [[f]])), cn_write_vectored = (\<lambda>h p c. (True, c @ [[h, p]])),
     cn_write_chunks = (\<lambda>fs c. (True, c @ [fs]))\<rparr>"

definition batch :: "(stream_header \<Rightarrow> bytes) \<Rightarrow> message_stream \<Rightarrow> u32 \<Rightarrow> bytes \<Rightarrow> nat \<Rightarrow> bytes list" where
  "batch hb ms type_hash data i =
    concat (map (chunk_frame hb ms type_hash data)
      [i * CHUNKS_PER_BATCH..<min (i * CHUNKS_PER_BATCH + CHUNKS_PER_BATCH) (chunk_count data)])"

lemma write_batches_closed:
  assumes "k \<le> K" "K = div_ceil (chunk_count data) CHUNKS_PER_BATCH"
  shows "write_batches hb recorder ms type_hash data (chunk_count data)
      (map (\<lambda>i. i * CHUNKS_PER_BATCH) [k..<K]) (min (k * CHUNKS_PER_BATCH * MAX_CHUNK_SIZE) (length data)) c =
    (Ok (), c @ map (batch hb ms type_hash data) [k..<K])"
  using assms(1)
proof (induction arbitrary: c rule: inc_induct)
  case base
  show ?case by simp
next
  case (step k)
  let ?a = "k * CHUNKS_PER_BATCH" and ?b = "min (k * CHUNKS_PER_BATCH + CHUNKS_PER_BATCH) (chunk_count data)"
  have "?a < chunk_count data"
    using div_ceil_bounds [of CHUNKS_PER_BATCH "chunk_count data"] step(2) assms(2)
    by (simp add: CHUNKS_PER_BATCH_def)
  then have frames: "batch_frames hb ms type_hash data [?a..<?b] (min (?a * MAX_CHUNK_SIZE) (length data)) =
      (batch hb ms type_hash data k, min (?b * MAX_CHUNK_SIZE) (length data))"
    unfolding batch_def by (intro batch_frames_closed) simp_all
  have "length data \<le> chunk_count data * MAX_CHUNK_SIZE"
    using div_ceil_bounds [of MAX_CHUNK_SIZE "length data"] by (simp add: chunk_count_def MAX_CHUNK_SIZE_def)
  then have "length data \<le> (?a + CHUNKS_PER_BATCH) * MAX_CHUNK_SIZE"
    if "chunk_count data \<le> ?a + CHUNKS_PER_BATCH"
    using mult_le_mono1 [OF that, of MAX_CHUNK_SIZE] by (rule le_trans)
  then have offset: "min (?b * MAX_CHUNK_SIZE) (length data) =
      min (Suc k * CHUNKS_PER_BATCH * MAX_CHUNK_SIZE) (length data)"
    using \<open>length data \<le> chunk_count data * MAX_CHUNK_SIZE\<close>
    by (cases "?a + CHUNKS_PER_BATCH \<le> chunk_count data") (simp_all add: min_def add.commute)
  show ?case
    using step by (simp add: upt_conv_Cons frames offset written_def recorder_def Let_def)
qed

text \<open>The whole conversation of a chunked send.\<close>

definition chunked_writes :: "(stream_header \<Rightarrow> bytes) \<Rightarrow> message_stream \<Rightarrow> u32 \<Rightarrow> bytes \<Rightarrow> bytes list list" where
  "chunked_writes hb ms type_hash data =
    [[frame_bytes STREAM_START 0 (hb (stream_hdr ms (length data) 0 0 type_hash))]]
    @ map (batch hb ms type_hash data) [0..<div_ceil (chunk_count data) CHUNKS_PER_BATCH]
    @ [[frame_bytes STREAM_END 0 (hb (stream_hdr ms (length data) 0 (chunk_count data) type_hash))]]"

lemma write_chunked_recorder:
  "write_chunked_frames_vectored hb recorder ms type_hash data c =
    (Ok (), c @ chunked_writes hb ms type_hash data)"
proof -
  have "write_batches hb recorder ms type_hash data (chunk_count data)
      (step_by (chunk_count data) CHUNKS_PER_BATCH) 0 c' =
    (Ok (), c' @ map (batch hb ms type_hash data) [0..<div_ceil (chunk_count data) CHUNKS_PER_BATCH])" for c'
    using write_batches_closed [OF le0 refl, of hb ms type_hash data c'] by (simp add: step_by_def)
  then show ?thesis
    by (simp add: write_chunked_frames_vectored_def written_def Let_def chunked_writes_def recorder_def
        flip: chunk_count_def)
qed

lemma chunk_count_le: "length data \<le> chunk_count data * MAX_CHUNK_SIZE"
  using div_ceil_bounds [of MAX_CHUNK_SIZE "length data"] by (simp add: chunk_count_def MAX_CHUNK_SIZE_def)

lemma concat_batches:
  "concat (map (batch hb ms type_hash data) [0..<k]) =
    concat (map (chunk_frame hb ms type_hash data) [0..<min (k * CHUNKS_PER_BATCH) (chunk_count data)])"
proof (induction k)
  case (Suc k)
  let ?a = "k * CHUNKS_PER_BATCH" and ?n = "chunk_count data"
  have "[0..<min (Suc k * CHUNKS_PER_BATCH) ?n] =
      [0..<min ?a ?n] @ [?a..<min (?a + CHUNKS_PER_BATCH) ?n]"
  proof (cases "?a \<le> ?n")
    case True
    then have "min (?a + CHUNKS_PER_BATCH) ?n = ?a + min CHUNKS_PER_BATCH (?n - ?a)" by simp
    then show ?thesis using True upt_add_eq_append [of 0 ?a] by (simp add: add.commute [of CHUNKS_PER_BATCH])
  qed (simp add: min_def)
  then show ?case by (simp add: Suc batch_def [of hb ms type_hash data k])
qed simp

lemma concat_all_batches:
  "concat (map (batch hb ms type_hash data) [0..<div_ceil (chunk_count data) CHUNKS_PER_BATCH]) =
    concat (map (chunk_frame hb ms type_hash data) [0..<chunk_count data])"
  using div_ceil_bounds [of CHUNKS_PER_BATCH "chunk_count data"]
  by (simp add: concat_batches CHUNKS_PER_BATCH_def)

lemma length_batch: "length (batch hb ms type_hash data i) \<le> 2 * CHUNKS_PER_BATCH"
proof -
  have "length (concat (map (chunk_frame hb ms type_hash data) is)) = 2 * length is" for "is"
    by (induction "is") (simp_all add: chunk_frame_def)
  then show ?thesis by (simp add: batch_def)
qed

lemma chunk_size: "i < chunk_count data \<Longrightarrow> 0 < length (chunk_at data i) \<and> length (chunk_at data i) \<le> MAX_CHUNK_SIZE"
  using chunk_start [of i data] by (simp add: length_chunk_at MAX_CHUNK_SIZE_def)


lemma chunk_count_size: "length data \<le> chunk_count data * MAX_CHUNK_SIZE"
proof -
  have "length data = length (concat (map (chunk_at data) [0..<chunk_count data]))"
    by (simp add: concat_all_chunks)
  also have "\<dots> = sum_list (map (\<lambda>i. length (chunk_at data i)) [0..<chunk_count data])"
    by (simp add: length_concat comp_def)
  also have "\<dots> \<le> sum_list (map (\<lambda>_. MAX_CHUNK_SIZE) [0..<chunk_count data])"
    by (rule sum_list_mono) (use chunk_size [of _ data] in auto)
  finally show ?thesis by (simp add: sum_list_triv)
qed


section \<open>Lemmas on the receiver\<close>

lemmas receiver_defs = process_chunk_def try_complete_def reset_receiver_def Let_def

text \<open>Frames that arrive one after the other: \<open>(index, bytes)\<close> pairs under one announcement.\<close>

fun deliver ::
  "(bytes \<Rightarrow> 'm option) \<Rightarrow> u32 \<Rightarrow> nat \<Rightarrow> nat \<Rightarrow> (u32 \<times> bytes) list \<Rightarrow> stream_receiver
    \<Rightarrow> ('m option, receiver_error) result outcome list \<times> stream_receiver" where
  "deliver de total_chunks total_size now [] r = ([], r)"
| "deliver de total_chunks total_size now ((i, chunk) # frames) r =
    (let (res, r) = process_chunk de i total_chunks total_size chunk now r;
         (rest, r) = deliver de total_chunks total_size now frames r
     in (res # rest, r))"

lemma chunks_memory_simps [simp]:
  "chunks_memory [] = 0" "chunks_memory ((i, c) # m) = length c + chunks_memory m"
  "chunks_memory (m @ m') = chunks_memory m + chunks_memory m'"
  by (simp_all add: chunks_memory_def)

lemma chunks_memory_remove: "chunks_memory (hm_remove i m) \<le> chunks_memory m"
  by (induction m) (auto simp: hm_remove_def)

lemma chunks_memory_assemble: "chunks_memory (snd (assemble m is acc)) \<le> chunks_memory m"
proof (induction m "is" acc rule: assemble.induct)
  case (2 m i "is" acc)
  then show ?case
    using chunks_memory_remove [of i m] by (fastforce split: option.split intro: le_trans)
qed simp

lemma assemble_in_order:
  "distinct (map fst m) \<Longrightarrow> assemble m (map fst m) acc = (Done (acc @ concat (map snd m)), [])"
proof (induction m arbitrary: acc)
  case (Cons p m)
  moreover have "AList.delete k m = m" if "k \<notin> set (map fst m)" for k
    using that by (simp add: delete_id)
  ultimately show ?case by (cases p) (simp add: hm_remove_def)
qed simp

lemma assemble_panics:
  "distinct is \<Longrightarrow> fst (assemble m is acc) = Panicked \<longleftrightarrow> \<not> set is \<subseteq> set (hm_keys m)"
proof (induction m "is" acc rule: assemble.induct)
  case (2 m i "is" acc)
  show ?case
  proof (cases "hm_get m i")
    case None
    then show ?thesis by (auto simp: set_hm_keys)
  next
    case (Some c)
    then have "i \<in> set (hm_keys m)" by (auto simp: set_hm_keys)
    then show ?thesis using 2 Some by (auto simp: set_hm_keys_remove)
  qed
qed simp

text \<open>What a chunk leaves to be checked: the chunks held and the announced count.\<close>

definition stored_chunks :: "u32 \<Rightarrow> bytes \<Rightarrow> stream_receiver \<Rightarrow> (u32, bytes) hash_map" where
  "stored_chunks i chunk r = hm_insert i chunk (if i = 0 then [] else sr_chunks r)"

definition announced :: "u32 \<Rightarrow> u32 \<Rightarrow> stream_receiver \<Rightarrow> u32 option" where
  "announced i tot r = (if i = 0 then Some tot else sr_expected_chunks r)"

definition stored :: "u32 \<Rightarrow> u32 \<Rightarrow> nat \<Rightarrow> bytes \<Rightarrow> nat \<Rightarrow> stream_receiver \<Rightarrow> stream_receiver" where
  "stored i tot total_size chunk now r =
    r\<lparr>sr_chunks := stored_chunks i chunk r, sr_expected_chunks := announced i tot r,
      sr_total_size := (if i = 0 then Some total_size else sr_total_size r), sr_last_activity := now\<rparr>"

lemma process_chunk_stored:
  "process_chunk de i tot total_size chunk now r =
    (let s = stored i tot total_size chunk now r
     in if is_over_memory_limit s
        then (Done (Err (MemoryLimit (sr_stream_id r) (sr_name r) (memory_usage s) (sr_max_memory_bytes r))),
              reset_receiver s)
        else try_complete de tot s)"
  by (cases r) (simp add: process_chunk_def stored_def stored_chunks_def announced_def Let_def)

lemma hm_wf_stored [simp]: "hm_wf (sr_chunks r) \<Longrightarrow> hm_wf (stored_chunks i chunk r)"
  by (simp add: stored_chunks_def)

lemma set_indices: "set (indices n) = {i. i < n}"
proof -
  have "set (indices n) = of_nat ` {0..<unat n}" by (simp add: indices_def)
  also have "\<dots> = {i. i < n}"
  proof (intro equalityI subsetI)
    fix i :: u32 assume "i \<in> {i. i < n}"
    then have "unat i < unat n" by (simp add: word_less_nat_alt)
    then show "i \<in> of_nat ` {0..<unat n}" by (intro image_eqI [of _ _ "unat i"]) simp_all
  next
    fix i :: u32 assume "i \<in> of_nat ` {0..<unat n}"
    then obtain k where "i = of_nat k" "k < unat n" by auto
    then show "i \<in> {i. i < n}"
      using unsigned_less [of n] by (simp add: word_less_nat_alt unat_of_nat)
  qed
  finally show ?thesis .
qed

lemma distinct_indices [simp]: "distinct (indices n)"
  unfolding indices_def
proof (rule distinct_map [THEN iffD2], intro conjI inj_onI)
  fix a b assume "a \<in> set [0..<unat n]" "b \<in> set [0..<unat n]" and eq: "(of_nat a :: u32) = of_nat b"
  moreover have "unat n < 2 ^ LENGTH(32)" by (rule unsigned_less)
  ultimately have "a < 2 ^ 32" "b < 2 ^ 32" by auto
  then show "a = b" using arg_cong [OF eq, of unat] by (simp add: unat_of_nat)
qed simp

lemma length_indices [simp]: "length (indices n) = unat n"
  by (simp add: indices_def)

lemma complete_iff:
  assumes "hm_wf m"
  shows "length m = unat n \<and> list_all (hm_contains m) (indices n) \<longleftrightarrow> set (hm_keys m) = {i. i < n}"
proof -
  have card: "card {i. i < n} = unat n"
    using distinct_card [OF distinct_indices [of n]] by (simp add: set_indices)
  have all: "list_all (hm_contains m) (indices n) \<longleftrightarrow> {i. i < n} \<subseteq> set (hm_keys m)"
    by (auto simp: list_all_iff simp flip: set_indices)
  have len: "length m = card (set (hm_keys m))"
    by (rule hm_length_card [OF assms])
  show ?thesis
    unfolding all len
    using card by (metis card_subset_eq finite_set subset_refl)
qed

lemma try_complete_complete:
  assumes "hm_wf (sr_chunks r)" "sr_expected_chunks r = Some n" "0 < n" "set (hm_keys (sr_chunks r)) = {i. i < n}"
  shows "try_complete de m r =
    (if announced_size r > ISIZE_MAX then (Panicked, r)
     else case assemble (sr_chunks r) (indices m) [] of
       (Panicked, chunks) \<Rightarrow> (Panicked, r\<lparr>sr_chunks := chunks\<rparr>)
     | (Done complete_data, chunks) \<Rightarrow>
         (case de complete_data of
            None \<Rightarrow> (Done (Err DeserializeFailed), r\<lparr>sr_chunks := chunks\<rparr>)
          | Some message \<Rightarrow> (Done (Ok (Some message)), reset_receiver r)))"
  using assms complete_iff [of "sr_chunks r" n] by (simp add: try_complete_def)

lemma try_complete_incomplete:
  assumes "hm_wf (sr_chunks r)" "\<nexists>n. sr_expected_chunks r = Some n \<and> 0 < n \<and> set (hm_keys (sr_chunks r)) = {i. i < n}"
  shows "\<exists>x. fst (try_complete de m r) = Done x \<and> (\<forall>a. x \<noteq> Ok (Some a))"
  using assms complete_iff [of "sr_chunks r"]
  by (auto simp: try_complete_def Let_def split: option.splits)

lemma snd_try_complete_chunks:
  "chunks_memory (sr_chunks (snd (try_complete de m r))) \<le> chunks_memory (sr_chunks r)
    \<and> sr_max_memory_bytes (snd (try_complete de m r)) = sr_max_memory_bytes r"
  using chunks_memory_assemble [of "sr_chunks r" "indices m" "[]"]
  by (auto simp: try_complete_def Let_def reset_receiver_def split: prod.split outcome.split option.split)

lemma stored_fields [simp]:
  "sr_chunks (stored i tot sz chunk now r) = stored_chunks i chunk r"
  "sr_expected_chunks (stored i tot sz chunk now r) = announced i tot r"
  "sr_max_memory_bytes (stored i tot sz chunk now r) = sr_max_memory_bytes r"
  "memory_usage (stored i tot sz chunk now r) = chunks_memory (stored_chunks i chunk r)"
  "is_over_memory_limit (stored i tot sz chunk now r) =
    (chunks_memory (stored_chunks i chunk r) > sr_max_memory_bytes r)"
  by (simp_all add: stored_def memory_usage_def is_over_memory_limit_def)

lemma try_complete_panics:
  assumes "hm_wf (sr_chunks r)"
  shows "fst (try_complete de m r) = Panicked \<longleftrightarrow>
    (\<exists>n. sr_expected_chunks r = Some n \<and> 0 < n \<and> set (hm_keys (sr_chunks r)) = {i. i < n} \<and>
      (n < m \<or> announced_size r > ISIZE_MAX))"
proof (cases "\<exists>n. sr_expected_chunks r = Some n \<and> 0 < n \<and> set (hm_keys (sr_chunks r)) = {i. i < n}")
  case True
  then obtain n where n: "sr_expected_chunks r = Some n" "0 < n" "set (hm_keys (sr_chunks r)) = {i. i < n}"
    by blast
  have "fst (try_complete de m r) = Panicked \<longleftrightarrow>
      announced_size r > ISIZE_MAX \<or> fst (assemble (sr_chunks r) (indices m) []) = Panicked"
    by (auto simp: try_complete_complete [OF assms n] split: prod.split outcome.split option.split)
  moreover have "fst (assemble (sr_chunks r) (indices m) []) = Panicked \<longleftrightarrow> \<not> {i. i < m} \<subseteq> {i. i < n}"
    by (simp add: assemble_panics n set_indices)
  moreover have "\<not> {i. i < m} \<subseteq> {i. i < n} \<longleftrightarrow> n < m"
    by (auto simp: subset_iff not_less intro: less_le_trans)
  ultimately show ?thesis using n by auto
next
  case False
  then show ?thesis using try_complete_incomplete [OF assms, of de m] by auto
qed

text \<open>In-order delivery: after \<open>k\<close> chunks the receiver holds exactly these.\<close>

definition prefix_chunks :: "bytes \<Rightarrow> nat \<Rightarrow> (u32, bytes) hash_map" where
  "prefix_chunks data k = map (\<lambda>i. (of_nat i, chunk_at data i)) [0..<k]"

lemma of_nat_u32_eq_iff: "a < 2 ^ 32 \<Longrightarrow> b < 2 ^ 32 \<Longrightarrow> (of_nat a :: u32) = of_nat b \<longleftrightarrow> a = b"
  by (simp add: word_of_nat_eq_iff take_bit_nat_eq_self)

definition receiving :: "bytes \<Rightarrow> nat \<Rightarrow> nat \<Rightarrow> stream_receiver \<Rightarrow> stream_receiver" where
  "receiving data k now r =
    r\<lparr>sr_chunks := prefix_chunks data k, sr_expected_chunks := Some (of_nat (chunk_count data)),
      sr_total_size := Some (length data), sr_last_activity := now\<rparr>"

lemma hm_keys_prefix: "hm_keys (prefix_chunks data k) = map of_nat [0..<k]"
  by (simp add: hm_keys_def prefix_chunks_def comp_def)

lemma prefix_chunks_Suc:
  assumes "k < 2 ^ 32"
  shows "hm_insert (of_nat k) (chunk_at data k) (prefix_chunks data k) = prefix_chunks data (Suc k)"
proof -
  have "(of_nat k :: u32) \<notin> set (hm_keys (prefix_chunks data k))"
    using assms by (auto simp: hm_keys_prefix of_nat_u32_eq_iff)
  then show ?thesis by (simp add: hm_insert_fresh) (simp add: prefix_chunks_def)
qed

lemma stored_first:
  "stored 0 (of_nat (chunk_count data)) (length data) (chunk_at data 0) now r = receiving data 1 now r"
  by (simp add: stored_def receiving_def stored_chunks_def announced_def prefix_chunks_def hm_insert_def)

lemma stored_next:
  assumes "0 < k" "k < 2 ^ 32"
  shows "stored (of_nat k) (of_nat (chunk_count data)) (length data) (chunk_at data k) now (receiving data k now r) =
    receiving data (Suc k) now r"
proof -
  have "(of_nat k :: u32) \<noteq> 0"
    using of_nat_u32_eq_iff [of k 0] assms by simp
  then show ?thesis
    using prefix_chunks_Suc [OF assms(2), of data]
    by (simp add: stored_def receiving_def stored_chunks_def announced_def)
qed

lemma chunks_memory_prefix: "chunks_memory (prefix_chunks data k) \<le> length data"
proof -
  have "chunks_memory (prefix_chunks data k) = length (concat (map (chunk_at data) [0..<k]))"
    by (simp add: chunks_memory_def prefix_chunks_def length_concat comp_def)
  also have "\<dots> \<le> length data" by (simp add: concat_chunks)
  finally show ?thesis .
qed

lemma try_complete_receiving:
  assumes "k \<le> chunk_count data" "0 < chunk_count data" "chunk_count data < 2 ^ 32"
  shows "try_complete de (of_nat (chunk_count data)) (receiving data k now r) =
    (if k < chunk_count data then (Done (Ok None), receiving data k now r)
     else (case de data of
             None \<Rightarrow> (Done (Err DeserializeFailed), (receiving data k now r)\<lparr>sr_chunks := []\<rparr>)
           | Some message \<Rightarrow> (Done (Ok (Some message)), reset_receiver (receiving data k now r))))"
proof -
  let ?n = "chunk_count data"
  have n: "unat (of_nat ?n :: u32) = ?n" "0 < (of_nat ?n :: u32)"
    using assms of_nat_u32_eq_iff [of ?n 0]
    by (simp_all add: unat_of_nat word_greater_zero_iff)
  have keys: "indices (of_nat ?n) = map fst (prefix_chunks data ?n)"
    using n by (simp add: indices_def prefix_chunks_def comp_def)
  have "distinct (map fst (prefix_chunks data ?n))"
    using distinct_indices [of "of_nat ?n"] by (simp add: keys)
  then have whole: "assemble (prefix_chunks data ?n) (indices (of_nat ?n)) [] = (Done data, [])"
    using assemble_in_order concat_all_chunks [of data]
    by (simp add: keys) (simp add: prefix_chunks_def comp_def)
  have all: "list_all (hm_contains (prefix_chunks data ?n)) (indices (of_nat ?n))"
    by (simp add: keys list_all_iff hm_keys_def)
  have small: "announced_size (receiving data k now r) \<le> ISIZE_MAX"
    using chunk_count_size [of data] assms(3)
    by (simp add: announced_size_def receiving_def ISIZE_MAX_def MAX_CHUNK_SIZE_def)
  show ?thesis
  proof (cases "k < ?n")
    case True
    then show ?thesis using n by (simp add: try_complete_def receiving_def prefix_chunks_def)
  next
    case False
    then have "k = ?n" using assms by simp
    then show ?thesis using n all whole small
      by (auto simp: try_complete_def receiving_def length_hm_keys [symmetric] hm_keys_prefix
          split: option.splits)
  qed
qed

text \<open>The last answer of an in-order delivery, and the state after it.\<close>

definition delivered ::
  "(bytes \<Rightarrow> 'm option) \<Rightarrow> bytes \<Rightarrow> nat \<Rightarrow> stream_receiver
    \<Rightarrow> ('m option, receiver_error) result outcome \<times> stream_receiver" where
  "delivered de data now r =
    (let s = receiving data (chunk_count data) now r
     in case de data of
          None \<Rightarrow> (Done (Err DeserializeFailed), s\<lparr>sr_chunks := []\<rparr>)
        | Some message \<Rightarrow> (Done (Ok (Some message)), reset_receiver s))"

lemma process_chunk_in_order:
  assumes "k < chunk_count data" "chunk_count data < 2 ^ 32" "length data \<le> sr_max_memory_bytes r"
    "s = (if k = 0 then r else receiving data k now r)"
  shows "process_chunk de (of_nat k) (of_nat (chunk_count data)) (length data) (chunk_at data k) now s =
    (if Suc k < chunk_count data then (Done (Ok None), receiving data (Suc k) now r)
     else delivered de data now r)"
proof -
  have stored: "stored (of_nat k) (of_nat (chunk_count data)) (length data) (chunk_at data k) now s =
      receiving data (Suc k) now r"
    using assms stored_first [of data now r] stored_next [of k data now r] by (cases k) simp_all
  have mem: "\<not> is_over_memory_limit (receiving data (Suc k) now r)"
    using chunks_memory_prefix [of data "Suc k"] assms(3)
    by (simp add: is_over_memory_limit_def memory_usage_def receiving_def)
  have run: "process_chunk de (of_nat k) (of_nat (chunk_count data)) (length data) (chunk_at data k) now s =
      try_complete de (of_nat (chunk_count data)) (receiving data (Suc k) now r)"
    by (simp only: process_chunk_stored stored mem Let_def if_False)
  show ?thesis
  proof (cases "Suc k < chunk_count data")
    case False
    then have Suc: "Suc k = chunk_count data" using assms(1) by simp
    have "0 < chunk_count data" using assms(1) by simp
    then show ?thesis
      using assms(2) by (simp add: run delivered_def Suc try_complete_receiving Let_def)
  qed (use assms(2) in \<open>simp add: run try_complete_receiving\<close>)
qed

definition chunk_frames :: "bytes \<Rightarrow> nat \<Rightarrow> (u32 \<times> bytes) list" where
  "chunk_frames data k = map (\<lambda>i. (of_nat i, chunk_at data i)) [k..<chunk_count data]"

lemma deliver_in_order:
  assumes "k \<le> m" "chunk_count data = Suc m" "chunk_count data < 2 ^ 32" "length data \<le> sr_max_memory_bytes r"
  shows "deliver de (of_nat (chunk_count data)) (length data) now (chunk_frames data k)
      (if k = 0 then r else receiving data k now r) =
    (replicate (m - k) (Done (Ok None)) @ [fst (delivered de data now r)], snd (delivered de data now r))"
  using assms(1)
proof (induction rule: inc_induct)
  case base
  show ?case
    using process_chunk_in_order [of m data r "if m = 0 then r else receiving data m now r" now de] assms
    by (simp add: chunk_frames_def Let_def split: prod.split)
next
  case (step k)
  have "chunk_frames data k = (of_nat k, chunk_at data k) # chunk_frames data (Suc k)"
    using step(2) assms(2) by (simp add: chunk_frames_def upt_conv_Cons del: upt_Suc)
  moreover have "replicate (m - k) x = x # replicate (m - Suc k) x" for x :: "('a option, receiver_error) result outcome"
    using step(2) by (metis Suc_diff_Suc replicate_Suc)
  ultimately show ?case
    using process_chunk_in_order [of k data r "if k = 0 then r else receiving data k now r" now de] assms step
    by (simp add: Let_def)
qed

lemma chunk_count_pos: "data \<noteq> [] \<Longrightarrow> 0 < chunk_count data"
  using chunk_count_le [of data] by (cases "chunk_count data") simp_all

lemma deliver_all:
  assumes "data \<noteq> []" "chunk_count data < 2 ^ 32" "length data \<le> sr_max_memory_bytes r"
  shows "deliver de (of_nat (chunk_count data)) (length data) now (chunk_frames data 0) r =
    (replicate (chunk_count data - 1) (Done (Ok None)) @ [fst (delivered de data now r)],
     snd (delivered de data now r))"
  using deliver_in_order [of 0 "chunk_count data - 1" data r de now] chunk_count_pos [OF assms(1)] assms
  by simp

text \<open>As long as fewer chunks are held than announced, no message comes out.\<close>

definition no_message :: "('m option, receiver_error) result outcome \<Rightarrow> bool" where
  "no_message res = (case res of Done (Ok (Some _)) \<Rightarrow> False | Panicked \<Rightarrow> False | _ \<Rightarrow> True)"

definition short_of :: "u32 \<Rightarrow> nat \<Rightarrow> stream_receiver \<Rightarrow> bool" where
  "short_of n k r \<longleftrightarrow> hm_wf (sr_chunks r) \<and>
    (sr_expected_chunks r = None \<or> sr_expected_chunks r = Some n \<and> length (sr_chunks r) + k < unat n)"

lemma length_hm_insert: "length (hm_insert k v m) \<le> Suc (length m)"
  by (induction m) (auto simp: hm_insert_def)

lemma hm_insert_ne: "hm_insert k v m \<noteq> []"
  by (cases m) (auto simp: hm_insert_def)

lemma process_chunk_short:
  assumes "short_of n k s" "s = stored i n sz chunk now r" "(res, r') = process_chunk de i n sz chunk now r"
  shows "no_message res \<and> short_of n k r'"
proof (cases "is_over_memory_limit s")
  case True
  then show ?thesis
    using assms by (simp add: process_chunk_stored no_message_def short_of_def reset_receiver_def)
next
  case False
  then show ?thesis
    using assms
    by (auto simp: process_chunk_stored no_message_def short_of_def try_complete_def Let_def split: option.splits)
qed

lemma stored_short_next:
  assumes "short_of n (Suc k) r" "i \<noteq> 0 \<or> Suc k < unat n"
  shows "short_of n k (stored i n sz chunk now r)"
  using assms length_hm_insert [of i chunk "sr_chunks r"]
  by (auto simp: short_of_def stored_chunks_def announced_def hm_insert_def [of 0 chunk "[]"])

lemma deliver_short:
  assumes "short_of n (length frames) r" "length frames < unat n"
  shows "list_all no_message (fst (deliver de n sz now frames r))"
  using assms
proof (induction frames arbitrary: r)
  case (Cons f frames)
  obtain i chunk where f: "f = (i, chunk)" by (cases f)
  obtain res r' where p: "(res, r') = process_chunk de i n sz chunk now r"
    by (metis prod.collapse)
  have "short_of n (length frames) (stored i n sz chunk now r)"
    using Cons.prems by (intro stored_short_next) simp_all
  from process_chunk_short [OF this refl p]
  have "no_message res \<and> short_of n (length frames) r'" .
  then show ?case
    using Cons p [symmetric] by (simp add: f Let_def split: prod.split)
      (metis Suc_lessD fst_conv)
qed simp

lemma fst_deliver_append:
  "fst (deliver de n sz now (xs @ ys) r) =
    fst (deliver de n sz now xs r) @ fst (deliver de n sz now ys (snd (deliver de n sz now xs r)))"
  by (induction xs arbitrary: r) (auto simp: Let_def case_prod_beta)

lemma deliver_before_first:
  assumes "short_of n (unat n) r" "list_all (\<lambda>(i, _). i \<noteq> 0) frames"
  shows "list_all no_message (fst (deliver de n sz now frames r)) \<and>
    short_of n (unat n) (snd (deliver de n sz now frames r))"
  using assms
proof (induction frames arbitrary: r)
  case (Cons f frames)
  obtain i chunk where f: "f = (i, chunk)" by (cases f)
  obtain res r' where p: "(res, r') = process_chunk de i n sz chunk now r"
    by (metis prod.collapse)
  have "short_of n (unat n) (stored i n sz chunk now r)"
    using Cons.prems by (simp add: short_of_def stored_chunks_def announced_def f)
  from process_chunk_short [OF this refl p]
  have "no_message res \<and> short_of n (unat n) r'" .
  then show ?case
    using Cons p [symmetric] by (simp add: f Let_def split: prod.split) (metis fst_conv snd_conv)
qed simp


section \<open>What the stream code guarantees\<close>

text \<open>
  Sending: up to 256 KiB a payload goes out as one header and payload write; above it the code
  writes a start frame, then the data frames in vectored batches, then an end frame. The batches
  put one after the other are the frames of chunk 0, 1, 2, ... in this order, each with its own size
  and index in the header; a batch has at most 16 buffers, no chunk is empty or larger than
  256 KiB, and the payloads put together are the data.
\<close>

theorem stream_send_frames:
  "stream_send_raw hb recorder ms type_hash data c =
      (Ok (), c @ (if length data \<le> MAX_SINGLE_FRAME
         then [[frame_bytes STREAM_DATA (length data)
                  (hb (stream_hdr ms (length data) (length data) 0 type_hash)), data]]
         else [[frame_bytes STREAM_START 0 (hb (stream_hdr ms (length data) 0 0 type_hash))]]
              @ map (batch hb ms type_hash data) [0..<div_ceil (chunk_count data) CHUNKS_PER_BATCH]
              @ [[frame_bytes STREAM_END 0 (hb (stream_hdr ms (length data) 0 (chunk_count data) type_hash))]]))
    \<and> concat (map (batch hb ms type_hash data) [0..<div_ceil (chunk_count data) CHUNKS_PER_BATCH]) =
      concat (map (chunk_frame hb ms type_hash data) [0..<chunk_count data])
    \<and> list_all (\<lambda>i. length (batch hb ms type_hash data i) \<le> 2 * CHUNKS_PER_BATCH)
        [0..<div_ceil (chunk_count data) CHUNKS_PER_BATCH]
    \<and> list_all (\<lambda>i. 0 < length (chunk_at data i) \<and> length (chunk_at data i) \<le> MAX_CHUNK_SIZE)
        [0..<chunk_count data]
    \<and> concat (map (chunk_at data) [0..<chunk_count data]) = data"
proof (intro conjI)
  show "stream_send_raw hb recorder ms type_hash data c =
      (Ok (), c @ (if length data \<le> MAX_SINGLE_FRAME
         then [[frame_bytes STREAM_DATA (length data)
                  (hb (stream_hdr ms (length data) (length data) 0 type_hash)), data]]
         else [[frame_bytes STREAM_START 0 (hb (stream_hdr ms (length data) 0 0 type_hash))]]
              @ map (batch hb ms type_hash data) [0..<div_ceil (chunk_count data) CHUNKS_PER_BATCH]
              @ [[frame_bytes STREAM_END 0 (hb (stream_hdr ms (length data) 0 (chunk_count data) type_hash))]]))"
    by (simp add: stream_send_raw_def write_frame_def write_frame_owned_def write_single_frame_owned_def
        write_chunked_recorder chunked_writes_def)
      (simp add: written_def recorder_def Let_def)
  show "list_all (\<lambda>i. 0 < length (chunk_at data i) \<and> length (chunk_at data i) \<le> MAX_CHUNK_SIZE)
      [0..<chunk_count data]"
    using chunk_size [of _ data] unfolding list_all_iff by auto
qed (simp_all add: concat_all_batches length_batch concat_all_chunks list_all_iff)

text \<open>
  C28. Round trip: whatever the receiver held before, the chunks of a non-empty payload that fits its
  memory limit, delivered in order, give no message until the last one and then exactly what the
  decoder makes of the payload; after a message the receiver is empty again. The chunk count has to
  fit the 32 bits of the protocol.
\<close>

theorem stream_roundtrip:
  assumes "data \<noteq> []" "chunk_count data < 2 ^ 32" "length data \<le> sr_max_memory_bytes r"
    and "de data = Some message"
  shows "fst (deliver de (of_nat (chunk_count data)) (length data) now (chunk_frames data 0) r) =
      replicate (chunk_count data - 1) (Done (Ok None)) @ [Done (Ok (Some message))]
    \<and> sr_chunks (snd (deliver de (of_nat (chunk_count data)) (length data) now (chunk_frames data 0) r)) = []
    \<and> sr_expected_chunks (snd (deliver de (of_nat (chunk_count data)) (length data) now (chunk_frames data 0) r)) = None"
  using assms by (simp add: deliver_all delivered_def Let_def reset_receiver_def)

lemma stream_roundtrip_witness:
  "fst (deliver Some 2 262145 5 (chunk_frames (replicate 262145 (7 :: u8)) 0)
      (receiver_new 1 ''big'' 0)) =
    [Done (Ok None), Done (Ok (Some (replicate 262145 7)))]"
  using stream_roundtrip [of "replicate 262145 (7 :: u8)" "receiver_new 1 ''big'' 0" Some "replicate 262145 7" 5]
  by (simp add: chunk_count_def div_ceil_def MAX_CHUNK_SIZE_def receiver_new_def)

text \<open>
  C29. Memory bound: after any chunk the buffered bytes are within the limit of the receiver, and
  the limit never changes, whatever the indices, sizes and totals a peer puts into its frames.
\<close>

theorem stream_memory_bounded:
  "memory_usage (snd (process_chunk de i n sz chunk now r)) \<le> sr_max_memory_bytes r
    \<and> sr_max_memory_bytes (snd (process_chunk de i n sz chunk now r)) = sr_max_memory_bytes r"
proof -
  have "chunks_memory (sr_chunks (snd (try_complete de n s))) \<le> sr_max_memory_bytes s
      \<and> sr_max_memory_bytes (snd (try_complete de n s)) = sr_max_memory_bytes s"
    if "\<not> is_over_memory_limit s" for s
    using snd_try_complete_chunks [of de n s] that
    by (simp add: is_over_memory_limit_def memory_usage_def)
  from this [of "stored i n sz chunk now r"] show ?thesis
    by (simp add: process_chunk_stored Let_def memory_usage_def reset_receiver_def)
qed

text \<open>
  Panics: \<open>process_chunk\<close> unwinds exactly when the chunks announced by chunk 0 are now all there,
  within the memory limit, and either the size announced is beyond what can be reserved or the frame
  at hand claims a larger total of chunks than chunk 0 did: the code checks the presence of the
  announced indices but assembles the claimed ones.
\<close>

theorem process_chunk_panics_iff:
  assumes "hm_wf (sr_chunks r)"
  shows "fst (process_chunk de i n sz chunk now r) = Panicked \<longleftrightarrow>
    chunks_memory (stored_chunks i chunk r) \<le> sr_max_memory_bytes r \<and>
    (\<exists>m. announced i n r = Some m \<and> 0 < m \<and> set (hm_keys (stored_chunks i chunk r)) = {k. k < m} \<and>
      (m < n \<or> (if i = 0 then sz else announced_size r) > ISIZE_MAX))"
proof -
  have "announced_size (stored i n sz chunk now r) = (if i = 0 then sz else announced_size r)"
    by (simp add: announced_size_def stored_def)
  then show ?thesis
    using try_complete_panics [of "stored i n sz chunk now r" de n] assms
    by (simp add: process_chunk_stored Let_def not_less)
qed

lemma process_chunk_panics_iff_witness:
  "fst (process_chunk Some 1 3 2 [8] 9
     (receiver_new 1 ''s'' 0\<lparr>sr_chunks := [(0, [7])], sr_expected_chunks := Some 2\<rparr>)) = Panicked"
  (is "fst (process_chunk _ _ _ _ _ _ ?r) = _")
proof -
  have two: "{k. k < (2 :: u32)} = {0, 1}"
  proof -
    have "k < 2 \<longleftrightarrow> k = 0 \<or> k = 1" for k :: u32 by uint_arith
    then show ?thesis by auto
  qed
  have "stored_chunks 1 [8] ?r = [(0, [7]), (1, [8])]" "hm_wf (sr_chunks ?r)" "announced 1 3 ?r = Some 2"
    "sr_max_memory_bytes ?r = 33554432"
    by (simp_all add: stored_chunks_def announced_def hm_insert_def hm_wf_def receiver_new_def)
  then show ?thesis
    using process_chunk_panics_iff [of ?r Some 1 3 2 "[8]" 9] two by simp
qed

text \<open>
  Order matters: when any chunk arrives before chunk 0, the frames of one message (at most as
  many as announced) never give a message and never panic, because chunk 0 drops what is buffered.
\<close>

theorem late_first_chunk_loses_message:
  assumes "sr_chunks r = []" "sr_expected_chunks r = None"
    and "list_all (\<lambda>(i, _). i \<noteq> 0) before" "before \<noteq> []"
    and "length before + Suc (length after) \<le> unat n"
  shows "list_all no_message (fst (deliver de n sz now (before @ (0, chunk) # after) r))"
proof -
  have fresh: "short_of n (unat n) r" using assms(1,2) by (simp add: short_of_def)
  let ?r = "snd (deliver de n sz now before r)"
  have pre: "list_all no_message (fst (deliver de n sz now before r)) \<and> short_of n (unat n) ?r"
    using deliver_before_first [OF fresh assms(3)] .
  moreover from this have "short_of n (length ((0, chunk) # after)) ?r"
    by (simp add: short_of_def)
  from deliver_short [OF this]
  have "list_all no_message (fst (deliver de n sz now ((0, chunk) # after) ?r))"
    using assms(4,5) by (cases before) simp_all
  ultimately show ?thesis
    unfolding fst_deliver_append by simp
qed

lemma late_first_chunk_loses_message_witness:
  "list_all no_message (fst (deliver Some 2 2 9 [(1, [8]), (0, [7])] (receiver_new 1 ''s'' 0)))"
  using late_first_chunk_loses_message [of "receiver_new 1 ''s'' 0" "[(1, [8])]" "[]" 2 Some 2 9 "[7]"]
  by (simp add: receiver_new_def)

end
