(* ===== verification/Delivery.thy ===== *)
theory Delivery
  imports Errors
begin

text \<open>
  What the routing actors share (\<open>actors/src/lib.rs\<close> and the delivery loops of \<open>message_queue.rs\<close>,
  \<open>broker.rs\<close> and \<open>message_bus.rs\<close>): the delivery strategies, one delivery, a loop of deliveries
  that collects the recipients to drop, and the contract of a subscription table. How a recipient
  takes a message is a parameter, \<open>tell_ops\<close>.
\<close>

section \<open>Strategies and recipients\<close>

datatype delivery_strategy =
    Guaranteed
  | BestEffort
  | TimedDelivery nat
  | Spawned
  | SpawnedWithTimeout nat

datatype 'h recipient = Recipient (rp_id: actor_id) (rp_handle: 'h)

text \<open>
  A spawned delivery: the recipient, the message, the timeout if any, and the message the task
  sends to the routing actor when the recipient turns out not to be running.
\<close>

datatype ('h, 'm, 'u) delivery_task = DeliveryTask "'h recipient" 'm "nat option" 'u

record ('h, 'm, 'e, 'u, 'w) tell_ops =
  tl_send :: "'h \<Rightarrow> 'm \<Rightarrow> 'w \<Rightarrow> (unit, ('m, 'e) send_error) result \<times> 'w"
  tl_try_send :: "'h \<Rightarrow> 'm \<Rightarrow> 'w \<Rightarrow> (unit, ('m, 'e) send_error) result \<times> 'w"
  tl_send_timeout :: "'h \<Rightarrow> nat \<Rightarrow> 'm \<Rightarrow> 'w \<Rightarrow> (unit, ('m, 'e) send_error) result \<times> 'w"
  tl_spawn :: "('h, 'm, 'u) delivery_task \<Rightarrow> 'w \<Rightarrow> 'w"

fun not_running :: "(unit, ('m, 'e) send_error) result \<Rightarrow> bool" where
  "not_running (Err (ActorNotRunning _)) = True"
| "not_running _ = False"

text \<open>
  One delivery. The flag says that the recipient is to be dropped; \<open>u\<close> is the message with which a
  spawned task asks for that later.
\<close>

fun deliver_to ::
  "delivery_strategy \<Rightarrow> ('h, 'm, 'e, 'u, 'w) tell_ops \<Rightarrow> 'h recipient \<Rightarrow> 'm \<Rightarrow> 'u \<Rightarrow> 'w \<Rightarrow> bool \<times> 'w" where
  "deliver_to Guaranteed ops r m u w =
    (let (res, w) = tl_send ops (rp_handle r) m w in (not_running res, w))"
| "deliver_to BestEffort ops r m u w =
    (let (res, w) = tl_try_send ops (rp_handle r) m w in (not_running res, w))"
| "deliver_to (TimedDelivery d) ops r m u w =
    (let (res, w) = tl_send_timeout ops (rp_handle r) d m w in (not_running res, w))"
| "deliver_to Spawned ops r m u w = (False, tl_spawn ops (DeliveryTask r m None u) w)"
| "deliver_to (SpawnedWithTimeout d) ops r m u w = (False, tl_spawn ops (DeliveryTask r m (Some d) u) w)"

text \<open>The body of a spawned task: the message it tells the routing actor, if any.\<close>

fun run_delivery_task ::
  "('h, 'm, 'e, 'u, 'w) tell_ops \<Rightarrow> ('h, 'm, 'u) delivery_task \<Rightarrow> 'w \<Rightarrow> 'u option \<times> 'w" where
  "run_delivery_task ops (DeliveryTask r m timeout u) w =
    (let (res, w) =
       (case timeout of
          None \<Rightarrow> tl_send ops (rp_handle r) m w
        | Some d \<Rightarrow> tl_send_timeout ops (rp_handle r) d m w)
     in (if not_running res then Some u else None, w))"

text \<open>The loop over recipients, with what it collects for removal.\<close>

fun deliver_all ::
  "delivery_strategy \<Rightarrow> ('h, 'm, 'e, 'u, 'w) tell_ops \<Rightarrow> ('h recipient \<Rightarrow> 'u) \<Rightarrow> 'm \<Rightarrow> 'h recipient list \<Rightarrow> 'w
    \<Rightarrow> 'u list \<times> 'w" where
  "deliver_all s ops u m [] w = ([], w)"
| "deliver_all s ops u m (r # rs) w =
    (let (gone, w) = deliver_to s ops r m (u r) w;
         (removals, w) = deliver_all s ops u m rs w
     in (if gone then u r # removals else removals, w))"

fun awaited :: "delivery_strategy \<Rightarrow> bool" where
  "awaited Spawned = False"
| "awaited (SpawnedWithTimeout _) = False"
| "awaited _ = True"


section \<open>A post office\<close>

text \<open>
  The documented behaviour of \<open>tell\<close> as a world: a recipient that is not running refuses the
  message, one with a full mailbox refuses an immediate or timed send, every other takes it. The log
  lists the accepted messages, the tasks those that were spawned.
\<close>

record ('h, 'm, 'u) post =
  po_running :: "'h \<Rightarrow> bool"
  po_full :: "'h \<Rightarrow> bool"
  po_log :: "('h \<times> 'm) list"
  po_tasks :: "('h, 'm, 'u) delivery_task list"

definition post_ops :: "('h, 'm, unit, 'u, ('h, 'm, 'u) post) tell_ops" where
  "post_ops =
    \<lparr>tl_send = (\<lambda>h m w. if \<not> po_running w h then (Err (ActorNotRunning m), w)
        else (Ok (), w\<lparr>po_log := po_log w @ [(h, m)]\<rparr>)),
     tl_try_send = (\<lambda>h m w. if \<not> po_running w h then (Err (ActorNotRunning m), w)
        else if po_full w h then (Err (MailboxFull m), w)
        else (Ok (), w\<lparr>po_log := po_log w @ [(h, m)]\<rparr>)),
     tl_send_timeout = (\<lambda>h d m w. if \<not> po_running w h then (Err (ActorNotRunning m), w)
        else if po_full w h then (Err (Timeout (Some m)), w)
        else (Ok (), w\<lparr>po_log := po_log w @ [(h, m)]\<rparr>)),
     tl_spawn = (\<lambda>t w. w\<lparr>po_tasks := po_tasks w @ [t]\<rparr>)\<rparr>"

text \<open>Whether a recipient takes a message under a strategy that awaits the delivery.\<close>

fun takes :: "delivery_strategy \<Rightarrow> ('h, 'm, 'u) post \<Rightarrow> 'h recipient \<Rightarrow> bool" where
  "takes Guaranteed w r = po_running w (rp_handle r)"
| "takes BestEffort w r = (po_running w (rp_handle r) \<and> \<not> po_full w (rp_handle r))"
| "takes (TimedDelivery _) w r = (po_running w (rp_handle r) \<and> \<not> po_full w (rp_handle r))"
| "takes _ w r = False"

fun task_of :: "delivery_strategy \<Rightarrow> 'm \<Rightarrow> 'u \<Rightarrow> 'h recipient \<Rightarrow> ('h, 'm, 'u) delivery_task list" where
  "task_of Spawned m u r = [DeliveryTask r m None u]"
| "task_of (SpawnedWithTimeout d) m u r = [DeliveryTask r m (Some d) u]"
| "task_of _ m u r = []"

lemma deliver_to_post:
  "deliver_to s post_ops r m u w =
    (awaited s \<and> \<not> po_running w (rp_handle r),
     w\<lparr>po_log := po_log w @ (if takes s w r then [(rp_handle r, m)] else []),
       po_tasks := po_tasks w @ task_of s m u r\<rparr>)"
  by (cases s; cases w) (auto simp: post_ops_def)

lemma takes_update [simp]: "takes s (w\<lparr>po_log := l, po_tasks := t\<rparr>) r = takes s w r"
  by (cases s) simp_all

lemma deliver_all_post:
  "deliver_all s post_ops u m rs w =
    (map u (filter (\<lambda>r. awaited s \<and> \<not> po_running w (rp_handle r)) rs),
     w\<lparr>po_log := po_log w @ map (\<lambda>r. (rp_handle r, m)) (filter (takes s w) rs),
       po_tasks := po_tasks w @ concat (map (\<lambda>r. task_of s m (u r) r) rs)\<rparr>)"
proof (induction rs arbitrary: w)
  case (Cons r rs)
  have "takes s (w\<lparr>po_log := l, po_tasks := t\<rparr>) = takes s w" for l t
    by (rule ext) simp
  then show ?case by (simp add: deliver_to_post Cons)
qed (simp add: post_ops_def)


section \<open>Subscription tables\<close>

text \<open>
  The contract of the tables the routing actors keep: dropping one actor at one key filters the
  recipients at that key and leaves those of every other key alone.
\<close>

locale subscription_table =
  fixes recipients :: "'t \<Rightarrow> 'k \<Rightarrow> 'r list"
    and owner :: "'r \<Rightarrow> actor_id"
    and drop_actor :: "'k \<Rightarrow> actor_id \<Rightarrow> 't \<Rightarrow> 't"
    and ok :: "'t \<Rightarrow> bool"
  assumes recipients_drop: "ok t \<Longrightarrow>
      recipients (drop_actor k i t) k' =
        (if k' = k then filter (\<lambda>r. owner r \<noteq> i) (recipients t k) else recipients t k')"
    and ok_drop: "ok t \<Longrightarrow> ok (drop_actor k i t)"
begin

lemma drop_all:
  "ok t \<Longrightarrow> recipients (fold (\<lambda>(k, i). drop_actor k i) removals t) k =
      filter (\<lambda>r. (k, owner r) \<notin> set removals) (recipients t k)
    \<and> ok (fold (\<lambda>(k, i). drop_actor k i) removals t)"
proof (induction removals arbitrary: t)
  case (Cons p removals)
  obtain k' i where "p = (k', i)" by (cases p)
  then show ?case
    using Cons.IH [of "drop_actor k' i t"] Cons.prems
    by (auto simp: recipients_drop ok_drop intro: filter_cong)
qed simp

lemma dropped_stays_out:
  "ok t \<Longrightarrow> (k, i) \<in> set removals \<Longrightarrow>
    i \<notin> owner ` set (recipients (fold (\<lambda>(k, i). drop_actor k i) removals t) k)"
  by (auto simp: drop_all)

end

end
