(* ===== verification/Message_Queue.thy ===== *)
theory Message_Queue
  imports Delivery
begin

text \<open>
  The AMQP-style message queue (\<open>actors/src/message_queue.rs\<close>): exchanges, queues, bindings, consumers
  and the handlers of its messages. The message type of a generic handler is an argument of type
  \<open>type_id\<close>; the glob patterns of topic exchanges and the delivery of a message are parameters. The
  set of target queues is iterated in the order in which it was filled.
\<close>

section \<open>State\<close>

datatype exchange_type = Direct | Topic | Fanout | Headers

datatype header_match =
    MatchAll "(string, string) hash_map"
  | MatchAny "(string, string) hash_map"

fun header_matches :: "header_match \<Rightarrow> (string, string) hash_map \<Rightarrow> bool" where
  "header_matches (MatchAll rules) headers = list_all (\<lambda>(k, v). hm_get headers k = Some v) rules"
| "header_matches (MatchAny rules) headers = list_ex (\<lambda>(k, v). hm_get headers k = Some v) rules"

record binding =
  bd_queue :: string
  bd_key :: string
  bd_match :: "header_match option"

record exchange =
  ex_name :: string
  ex_kind :: exchange_type
  ex_auto_delete :: bool
  ex_bindings :: "binding list"

record 'h registration =
  rg_actor_id :: actor_id
  rg_recipient :: "'h recipient any"
  rg_tags :: "(string, string) hash_map"

record 'h queue =
  qu_auto_delete :: bool
  qu_recipients :: "(type_id, 'h registration list) hash_map"

record 'h message_queue =
  mq_exchanges :: "(string, exchange) hash_map"
  mq_queues :: "(string, 'h queue) hash_map"
  mq_default_exchange :: exchange
  mq_delivery_strategy :: delivery_strategy

datatype amqp_error =
    ExchangeAlreadyExists
  | QueueAlreadyExists
  | ExchangeNotFound
  | QueueNotFound
  | BindingAlreadyExists
  | HeadersRequired
  | InvalidHeaderMatch
  | ExchangeInUse
  | QueueInUse

type_synonym tag_filter = "(string, string) hash_map \<Rightarrow> bool"

record message_properties =
  mp_headers :: "(string, string) hash_map option"
  mp_filter :: "tag_filter option"

text \<open>The message a spawned delivery sends back: cancel this recipient at this queue.\<close>

datatype 'h basic_cancel_msg = BasicCancel string "'h recipient"

definition message_queue_new :: "delivery_strategy \<Rightarrow> 'h message_queue" where
  "message_queue_new strategy =
    \<lparr>mq_exchanges = [], mq_queues = [],
     mq_default_exchange = \<lparr>ex_name = '''', ex_kind = Direct, ex_auto_delete = False, ex_bindings = []\<rparr>,
     mq_delivery_strategy = strategy\<rparr>"


section \<open>Declaring and deleting\<close>

definition exchange_declare ::
  "string \<Rightarrow> exchange_type \<Rightarrow> bool \<Rightarrow> 'h message_queue \<Rightarrow> (unit, amqp_error) result \<times> 'h message_queue" where
  "exchange_declare name kind auto_delete mq =
    (if name = '''' \<or> hm_contains (mq_exchanges mq) name then (Err ExchangeAlreadyExists, mq)
     else (Ok (), mq\<lparr>mq_exchanges := hm_insert name
       \<lparr>ex_name = name, ex_kind = kind, ex_auto_delete = auto_delete, ex_bindings = []\<rparr> (mq_exchanges mq)\<rparr>))"

definition exchange_delete ::
  "string \<Rightarrow> bool \<Rightarrow> 'h message_queue \<Rightarrow> (unit, amqp_error) result \<times> 'h message_queue" where
  "exchange_delete name if_unused mq =
    (case hm_get (mq_exchanges mq) name of
       Some exchange \<Rightarrow>
         if if_unused \<and> ex_bindings exchange \<noteq> [] then (Err ExchangeInUse, mq)
         else (Ok (), mq\<lparr>mq_exchanges := hm_remove name (mq_exchanges mq)\<rparr>)
     | None \<Rightarrow> (Err ExchangeNotFound, mq))"

definition queue_declare ::
  "string \<Rightarrow> bool \<Rightarrow> 'h message_queue \<Rightarrow> (unit, amqp_error) result \<times> 'h message_queue" where
  "queue_declare name auto_delete mq =
    (if hm_contains (mq_queues mq) name then (Err QueueAlreadyExists, mq)
     else (Ok (), mq
       \<lparr>mq_queues := hm_insert name \<lparr>qu_auto_delete = auto_delete, qu_recipients = []\<rparr> (mq_queues mq),
        mq_default_exchange := (mq_default_exchange mq)
          \<lparr>ex_bindings := ex_bindings (mq_default_exchange mq)
             @ [\<lparr>bd_queue = name, bd_key = name, bd_match = None\<rparr>]\<rparr>\<rparr>))"

definition retain_bindings :: "(binding \<Rightarrow> bool) \<Rightarrow> exchange \<Rightarrow> exchange" where
  "retain_bindings p exchange = exchange\<lparr>ex_bindings := filter p (ex_bindings exchange)\<rparr>"

definition auto_deletable :: "exchange \<Rightarrow> bool" where
  "auto_deletable exchange \<longleftrightarrow> ex_bindings exchange = [] \<and> ex_auto_delete exchange"

definition queue_delete ::
  "string \<Rightarrow> bool \<Rightarrow> 'h message_queue \<Rightarrow> (unit, amqp_error) result \<times> 'h message_queue" where
  "queue_delete name if_unused mq =
    (case hm_get (mq_queues mq) name of
       None \<Rightarrow> (Err QueueNotFound, mq)
     | Some queue \<Rightarrow>
         if if_unused \<and> qu_recipients queue \<noteq> [] then (Err QueueInUse, mq)
         else
           (let default_exchange = retain_bindings (\<lambda>b. bd_queue b \<noteq> name) (mq_default_exchange mq);
                exchanges = hm_map_values (retain_bindings (\<lambda>b. bd_queue b \<noteq> name)) (mq_exchanges mq);
                exchanges_to_delete = map ex_name (filter auto_deletable (map snd exchanges))
            in (Ok (), mq\<lparr>mq_queues := hm_remove name (mq_queues mq),
                  mq_default_exchange := default_exchange,
                  mq_exchanges := fold hm_remove exchanges_to_delete exchanges\<rparr>)))"


section \<open>Binding\<close>

text \<open>\<open>starts_with("x-")\<close>\<close>

definition x_argument :: "string \<Rightarrow> bool" where
  "x_argument key \<longleftrightarrow> take 2 key = ''x-''"

definition header_match_of :: "(string, string) hash_map \<Rightarrow> (header_match, amqp_error) result" where
  "header_match_of arguments =
    (let x_match = (case hm_get arguments ''x-match'' of Some s \<Rightarrow> s | None \<Rightarrow> ''all'');
         match_args = hm_retain (\<lambda>key _. \<not> x_argument key) arguments
     in if x_match = ''all'' then Ok (MatchAll match_args)
        else if x_match = ''any'' then Ok (MatchAny match_args)
        else Err InvalidHeaderMatch)"

definition queue_bind ::
  "string \<Rightarrow> string \<Rightarrow> string \<Rightarrow> (string, string) hash_map \<Rightarrow> 'h message_queue
    \<Rightarrow> (unit, amqp_error) result \<times> 'h message_queue" where
  "queue_bind queue exchange_name routing_key arguments mq =
    (if \<not> hm_contains (mq_queues mq) queue then (Err QueueNotFound, mq)
     else case hm_get (mq_exchanges mq) exchange_name of
       None \<Rightarrow> (Err ExchangeNotFound, mq)
     | Some exchange \<Rightarrow>
         if list_ex (\<lambda>b. bd_queue b = queue \<and> bd_key b = routing_key) (ex_bindings exchange)
         then (Err BindingAlreadyExists, mq)
         else
           (case (if ex_kind exchange = Headers then map_ok Some (header_match_of arguments) else Ok None) of
              Err e \<Rightarrow> (Err e, mq)
            | Ok header_match \<Rightarrow>
                (Ok (), mq\<lparr>mq_exchanges := hm_insert exchange_name
                   (exchange\<lparr>ex_bindings := ex_bindings exchange
                      @ [\<lparr>bd_queue = queue, bd_key = routing_key, bd_match = header_match\<rparr>]\<rparr>)
                   (mq_exchanges mq)\<rparr>)))"

definition queue_unbind ::
  "string \<Rightarrow> string \<Rightarrow> string \<Rightarrow> 'h message_queue \<Rightarrow> (unit, amqp_error) result \<times> 'h message_queue" where
  "queue_unbind queue exchange_name routing_key mq =
    (case hm_get (mq_exchanges mq) exchange_name of
       None \<Rightarrow> (Err ExchangeNotFound, mq)
     | Some exchange \<Rightarrow>
         (let exchange = retain_bindings (\<lambda>b. \<not> (bd_queue b = queue \<and> bd_key b = routing_key)) exchange
          in (Ok (), mq\<lparr>mq_exchanges :=
                if auto_deletable exchange then hm_remove exchange_name (mq_exchanges mq)
                else hm_insert exchange_name exchange (mq_exchanges mq)\<rparr>)))"


section \<open>Consumers\<close>

definition basic_consume ::
  "type_id \<Rightarrow> string \<Rightarrow> 'h recipient \<Rightarrow> (string, string) hash_map \<Rightarrow> 'h message_queue
    \<Rightarrow> (unit, amqp_error) result \<times> 'h message_queue" where
  "basic_consume t queue_name recipient tags mq =
    (case hm_get (mq_queues mq) queue_name of
       None \<Rightarrow> (Err QueueNotFound, mq)
     | Some queue \<Rightarrow>
         (let recipients = (case hm_get (qu_recipients queue) t of Some rs \<Rightarrow> rs | None \<Rightarrow> []);
              recipients =
                (if list_ex (\<lambda>g. rg_actor_id g = rp_id recipient) recipients then recipients
                 else recipients @ [\<lparr>rg_actor_id = rp_id recipient,
                   rg_recipient = Any (TyRecipient t) recipient, rg_tags = tags\<rparr>])
          in (Ok (), mq\<lparr>mq_queues := hm_insert queue_name
                (queue\<lparr>qu_recipients := hm_insert t recipients (qu_recipients queue)\<rparr>) (mq_queues mq)\<rparr>)))"

text \<open>The part of \<open>basic_cancel\<close> inside the block that borrows the queue.\<close>

definition cancel_at :: "type_id \<Rightarrow> actor_id \<Rightarrow> 'h queue \<Rightarrow> 'h queue" where
  "cancel_at t i queue =
    (let recipients =
       (case hm_get (qu_recipients queue) t of
          Some rs \<Rightarrow> hm_insert t (filter (\<lambda>g. rg_actor_id g \<noteq> i) rs) (qu_recipients queue)
        | None \<Rightarrow> qu_recipients queue)
     in queue\<lparr>qu_recipients := hm_retain (\<lambda>_ v. v \<noteq> []) recipients\<rparr>)"

text \<open>Only the identity of the recipient counts.\<close>

definition cancel_actor ::
  "type_id \<Rightarrow> string \<Rightarrow> actor_id \<Rightarrow> 'h message_queue \<Rightarrow> (unit, amqp_error) result \<times> 'h message_queue" where
  "cancel_actor t queue_name i mq =
    (case hm_get (mq_queues mq) queue_name of
       None \<Rightarrow> (Err QueueNotFound, mq)
     | Some queue \<Rightarrow>
         (let queue = cancel_at t i queue;
              mq = mq\<lparr>mq_queues := hm_insert queue_name queue (mq_queues mq)\<rparr>
          in if qu_auto_delete queue then queue_delete queue_name True mq else (Ok (), mq)))"

definition basic_cancel ::
  "type_id \<Rightarrow> string \<Rightarrow> 'h recipient \<Rightarrow> 'h message_queue \<Rightarrow> (unit, amqp_error) result \<times> 'h message_queue" where
  "basic_cancel t queue_name recipient mq = cancel_actor t queue_name (rp_id recipient) mq"


section \<open>Publishing\<close>

text \<open>The registrations of a delivery; a recipient of the wrong type unwinds.\<close>

fun deliver_registrations ::
  "delivery_strategy \<Rightarrow> ('h, 'm, 'e, 'h basic_cancel_msg, 'w) tell_ops \<Rightarrow> type_id \<Rightarrow> string \<Rightarrow> 'm
    \<Rightarrow> 'h registration list \<Rightarrow> 'w \<Rightarrow> ('h recipient list \<times> 'w) outcome" where
  "deliver_registrations s ops t queue_name m [] w = Done ([], w)"
| "deliver_registrations s ops t queue_name m (g # gs) w =
    (case any_downcast (TyRecipient t) (rg_recipient g) of
       None \<Rightarrow> Panicked
     | Some recipient \<Rightarrow>
         (let (gone, w) = deliver_to s ops recipient m (BasicCancel queue_name recipient) w
          in map_outcome (\<lambda>(to_cancel, w). (if gone then recipient # to_cancel else to_cancel, w))
               (deliver_registrations s ops t queue_name m gs w)))"

definition registrations :: "'h message_queue \<Rightarrow> string \<times> type_id \<Rightarrow> 'h registration list" where
  "registrations mq = (\<lambda>(queue_name, t).
    (case hm_get (mq_queues mq) queue_name of
       None \<Rightarrow> []
     | Some queue \<Rightarrow> (case hm_get (qu_recipients queue) t of Some rs \<Rightarrow> rs | None \<Rightarrow> [])))"

definition delivery_message ::
  "('h, 'm, 'e, 'h basic_cancel_msg, 'w) tell_ops \<Rightarrow> type_id \<Rightarrow> string \<Rightarrow> 'm \<Rightarrow> tag_filter \<Rightarrow> 'h message_queue
    \<Rightarrow> 'w \<Rightarrow> ('h message_queue \<times> 'w) outcome" where
  "delivery_message ops t queue_name m flt mq w =
    map_outcome (\<lambda>(to_cancel, w). (fold (\<lambda>r mq. snd (basic_cancel t queue_name r mq)) to_cancel mq, w))
      (deliver_registrations (mq_delivery_strategy mq) ops t queue_name m
         (filter (\<lambda>g. flt (rg_tags g)) (registrations mq (queue_name, t))) w)"

text \<open>\<open>HashSet::insert\<close>\<close>

definition add_target :: "string \<Rightarrow> string list \<Rightarrow> string list" where
  "add_target q qs = (if q \<in> set qs then qs else qs @ [q])"

definition targets_where :: "(binding \<Rightarrow> bool) \<Rightarrow> binding list \<Rightarrow> string list" where
  "targets_where p bs = fold (\<lambda>b qs. if p b then add_target (bd_queue b) qs else qs) bs []"

record match_options =
  mo_case_sensitive :: bool
  mo_require_literal_separator :: bool
  mo_require_literal_leading_dot :: bool

definition topic_options :: match_options where
  "topic_options = \<lparr>mo_case_sensitive = True, mo_require_literal_separator = True,
     mo_require_literal_leading_dot = False\<rparr>"

text \<open>The topic loop: an invalid pattern unwinds.\<close>

fun topic_targets ::
  "(string \<Rightarrow> 'p option) \<Rightarrow> ('p \<Rightarrow> string \<Rightarrow> match_options \<Rightarrow> bool) \<Rightarrow> string \<Rightarrow> binding list \<Rightarrow> string list
    \<Rightarrow> string list outcome" where
  "topic_targets pattern_new matches_with routing_key [] qs = Done qs"
| "topic_targets pattern_new matches_with routing_key (b # bs) qs =
    (case pattern_new (bd_key b) of
       None \<Rightarrow> Panicked
     | Some p \<Rightarrow> topic_targets pattern_new matches_with routing_key bs
         (if matches_with p routing_key topic_options then add_target (bd_queue b) qs else qs))"

definition route ::
  "(string \<Rightarrow> 'p option) \<Rightarrow> ('p \<Rightarrow> string \<Rightarrow> match_options \<Rightarrow> bool) \<Rightarrow> exchange \<Rightarrow> string
    \<Rightarrow> (string, string) hash_map option \<Rightarrow> (string list, amqp_error) result outcome" where
  "route pattern_new matches_with exchange routing_key headers =
    (case ex_kind exchange of
       Direct \<Rightarrow> Done (Ok (targets_where (\<lambda>b. bd_key b = routing_key) (ex_bindings exchange)))
     | Topic \<Rightarrow> map_outcome Ok (topic_targets pattern_new matches_with routing_key (ex_bindings exchange) [])
     | Fanout \<Rightarrow> Done (Ok (targets_where (\<lambda>_. True) (ex_bindings exchange)))
     | Headers \<Rightarrow>
         (case headers of
            None \<Rightarrow> Done (Err HeadersRequired)
          | Some message_headers \<Rightarrow> Done (Ok (targets_where
              (\<lambda>b. case bd_match b of Some header_match \<Rightarrow> header_matches header_match message_headers | None \<Rightarrow> False)
              (ex_bindings exchange)))))"

fun deliver_queues ::
  "('h, 'm, 'e, 'h basic_cancel_msg, 'w) tell_ops \<Rightarrow> type_id \<Rightarrow> 'm \<Rightarrow> tag_filter \<Rightarrow> string list
    \<Rightarrow> 'h message_queue \<Rightarrow> 'w \<Rightarrow> ('h message_queue \<times> 'w) outcome" where
  "deliver_queues ops t m flt [] mq w = Done (mq, w)"
| "deliver_queues ops t m flt (q # qs) mq w =
    (case delivery_message ops t q m flt mq w of
       Panicked \<Rightarrow> Panicked
     | Done (mq, w) \<Rightarrow> deliver_queues ops t m flt qs mq w)"

definition exchange_for :: "'h message_queue \<Rightarrow> string \<Rightarrow> exchange option" where
  "exchange_for mq name = (if name = '''' then Some (mq_default_exchange mq) else hm_get (mq_exchanges mq) name)"

definition basic_publish ::
  "(string \<Rightarrow> 'p option) \<Rightarrow> ('p \<Rightarrow> string \<Rightarrow> match_options \<Rightarrow> bool) \<Rightarrow> ('h, 'm, 'e, 'h basic_cancel_msg, 'w) tell_ops
    \<Rightarrow> type_id \<Rightarrow> string \<Rightarrow> string \<Rightarrow> 'm \<Rightarrow> message_properties \<Rightarrow> 'h message_queue \<Rightarrow> 'w
    \<Rightarrow> ((unit, amqp_error) result \<times> 'h message_queue \<times> 'w) outcome" where
  "basic_publish pattern_new matches_with ops t exchange_name routing_key m properties mq w =
    (case exchange_for mq exchange_name of
       None \<Rightarrow> Done (Err ExchangeNotFound, mq, w)
     | Some exchange \<Rightarrow>
         (let flt = (case mp_filter properties of Some f \<Rightarrow> f | None \<Rightarrow> (\<lambda>_. True))
          in case route pattern_new matches_with exchange routing_key (mp_headers properties) of
               Panicked \<Rightarrow> Panicked
             | Done (Err e) \<Rightarrow> Done (Err e, mq, w)
             | Done (Ok target_queues) \<Rightarrow>
                 map_outcome (\<lambda>(mq, w). (Ok (), mq, w)) (deliver_queues ops t m flt target_queues mq w)))"

section \<open>The invariant\<close>

text \<open>
  The bindings of an exchange name declared queues, each once per key, and carry a header match
  exactly in a headers exchange. The default exchange has one binding per declared queue, under the
  name of the queue. A queue keeps a non-empty list per message type, without duplicates, and every
  recipient in it has the type of its key and the identity it is registered under.
\<close>

definition binding_id :: "binding \<Rightarrow> string \<times> string" where
  "binding_id b = (bd_queue b, bd_key b)"

definition exchange_ok :: "string set \<Rightarrow> exchange \<Rightarrow> bool" where
  "exchange_ok queues e \<longleftrightarrow> distinct (map binding_id (ex_bindings e)) \<and>
    (\<forall>b \<in> set (ex_bindings e). bd_queue b \<in> queues \<and> (bd_match b \<noteq> None \<longleftrightarrow> ex_kind e = Headers))"

definition default_ok :: "string set \<Rightarrow> exchange \<Rightarrow> bool" where
  "default_ok queues e \<longleftrightarrow> ex_name e = '''' \<and> ex_kind e = Direct \<and>
    distinct (map bd_queue (ex_bindings e)) \<and> bd_queue ` set (ex_bindings e) = queues \<and>
    (\<forall>b \<in> set (ex_bindings e). bd_key b = bd_queue b \<and> bd_match b = None)"

definition registration_ok :: "type_id \<Rightarrow> 'h registration \<Rightarrow> bool" where
  "registration_ok t g \<longleftrightarrow>
    (\<exists>r. rg_recipient g = Any (TyRecipient t) r \<and> rp_id r = rg_actor_id g)"

definition consumers_ok :: "type_id \<Rightarrow> 'h registration list \<Rightarrow> bool" where
  "consumers_ok t gs \<longleftrightarrow> distinct (map rg_actor_id gs) \<and> list_all (registration_ok t) gs"

definition queue_ok :: "'h queue \<Rightarrow> bool" where
  "queue_ok q \<longleftrightarrow> hm_wf (qu_recipients q) \<and> hm_all (\<lambda>t gs. gs \<noteq> [] \<and> consumers_ok t gs) (qu_recipients q)"

definition queue_names :: "'h message_queue \<Rightarrow> string set" where
  "queue_names mq = set (hm_keys (mq_queues mq))"

definition mq_wf :: "'h message_queue \<Rightarrow> bool" where
  "mq_wf mq \<longleftrightarrow> hm_wf (mq_exchanges mq) \<and> hm_wf (mq_queues mq) \<and>
    hm_all (\<lambda>n e. n \<noteq> '''' \<and> ex_name e = n \<and> exchange_ok (queue_names mq) e) (mq_exchanges mq) \<and>
    hm_all (\<lambda>_. queue_ok) (mq_queues mq) \<and>
    default_ok (queue_names mq) (mq_default_exchange mq)"

lemmas mq_wf_defs = mq_wf_def queue_names_def

lemma mq_wf_new: "mq_wf (message_queue_new s)"
  by (simp add: mq_wf_defs message_queue_new_def default_ok_def)

lemma mq_wf_exchange_declare: "mq_wf mq \<Longrightarrow> mq_wf (snd (exchange_declare n k a mq))"
  by (auto simp: exchange_declare_def mq_wf_defs exchange_ok_def intro!: hm_all_insert)

lemma mq_wf_exchange_delete: "mq_wf mq \<Longrightarrow> mq_wf (snd (exchange_delete n u mq))"
  by (auto simp: exchange_delete_def mq_wf_defs split: option.splits)

lemma exchange_ok_mono: "exchange_ok qs e \<Longrightarrow> qs \<subseteq> qs' \<Longrightarrow> exchange_ok qs' e"
  by (auto simp: exchange_ok_def)

lemma mq_wf_queue_declare:
  assumes "mq_wf mq"
  shows "mq_wf (snd (queue_declare n a mq))"
proof (cases "n \<in> queue_names mq")
  case False
  have "hm_all (\<lambda>m e. m \<noteq> '''' \<and> ex_name e = m \<and> exchange_ok (insert n (queue_names mq)) e) (mq_exchanges mq)"
    using assms unfolding mq_wf_def
    by (auto elim!: hm_all_mono intro: exchange_ok_mono)
  then show ?thesis
    using assms False
    by (auto simp: queue_declare_def mq_wf_defs queue_ok_def default_ok_def set_hm_keys_insert)
qed (use assms in \<open>simp add: queue_declare_def queue_names_def\<close>)

lemma exchange_ok_retain:
  "exchange_ok qs e \<Longrightarrow> exchange_ok qs (retain_bindings p e)"
  by (auto simp: exchange_ok_def retain_bindings_def distinct_map_filter)

lemma exchange_ok_drop_queue:
  "exchange_ok qs e \<Longrightarrow> exchange_ok (qs - {q}) (retain_bindings (\<lambda>b. bd_queue b \<noteq> q) e)"
  by (auto simp: exchange_ok_def retain_bindings_def distinct_map_filter)

lemma default_ok_drop_queue:
  "default_ok qs e \<Longrightarrow> default_ok (qs - {q}) (retain_bindings (\<lambda>b. bd_queue b \<noteq> q) e)"
  by (auto simp: default_ok_def retain_bindings_def distinct_map_filter)

lemma ex_name_retain [simp]: "ex_name (retain_bindings p e) = ex_name e"
  by (simp add: retain_bindings_def)

lemma mq_wf_queue_delete:
  assumes "mq_wf mq"
  shows "mq_wf (snd (queue_delete n u mq))"
proof -
  have "hm_all (\<lambda>m e. m \<noteq> '''' \<and> ex_name e = m \<and> exchange_ok (queue_names mq - {n}) e)
      (hm_map_values (retain_bindings (\<lambda>b. bd_queue b \<noteq> n)) (mq_exchanges mq))"
    using assms unfolding mq_wf_def hm_all_map_values
    by (auto elim!: hm_all_mono intro: exchange_ok_drop_queue)
  then show ?thesis
    using assms
    by (auto simp: queue_delete_def Let_def mq_wf_defs set_hm_keys_remove default_ok_drop_queue
        split: option.splits)
qed

lemma mq_wf_set_exchange:
  assumes "mq_wf mq" "n \<noteq> ''''" "ex_name e = n" "exchange_ok (queue_names mq) e"
  shows "mq_wf (mq\<lparr>mq_exchanges := hm_insert n e (mq_exchanges mq)\<rparr>)"
  using assms by (auto simp: mq_wf_defs)

lemma mq_wf_set_queue:
  assumes "mq_wf mq" "n \<in> queue_names mq" "queue_ok q"
  shows "mq_wf (mq\<lparr>mq_queues := hm_insert n q (mq_queues mq)\<rparr>)"
  using assms by (auto simp: mq_wf_defs set_hm_keys_insert insert_absorb)

lemma mq_wf_exchange:
  "mq_wf mq \<Longrightarrow> hm_get (mq_exchanges mq) n = Some e \<Longrightarrow>
    n \<noteq> '''' \<and> ex_name e = n \<and> exchange_ok (queue_names mq) e"
  by (auto simp: mq_wf_def dest: hm_allD)

lemma mq_wf_queue: "mq_wf mq \<Longrightarrow> hm_get (mq_queues mq) n = Some q \<Longrightarrow> queue_ok q \<and> n \<in> queue_names mq"
  by (auto simp: mq_wf_def queue_names_def set_hm_keys dest: hm_allD)

lemma exchange_ok_bind:
  assumes "exchange_ok qs e" "q \<in> qs" "m \<noteq> None \<longleftrightarrow> ex_kind e = Headers"
    and "\<not> list_ex (\<lambda>b. bd_queue b = q \<and> bd_key b = k) (ex_bindings e)"
  shows "exchange_ok qs (e\<lparr>ex_bindings := ex_bindings e @ [\<lparr>bd_queue = q, bd_key = k, bd_match = m\<rparr>]\<rparr>)"
  using assms by (auto simp: exchange_ok_def binding_id_def list_ex_iff)

lemma mq_wf_queue_bind:
  assumes "mq_wf mq"
  shows "mq_wf (snd (queue_bind q n k args mq))"
proof (cases "q \<in> queue_names mq \<and> (\<exists>e. hm_get (mq_exchanges mq) n = Some e)")
  case True
  then obtain e where e: "q \<in> queue_names mq" "hm_get (mq_exchanges mq) n = Some e" by blast
  note ok = mq_wf_exchange [OF assms e(2)]
  show ?thesis
    using e ok assms
    by (auto simp: queue_bind_def queue_names_def split: result.split
        intro!: mq_wf_set_exchange exchange_ok_bind)
qed (use assms in \<open>auto simp: queue_bind_def queue_names_def split: option.splits\<close>)

lemma mq_wf_queue_unbind:
  assumes "mq_wf mq"
  shows "mq_wf (snd (queue_unbind q n k mq))"
proof (cases "hm_get (mq_exchanges mq) n")
  case (Some e)
  have "mq_wf (mq\<lparr>mq_exchanges := hm_remove n (mq_exchanges mq)\<rparr>)"
    using assms by (auto simp: mq_wf_defs)
  moreover have "mq_wf (mq\<lparr>mq_exchanges := hm_insert n (retain_bindings p e) (mq_exchanges mq)\<rparr>)" for p
    using mq_wf_exchange [OF assms Some] assms by (intro mq_wf_set_exchange exchange_ok_retain) auto
  ultimately show ?thesis
    using Some by (simp add: queue_unbind_def Let_def)
qed (use assms in \<open>simp add: queue_unbind_def\<close>)

lemma consumers_ok_Nil [simp]: "consumers_ok t []"
  by (simp add: consumers_ok_def)

lemma consumers_ok_snoc:
  "consumers_ok t gs \<Longrightarrow> \<not> list_ex (\<lambda>g. rg_actor_id g = rp_id r) gs \<Longrightarrow>
    consumers_ok t (gs @ [\<lparr>rg_actor_id = rp_id r, rg_recipient = Any (TyRecipient t) r, rg_tags = tags\<rparr>])"
  by (auto simp: consumers_ok_def registration_ok_def list_ex_iff)

lemma consumers_ok_filter: "consumers_ok t gs \<Longrightarrow> consumers_ok t (filter p gs)"
  by (auto simp: consumers_ok_def distinct_map_filter list_all_iff)

lemma list_ex_ne: "list_ex p xs \<Longrightarrow> xs \<noteq> []"
  by (cases xs) simp_all

lemma queue_ok_consume:
  assumes "queue_ok q" "gs = (case hm_get (qu_recipients q) t of Some rs \<Rightarrow> rs | None \<Rightarrow> [])"
    and "gs' = (if list_ex (\<lambda>g. rg_actor_id g = rp_id r) gs then gs
          else gs @ [\<lparr>rg_actor_id = rp_id r, rg_recipient = Any (TyRecipient t) r, rg_tags = tags\<rparr>])"
  shows "queue_ok (q\<lparr>qu_recipients := hm_insert t gs' (qu_recipients q)\<rparr>)"
proof -
  have "consumers_ok t gs"
    using assms(1,2) by (auto simp: queue_ok_def dest: hm_allD split: option.split)
  then have "gs' \<noteq> [] \<and> consumers_ok t gs'"
    unfolding assms(3) by (auto dest: consumers_ok_snoc list_ex_ne)
  then show ?thesis using assms(1) by (auto simp: queue_ok_def)
qed

lemma mq_wf_basic_consume:
  assumes "mq_wf mq"
  shows "mq_wf (snd (basic_consume t n r tags mq))"
proof (cases "hm_get (mq_queues mq) n")
  case (Some q)
  then show ?thesis
    using mq_wf_queue [OF assms Some] assms
    by (auto simp: basic_consume_def Let_def intro!: mq_wf_set_queue queue_ok_consume [OF _ refl]
        split del: if_split)
qed (use assms in \<open>simp add: basic_consume_def\<close>)

lemma queue_ok_cancel_at:
  assumes "queue_ok q"
  shows "queue_ok (cancel_at t i q)"
proof -
  let ?rs = "case hm_get (qu_recipients q) t of
      Some rs \<Rightarrow> hm_insert t (filter (\<lambda>g. rg_actor_id g \<noteq> i) rs) (qu_recipients q) | None \<Rightarrow> qu_recipients q"
  have "hm_all consumers_ok (qu_recipients q)"
    using assms by (auto simp: queue_ok_def elim: hm_all_mono)
  then have "hm_all consumers_ok ?rs" "hm_wf ?rs"
    using assms by (auto simp: queue_ok_def consumers_ok_filter dest: hm_allD split: option.split)
  then show ?thesis
    using hm_all_retain [of ?rs consumers_ok "\<lambda>_ v. v \<noteq> []"]
    by (auto simp: cancel_at_def queue_ok_def Let_def elim: hm_all_mono)
qed

lemma mq_wf_cancel_actor:
  assumes "mq_wf mq"
  shows "mq_wf (snd (cancel_actor t n i mq))"
proof (cases "hm_get (mq_queues mq) n")
  case (Some q)
  then have "mq_wf (mq\<lparr>mq_queues := hm_insert n (cancel_at t i q) (mq_queues mq)\<rparr>)"
    using mq_wf_queue [OF assms Some] assms by (auto intro!: mq_wf_set_queue queue_ok_cancel_at)
  then show ?thesis
    using Some by (simp add: cancel_actor_def Let_def mq_wf_queue_delete)
qed (use assms in \<open>simp add: cancel_actor_def\<close>)

section \<open>Consumers as a subscription table\<close>

definition consumers_at :: "'h queue \<Rightarrow> type_id \<Rightarrow> 'h registration list" where
  "consumers_at q t = (case hm_get (qu_recipients q) t of Some rs \<Rightarrow> rs | None \<Rightarrow> [])"

lemma registrations_alt:
  "registrations mq (n, t) = (case hm_get (mq_queues mq) n of None \<Rightarrow> [] | Some q \<Rightarrow> consumers_at q t)"
  by (simp add: registrations_def consumers_at_def split: option.split)

lemma consumers_at_cancel:
  assumes "queue_ok q"
  shows "consumers_at (cancel_at t i q) t' =
    (if t' = t then filter (\<lambda>g. rg_actor_id g \<noteq> i) (consumers_at q t) else consumers_at q t')"
proof -
  have wf: "hm_wf (qu_recipients q)" and ne: "hm_get (qu_recipients q) t' \<noteq> Some []"
    using assms by (auto simp: queue_ok_def dest: hm_allD)
  then show ?thesis
    by (auto simp: consumers_at_def cancel_at_def Let_def hm_get_retain split: option.splits)
qed

lemma consumers_at_unused: "qu_recipients q = [] \<Longrightarrow> consumers_at q t = []"
  by (simp add: consumers_at_def)

lemma registrations_delete_unused:
  "hm_get (mq_queues mq) n = Some q \<Longrightarrow>
    registrations (snd (queue_delete n True mq)) k = registrations mq k"
  by (cases k) (auto simp: queue_delete_def Let_def registrations_alt consumers_at_unused split: option.splits)

lemma registrations_cancel:
  assumes "mq_wf mq"
  shows "registrations (snd (cancel_actor t n i mq)) k =
    (if k = (n, t) then filter (\<lambda>g. rg_actor_id g \<noteq> i) (registrations mq (n, t)) else registrations mq k)"
proof (cases "hm_get (mq_queues mq) n")
  case None
  then show ?thesis by (cases k) (auto simp: cancel_actor_def registrations_alt)
next
  case (Some q)
  let ?mq = "mq\<lparr>mq_queues := hm_insert n (cancel_at t i q) (mq_queues mq)\<rparr>"
  have "registrations (snd (cancel_actor t n i mq)) k = registrations ?mq k"
    using Some registrations_delete_unused [of ?mq n "cancel_at t i q" k]
    by (simp add: cancel_actor_def Let_def)
  also have "\<dots> = (if k = (n, t) then filter (\<lambda>g. rg_actor_id g \<noteq> i) (registrations mq (n, t))
      else registrations mq k)"
    using Some mq_wf_queue [OF assms Some]
    by (cases k) (auto simp: registrations_alt consumers_at_cancel)
  finally show ?thesis .
qed

definition drop_consumer :: "string \<times> type_id \<Rightarrow> actor_id \<Rightarrow> 'h message_queue \<Rightarrow> 'h message_queue" where
  "drop_consumer = (\<lambda>(n, t) i mq. snd (cancel_actor t n i mq))"

interpretation consumers: subscription_table registrations rg_actor_id drop_consumer mq_wf
  by unfold_locales (simp_all add: drop_consumer_def case_prod_beta registrations_cancel mq_wf_cancel_actor)

lemma registrations_ok: "mq_wf mq \<Longrightarrow> list_all (registration_ok t) (registrations mq (n, t))"
  by (auto simp: registrations_alt consumers_at_def queue_ok_def consumers_ok_def
      dest!: mq_wf_queue hm_allD split: option.split)


section \<open>Routing\<close>

lemma set_add_target [simp]: "set (add_target q qs) = insert q (set qs)"
  by (auto simp: add_target_def)

lemma distinct_add_target [simp]: "distinct qs \<Longrightarrow> distinct (add_target q qs)"
  by (simp add: add_target_def)

lemma fold_targets:
  "set (fold (\<lambda>b qs. if p b then add_target (bd_queue b) qs else qs) bs qs) =
      set qs \<union> bd_queue ` {b \<in> set bs. p b}
    \<and> (distinct qs \<longrightarrow> distinct (fold (\<lambda>b qs. if p b then add_target (bd_queue b) qs else qs) bs qs))"
  by (induction bs arbitrary: qs) auto

lemma targets_where:
  "set (targets_where p bs) = bd_queue ` {b \<in> set bs. p b}" "distinct (targets_where p bs)"
  using fold_targets [of p bs "[]"] by (simp_all add: targets_where_def)

lemma topic_targets_closed:
  "topic_targets pattern_new matches_with k bs qs =
    (if \<exists>b \<in> set bs. pattern_new (bd_key b) = None then Panicked
     else Done (fold (\<lambda>b qs. if matches_with (the (pattern_new (bd_key b))) k topic_options
       then add_target (bd_queue b) qs else qs) bs qs))"
  by (induction bs arbitrary: qs) (auto split: option.split)

text \<open>When a binding routes a message.\<close>

fun binding_routes ::
  "(string \<Rightarrow> 'p option) \<Rightarrow> ('p \<Rightarrow> string \<Rightarrow> match_options \<Rightarrow> bool) \<Rightarrow> exchange_type \<Rightarrow> string
    \<Rightarrow> (string, string) hash_map option \<Rightarrow> binding \<Rightarrow> bool" where
  "binding_routes pattern_new matches_with Direct k hs b = (bd_key b = k)"
| "binding_routes pattern_new matches_with Topic k hs b =
    (\<exists>p. pattern_new (bd_key b) = Some p \<and> matches_with p k topic_options)"
| "binding_routes pattern_new matches_with Fanout k hs b = True"
| "binding_routes pattern_new matches_with Headers k hs b =
    (\<exists>h m. hs = Some h \<and> bd_match b = Some m \<and> header_matches m h)"

definition bad_topic :: "(string \<Rightarrow> 'p option) \<Rightarrow> exchange \<Rightarrow> bool" where
  "bad_topic pattern_new e \<longleftrightarrow> ex_kind e = Topic \<and> list_ex (\<lambda>b. pattern_new (bd_key b) = None) (ex_bindings e)"

lemma route_cases:
  "(case route pattern_new matches_with e k hs of
      Panicked \<Rightarrow> bad_topic pattern_new e
    | Done (Err err) \<Rightarrow> ex_kind e = Headers \<and> hs = None \<and> err = HeadersRequired
    | Done (Ok qs) \<Rightarrow> \<not> bad_topic pattern_new e \<and> \<not> (ex_kind e = Headers \<and> hs = None) \<and> distinct qs \<and>
        set qs = bd_queue ` {b \<in> set (ex_bindings e). binding_routes pattern_new matches_with (ex_kind e) k hs b})"
proof (cases "ex_kind e")
  case Topic
  show ?thesis
  proof (cases "bad_topic pattern_new e")
    case False
    then have valid: "pattern_new (bd_key b) \<noteq> None" if "b \<in> set (ex_bindings e)" for b
      using that Topic by (auto simp: bad_topic_def list_ex_iff)
    then have "{b \<in> set (ex_bindings e). matches_with (the (pattern_new (bd_key b))) k topic_options} =
        {b \<in> set (ex_bindings e). \<exists>p. pattern_new (bd_key b) = Some p \<and> matches_with p k topic_options}"
      by force
    then show ?thesis
      using False Topic valid
        fold_targets [of "\<lambda>b. matches_with (the (pattern_new (bd_key b))) k topic_options" "ex_bindings e" "[]"]
      by (auto simp: route_def topic_targets_closed)
  qed (use Topic in \<open>auto simp: route_def topic_targets_closed bad_topic_def list_ex_iff\<close>)
next
  case Headers
  then show ?thesis
    by (auto simp: route_def targets_where bad_topic_def split: option.splits)
qed (auto simp: route_def targets_where bad_topic_def)

section \<open>Delivering\<close>

text \<open>The recipient of a well-typed registration.\<close>

fun recipient_of :: "'h registration \<Rightarrow> 'h recipient" where
  "recipient_of g = (case rg_recipient g of Any _ r \<Rightarrow> r | AnyBox _ \<Rightarrow> undefined)"

lemma recipient_of_ok: "registration_ok t g \<Longrightarrow>
    rp_id (recipient_of g) = rg_actor_id g \<and> any_downcast (TyRecipient t) (rg_recipient g) = Some (recipient_of g)"
  by (auto simp: registration_ok_def)

lemma deliver_registrations_post:
  assumes "list_all (registration_ok t) gs"
  shows "deliver_registrations s post_ops t n m gs w =
    Done (filter (\<lambda>r. awaited s \<and> \<not> po_running w (rp_handle r)) (map recipient_of gs),
      w\<lparr>po_log := po_log w @ map (\<lambda>r. (rp_handle r, m)) (filter (takes s w) (map recipient_of gs)),
        po_tasks := po_tasks w @ concat (map (\<lambda>r. task_of s m (BasicCancel n r) r) (map recipient_of gs))\<rparr>)"
  using assms
proof (induction gs arbitrary: w)
  case (Cons g gs)
  have "takes s (w\<lparr>po_log := l, po_tasks := t\<rparr>) = takes s w" for l t
    by (rule ext) simp
  then show ?case
    using Cons recipient_of_ok [of t g]
    by (simp add: deliver_to_post del: recipient_of.simps)
qed simp

lemma deliver_registrations_total:
  "list_all (registration_ok t) gs \<Longrightarrow> \<exists>rs w'. deliver_registrations s ops t n m gs w = Done (rs, w')"
proof (induction gs arbitrary: w)
  case (Cons g gs)
  obtain gone w1 where d: "deliver_to s ops (recipient_of g) m (BasicCancel n (recipient_of g)) w = (gone, w1)"
    by force
  then show ?case
    using Cons recipient_of_ok [of t g] by (fastforce simp del: recipient_of.simps)
qed simp

lemma fold_basic_cancel:
  "fold (\<lambda>r mq. snd (basic_cancel t n r mq)) rs mq =
    fold (\<lambda>(k, i). drop_consumer k i) (map (\<lambda>r. ((n, t), rp_id r)) rs) mq"
  by (induction rs arbitrary: mq) (simp_all add: basic_cancel_def drop_consumer_def)

lemma delivery_message_post:
  assumes "mq_wf mq" "gs = map recipient_of (filter (\<lambda>g. flt (rg_tags g)) (registrations mq (n, t)))"
    and "s = mq_delivery_strategy mq"
  shows "\<exists>mq'. delivery_message post_ops t n m flt mq w =
      Done (mq', w\<lparr>po_log := po_log w @ map (\<lambda>r. (rp_handle r, m)) (filter (takes s w) gs),
        po_tasks := po_tasks w @ concat (map (\<lambda>r. task_of s m (BasicCancel n r) r) gs)\<rparr>)
    \<and> mq_wf mq' \<and> (\<forall>k. registrations mq' k = filter (\<lambda>g. \<not> (k = (n, t) \<and> awaited s \<and>
          rg_actor_id g \<in> rp_id ` {r \<in> set gs. \<not> po_running w (rp_handle r)})) (registrations mq k))"
proof -
  let ?rs = "filter (\<lambda>r. awaited s \<and> \<not> po_running w (rp_handle r)) gs"
  let ?mq = "fold (\<lambda>(k, i). drop_consumer k i) (map (\<lambda>r. ((n, t), rp_id r)) ?rs) mq"
  have "list_all (registration_ok t) (filter (\<lambda>g. flt (rg_tags g)) (registrations mq (n, t)))"
    using registrations_ok [OF assms(1), of t n] by (auto simp: list_all_iff)
  from deliver_registrations_post [OF this, of s n m w]
  have run: "delivery_message post_ops t n m flt mq w =
      Done (?mq, w\<lparr>po_log := po_log w @ map (\<lambda>r. (rp_handle r, m)) (filter (takes s w) gs),
        po_tasks := po_tasks w @ concat (map (\<lambda>r. task_of s m (BasicCancel n r) r) gs)\<rparr>)"
    by (simp add: delivery_message_def fold_basic_cancel assms(2,3) del: recipient_of.simps)
  have "registrations ?mq k = filter (\<lambda>g. \<not> (k = (n, t) \<and> awaited s \<and>
      rg_actor_id g \<in> rp_id ` {r \<in> set gs. \<not> po_running w (rp_handle r)})) (registrations mq k)" for k
    unfolding consumers.drop_all [OF assms(1), THEN conjunct1] by (rule filter_cong) auto
  moreover have "mq_wf ?mq"
    using consumers.drop_all [OF assms(1)] by blast
  ultimately show ?thesis using run by blast
qed

text \<open>The consumers a message for one queue goes to, and the registrations a delivery drops.\<close>

definition consumers_for :: "'h message_queue \<Rightarrow> tag_filter \<Rightarrow> type_id \<Rightarrow> string \<Rightarrow> 'h recipient list" where
  "consumers_for mq flt t n = map recipient_of (filter (\<lambda>g. flt (rg_tags g)) (registrations mq (n, t)))"

definition stopped_consumer ::
  "'h message_queue \<Rightarrow> tag_filter \<Rightarrow> type_id \<Rightarrow> ('h, 'm, 'u) post \<Rightarrow> string \<times> type_id \<Rightarrow> actor_id \<Rightarrow> bool" where
  "stopped_consumer mq flt t w = (\<lambda>(n, t') i. t' = t \<and> awaited (mq_delivery_strategy mq) \<and>
    i \<in> rp_id ` {r \<in> set (consumers_for mq flt t n). \<not> po_running w (rp_handle r)})"

lemma strategy_cancel [simp]: "mq_delivery_strategy (snd (cancel_actor t n i mq)) = mq_delivery_strategy mq"
  by (auto simp: cancel_actor_def queue_delete_def Let_def split: option.split)

lemma strategy_fold_cancel:
  "mq_delivery_strategy (fold (\<lambda>r mq. snd (basic_cancel t n r mq)) rs mq) = mq_delivery_strategy mq"
  by (induction rs arbitrary: mq) (simp_all add: basic_cancel_def)

lemma strategy_delivery:
  "delivery_message ops t n m flt mq w = Done (mq', w') \<Longrightarrow> mq_delivery_strategy mq' = mq_delivery_strategy mq"
  by (auto simp: delivery_message_def strategy_fold_cancel)

lemma deliver_queues_post:
  assumes "mq_wf mq" "distinct qs"
  shows "\<exists>mq'. deliver_queues post_ops t m flt qs mq w =
      Done (mq', w\<lparr>po_log := po_log w @ concat (map (\<lambda>n. map (\<lambda>r. (rp_handle r, m))
          (filter (takes (mq_delivery_strategy mq) w) (consumers_for mq flt t n))) qs),
        po_tasks := po_tasks w @ concat (map (\<lambda>n. concat (map (\<lambda>r.
          task_of (mq_delivery_strategy mq) m (BasicCancel n r) r) (consumers_for mq flt t n))) qs)\<rparr>)
    \<and> mq_wf mq' \<and> (\<forall>n t'. registrations mq' (n, t') =
        filter (\<lambda>g. \<not> (n \<in> set qs \<and> stopped_consumer mq flt t w (n, t') (rg_actor_id g))) (registrations mq (n, t')))"
  using assms
proof (induction qs arbitrary: mq w)
  case (Cons q qs)
  let ?s = "mq_delivery_strategy mq"
  let ?w = "w\<lparr>po_log := po_log w @ map (\<lambda>r. (rp_handle r, m)) (filter (takes ?s w) (consumers_for mq flt t q)),
      po_tasks := po_tasks w @ concat (map (\<lambda>r. task_of ?s m (BasicCancel q r) r) (consumers_for mq flt t q))\<rparr>"
  obtain mq1 where d: "delivery_message post_ops t q m flt mq w = Done (mq1, ?w)" and wf: "mq_wf mq1"
    and reg: "\<And>k. registrations mq1 k = filter (\<lambda>g. \<not> (k = (q, t) \<and> awaited ?s \<and>
          rg_actor_id g \<in> rp_id ` {r \<in> set (consumers_for mq flt t q). \<not> po_running w (rp_handle r)})) (registrations mq k)"
    using delivery_message_post [OF Cons.prems(1) refl refl, where flt = flt and n = q and t = t and m = m and w = w] by (auto simp: consumers_for_def)
  have strat: "mq_delivery_strategy mq1 = ?s" by (rule strategy_delivery [OF d])
  have takes: "takes s ?w = takes s w" for s by (rule ext) simp
  have same: "consumers_for mq1 flt t n = consumers_for mq flt t n" if "n \<in> set qs" for n
  proof -
    have "n \<noteq> q" using that Cons.prems(2) by auto
    then show ?thesis by (simp add: consumers_for_def reg del: recipient_of.simps)
  qed
  then have stopped: "n \<in> set qs \<Longrightarrow> stopped_consumer mq1 flt t ?w (n, t') i = stopped_consumer mq flt t w (n, t') i" for n t' i
    by (simp add: stopped_consumer_def strat)
  obtain mq2 where d2: "deliver_queues post_ops t m flt qs mq1 ?w =
      Done (mq2, ?w\<lparr>po_log := po_log ?w @ concat (map (\<lambda>n. map (\<lambda>r. (rp_handle r, m))
          (filter (takes ?s w) (consumers_for mq1 flt t n))) qs),
        po_tasks := po_tasks ?w @ concat (map (\<lambda>n. concat (map (\<lambda>r.
          task_of ?s m (BasicCancel n r) r) (consumers_for mq1 flt t n))) qs)\<rparr>)"
    and wf2: "mq_wf mq2" and reg2: "\<And>n t'. registrations mq2 (n, t') =
        filter (\<lambda>g. \<not> (n \<in> set qs \<and> stopped_consumer mq1 flt t ?w (n, t') (rg_actor_id g))) (registrations mq1 (n, t'))"
    using Cons.IH [OF wf, of ?w] Cons.prems(2) unfolding strat takes by auto
  have "registrations mq2 (n, t') =
        filter (\<lambda>g. \<not> (n \<in> set (q # qs) \<and> stopped_consumer mq flt t w (n, t') (rg_actor_id g))) (registrations mq (n, t'))" for n t'
  proof (cases "n = q")
    case True
    then have "n \<notin> set qs" using Cons.prems(2) by auto
    then show ?thesis using True
      unfolding reg2 reg by (auto simp: stopped_consumer_def intro: filter_cong)
  next
    case False
    then show ?thesis
      unfolding reg2 reg by (cases "n \<in> set qs") (simp_all add: stopped)
  qed
  then show ?case
    using d d2 wf2 same by (auto cong: map_cong)
qed (auto simp: stopped_consumer_def)

lemma delivery_message_total:
  assumes "mq_wf mq"
  shows "\<exists>mq' w'. delivery_message ops t n m flt mq w = Done (mq', w') \<and> mq_wf mq'"
proof -
  have "list_all (registration_ok t) (filter (\<lambda>g. flt (rg_tags g)) (registrations mq (n, t)))"
    using registrations_ok [OF assms, of t n] by (auto simp: list_all_iff)
  then obtain rs w' where "deliver_registrations (mq_delivery_strategy mq) ops t n m
      (filter (\<lambda>g. flt (rg_tags g)) (registrations mq (n, t))) w = Done (rs, w')"
    using deliver_registrations_total [of t _ "mq_delivery_strategy mq" ops n m w] by meson
  then show ?thesis
    using consumers.drop_all [OF assms] by (simp add: delivery_message_def fold_basic_cancel)
qed

lemma deliver_queues_total:
  "mq_wf mq \<Longrightarrow> \<exists>mq' w'. deliver_queues ops t m flt qs mq w = Done (mq', w') \<and> mq_wf mq'"
proof (induction qs arbitrary: mq w)
  case (Cons q qs)
  from delivery_message_total [OF Cons.prems, of ops t q m flt w]
  obtain mq1 w1 where "delivery_message ops t q m flt mq w = Done (mq1, w1)" "mq_wf mq1" by blast
  then show ?case using Cons.IH [of mq1 w1] by simp
qed simp

lemma basic_publish_cases:
  assumes "mq_wf mq"
  shows "(case basic_publish pattern_new matches_with ops t n k m p mq w of
      Panicked \<Rightarrow> \<exists>e. exchange_for mq n = Some e \<and> bad_topic pattern_new e
    | Done (res, mq', w') \<Rightarrow> mq_wf mq' \<and> \<not> (\<exists>e. exchange_for mq n = Some e \<and> bad_topic pattern_new e))"
proof (cases "exchange_for mq n")
  case (Some e)
  show ?thesis
  proof (cases "route pattern_new matches_with e k (mp_headers p)")
    case (Done r)
    show ?thesis
    proof (cases r)
      case (Ok qs)
      obtain mq' w' where "deliver_queues ops t m (case mp_filter p of Some f \<Rightarrow> f | None \<Rightarrow> \<lambda>_. True) qs mq w = Done (mq', w')"
          "mq_wf mq'"
        using deliver_queues_total [OF assms] by meson
      then show ?thesis
        using Some Done Ok route_cases [where pattern_new = pattern_new and matches_with = matches_with and e = e and k = k and hs = "mp_headers p"]
        by (simp add: basic_publish_def Let_def)
    next
      case (Err err)
      then show ?thesis
        using Some Done assms route_cases [where pattern_new = pattern_new and matches_with = matches_with and e = e and k = k and hs = "mp_headers p"]
        by (auto simp: basic_publish_def Let_def bad_topic_def)
    qed
  next
    case Panicked
    then show ?thesis
      using Some route_cases [where pattern_new = pattern_new and matches_with = matches_with and e = e and k = k and hs = "mp_headers p"]
      by (auto simp: basic_publish_def Let_def)
  qed
qed (use assms in \<open>simp add: basic_publish_def\<close>)


section \<open>The states of the actor\<close>

text \<open>
  Everything a client can make the actor do, one message after the other, for a fixed way of
  matching patterns and delivering messages.
\<close>

inductive mq_reachable ::
  "(string \<Rightarrow> 'p option) \<Rightarrow> ('p \<Rightarrow> string \<Rightarrow> match_options \<Rightarrow> bool) \<Rightarrow> ('h, 'm, 'e, 'h basic_cancel_msg, 'w) tell_ops
    \<Rightarrow> 'h message_queue \<Rightarrow> bool"
  for pattern_new matches_with ops where
  start: "mq_reachable pattern_new matches_with ops (message_queue_new s)"
| declared: "mq_reachable pattern_new matches_with ops mq \<Longrightarrow>
    mq_reachable pattern_new matches_with ops (snd (exchange_declare n k a mq))"
| deleted: "mq_reachable pattern_new matches_with ops mq \<Longrightarrow>
    mq_reachable pattern_new matches_with ops (snd (exchange_delete n u mq))"
| queue_declared: "mq_reachable pattern_new matches_with ops mq \<Longrightarrow>
    mq_reachable pattern_new matches_with ops (snd (queue_declare n a mq))"
| queue_deleted: "mq_reachable pattern_new matches_with ops mq \<Longrightarrow>
    mq_reachable pattern_new matches_with ops (snd (queue_delete n u mq))"
| bound: "mq_reachable pattern_new matches_with ops mq \<Longrightarrow>
    mq_reachable pattern_new matches_with ops (snd (queue_bind q n key args mq))"
| unbound: "mq_reachable pattern_new matches_with ops mq \<Longrightarrow>
    mq_reachable pattern_new matches_with ops (snd (queue_unbind q n key mq))"
| consumed: "mq_reachable pattern_new matches_with ops mq \<Longrightarrow>
    mq_reachable pattern_new matches_with ops (snd (basic_consume t q r tags mq))"
| cancelled: "mq_reachable pattern_new matches_with ops mq \<Longrightarrow>
    mq_reachable pattern_new matches_with ops (snd (basic_cancel t q r mq))"
| published: "mq_reachable pattern_new matches_with ops mq \<Longrightarrow>
    basic_publish pattern_new matches_with ops t n key m p mq w = Done (res, mq', w') \<Longrightarrow>
    mq_reachable pattern_new matches_with ops mq'"

lemma mq_reachable_wf:
  assumes "mq_reachable pattern_new matches_with ops mq"
  shows "mq_wf mq"
  using assms
proof induction
  case (published mq t n key m p w res mq' w')
  then show ?case
    using basic_publish_cases [where pattern_new = pattern_new and matches_with = matches_with and ops = ops and t = t and n = n and k = key
        and m = m and p = p and mq = mq and w = w] by simp
qed (simp_all add: mq_wf_new mq_wf_exchange_declare mq_wf_exchange_delete mq_wf_queue_declare mq_wf_queue_delete
  mq_wf_queue_bind mq_wf_queue_unbind mq_wf_basic_consume basic_cancel_def mq_wf_cancel_actor)

lemma targets_where_default:
  assumes "default_ok qs e"
  shows "targets_where (\<lambda>b. bd_key b = q) (ex_bindings e) = (if q \<in> qs then [q] else [])"
proof -
  let ?ts = "targets_where (\<lambda>b. bd_key b = q) (ex_bindings e)"
  have "set ?ts = (if q \<in> qs then {q} else {})"
    using assms unfolding targets_where default_ok_def by auto
  moreover have "distinct ?ts" by (rule targets_where)
  ultimately show ?thesis
    by (cases ?ts rule: remdups_adj.cases) (auto split: if_splits)
qed


section \<open>What the message queue guarantees\<close>

text \<open>
  C35. Well-formedness: in every state the actor can reach, no binding names a queue that is not
  declared, bindings are unique, a header match is there exactly in headers exchanges, the consumer
  lists are non-empty, free of duplicates and of the type they are kept under, and the default
  exchange routes a key to the queue of that name if it is declared and to nothing otherwise.
\<close>

theorem message_queue_invariant:
  assumes "mq_reachable pattern_new matches_with ops mq"
  shows "mq_wf mq \<and>
    route pattern_new matches_with (mq_default_exchange mq) q headers =
      Done (Ok (if q \<in> queue_names mq then [q] else []))"
proof
  show wf: "mq_wf mq" by (rule mq_reachable_wf [OF assms])
  have "default_ok (queue_names mq) (mq_default_exchange mq)" using wf by (simp add: mq_wf_def)
  then show "route pattern_new matches_with (mq_default_exchange mq) q headers =
      Done (Ok (if q \<in> queue_names mq then [q] else []))"
    using targets_where_default [of "queue_names mq" "mq_default_exchange mq" q]
    by (simp add: route_def default_ok_def)
qed

lemma message_queue_invariant_witness:
  "mq_wf (snd (queue_declare ''jobs'' True (message_queue_new Guaranteed :: nat message_queue)))"
  by (rule message_queue_invariant [THEN conjunct1,
        of Some "\<lambda>_ _ _. True" "post_ops :: (nat, nat, unit, _, _) tell_ops"])
    (intro mq_reachable.intros)

text \<open>
  Panics: publishing unwinds exactly when the exchange is a topic exchange with a bound key that
  is no valid pattern; binding accepts such a key. No other reachable publish panics.
\<close>

theorem publish_panics_iff:
  assumes "mq_reachable pattern_new matches_with ops mq"
  shows "basic_publish pattern_new matches_with ops t n key m p mq w = Panicked \<longleftrightarrow>
    (\<exists>e. exchange_for mq n = Some e \<and> bad_topic pattern_new e)"
  using basic_publish_cases [OF mq_reachable_wf [OF assms], where pattern_new = pattern_new
      and matches_with = matches_with and ops = ops and t = t and n = n and k = key and m = m and p = p and w = w]
  by (cases "basic_publish pattern_new matches_with ops t n key m p mq w") auto

definition demo_queue :: "delivery_strategy \<Rightarrow> nat message_queue" where
  "demo_queue s = snd (basic_consume (TyNamed 0) ''q'' (Recipient (ActorId 7) 0) []
    (snd (queue_bind ''q'' ''x'' ''['' [] (snd (exchange_declare ''x'' Topic False
      (snd (queue_declare ''q'' True (message_queue_new s))))))))"

lemma demo_queue_reachable: "mq_reachable pattern_new matches_with ops (demo_queue s)"
  unfolding demo_queue_def by (intro mq_reachable.intros)

lemmas demo_queue_simps = demo_queue_def message_queue_new_def queue_declare_def exchange_declare_def
  queue_bind_def basic_consume_def hm_insert_def hm_keys_def exchange_for_def

lemma publish_panics_iff_witness:
  "\<forall>w. basic_publish (\<lambda>s. if s = ''['' then None else Some s) (\<lambda>_ _ _. True) post_ops (TyNamed 0) ''x'' ''a'' (1 :: nat)
    \<lparr>mp_headers = None, mp_filter = None\<rparr> (demo_queue BestEffort) w = Panicked"
  by (intro allI, subst publish_panics_iff [OF demo_queue_reachable])
    (simp add: demo_queue_simps hm_get_def bad_topic_def)

text \<open>The filter of a message, and the world after it went to the consumers of some queues.\<close>

definition filter_of :: "message_properties \<Rightarrow> tag_filter" where
  "filter_of p = (case mp_filter p of Some f \<Rightarrow> f | None \<Rightarrow> \<lambda>_. True)"

definition after_publish ::
  "'h message_queue \<Rightarrow> tag_filter \<Rightarrow> type_id \<Rightarrow> 'm \<Rightarrow> string list \<Rightarrow> ('h, 'm, 'h basic_cancel_msg) post
    \<Rightarrow> ('h, 'm, 'h basic_cancel_msg) post" where
  "after_publish mq flt t m qs w = w\<lparr>
     po_log := po_log w @ concat (map (\<lambda>q. map (\<lambda>r. (rp_handle r, m))
       (filter (takes (mq_delivery_strategy mq) w) (consumers_for mq flt t q))) qs),
     po_tasks := po_tasks w @ concat (map (\<lambda>q. concat (map (\<lambda>r.
       task_of (mq_delivery_strategy mq) m (BasicCancel q r) r) (consumers_for mq flt t q))) qs)\<rparr>"

text \<open>
  C36. Delivery: publishing to an exchange that exists and can route sends the message exactly once to
  each consumer of its type whose tags pass the filter, in every queue that some binding routes it
  to, and to nobody else (a consumer with a full mailbox is skipped, a spawned strategy spawns one
  task instead). Afterwards exactly the stopped consumers among these are gone.
\<close>

theorem publish_delivers:
  assumes "mq_wf mq" "exchange_for mq n = Some e" "\<not> bad_topic pattern_new e"
    and "ex_kind e = Headers \<longrightarrow> mp_headers p \<noteq> None"
  shows "\<exists>qs mq'. basic_publish pattern_new matches_with post_ops t n key m p mq w =
      Done (Ok (), mq', after_publish mq (filter_of p) t m qs w)
    \<and> distinct qs
    \<and> set qs = bd_queue ` {b \<in> set (ex_bindings e).
        binding_routes pattern_new matches_with (ex_kind e) key (mp_headers p) b}
    \<and> mq_wf mq'
    \<and> (\<forall>q t'. registrations mq' (q, t') = filter (\<lambda>g. \<not> (q \<in> set qs \<and>
        stopped_consumer mq (filter_of p) t w (q, t') (rg_actor_id g))) (registrations mq (q, t')))"
proof -
  obtain qs where qs: "route pattern_new matches_with e key (mp_headers p) = Done (Ok qs)" "distinct qs"
    "set qs = bd_queue ` {b \<in> set (ex_bindings e).
        binding_routes pattern_new matches_with (ex_kind e) key (mp_headers p) b}"
    using route_cases [where pattern_new = pattern_new and matches_with = matches_with and e = e and k = key
        and hs = "mp_headers p"] assms(3,4)
    by (auto split: outcome.splits result.splits)
  from deliver_queues_post [OF assms(1) qs(2), of t m "filter_of p" w]
  show ?thesis
    using qs assms(2)
    by (auto simp: basic_publish_def Let_def after_publish_def simp flip: filter_of_def intro!: exI [of _ qs])
qed

lemma distinct_singleton: "distinct qs \<Longrightarrow> set qs = {q} \<Longrightarrow> qs = [q]"
  by (cases qs rule: remdups_adj.cases) auto

lemma publish_delivers_witness:
  "\<exists>mq'. basic_publish Some (\<lambda>_ _ _. False) post_ops (TyNamed 0) '''' ''q'' (1 :: nat)
      \<lparr>mp_headers = None, mp_filter = None\<rparr> (demo_queue Guaranteed)
      \<lparr>po_running = (\<lambda>_. True), po_full = (\<lambda>_. False), po_log = [], po_tasks = []\<rparr> =
    Done (Ok (), mq', \<lparr>po_running = (\<lambda>_. True), po_full = (\<lambda>_. False), po_log = [(0, 1)], po_tasks = []\<rparr>)"
proof -
  let ?b = "\<lparr>bd_queue = ''q'', bd_key = ''q'', bd_match = None\<rparr>"
  let ?e = "\<lparr>ex_name = '''', ex_kind = Direct, ex_auto_delete = False, ex_bindings = [?b]\<rparr>"
  let ?p = "\<lparr>mp_headers = None, mp_filter = None\<rparr>"
  let ?w = "\<lparr>po_running = (\<lambda>_ :: nat. True), po_full = (\<lambda>_. False), po_log = [], po_tasks = []\<rparr>"
  have e: "exchange_for (demo_queue Guaranteed) '''' = Some ?e"
    and s: "mq_delivery_strategy (demo_queue Guaranteed) = Guaranteed"
    and c: "consumers_for (demo_queue Guaranteed) (\<lambda>_. True) (TyNamed 0) ''q'' = [Recipient (ActorId 7) 0]"
    by (simp_all add: demo_queue_simps hm_get_def consumers_for_def registrations_def)
  have wf: "mq_wf (demo_queue Guaranteed)"
    by (rule mq_reachable_wf [OF demo_queue_reachable [of Some "\<lambda>_ _ _. False" post_ops]])
  have routed: "bd_queue ` {b \<in> set (ex_bindings ?e).
      binding_routes Some (\<lambda>_ _ _. False) (ex_kind ?e) ''q'' (mp_headers ?p) b} = {''q''}"
    by auto
  have pre: "\<not> bad_topic Some ?e" "ex_kind ?e = Headers \<longrightarrow> mp_headers ?p \<noteq> None"
    by (simp_all add: bad_topic_def)
  obtain qs mq' where pub: "basic_publish Some (\<lambda>_ _ _. False) post_ops (TyNamed 0) '''' ''q'' (1 :: nat) ?p
      (demo_queue Guaranteed) ?w = Done (Ok (), mq', after_publish (demo_queue Guaranteed) (filter_of ?p) (TyNamed 0) 1 qs ?w)"
    and qs: "distinct qs" "set qs = {''q''}"
    using publish_delivers [OF wf e pre, of "\<lambda>_ _ _. False" "TyNamed 0" "''q''" "1 :: nat" ?w]
    unfolding routed by (elim exE conjE) (rule that)
  from qs have "qs = [''q'']" by (rule distinct_singleton)
  with pub show ?thesis by (simp add: c s after_publish_def filter_of_def)
qed

lemma consumers_at_ne:
  assumes "queue_ok q"
  shows "qu_recipients q \<noteq> [] \<longleftrightarrow> (\<exists>t. consumers_at q t \<noteq> [])"
proof
  assume "qu_recipients q \<noteq> []"
  then obtain t gs m where m: "qu_recipients q = (t, gs) # m" by (metis list.exhaust surj_pair)
  then have "hm_get (qu_recipients q) t = Some gs" by simp
  moreover from this have "gs \<noteq> []" using assms by (auto simp: queue_ok_def dest: hm_allD)
  ultimately show "\<exists>t. consumers_at q t \<noteq> []" by (auto simp: consumers_at_def intro!: exI [of _ t])
qed (auto simp: consumers_at_def)

text \<open>
  Cancelling: the consumer is dropped and no other, whatever the answer. On a queue that is
  deleted automatically the answer is an error as long as other consumers remain, although the
  cancellation took place; with the last consumer the queue goes too.
\<close>

theorem cancel_result:
  assumes "mq_wf mq" "hm_get (mq_queues mq) n = Some q"
    and "others \<longleftrightarrow> (\<exists>t'. filter (\<lambda>g. \<not> (t' = t \<and> rg_actor_id g = rp_id r)) (registrations mq (n, t')) \<noteq> [])"
  shows "fst (basic_cancel t n r mq) = (if qu_auto_delete q \<and> others then Err QueueInUse else Ok ())
    \<and> registrations (snd (basic_cancel t n r mq)) (n, t) =
        filter (\<lambda>g. rg_actor_id g \<noteq> rp_id r) (registrations mq (n, t))
    \<and> (n \<in> queue_names (snd (basic_cancel t n r mq)) \<longleftrightarrow> \<not> (qu_auto_delete q \<and> \<not> others))"
proof -
  let ?c = "cancel_at t (rp_id r) q"
  have ok: "queue_ok ?c"
    using mq_wf_queue [OF assms(1,2)] by (simp add: queue_ok_cancel_at)
  have auto: "qu_auto_delete ?c = qu_auto_delete q"
    by (simp add: cancel_at_def Let_def)
  have "filter (\<lambda>g. \<not> (t' = t \<and> rg_actor_id g = rp_id r)) (registrations mq (n, t')) = consumers_at ?c t'" for t'
    using assms(2) mq_wf_queue [OF assms(1,2)]
    by (cases "t' = t") (simp_all add: consumers_at_cancel registrations_alt)
  then have "others \<longleftrightarrow> (\<exists>t'. consumers_at ?c t' \<noteq> [])"
    by (simp add: assms(3))
  then have others: "others \<longleftrightarrow> qu_recipients ?c \<noteq> []"
    using consumers_at_ne [OF ok] by simp
  show ?thesis
    using assms(1,2) others auto registrations_cancel [OF assms(1), of t n "rp_id r" "(n, t)"]
    by (auto simp: basic_cancel_def cancel_actor_def queue_delete_def Let_def queue_names_def
        set_hm_keys_insert set_hm_keys_remove)
qed

lemma cancel_result_witness:
  "fst (basic_cancel (TyNamed 1) ''q'' (Recipient (ActorId 8) 1) (demo_queue Guaranteed)) = Err QueueInUse"
proof -
  have q: "hm_get (mq_queues (demo_queue Guaranteed)) ''q'' =
      Some \<lparr>qu_auto_delete = True, qu_recipients = [(TyNamed 0, [\<lparr>rg_actor_id = ActorId 7,
        rg_recipient = Any (TyRecipient (TyNamed 0)) (Recipient (ActorId 7) 0), rg_tags = []\<rparr>])]\<rparr>"
    by (simp add: demo_queue_simps hm_get_def)
  then have "\<exists>t'. filter (\<lambda>g. \<not> (t' = TyNamed 1 \<and> rg_actor_id g = rp_id (Recipient (ActorId 8) (1 :: nat))))
      (registrations (demo_queue Guaranteed) (''q'', t')) \<noteq> []"
    by (intro exI [of _ "TyNamed 0"]) (simp add: registrations_def)
  with cancel_result [OF mq_reachable_wf [OF demo_queue_reachable [of Some "\<lambda>_ _ _. False" post_ops]] q,
      of True "TyNamed 1" "Recipient (ActorId 8) 1"]
  show ?thesis by simp
qed

end
