(* ===== verification/Broker.thy ===== *)
theory Broker
  imports Delivery
begin

text \<open>
  The topic broker (\<open>actors/src/broker.rs\<close>): recipients by glob pattern, subscribing, unsubscribing and
  publishing. Patterns and the test whether one matches a topic are parameters; two patterns are the
  same key when they are equal.
\<close>

section \<open>State and operations\<close>

record ('p, 'h) broker =
  br_subscriptions :: "('p, 'h recipient list) hash_map"
  br_delivery_strategy :: delivery_strategy

text \<open>\<open>Unsubscribe\<close>, as a spawned delivery sends it: a pattern and an actor.\<close>

type_synonym 'p unsubscribe_msg = "'p \<times> actor_id"

definition broker_new :: "delivery_strategy \<Rightarrow> ('p, 'h) broker" where
  "broker_new strategy = \<lparr>br_subscriptions = [], br_delivery_strategy = strategy\<rparr>"

definition broker_unsubscribe :: "'p \<Rightarrow> actor_id \<Rightarrow> ('p, 'h) broker \<Rightarrow> ('p, 'h) broker" where
  "broker_unsubscribe pattern i br =
    (case hm_get (br_subscriptions br) pattern of
       None \<Rightarrow> br
     | Some recipients \<Rightarrow>
         (let recipients = filter (\<lambda>r. rp_id r \<noteq> i) recipients
          in br\<lparr>br_subscriptions :=
               if recipients = [] then hm_remove pattern (br_subscriptions br)
               else hm_insert pattern recipients (br_subscriptions br)\<rparr>))"

definition broker_subscribe :: "'p \<Rightarrow> 'h recipient \<Rightarrow> ('p, 'h) broker \<Rightarrow> ('p, 'h) broker" where
  "broker_subscribe topic r br =
    (let recipients = (case hm_get (br_subscriptions br) topic of Some rs \<Rightarrow> rs | None \<Rightarrow> [])
     in br\<lparr>br_subscriptions := hm_insert topic (recipients @ [r]) (br_subscriptions br)\<rparr>)"

definition broker_handle_unsubscribe :: "'p option \<Rightarrow> actor_id \<Rightarrow> ('p, 'h) broker \<Rightarrow> ('p, 'h) broker" where
  "broker_handle_unsubscribe topic i br =
    (case topic of
       Some topic \<Rightarrow> broker_unsubscribe topic i br
     | None \<Rightarrow> br\<lparr>br_subscriptions := hm_retain (\<lambda>_ recipients. recipients \<noteq> [])
         (hm_map_values (filter (\<lambda>r. rp_id r \<noteq> i)) (br_subscriptions br))\<rparr>)"

text \<open>The two nested loops, over the subscriptions that match and their recipients.\<close>

fun broker_deliver ::
  "('p \<Rightarrow> string \<Rightarrow> bool) \<Rightarrow> delivery_strategy \<Rightarrow> ('h, 'm, 'e, 'p unsubscribe_msg, 'w) tell_ops \<Rightarrow> string \<Rightarrow> 'm
    \<Rightarrow> ('p, 'h recipient list) hash_map \<Rightarrow> 'w \<Rightarrow> 'p unsubscribe_msg list \<times> 'w" where
  "broker_deliver matches s ops topic m [] w = ([], w)"
| "broker_deliver matches s ops topic m ((pattern, recipients) # subs) w =
    (if matches pattern topic
     then let (removals, w) = deliver_all s ops (\<lambda>r. (pattern, rp_id r)) m recipients w;
              (more, w) = broker_deliver matches s ops topic m subs w
          in (removals @ more, w)
     else broker_deliver matches s ops topic m subs w)"

definition broker_publish ::
  "('p \<Rightarrow> string \<Rightarrow> bool) \<Rightarrow> ('h, 'm, 'e, 'p unsubscribe_msg, 'w) tell_ops \<Rightarrow> string \<Rightarrow> 'm \<Rightarrow> ('p, 'h) broker \<Rightarrow> 'w
    \<Rightarrow> ('p, 'h) broker \<times> 'w" where
  "broker_publish matches ops topic m br w =
    (let (to_remove, w) = broker_deliver matches (br_delivery_strategy br) ops topic m (br_subscriptions br) w
     in (fold (\<lambda>(pattern, i) br. broker_unsubscribe pattern i br) to_remove br, w))"


section \<open>The subscription table\<close>

definition subscribers :: "('p, 'h) broker \<Rightarrow> 'p \<Rightarrow> 'h recipient list" where
  "subscribers br p = (case hm_get (br_subscriptions br) p of Some rs \<Rightarrow> rs | None \<Rightarrow> [])"

text \<open>No pattern is kept without a recipient.\<close>

definition broker_wf :: "('p, 'h) broker \<Rightarrow> bool" where
  "broker_wf br \<longleftrightarrow> hm_wf (br_subscriptions br) \<and> hm_all (\<lambda>_ rs. rs \<noteq> []) (br_subscriptions br)"

lemma broker_wf_new: "broker_wf (broker_new s)"
  by (simp add: broker_wf_def broker_new_def)

lemma broker_wf_subscribe: "broker_wf br \<Longrightarrow> broker_wf (broker_subscribe p r br)"
  by (auto simp: broker_wf_def broker_subscribe_def Let_def)

lemma broker_wf_unsubscribe: "broker_wf br \<Longrightarrow> broker_wf (broker_unsubscribe p i br)"
  by (auto simp: broker_wf_def broker_unsubscribe_def Let_def split: option.split)

lemma subscribers_unsubscribe:
  "subscribers (broker_unsubscribe p i br) p' =
    (if p' = p then filter (\<lambda>r. rp_id r \<noteq> i) (subscribers br p) else subscribers br p')"
  by (auto simp: subscribers_def broker_unsubscribe_def Let_def split: option.split)

interpretation topics: subscription_table subscribers rp_id broker_unsubscribe broker_wf
  by unfold_locales (simp_all add: subscribers_unsubscribe broker_wf_unsubscribe)

lemma broker_wf_handle_unsubscribe: "broker_wf br \<Longrightarrow> broker_wf (broker_handle_unsubscribe t i br)"
proof (cases t)
  case None
  assume "broker_wf br"
  then show ?thesis
    using None by (auto simp: broker_wf_def broker_handle_unsubscribe_def hm_all_def hm_get_retain
        split: option.splits if_splits)
qed (simp add: broker_handle_unsubscribe_def broker_wf_unsubscribe)

lemma subscribers_handle_unsubscribe:
  assumes "broker_wf br"
  shows "subscribers (broker_handle_unsubscribe t i br) p =
    (if t = None \<or> t = Some p then filter (\<lambda>r. rp_id r \<noteq> i) (subscribers br p) else subscribers br p)"
proof (cases t)
  case None
  have "hm_wf (hm_map_values (filter (\<lambda>r. rp_id r \<noteq> i)) (br_subscriptions br))"
    using assms by (simp add: broker_wf_def)
  then show ?thesis
    using None by (auto simp: broker_handle_unsubscribe_def subscribers_def hm_get_retain split: option.split)
qed (auto simp: broker_handle_unsubscribe_def subscribers_unsubscribe)

lemma subscribers_subscribe:
  "subscribers (broker_subscribe p r br) p' = (if p' = p then subscribers br p @ [r] else subscribers br p')"
  by (auto simp: subscribers_def broker_subscribe_def Let_def)


section \<open>Publishing\<close>

text \<open>The recipients of a topic, pattern by pattern.\<close>

definition addressed :: "('p \<Rightarrow> string \<Rightarrow> bool) \<Rightarrow> string \<Rightarrow> ('p, 'h recipient list) hash_map \<Rightarrow> ('p \<times> 'h recipient) list" where
  "addressed matches topic subs =
    concat (map (\<lambda>(p, rs). map (Pair p) rs) (filter (\<lambda>(p, rs). matches p topic) subs))"

lemma broker_deliver_post:
  "broker_deliver matches s post_ops topic m subs w =
    (map (\<lambda>(p, r). (p, rp_id r)) (filter (\<lambda>(p, r). awaited s \<and> \<not> po_running w (rp_handle r)) (addressed matches topic subs)),
     w\<lparr>po_log := po_log w @ map (\<lambda>(p, r). (rp_handle r, m)) (filter (\<lambda>(p, r). takes s w r) (addressed matches topic subs)),
       po_tasks := po_tasks w @ concat (map (\<lambda>(p, r). task_of s m (p, rp_id r) r) (addressed matches topic subs))\<rparr>)"
proof (induction subs arbitrary: w)
  case (Cons e subs)
  obtain p rs where e: "e = (p, rs)" by (cases e)
  have "takes s (w\<lparr>po_log := l, po_tasks := t\<rparr>) = takes s w" for l t
    by (rule ext) simp
  then show ?case
    by (simp add: e deliver_all_post Cons addressed_def filter_map comp_def map_concat)
qed (simp add: addressed_def)

lemma addressed_iff:
  "hm_wf subs \<Longrightarrow> (p, r) \<in> set (addressed matches topic subs) \<longleftrightarrow>
    matches p topic \<and> (\<exists>rs. hm_get subs p = Some rs \<and> r \<in> set rs)"
  by (force simp: addressed_def hm_get_eq_Some_iff)

text \<open>
  Publishing delivers the message once for each subscription whose pattern matches the topic, in
  the order of the table (an actor with two matching subscriptions gets it twice). When the strategy
  awaits the delivery, the recipients that turn out to be stopped are dropped from the matching
  patterns, and every other subscription stays as it is; a pattern left without recipients goes.
\<close>

theorem broker_publish_delivers:
  assumes "broker_wf br"
  shows "po_log (snd (broker_publish matches post_ops topic m br w)) = po_log w
      @ map (\<lambda>(p, r). (rp_handle r, m))
          (filter (\<lambda>(p, r). takes (br_delivery_strategy br) w r) (addressed matches topic (br_subscriptions br)))
    \<and> subscribers (fst (broker_publish matches post_ops topic m br w)) p =
        filter (\<lambda>r. \<not> (matches p topic \<and> awaited (br_delivery_strategy br) \<and>
            rp_id r \<in> rp_id ` {r \<in> set (subscribers br p). \<not> po_running w (rp_handle r)})) (subscribers br p)
    \<and> broker_wf (fst (broker_publish matches post_ops topic m br w))"
proof -
  let ?s = "br_delivery_strategy br"
  let ?all = "addressed matches topic (br_subscriptions br)"
  let ?gone = "map (\<lambda>(p, r). (p, rp_id r)) (filter (\<lambda>(p, r). awaited ?s \<and> \<not> po_running w (rp_handle r)) ?all)"
  have fst: "fst (broker_publish matches post_ops topic m br w) = fold (\<lambda>(p, i). broker_unsubscribe p i) ?gone br"
    by (simp add: broker_publish_def broker_deliver_post)
  have all: "(p, r) \<in> set ?all \<longleftrightarrow> matches p topic \<and> r \<in> set (subscribers br p)" for r
    using assms by (cases "hm_get (br_subscriptions br) p") (auto simp: broker_wf_def addressed_iff subscribers_def)
  have "(p, i) \<in> set ?gone \<longleftrightarrow>
      (\<exists>r. (p, r) \<in> set ?all \<and> awaited ?s \<and> \<not> po_running w (rp_handle r) \<and> i = rp_id r)" for i
    by auto
  then have "(p, i) \<in> set ?gone \<longleftrightarrow> matches p topic \<and> awaited ?s \<and>
      i \<in> rp_id ` {r \<in> set (subscribers br p). \<not> po_running w (rp_handle r)}" for i
    unfolding all by blast
  then show ?thesis
    using topics.drop_all [OF assms, of ?gone p]
    by (simp add: fst) (simp add: broker_publish_def broker_deliver_post)
qed

lemma broker_publish_delivers_witness:
  "po_log (snd (broker_publish (\<lambda>p t. p = t) post_ops ''a'' (1 :: nat)
      (broker_subscribe ''a'' (Recipient (ActorId 7) 0) (broker_new Guaranteed))
      \<lparr>po_running = (\<lambda>_ :: nat. True), po_full = (\<lambda>_. False), po_log = [], po_tasks = []\<rparr>)) = [(0, 1)]"
  using broker_publish_delivers [OF broker_wf_subscribe [OF broker_wf_new], of "\<lambda>p t. p = t" "''a''" "1 :: nat" "''a''"
      "Recipient (ActorId 7) 0" Guaranteed
      "\<lparr>po_running = (\<lambda>_ :: nat. True), po_full = (\<lambda>_. False), po_log = [], po_tasks = []\<rparr>" "''a''"]
  by (simp add: addressed_def broker_subscribe_def broker_new_def hm_insert_def)

end
