(* ===== verification/Message_Bus.thy ===== *)
theory Message_Bus
  imports Delivery
begin

text \<open>
  The type-based message bus (\<open>actors/src/message_bus.rs\<close>): recipients by message type, kept as values
  of unknown type beside the identity of their actor. The message type of a generic handler is an
  argument of type \<open>type_id\<close>.
\<close>

section \<open>State and operations\<close>

record 'h bus_registration =
  bu_actor_id :: actor_id
  bu_recipient :: "'h recipient any"

record 'h message_bus =
  mb_subscriptions :: "(type_id, 'h bus_registration list) hash_map"
  mb_delivery_strategy :: delivery_strategy

definition message_bus_new :: "delivery_strategy \<Rightarrow> 'h message_bus" where
  "message_bus_new strategy = \<lparr>mb_subscriptions = [], mb_delivery_strategy = strategy\<rparr>"

definition bus_registration_new :: "type_id \<Rightarrow> 'h recipient \<Rightarrow> 'h bus_registration" where
  "bus_registration_new t r = \<lparr>bu_actor_id = rp_id r, bu_recipient = Any (TyRecipient t) r\<rparr>"

definition bus_unsubscribe :: "type_id \<Rightarrow> actor_id \<Rightarrow> 'h message_bus \<Rightarrow> 'h message_bus" where
  "bus_unsubscribe t i mb =
    (case hm_get (mb_subscriptions mb) t of
       None \<Rightarrow> mb
     | Some recipients \<Rightarrow>
         (let recipients = filter (\<lambda>g. bu_actor_id g \<noteq> i) recipients
          in mb\<lparr>mb_subscriptions :=
               if recipients = [] then hm_remove t (mb_subscriptions mb)
               else hm_insert t recipients (mb_subscriptions mb)\<rparr>))"

definition bus_register :: "type_id \<Rightarrow> 'h recipient \<Rightarrow> 'h message_bus \<Rightarrow> 'h message_bus" where
  "bus_register t r mb =
    (let recipients = (case hm_get (mb_subscriptions mb) t of Some rs \<Rightarrow> rs | None \<Rightarrow> [])
     in mb\<lparr>mb_subscriptions := hm_insert t (recipients @ [bus_registration_new t r]) (mb_subscriptions mb)\<rparr>)"

definition bus_handle_unregister :: "type_id \<Rightarrow> actor_id \<Rightarrow> 'h message_bus \<Rightarrow> 'h message_bus" where
  "bus_handle_unregister t i mb = bus_unsubscribe t i mb"

text \<open>The delivery loop; a registration of the wrong type unwinds.\<close>

fun bus_deliver ::
  "delivery_strategy \<Rightarrow> ('h, 'm, 'e, actor_id, 'w) tell_ops \<Rightarrow> type_id \<Rightarrow> 'm \<Rightarrow> 'h bus_registration list \<Rightarrow> 'w
    \<Rightarrow> (actor_id list \<times> 'w) outcome" where
  "bus_deliver s ops t m [] w = Done ([], w)"
| "bus_deliver s ops t m (g # gs) w =
    (case any_downcast (TyRecipient t) (bu_recipient g) of
       None \<Rightarrow> Panicked
     | Some recipient \<Rightarrow>
         (let (gone, w) = deliver_to s ops recipient m (bu_actor_id g) w
          in map_outcome (\<lambda>(to_remove, w). (if gone then bu_actor_id g # to_remove else to_remove, w))
               (bus_deliver s ops t m gs w)))"

definition bus_publish ::
  "('h, 'm, 'e, actor_id, 'w) tell_ops \<Rightarrow> type_id \<Rightarrow> 'm \<Rightarrow> 'h message_bus \<Rightarrow> 'w \<Rightarrow> ('h message_bus \<times> 'w) outcome" where
  "bus_publish ops t m mb w =
    (case hm_get (mb_subscriptions mb) t of
       None \<Rightarrow> Done (mb, w)
     | Some gs \<Rightarrow>
         map_outcome (\<lambda>(to_remove, w). (fold (bus_unsubscribe t) to_remove mb, w))
           (bus_deliver (mb_delivery_strategy mb) ops t m gs w))"


section \<open>The subscription table\<close>

definition bus_registrations :: "'h message_bus \<Rightarrow> type_id \<Rightarrow> 'h bus_registration list" where
  "bus_registrations mb t = (case hm_get (mb_subscriptions mb) t of Some gs \<Rightarrow> gs | None \<Rightarrow> [])"

text \<open>Every list is non-empty and holds recipients of the type it is kept under.\<close>

definition bus_registration_ok :: "type_id \<Rightarrow> 'h bus_registration \<Rightarrow> bool" where
  "bus_registration_ok t g \<longleftrightarrow> (\<exists>r. g = bus_registration_new t r)"

definition bus_wf :: "'h message_bus \<Rightarrow> bool" where
  "bus_wf mb \<longleftrightarrow> hm_wf (mb_subscriptions mb) \<and>
    hm_all (\<lambda>t gs. gs \<noteq> [] \<and> list_all (bus_registration_ok t) gs) (mb_subscriptions mb)"

lemma bus_wf_new: "bus_wf (message_bus_new s)"
  by (simp add: bus_wf_def message_bus_new_def)

lemma bus_registration_ok_new [simp]: "bus_registration_ok t (bus_registration_new t r)"
  by (auto simp: bus_registration_ok_def)

lemma bus_wf_get: "bus_wf mb \<Longrightarrow> hm_get (mb_subscriptions mb) t = Some gs \<Longrightarrow>
    gs \<noteq> [] \<and> list_all (bus_registration_ok t) gs"
  by (auto simp: bus_wf_def dest: hm_allD)

lemma bus_wf_set:
  "bus_wf mb \<Longrightarrow> gs \<noteq> [] \<Longrightarrow> list_all (bus_registration_ok t) gs \<Longrightarrow>
    bus_wf (mb\<lparr>mb_subscriptions := hm_insert t gs (mb_subscriptions mb)\<rparr>)"
  by (simp add: bus_wf_def)

lemma bus_wf_register: "bus_wf mb \<Longrightarrow> bus_wf (bus_register t r mb)"
  using bus_wf_get [of mb t]
  by (auto simp: bus_register_def Let_def intro!: bus_wf_set split: option.split)

lemma bus_wf_unsubscribe:
  assumes "bus_wf mb"
  shows "bus_wf (bus_unsubscribe t i mb)"
proof (cases "hm_get (mb_subscriptions mb) t")
  case (Some gs)
  have "list_all (bus_registration_ok t) (filter p gs)" for p
    using bus_wf_get [OF assms Some] by (auto simp: list_all_iff)
  moreover have "bus_wf (mb\<lparr>mb_subscriptions := hm_remove t (mb_subscriptions mb)\<rparr>)"
    using assms by (simp add: bus_wf_def)
  ultimately show ?thesis
    using Some assms by (simp add: bus_unsubscribe_def Let_def bus_wf_set)
qed (use assms in \<open>simp add: bus_unsubscribe_def\<close>)

lemma bus_registrations_unsubscribe:
  "bus_registrations (bus_unsubscribe t i mb) t' =
    (if t' = t then filter (\<lambda>g. bu_actor_id g \<noteq> i) (bus_registrations mb t) else bus_registrations mb t')"
  by (auto simp: bus_registrations_def bus_unsubscribe_def Let_def split: option.split)

interpretation bus: subscription_table bus_registrations bu_actor_id bus_unsubscribe bus_wf
  by unfold_locales (simp_all add: bus_registrations_unsubscribe bus_wf_unsubscribe)

lemma bus_registrations_ok: "bus_wf mb \<Longrightarrow> list_all (bus_registration_ok t) (bus_registrations mb t)"
  by (auto simp: bus_wf_def bus_registrations_def dest: hm_allD split: option.split)

fun bus_recipient_of :: "'h bus_registration \<Rightarrow> 'h recipient" where
  "bus_recipient_of g = (case bu_recipient g of Any _ r \<Rightarrow> r | AnyBox _ \<Rightarrow> undefined)"

lemma bus_recipient_of_ok: "bus_registration_ok t g \<Longrightarrow>
    rp_id (bus_recipient_of g) = bu_actor_id g \<and>
    any_downcast (TyRecipient t) (bu_recipient g) = Some (bus_recipient_of g)"
  by (auto simp: bus_registration_ok_def bus_registration_new_def)

lemma bus_deliver_post:
  assumes "list_all (bus_registration_ok t) gs"
  shows "bus_deliver s post_ops t m gs w =
    Done (map rp_id (filter (\<lambda>r. awaited s \<and> \<not> po_running w (rp_handle r)) (map bus_recipient_of gs)),
      w\<lparr>po_log := po_log w @ map (\<lambda>r. (rp_handle r, m)) (filter (takes s w) (map bus_recipient_of gs)),
        po_tasks := po_tasks w @ concat (map (\<lambda>r. task_of s m (rp_id r) r) (map bus_recipient_of gs))\<rparr>)"
  using assms
proof (induction gs arbitrary: w)
  case (Cons g gs)
  have "takes s (w\<lparr>po_log := l, po_tasks := t\<rparr>) = takes s w" for l t
    by (rule ext) simp
  then show ?case
    using Cons bus_recipient_of_ok [of t g]
    by (simp add: deliver_to_post del: bus_recipient_of.simps)
qed simp

text \<open>
  Publishing on the bus never unwinds and delivers the message once for each registration of its
  type, in the order of registration and to nobody else; the recipients that turn out to be stopped
  in an awaited delivery are unregistered for this type, and no other registration changes.
\<close>

theorem bus_publish_delivers:
  assumes "bus_wf mb"
  shows "\<exists>mb'. bus_publish post_ops t m mb w =
      Done (mb', w\<lparr>
        po_log := po_log w @ map (\<lambda>r. (rp_handle r, m))
          (filter (takes (mb_delivery_strategy mb) w) (map bus_recipient_of (bus_registrations mb t))),
        po_tasks := po_tasks w @ concat (map (\<lambda>r. task_of (mb_delivery_strategy mb) m (rp_id r) r)
          (map bus_recipient_of (bus_registrations mb t)))\<rparr>)
    \<and> bus_wf mb'
    \<and> (\<forall>t'. bus_registrations mb' t' = filter (\<lambda>g. \<not> (t' = t \<and> awaited (mb_delivery_strategy mb) \<and>
        bu_actor_id g \<in> rp_id ` {r \<in> bus_recipient_of ` set (bus_registrations mb t). \<not> po_running w (rp_handle r)}))
        (bus_registrations mb t'))"
proof (cases "hm_get (mb_subscriptions mb) t")
  case None
  have "bus_registrations mb t' = filter (\<lambda>g. \<not> (t' = t \<and> P g)) (bus_registrations mb t')" for t' P
    using None by (cases "t' = t") (simp_all add: bus_registrations_def)
  then show ?thesis
    using None assms by (simp add: bus_publish_def bus_registrations_def)
next
  case (Some gs)
  let ?s = "mb_delivery_strategy mb"
  let ?gone = "map rp_id (filter (\<lambda>r. awaited ?s \<and> \<not> po_running w (rp_handle r)) (map bus_recipient_of gs))"
  have gs: "bus_registrations mb t = gs" using Some by (simp add: bus_registrations_def)
  have fold: "fold (bus_unsubscribe t) is mb = fold (\<lambda>(t, i). bus_unsubscribe t i) (map (Pair t) is) mb" for "is"
    by (induction "is" arbitrary: mb) simp_all
  note dropped = bus.drop_all [OF assms, of "map (Pair t) ?gone"]
  have "bus_publish post_ops t m mb w = Done (fold (bus_unsubscribe t) ?gone mb,
      w\<lparr>po_log := po_log w @ map (\<lambda>r. (rp_handle r, m)) (filter (takes ?s w) (map bus_recipient_of gs)),
        po_tasks := po_tasks w @ concat (map (\<lambda>r. task_of ?s m (rp_id r) r) (map bus_recipient_of gs))\<rparr>)"
    using bus_deliver_post [OF bus_registrations_ok [OF assms, of t], of ?s m w] Some gs
    by (simp add: bus_publish_def del: bus_recipient_of.simps)
  moreover have "bus_registrations (fold (bus_unsubscribe t) ?gone mb) t' =
      filter (\<lambda>g. \<not> (t' = t \<and> awaited ?s \<and>
        bu_actor_id g \<in> rp_id ` {r \<in> bus_recipient_of ` set gs. \<not> po_running w (rp_handle r)}))
        (bus_registrations mb t')" for t'
    unfolding fold dropped [THEN conjunct1] by (rule filter_cong) auto
  ultimately show ?thesis
    using dropped unfolding gs fold by blast
qed

lemma bus_publish_delivers_witness:
  "\<exists>mb'. bus_publish post_ops (TyNamed 0) (1 :: nat)
      (bus_register (TyNamed 0) (Recipient (ActorId 7) 0) (message_bus_new Guaranteed))
      \<lparr>po_running = (\<lambda>_ :: nat. False), po_full = (\<lambda>_. False), po_log = [], po_tasks = []\<rparr> =
    Done (mb', \<lparr>po_running = (\<lambda>_ :: nat. False), po_full = (\<lambda>_. False), po_log = [], po_tasks = []\<rparr>)
    \<and> bus_registrations mb' (TyNamed 0) = []"
  using bus_publish_delivers [OF bus_wf_register [OF bus_wf_new], of "TyNamed 0" "1 :: nat" "TyNamed 0"
      "Recipient (ActorId 7) 0" Guaranteed
      "\<lparr>po_running = (\<lambda>_ :: nat. False), po_full = (\<lambda>_. False), po_log = [], po_tasks = []\<rparr>"]
  by (auto simp: bus_registrations_def bus_register_def message_bus_new_def hm_insert_def bus_registration_new_def)

end
