(* ===== verification/Pubsub.thy ===== *)
theory Pubsub
  imports Delivery
begin

text \<open>
  Publish and subscribe (\<open>actors/src/pubsub.rs\<close>): one entry per actor, with a filter that may keep a
  state of its own (an \<open>FnMut\<close>): \<open>step\<close> says what a filter answers and how its state changes.
\<close>

section \<open>State and operations\<close>

datatype 'f filter_fn = AcceptAll | FilterFn 'f

fun run_filter :: "('f \<Rightarrow> 'm \<Rightarrow> bool \<times> 'f) \<Rightarrow> 'f filter_fn \<Rightarrow> 'm \<Rightarrow> bool \<times> 'f filter_fn" where
  "run_filter step AcceptAll m = (True, AcceptAll)"
| "run_filter step (FilterFn f) m = (let (accept, f) = step f m in (accept, FilterFn f))"

record ('h, 'f) pubsub =
  ps_delivery_strategy :: delivery_strategy
  ps_subscribers :: "(actor_id, 'h \<times> 'f filter_fn) hash_map"

definition pubsub_new :: "delivery_strategy \<Rightarrow> ('h, 'f) pubsub" where
  "pubsub_new strategy = \<lparr>ps_delivery_strategy = strategy, ps_subscribers = []\<rparr>"

definition pubsub_default :: "('h, 'f) pubsub" where
  "pubsub_default = pubsub_new BestEffort"

definition pubsub_subscribe :: "actor_id \<Rightarrow> 'h \<Rightarrow> ('h, 'f) pubsub \<Rightarrow> ('h, 'f) pubsub" where
  "pubsub_subscribe i h ps = ps\<lparr>ps_subscribers := hm_insert i (h, AcceptAll) (ps_subscribers ps)\<rparr>"

definition pubsub_subscribe_filter :: "actor_id \<Rightarrow> 'h \<Rightarrow> 'f \<Rightarrow> ('h, 'f) pubsub \<Rightarrow> ('h, 'f) pubsub" where
  "pubsub_subscribe_filter i h f ps = ps\<lparr>ps_subscribers := hm_insert i (h, FilterFn f) (ps_subscribers ps)\<rparr>"

text \<open>A subscriber forgets what the handler's error was.\<close>

definition subscriber_result :: "(unit, ('m, 'e) send_error) result \<Rightarrow> (unit, ('m, unit) send_error) result" where
  "subscriber_result = map_err (map_send_err (\<lambda>_. ()))"

text \<open>
  One delivery: the result to look at later, if the strategy awaits it. Nobody looks at the result
  of a spawned task.
\<close>

fun subscriber_deliver ::
  "delivery_strategy \<Rightarrow> ('h, 'm, 'e, unit, 'w) tell_ops \<Rightarrow> actor_id \<Rightarrow> 'h \<Rightarrow> 'm \<Rightarrow> 'w
    \<Rightarrow> (actor_id \<times> (unit, ('m, unit) send_error) result) list \<times> 'w" where
  "subscriber_deliver Guaranteed ops i h m w =
    (let (res, w) = tl_send ops h m w in ([(i, subscriber_result res)], w))"
| "subscriber_deliver BestEffort ops i h m w =
    (let (res, w) = tl_try_send ops h m w in ([(i, subscriber_result res)], w))"
| "subscriber_deliver (TimedDelivery d) ops i h m w =
    (let (res, w) = tl_send_timeout ops h d m w in ([(i, subscriber_result res)], w))"
| "subscriber_deliver Spawned ops i h m w =
    ([], tl_spawn ops (DeliveryTask (Recipient i h) m None ()) w)"
| "subscriber_deliver (SpawnedWithTimeout d) ops i h m w =
    ([], tl_spawn ops (DeliveryTask (Recipient i h) m (Some d) ()) w)"

text \<open>The loop over the subscribers, which steps every filter once.\<close>

fun pubsub_deliver ::
  "('f \<Rightarrow> 'm \<Rightarrow> bool \<times> 'f) \<Rightarrow> delivery_strategy \<Rightarrow> ('h, 'm, 'e, unit, 'w) tell_ops \<Rightarrow> 'm
    \<Rightarrow> (actor_id, 'h \<times> 'f filter_fn) hash_map \<Rightarrow> 'w
    \<Rightarrow> (actor_id, 'h \<times> 'f filter_fn) hash_map \<times> (actor_id \<times> (unit, ('m, unit) send_error) result) list \<times> 'w" where
  "pubsub_deliver step s ops m [] w = ([], [], w)"
| "pubsub_deliver step s ops m ((i, h, f) # subs) w =
    (let (accept, f) = run_filter step f m;
         (results, w) = (if accept then subscriber_deliver s ops i h m w else ([], w));
         (subs, more, w) = pubsub_deliver step s ops m subs w
     in ((i, h, f) # subs, results @ more, w))"

fun drops_subscriber :: "(unit, ('m, unit) send_error) result \<Rightarrow> bool" where
  "drops_subscriber (Err (ActorNotRunning _)) = True"
| "drops_subscriber (Err ActorStopped) = True"
| "drops_subscriber (Err ConnectionClosed) = True"
| "drops_subscriber (Err MissingConnection) = True"
| "drops_subscriber _ = False"

definition pubsub_publish ::
  "('f \<Rightarrow> 'm \<Rightarrow> bool \<times> 'f) \<Rightarrow> ('h, 'm, 'e, unit, 'w) tell_ops \<Rightarrow> 'm \<Rightarrow> ('h, 'f) pubsub \<Rightarrow> 'w \<Rightarrow> ('h, 'f) pubsub \<times> 'w" where
  "pubsub_publish step ops m ps w =
    (let (subs, results, w) = pubsub_deliver step (ps_delivery_strategy ps) ops m (ps_subscribers ps) w
     in (ps\<lparr>ps_subscribers :=
          fold (\<lambda>(i, result) subs. if drops_subscriber result then hm_remove i subs else subs) results subs\<rparr>, w))"


section \<open>Lemmas\<close>

definition accepts :: "('f \<Rightarrow> 'm \<Rightarrow> bool \<times> 'f) \<Rightarrow> 'm \<Rightarrow> 'h \<times> 'f filter_fn \<Rightarrow> bool" where
  "accepts step m = (\<lambda>(h, f). fst (run_filter step f m))"

definition stepped :: "('f \<Rightarrow> 'm \<Rightarrow> bool \<times> 'f) \<Rightarrow> 'm \<Rightarrow> 'h \<times> 'f filter_fn \<Rightarrow> 'h \<times> 'f filter_fn" where
  "stepped step m = (\<lambda>(h, f). (h, snd (run_filter step f m)))"

lemma subscriber_deliver_post:
  "\<exists>res. subscriber_deliver s post_ops i h m w =
      (if awaited s then [(i, res)] else [],
       w\<lparr>po_log := po_log w @ (if takes s w (Recipient i h) then [(h, m)] else []),
         po_tasks := po_tasks w @ task_of s m () (Recipient i h)\<rparr>)
    \<and> (drops_subscriber res \<longleftrightarrow> \<not> po_running w h)"
  by (cases s)
    (auto simp: post_ops_def subscriber_result_def
      intro: exI [of _ "if po_running w h then Ok () else Err ActorStopped"])

lemma pubsub_deliver_post:
  assumes "(subs', results, w') = pubsub_deliver step s post_ops m subs w"
  shows "subs' = hm_map_values (stepped step m) subs
    \<and> po_log w' = po_log w @ map (\<lambda>(i, h, f). (h, m))
        (filter (\<lambda>(i, h, f). accepts step m (h, f) \<and> takes s w (Recipient i h)) subs)
    \<and> fst ` set (filter (\<lambda>(i, res). drops_subscriber res) results) =
        fst ` set (filter (\<lambda>(i, h, f). accepts step m (h, f) \<and> awaited s \<and> \<not> po_running w h) subs)"
  using assms
proof (induction subs arbitrary: w subs' results)
  case Nil
  then show ?case by (simp add: hm_map_values_def)
next
  case (Cons e subs)
  obtain i h f where e: "e = (i, h, f)" by (cases e)
  obtain res where one: "subscriber_deliver s post_ops i h m w =
      (if awaited s then [(i, res)] else [],
       w\<lparr>po_log := po_log w @ (if takes s w (Recipient i h) then [(h, m)] else []),
         po_tasks := po_tasks w @ task_of s m () (Recipient i h)\<rparr>)"
    and drop: "drops_subscriber res \<longleftrightarrow> \<not> po_running w h"
    using subscriber_deliver_post [of s i h m w] by blast
  let ?w = "if accepts step m (h, f) then snd (subscriber_deliver s post_ops i h m w) else w"
  have same: "po_running ?w = po_running w" "po_full ?w = po_full w" by (simp_all add: one)
  then have "takes s ?w r = takes s w r" for r by (cases s) simp_all
  then have w: "takes s ?w = takes s w" "po_running ?w = po_running w" using same by auto
  obtain subs1 results1 where rest: "(subs1, results1, w') = pubsub_deliver step s post_ops m subs ?w"
    and split: "subs' = (i, stepped step m (h, f)) # subs1"
      "results = (if accepts step m (h, f) \<and> awaited s then [(i, res)] else []) @ results1"
    using Cons.prems
    by (auto simp: e one accepts_def stepped_def Let_def split: prod.splits if_splits)
  show ?case
    using Cons.IH [OF rest] drop
    by (auto simp: e split w one hm_map_values_def image_Un)
qed

lemma hm_get_drop:
  "hm_get (fold (\<lambda>(i, res) subs. if p res then hm_remove i subs else subs) results subs) i =
    (if i \<in> fst ` set (filter (\<lambda>(i, res). p res) results) then None else hm_get subs i)"
  by (induction results arbitrary: subs) auto

text \<open>
  Publishing hands the message once to each subscriber whose filter accepts it, steps every filter
  exactly once, and drops exactly the accepting subscribers that an awaited delivery finds stopped.
\<close>

theorem pubsub_publish_delivers:
  assumes "hm_wf (ps_subscribers ps)"
  shows "po_log (snd (pubsub_publish step post_ops m ps w)) = po_log w @ map (\<lambda>(i, h, f). (h, m))
      (filter (\<lambda>(i, h, f). accepts step m (h, f) \<and> takes (ps_delivery_strategy ps) w (Recipient i h)) (ps_subscribers ps))
    \<and> hm_get (ps_subscribers (fst (pubsub_publish step post_ops m ps w))) i =
      (case hm_get (ps_subscribers ps) i of
         None \<Rightarrow> None
       | Some (h, f) \<Rightarrow>
           if accepts step m (h, f) \<and> awaited (ps_delivery_strategy ps) \<and> \<not> po_running w h then None
           else Some (stepped step m (h, f)))"
proof -
  let ?s = "ps_delivery_strategy ps" and ?subs = "ps_subscribers ps"
  obtain subs' results w' where run: "(subs', results, w') = pubsub_deliver step ?s post_ops m ?subs w"
    by (metis prod.collapse)
  note spec = pubsub_deliver_post [OF run]
  have "i \<in> fst ` set (filter (\<lambda>(i, h, f). accepts step m (h, f) \<and> awaited ?s \<and> \<not> po_running w h) ?subs) \<longleftrightarrow>
      (\<exists>h f. hm_get ?subs i = Some (h, f) \<and> accepts step m (h, f) \<and> awaited ?s \<and> \<not> po_running w h)"
    using assms by (force simp: hm_get_eq_Some_iff)
  then show ?thesis
    using spec by (auto simp: pubsub_publish_def run [symmetric] hm_get_drop split: option.split)
qed

lemma pubsub_publish_delivers_witness:
  "hm_get (ps_subscribers (fst (pubsub_publish (\<lambda>n m. (n < m, Suc n)) post_ops (1 :: nat)
      (pubsub_subscribe_filter (ActorId 7) 0 0 (pubsub_new Guaranteed))
      \<lparr>po_running = (\<lambda>_ :: nat. True), po_full = (\<lambda>_. False), po_log = [], po_tasks = []\<rparr>))) (ActorId 7)
    = Some (0, FilterFn (Suc 0))"
  using pubsub_publish_delivers [of "pubsub_subscribe_filter (ActorId 7) 0 0 (pubsub_new Guaranteed)" "\<lambda>n m. (n < m, Suc n)" 1
      "\<lparr>po_running = (\<lambda>_ :: nat. True), po_full = (\<lambda>_. False), po_log = [], po_tasks = []\<rparr>" "ActorId 7"]
  by (simp add: pubsub_subscribe_filter_def pubsub_new_def stepped_def)

end
