(* ===== verification/Request.thy ===== *)
theory Request
  imports Mailbox
begin

text \<open>
  Requests to actors (\<open>src/request/ask.rs\<close>, \<open>src/request/tell.rs\<close>, and \<open>send_fut\<close> and
  \<open>try_send\<close> of \<open>src/actor/actor_ref.rs\<close>). A request puts a message signal into the mailbox and, for an
  ask, waits on a oneshot channel for the boxed reply. The oneshot channels are tokio's and a
  parameter, like the mailbox channels; a channel is known by a number. An operation that waits
  forever gives \<open>None\<close>, one that unwinds \<open>Panicked\<close>.
\<close>

section \<open>Replies in flight\<close>

type_synonym 'v boxed_reply = "('v any, 'v box_send_error) result"

record ('v, 'c) oneshot_ops =
  os_channel :: "'c \<Rightarrow> nat \<times> 'c"
  os_recv :: "nat \<Rightarrow> 'c \<Rightarrow> (('v boxed_reply, unit) result \<times> 'c) option"
  os_recv_timeout :: "nat \<Rightarrow> nat \<Rightarrow> 'c \<Rightarrow> (('v boxed_reply, unit) result, unit) result \<times> 'c"
  os_blocking_recv :: "nat \<Rightarrow> 'c \<Rightarrow> (('v boxed_reply, unit) result \<times> 'c) option"

text \<open>How a reply type takes a boxed reply apart: \<open>downcast_ok\<close> and \<open>downcast_err\<close> of \<open>Reply\<close>.\<close>

record 'v reply_downcast =
  rd_ok :: "'v any \<Rightarrow> 'v outcome"
  rd_err :: "'v box_send_error \<Rightarrow> ('v, 'v) send_error outcome"

text \<open>
  The default implementation, for the message type \<open>tm\<close>, the type \<open>tok\<close> of a successful reply and
  the error type \<open>te\<close>.
\<close>

definition default_downcast :: "type_id \<Rightarrow> type_id \<Rightarrow> type_id \<Rightarrow> 'v reply_downcast" where
  "default_downcast tm tok te =
    \<lparr>rd_ok = (\<lambda>val. unwrap (any_downcast tok val)), rd_err = send_error_downcast tm te\<rparr>"

text \<open>The end of every ask: \<open>match reply\<close>.\<close>

definition open_reply :: "'v reply_downcast \<Rightarrow> 'v boxed_reply \<Rightarrow> ('v, ('v, 'v) send_error) result outcome" where
  "open_reply rd reply =
    (case reply of
       Ok val \<Rightarrow> map_outcome Ok (rd_ok rd val)
     | Err err \<Rightarrow> map_outcome Err (rd_err rd err))"

definition received :: "'v reply_downcast \<Rightarrow> ('v boxed_reply, unit) result \<Rightarrow> ('v, ('v, 'v) send_error) result outcome" where
  "received rd r =
    (case r of
       Ok reply \<Rightarrow> open_reply rd reply
     | Err _ \<Rightarrow> Done (Err from_recv_error))"

text \<open>Waiting for the reply, with or without a timeout.\<close>

definition await_reply ::
  "('v, 'c) oneshot_ops \<Rightarrow> 'v reply_downcast \<Rightarrow> nat \<Rightarrow> nat option \<Rightarrow> 'c mailbox_state
    \<Rightarrow> (('v, ('v, 'v) send_error) result outcome \<times> 'c mailbox_state) option" where
  "await_reply os rd rx reply_timeout st =
    (case reply_timeout of
       Some timeout \<Rightarrow>
         (let (r, c) = os_recv_timeout os timeout rx (mb_chan st)
          in Some (case r of Ok r \<Rightarrow> received rd r | Err _ \<Rightarrow> Done (Err from_elapsed), st\<lparr>mb_chan := c\<rparr>))
     | None \<Rightarrow> map_option (\<lambda>(r, c). (received rd r, st\<lparr>mb_chan := c\<rparr>)) (os_recv os rx (mb_chan st)))"

definition blocking_reply ::
  "('v, 'c) oneshot_ops \<Rightarrow> 'v reply_downcast \<Rightarrow> nat \<Rightarrow> 'c mailbox_state
    \<Rightarrow> (('v, ('v, 'v) send_error) result outcome \<times> 'c mailbox_state) option" where
  "blocking_reply os rd rx st =
    map_option (\<lambda>(r, c). (received rd r, st\<lparr>mb_chan := c\<rparr>)) (os_blocking_recv os rx (mb_chan st))"

definition oneshot_channel :: "('v, 'c) oneshot_ops \<Rightarrow> 'c mailbox_state \<Rightarrow> nat \<times> 'c mailbox_state" where
  "oneshot_channel os st = (let (rx, c) = os_channel os (mb_chan st) in (rx, st\<lparr>mb_chan := c\<rparr>))"


section \<open>Putting a message into a mailbox\<close>

record 'h actor_ref =
  ar_id :: actor_id
  ar_mailbox :: "'h mailbox_sender"

text \<open>\<open>current\<close> is the actor on whose task the code runs, if any.\<close>

definition is_current :: "actor_id option \<Rightarrow> 'h actor_ref \<Rightarrow> bool" where
  "is_current current ar = (current = Some (ar_id ar))"

definition request_signal ::
  "actor_id option \<Rightarrow> 'h actor_ref \<Rightarrow> type_id \<Rightarrow> 'v \<Rightarrow> nat option \<Rightarrow> 'v signal" where
  "request_signal current ar tm msg reply = MessageSignal (Any tm msg) (ar_id ar) reply (is_current current ar)"

text \<open>
  The three ways in, with the conversion of the failed send by \<open>?\<close> into a \<open>SendError\<close> whose message
  type is \<open>t\<close>: the type the surrounding function returns, which need not be the message's.
\<close>

definition put ::
  "('h, 'k, 'r, 'v signal, 'c) mpsc_send \<Rightarrow> bool \<Rightarrow> type_id \<Rightarrow> 'h actor_ref \<Rightarrow> 'v signal \<Rightarrow> nat option
    \<Rightarrow> 'c mailbox_state \<Rightarrow> ((unit, ('v, 'e) send_error) result outcome \<times> 'c mailbox_state) option" where
  "put ops metrics t ar signal mailbox_timeout st =
    (case mailbox_timeout of
       Some timeout \<Rightarrow>
         (let (res, st) = mailbox_send_timeout ops metrics (ar_mailbox ar) signal timeout st
          in Some (case res of Ok _ \<Rightarrow> Done (Ok ()) | Err e \<Rightarrow> map_outcome Err (from_send_timeout_error t e), st))
     | None \<Rightarrow>
         map_option
           (\<lambda>(res, st). (case res of Ok _ \<Rightarrow> Done (Ok ()) | Err e \<Rightarrow> map_outcome Err (from_mpsc_send_error t e), st))
           (mailbox_send ops metrics (ar_mailbox ar) signal st))"

definition try_put ::
  "('h, 'k, 'r, 'v signal, 'c) mpsc_send \<Rightarrow> bool \<Rightarrow> type_id \<Rightarrow> 'h actor_ref \<Rightarrow> 'v signal
    \<Rightarrow> 'c mailbox_state \<Rightarrow> (unit, ('v, 'e) send_error) result outcome \<times> 'c mailbox_state" where
  "try_put ops metrics t ar signal st =
    (let (res, st) = mailbox_try_send ops metrics (ar_mailbox ar) signal st
     in (case res of Ok _ \<Rightarrow> Done (Ok ()) | Err e \<Rightarrow> map_outcome Err (from_try_send_error t e), st))"

definition blocking_put ::
  "('h, 'k, 'r, 'v signal, 'c) mpsc_send \<Rightarrow> bool \<Rightarrow> type_id \<Rightarrow> 'h actor_ref \<Rightarrow> 'v signal
    \<Rightarrow> 'c mailbox_state \<Rightarrow> ((unit, ('v, 'e) send_error) result outcome \<times> 'c mailbox_state) option" where
  "blocking_put ops metrics t ar signal st =
    map_option
      (\<lambda>(res, st). (case res of Ok _ \<Rightarrow> Done (Ok ()) | Err e \<Rightarrow> map_outcome Err (from_mpsc_send_error t e), st))
      (mailbox_blocking_send ops metrics (ar_mailbox ar) signal st)"


section \<open>Tell requests\<close>

definition tell_send ::
  "('h, 'k, 'r, 'v signal, 'c) mpsc_send \<Rightarrow> bool \<Rightarrow> actor_id option \<Rightarrow> 'h actor_ref \<Rightarrow> type_id \<Rightarrow> 'v \<Rightarrow> nat option
    \<Rightarrow> 'c mailbox_state \<Rightarrow> ((unit, ('v, 'e) send_error) result outcome \<times> 'c mailbox_state) option" where
  "tell_send ops metrics current ar tm msg mailbox_timeout st =
    put ops metrics tm ar (request_signal current ar tm msg None) mailbox_timeout st"

definition tell_try_send ::
  "('h, 'k, 'r, 'v signal, 'c) mpsc_send \<Rightarrow> bool \<Rightarrow> actor_id option \<Rightarrow> 'h actor_ref \<Rightarrow> type_id \<Rightarrow> 'v
    \<Rightarrow> 'c mailbox_state \<Rightarrow> (unit, ('v, 'e) send_error) result outcome \<times> 'c mailbox_state" where
  "tell_try_send ops metrics current ar tm msg st =
    try_put ops metrics tm ar (request_signal current ar tm msg None) st"

text \<open>\<open>blocking_send\<close> of a tell blocks the thread on \<open>send\<close>.\<close>

definition tell_blocking_send ::
  "('h, 'k, 'r, 'v signal, 'c) mpsc_send \<Rightarrow> bool \<Rightarrow> actor_id option \<Rightarrow> 'h actor_ref \<Rightarrow> type_id \<Rightarrow> 'v
    \<Rightarrow> 'c mailbox_state \<Rightarrow> ((unit, ('v, 'e) send_error) result outcome \<times> 'c mailbox_state) option" where
  "tell_blocking_send ops metrics current ar tm msg st = tell_send ops metrics current ar tm msg None st"


section \<open>Ask requests\<close>

text \<open>What follows a successful or failed put: the rest of the function, or the early return.\<close>

fun after_put ::
  "((unit, 'e) result outcome \<times> 's) \<Rightarrow> ('s \<Rightarrow> (('a, 'e) result outcome \<times> 's) option) \<Rightarrow> (('a, 'e) result outcome \<times> 's) option" where
  "after_put (Panicked, st) f = Some (Panicked, st)"
| "after_put (Done (Err e), st) f = Some (Done (Err e), st)"
| "after_put (Done (Ok _), st) f = f st"

definition ask_send ::
  "('h, 'k, 'r, 'v signal, 'c) mpsc_send \<Rightarrow> ('v, 'c) oneshot_ops \<Rightarrow> bool \<Rightarrow> 'v reply_downcast \<Rightarrow> actor_id option
    \<Rightarrow> 'h actor_ref \<Rightarrow> type_id \<Rightarrow> 'v \<Rightarrow> nat option \<Rightarrow> nat option \<Rightarrow> 'c mailbox_state
    \<Rightarrow> (('v, ('v, 'v) send_error) result outcome \<times> 'c mailbox_state) option" where
  "ask_send ops os metrics rd current ar tm msg mailbox_timeout reply_timeout st =
    (let (rx, st) = oneshot_channel os st
     in Option.bind (put ops metrics tm ar (request_signal current ar tm msg (Some rx)) mailbox_timeout st)
          (\<lambda>r. after_put r (await_reply os rd rx reply_timeout)))"

definition ask_try_send ::
  "('h, 'k, 'r, 'v signal, 'c) mpsc_send \<Rightarrow> ('v, 'c) oneshot_ops \<Rightarrow> bool \<Rightarrow> 'v reply_downcast \<Rightarrow> actor_id option
    \<Rightarrow> 'h actor_ref \<Rightarrow> type_id \<Rightarrow> 'v \<Rightarrow> nat option \<Rightarrow> 'c mailbox_state
    \<Rightarrow> (('v, ('v, 'v) send_error) result outcome \<times> 'c mailbox_state) option" where
  "ask_try_send ops os metrics rd current ar tm msg reply_timeout st =
    (let (rx, st) = oneshot_channel os st
     in after_put (try_put ops metrics tm ar (request_signal current ar tm msg (Some rx)) st)
          (await_reply os rd rx reply_timeout))"

definition ask_blocking_send ::
  "('h, 'k, 'r, 'v signal, 'c) mpsc_send \<Rightarrow> ('v, 'c) oneshot_ops \<Rightarrow> bool \<Rightarrow> 'v reply_downcast \<Rightarrow> actor_id option
    \<Rightarrow> 'h actor_ref \<Rightarrow> type_id \<Rightarrow> 'v \<Rightarrow> 'c mailbox_state
    \<Rightarrow> (('v, ('v, 'v) send_error) result outcome \<times> 'c mailbox_state) option" where
  "ask_blocking_send ops os metrics rd current ar tm msg st =
    (let (rx, st) = oneshot_channel os st
     in Option.bind (blocking_put ops metrics tm ar (request_signal current ar tm msg (Some rx)) st)
          (\<lambda>r. after_put r (blocking_reply os rd rx)))"

text \<open>
  The enqueue variants return a pending reply: what it waits on and for how long. Their error type
  is \<open>SendError\<close> without arguments, whose message type is the unit type.
\<close>

datatype pending_reply = PendingReply nat "nat option"

fun pending_reply_await ::
  "('v, 'c) oneshot_ops \<Rightarrow> 'v reply_downcast \<Rightarrow> pending_reply \<Rightarrow> 'c mailbox_state
    \<Rightarrow> (('v, ('v, 'v) send_error) result outcome \<times> 'c mailbox_state) option" where
  "pending_reply_await os rd (PendingReply rx reply_timeout) st = await_reply os rd rx reply_timeout st"

definition ask_enqueue ::
  "('h, 'k, 'r, 'v signal, 'c) mpsc_send \<Rightarrow> ('v, 'c) oneshot_ops \<Rightarrow> bool \<Rightarrow> actor_id option
    \<Rightarrow> 'h actor_ref \<Rightarrow> type_id \<Rightarrow> 'v \<Rightarrow> nat option \<Rightarrow> nat option \<Rightarrow> 'c mailbox_state
    \<Rightarrow> ((pending_reply, ('v, 'e) send_error) result outcome \<times> 'c mailbox_state) option" where
  "ask_enqueue ops os metrics current ar tm msg mailbox_timeout reply_timeout st =
    (let (rx, st) = oneshot_channel os st
     in Option.bind (put ops metrics TyUnit ar (request_signal current ar tm msg (Some rx)) mailbox_timeout st)
          (\<lambda>r. after_put r (\<lambda>st. Some (Done (Ok (PendingReply rx reply_timeout)), st))))"

definition ask_try_enqueue ::
  "('h, 'k, 'r, 'v signal, 'c) mpsc_send \<Rightarrow> ('v, 'c) oneshot_ops \<Rightarrow> bool \<Rightarrow> actor_id option
    \<Rightarrow> 'h actor_ref \<Rightarrow> type_id \<Rightarrow> 'v \<Rightarrow> nat option \<Rightarrow> 'c mailbox_state
    \<Rightarrow> ((pending_reply, ('v, 'e) send_error) result outcome \<times> 'c mailbox_state) option" where
  "ask_try_enqueue ops os metrics current ar tm msg reply_timeout st =
    (let (rx, st) = oneshot_channel os st
     in after_put (try_put ops metrics TyUnit ar (request_signal current ar tm msg (Some rx)) st)
          (\<lambda>st. Some (Done (Ok (PendingReply rx reply_timeout)), st)))"

definition ask_blocking_enqueue ::
  "('h, 'k, 'r, 'v signal, 'c) mpsc_send \<Rightarrow> ('v, 'c) oneshot_ops \<Rightarrow> bool \<Rightarrow> actor_id option
    \<Rightarrow> 'h actor_ref \<Rightarrow> type_id \<Rightarrow> 'v \<Rightarrow> 'c mailbox_state
    \<Rightarrow> ((pending_reply, ('v, 'e) send_error) result outcome \<times> 'c mailbox_state) option" where
  "ask_blocking_enqueue ops os metrics current ar tm msg st =
    (let (rx, st) = oneshot_channel os st
     in Option.bind (blocking_put ops metrics TyUnit ar (request_signal current ar tm msg (Some rx)) st)
          (\<lambda>r. after_put r (\<lambda>st. Some (Done (Ok (PendingReply rx None)), st))))"

fun blocking_pending_recv ::
  "('v, 'c) oneshot_ops \<Rightarrow> 'v reply_downcast \<Rightarrow> pending_reply \<Rightarrow> 'c mailbox_state
    \<Rightarrow> (('v, ('v, 'v) send_error) result outcome \<times> 'c mailbox_state) option" where
  "blocking_pending_recv os rd (PendingReply rx _) st = blocking_reply os rd rx st"

text \<open>
  The forward variants pass on a reply sender. Their error type carries the pair of the message and
  the reply sender; \<open>tv\<close> is the value type of the sender.
\<close>

definition ask_forward ::
  "('h, 'k, 'r, 'v signal, 'c) mpsc_send \<Rightarrow> bool \<Rightarrow> type_id \<Rightarrow> actor_id option
    \<Rightarrow> 'h actor_ref \<Rightarrow> type_id \<Rightarrow> 'v \<Rightarrow> nat \<Rightarrow> nat option \<Rightarrow> 'c mailbox_state
    \<Rightarrow> ((unit, ('v, 'e) send_error) result outcome \<times> 'c mailbox_state) option" where
  "ask_forward ops metrics tv current ar tm msg sender mailbox_timeout st =
    put ops metrics (TyPair tm (TyReplySender tv)) ar (request_signal current ar tm msg (Some sender)) mailbox_timeout st"

definition ask_try_forward ::
  "('h, 'k, 'r, 'v signal, 'c) mpsc_send \<Rightarrow> bool \<Rightarrow> type_id \<Rightarrow> actor_id option
    \<Rightarrow> 'h actor_ref \<Rightarrow> type_id \<Rightarrow> 'v \<Rightarrow> nat \<Rightarrow> 'c mailbox_state
    \<Rightarrow> (unit, ('v, 'e) send_error) result outcome \<times> 'c mailbox_state" where
  "ask_try_forward ops metrics tv current ar tm msg sender st =
    try_put ops metrics (TyPair tm (TyReplySender tv)) ar (request_signal current ar tm msg (Some sender)) st"

definition ask_blocking_forward ::
  "('h, 'k, 'r, 'v signal, 'c) mpsc_send \<Rightarrow> bool \<Rightarrow> type_id \<Rightarrow> actor_id option
    \<Rightarrow> 'h actor_ref \<Rightarrow> type_id \<Rightarrow> 'v \<Rightarrow> nat \<Rightarrow> 'c mailbox_state
    \<Rightarrow> ((unit, ('v, 'e) send_error) result outcome \<times> 'c mailbox_state) option" where
  "ask_blocking_forward ops metrics tv current ar tm msg sender st =
    blocking_put ops metrics (TyPair tm (TyReplySender tv)) ar (request_signal current ar tm msg (Some sender)) st"

section \<open>Failed sends\<close>

text \<open>Tokio's contract: a send that fails gives back the value it was given.\<close>

definition gives_back :: "('h, 'k, 'r, 's, 'c) mpsc_send \<Rightarrow> bool" where
  "gives_back ops \<longleftrightarrow>
    (\<forall>h s c s' c'. mp_send ops h s c = Some (Err s', c') \<longrightarrow> s' = s) \<and>
    (\<forall>h s c s' c'. mp_blocking_send ops h s c = Some (Err s', c') \<longrightarrow> s' = s) \<and>
    (\<forall>h s c s' c'. mp_usend ops h s c = (Err s', c') \<longrightarrow> s' = s) \<and>
    (\<forall>h s c e c'. mp_try_send ops h s c = (Err e, c') \<longrightarrow> e = TryFull s \<or> e = TryClosed s) \<and>
    (\<forall>h s d c e c'. mp_send_timeout ops h s d c = (Err e, c') \<longrightarrow> e = SendTimedOut s \<or> e = SendTimeoutClosed s)"

lemma gives_backD:
  assumes "gives_back ops"
  shows "mp_send ops h s c = Some (Err s', c') \<Longrightarrow> s' = s"
    and "mp_blocking_send ops h s c = Some (Err s', c') \<Longrightarrow> s' = s"
    and "mp_usend ops h s c = (Err s', c') \<Longrightarrow> s' = s"
    and "mp_try_send ops h s c = (Err e, c') \<Longrightarrow> e = TryFull s \<or> e = TryClosed s"
    and "mp_send_timeout ops h s d c = (Err e', c') \<Longrightarrow> e' = SendTimedOut s \<or> e' = SendTimeoutClosed s"
  using assms unfolding gives_back_def by - metis+

lemma mailbox_send_gives_back:
  "gives_back ops \<Longrightarrow> mailbox_send ops metrics tx s st = Some (Err s', st') \<Longrightarrow> s' = s"
  by (cases tx) (auto simp: mailbox_send_def after_send_def Let_def dest: gives_backD split: prod.splits)

lemma mailbox_blocking_send_gives_back:
  "gives_back ops \<Longrightarrow> mailbox_blocking_send ops metrics tx s st = Some (Err s', st') \<Longrightarrow> s' = s"
  by (cases tx) (auto simp: mailbox_blocking_send_def after_send_def Let_def dest: gives_backD split: prod.splits)

lemma mailbox_try_send_gives_back:
  "gives_back ops \<Longrightarrow> mailbox_try_send ops metrics tx s st = (Err e, st') \<Longrightarrow> e = TryFull s \<or> e = TryClosed s"
  by (cases tx) (auto simp: mailbox_try_send_def after_send_def Let_def dest: gives_backD split: prod.splits)

lemma mailbox_send_timeout_gives_back:
  "gives_back ops \<Longrightarrow> mailbox_send_timeout ops metrics tx s d st = (Err e, st') \<Longrightarrow>
    e = SendTimedOut s \<or> e = SendTimeoutClosed s"
  by (cases tx) (auto simp: mailbox_send_timeout_def after_send_def Let_def dest: gives_backD split: prod.splits)

lemma downcast_request [simp]:
  "downcast_message t (request_signal current ar tm msg reply) = (if t = tm then Some msg else None)"
  by (simp add: request_signal_def)

text \<open>What a failed put turns into: the message back, or a panic when the types differ.\<close>

definition put_result :: "type_id \<Rightarrow> type_id \<Rightarrow> 'v \<Rightarrow> (unit, ('v, 'e) send_error) result outcome \<Rightarrow> bool" where
  "put_result t tm msg r \<longleftrightarrow> r = Done (Ok ()) \<or>
    (if t = tm then r \<in> {Done (Err (ActorNotRunning msg)), Done (Err (MailboxFull msg)), Done (Err (Timeout (Some msg)))}
     else r = Panicked)"

lemma put_cases:
  assumes "gives_back ops" "put ops metrics t ar (request_signal current ar tm msg reply) d st = Some (r, st')"
  shows "put_result t tm msg r"
proof (cases d)
  case None
  then obtain res where "mailbox_send ops metrics (ar_mailbox ar) (request_signal current ar tm msg reply) st = Some (res, st')"
    "r = (case res of Ok _ \<Rightarrow> Done (Ok ()) | Err e \<Rightarrow> map_outcome Err (from_mpsc_send_error t e))"
    using assms(2) by (auto simp: put_def)
  then show ?thesis
    by (cases res) (auto simp: put_result_def from_mpsc_send_error_def dest!: mailbox_send_gives_back [OF assms(1)])
next
  case (Some timeout)
  then obtain res where "mailbox_send_timeout ops metrics (ar_mailbox ar) (request_signal current ar tm msg reply) timeout st = (res, st')"
    "r = (case res of Ok _ \<Rightarrow> Done (Ok ()) | Err e \<Rightarrow> map_outcome Err (from_send_timeout_error t e))"
    using assms(2) by (auto simp: put_def Let_def split: prod.splits)
  then show ?thesis
    by (cases res) (auto simp: put_result_def dest!: mailbox_send_timeout_gives_back [OF assms(1)])
qed

lemma try_put_cases:
  assumes "gives_back ops" "try_put ops metrics t ar (request_signal current ar tm msg reply) st = (r, st')"
  shows "put_result t tm msg r"
proof -
  obtain res where "mailbox_try_send ops metrics (ar_mailbox ar) (request_signal current ar tm msg reply) st = (res, st')"
    "r = (case res of Ok _ \<Rightarrow> Done (Ok ()) | Err e \<Rightarrow> map_outcome Err (from_try_send_error t e))"
    using assms(2) by (auto simp: try_put_def Let_def split: prod.splits)
  then show ?thesis
    by (cases res) (auto simp: put_result_def dest!: mailbox_try_send_gives_back [OF assms(1)])
qed

lemma blocking_put_cases:
  assumes "gives_back ops" "blocking_put ops metrics t ar (request_signal current ar tm msg reply) st = Some (r, st')"
  shows "put_result t tm msg r"
proof -
  obtain res where "mailbox_blocking_send ops metrics (ar_mailbox ar) (request_signal current ar tm msg reply) st = Some (res, st')"
    "r = (case res of Ok _ \<Rightarrow> Done (Ok ()) | Err e \<Rightarrow> map_outcome Err (from_mpsc_send_error t e))"
    using assms(2) by (auto simp: blocking_put_def)
  then show ?thesis
    by (cases res) (auto simp: put_result_def from_mpsc_send_error_def dest!: mailbox_blocking_send_gives_back [OF assms(1)])
qed

lemma TyPair_neq [simp]: "TyPair t u \<noteq> t" "t \<noteq> TyPair t u"
proof -
  have "TyPair t u \<noteq> t" for u by (induction t arbitrary: u) auto
  then show "TyPair t u \<noteq> t" "t \<noteq> TyPair t u" by metis+
qed

text \<open>One channel of limited capacity, as an instance of tokio's contract.\<close>

record 's chan =
  ch_open :: bool
  ch_capacity :: nat
  ch_queue :: "'s list"

definition chan_put :: "'s \<Rightarrow> 's chan \<Rightarrow> 's chan" where
  "chan_put s c = c\<lparr>ch_queue := ch_queue c @ [s]\<rparr>"

definition one_channel :: "(unit, unit, unit, 's, 's chan) mpsc_send" where
  "one_channel =
    \<lparr>mp_channel = (\<lambda>n c. Done (((), ()), \<lparr>ch_open = True, ch_capacity = n, ch_queue = []\<rparr>)),
     mp_unbounded_channel = (\<lambda>c. (((), ()), c)),
     mp_send = (\<lambda>h s c. if \<not> ch_open c then Some (Err s, c)
       else if length (ch_queue c) < ch_capacity c then Some (Ok (), chan_put s c) else None),
     mp_try_send = (\<lambda>h s c. if \<not> ch_open c then (Err (TryClosed s), c)
       else if length (ch_queue c) < ch_capacity c then (Ok (), chan_put s c) else (Err (TryFull s), c)),
     mp_send_timeout = (\<lambda>h s d c. if \<not> ch_open c then (Err (SendTimeoutClosed s), c)
       else if length (ch_queue c) < ch_capacity c then (Ok (), chan_put s c) else (Err (SendTimedOut s), c)),
     mp_blocking_send = (\<lambda>h s c. if \<not> ch_open c then Some (Err s, c)
       else if length (ch_queue c) < ch_capacity c then Some (Ok (), chan_put s c) else None),
     mp_usend = (\<lambda>h s c. if \<not> ch_open c then (Err s, c) else (Ok (), chan_put s c)),
     mp_closed = (\<lambda>h c. if ch_open c then None else Some ((), c)),
     mp_is_closed = (\<lambda>h c. \<not> ch_open c),
     mp_upgrade = (\<lambda>k c. (Some (), c))\<rparr>"

lemma gives_back_one_channel: "gives_back one_channel"
  unfolding gives_back_def one_channel_def by auto

definition closed_mailbox :: "'v signal chan mailbox_state" where
  "closed_mailbox =
    \<lparr>mb_chan = \<lparr>ch_open = False, ch_capacity = 4, ch_queue = []\<rparr>,
     mb_sent = \<lparr>c_messages = 0, c_lifecycle = 0, c_link_died = 0\<rparr>,
     mb_received = \<lparr>c_messages = 0, c_lifecycle = 0, c_link_died = 0\<rparr>\<rparr>"

lemmas closed_mailbox_simps = closed_mailbox_def one_channel_def put_def try_put_def mailbox_send_def
  mailbox_try_send_def after_send_def Let_def


section \<open>What requests guarantee\<close>

text \<open>
  C21. A message is never lost in an error: a tell, and the sending half of an ask, either succeed or
  give the very message back in the error (actor not running, mailbox full or timed out), and never
  unwind; after a failed put an ask returns that error without waiting for a reply.
\<close>

theorem failed_send_returns_message:
  assumes "gives_back ops"
    and "tell_send ops metrics current ar tm msg d st = Some (r1, st1)"
    and "tell_try_send ops metrics current ar tm msg st = (r2, st2)"
    and "put ops metrics tm ar (request_signal current ar tm msg (Some rx)) d (snd (oneshot_channel os st)) = Some (Done (Err e), st3)"
    and "rx = fst (oneshot_channel os st)"
  shows "r1 \<in> {Done (Ok ()), Done (Err (ActorNotRunning msg)), Done (Err (MailboxFull msg)), Done (Err (Timeout (Some msg)))}
    \<and> r2 \<in> {Done (Ok ()), Done (Err (ActorNotRunning msg)), Done (Err (MailboxFull msg)), Done (Err (Timeout (Some msg)))}
    \<and> ask_send ops os metrics rd current ar tm msg d timeout st = Some (Done (Err e), st3)
    \<and> e \<in> {ActorNotRunning msg, MailboxFull msg, Timeout (Some msg)}"
proof (intro conjI)
  show "r1 \<in> {Done (Ok ()), Done (Err (ActorNotRunning msg)), Done (Err (MailboxFull msg)), Done (Err (Timeout (Some msg)))}"
    using put_cases [OF assms(1) assms(2) [unfolded tell_send_def]] by (auto simp: put_result_def)
  show "r2 \<in> {Done (Ok ()), Done (Err (ActorNotRunning msg)), Done (Err (MailboxFull msg)), Done (Err (Timeout (Some msg)))}"
    using try_put_cases [OF assms(1) assms(3) [unfolded tell_try_send_def]] by (auto simp: put_result_def)
  show "ask_send ops os metrics rd current ar tm msg d timeout st = Some (Done (Err e), st3)"
    using assms(4,5) by (simp add: ask_send_def case_prod_beta)
  show "e \<in> {ActorNotRunning msg, MailboxFull msg, Timeout (Some msg)}"
    using put_cases [OF assms(1,4)] by (auto simp: put_result_def)
qed

definition no_oneshot :: "('v, 'c) oneshot_ops" where
  "no_oneshot = \<lparr>os_channel = (\<lambda>c. (0, c)), os_recv = (\<lambda>_ _. None), os_recv_timeout = (\<lambda>_ _ c. (Err (), c)),
     os_blocking_recv = (\<lambda>_ _. None)\<rparr>"

lemma failed_send_returns_message_witness:
  "ask_send one_channel no_oneshot False (default_downcast (TyNamed 0) TyUnit TyInfallible) None
      \<lparr>ar_id = ActorId 1, ar_mailbox = Bounded ()\<rparr> (TyNamed 0) (5 :: nat) None None closed_mailbox =
    Some (Done (Err (ActorNotRunning 5)), closed_mailbox)"
proof -
  let ?ar = "\<lparr>ar_id = ActorId 1, ar_mailbox = Bounded ()\<rparr>"
  have chan: "oneshot_channel no_oneshot closed_mailbox = (0, closed_mailbox)"
    by (simp add: oneshot_channel_def no_oneshot_def closed_mailbox_def)
  have put: "put one_channel False (TyNamed 0) ?ar (request_signal None ?ar (TyNamed 0) (5 :: nat) reply) None closed_mailbox =
      Some (Done (Err (ActorNotRunning 5)), closed_mailbox)" for reply
    by (simp add: closed_mailbox_simps from_mpsc_send_error_def)
  have tell: "tell_send one_channel False None ?ar (TyNamed 0) (5 :: nat) None closed_mailbox =
      Some (Done (Err (ActorNotRunning 5)), closed_mailbox)"
    by (simp add: tell_send_def put)
  have tried: "tell_try_send one_channel False None ?ar (TyNamed 0) (5 :: nat) closed_mailbox =
      (Done (Err (ActorNotRunning 5)), closed_mailbox)"
    by (simp add: tell_try_send_def closed_mailbox_simps)
  have ask: "put one_channel False (TyNamed 0) ?ar (request_signal None ?ar (TyNamed 0) (5 :: nat) (Some 0)) None
      (snd (oneshot_channel no_oneshot closed_mailbox)) = Some (Done (Err (ActorNotRunning 5)), closed_mailbox)"
    "0 = fst (oneshot_channel no_oneshot closed_mailbox)"
    by (simp_all add: chan put)
  show ?thesis
    by (rule failed_send_returns_message [OF gives_back_one_channel tell tried ask, THEN conjunct2, THEN conjunct2, THEN conjunct1])
qed

text \<open>Whether the mailbox takes a signal, for the three ways in.\<close>

definition put_accepts ::
  "('h, 'k, 'r, 'v signal, 'c) mpsc_send \<Rightarrow> bool \<Rightarrow> 'h actor_ref \<Rightarrow> 'v signal \<Rightarrow> nat option \<Rightarrow> 'c mailbox_state
    \<Rightarrow> (bool \<times> 'c mailbox_state) option" where
  "put_accepts ops metrics ar s d st =
    (case d of
       Some timeout \<Rightarrow> Some (apfst is_ok (mailbox_send_timeout ops metrics (ar_mailbox ar) s timeout st))
     | None \<Rightarrow> map_option (apfst is_ok) (mailbox_send ops metrics (ar_mailbox ar) s st))"

definition try_put_accepts ::
  "('h, 'k, 'r, 'v signal, 'c) mpsc_send \<Rightarrow> bool \<Rightarrow> 'h actor_ref \<Rightarrow> 'v signal \<Rightarrow> 'c mailbox_state
    \<Rightarrow> bool \<times> 'c mailbox_state" where
  "try_put_accepts ops metrics ar s st = apfst is_ok (mailbox_try_send ops metrics (ar_mailbox ar) s st)"

definition blocking_put_accepts ::
  "('h, 'k, 'r, 'v signal, 'c) mpsc_send \<Rightarrow> bool \<Rightarrow> 'h actor_ref \<Rightarrow> 'v signal \<Rightarrow> 'c mailbox_state
    \<Rightarrow> (bool \<times> 'c mailbox_state) option" where
  "blocking_put_accepts ops metrics ar s st =
    map_option (apfst is_ok) (mailbox_blocking_send ops metrics (ar_mailbox ar) s st)"

text \<open>
  What an operation answers: its value when the mailbox took the signal; otherwise the message in an
  error, if the conversion of the early return expects the message's type, and a panic if not.
\<close>

definition answered :: "type_id \<Rightarrow> type_id \<Rightarrow> 'v \<Rightarrow> 'a \<Rightarrow> bool \<Rightarrow> ('a, ('v, 'e) send_error) result outcome \<Rightarrow> bool" where
  "answered t tm msg val taken r \<longleftrightarrow>
    (if taken then r = Done (Ok val)
     else if t = tm then r \<in> {Done (Err (ActorNotRunning msg)), Done (Err (MailboxFull msg)), Done (Err (Timeout (Some msg)))}
     else r = Panicked)"

definition unwinding :: "bool \<Rightarrow> (unit, 'e) result outcome" where
  "unwinding taken = (if taken then Done (Ok ()) else Panicked)"

lemma put_exact:
  assumes "gives_back ops"
  shows "rel_option (rel_prod (answered t tm msg ()) (=))
    (put_accepts ops metrics ar (request_signal current ar tm msg reply) d st)
    (put ops metrics t ar (request_signal current ar tm msg reply) d st)"
proof (cases d)
  case None
  show ?thesis
  proof (cases "mailbox_send ops metrics (ar_mailbox ar) (request_signal current ar tm msg reply) st")
    case (Some r)
    then show ?thesis
      by (cases r; cases "fst r") (auto simp: None put_accepts_def put_def answered_def from_mpsc_send_error_def
          dest!: mailbox_send_gives_back [OF assms])
  qed (simp add: None put_accepts_def put_def)
next
  case (Some timeout)
  obtain r st' where "mailbox_send_timeout ops metrics (ar_mailbox ar) (request_signal current ar tm msg reply) timeout st = (r, st')"
    by fastforce
  then show ?thesis
    by (cases r) (auto simp: Some put_accepts_def put_def answered_def dest!: mailbox_send_timeout_gives_back [OF assms])
qed

lemma try_put_exact:
  assumes "gives_back ops"
  shows "rel_prod (answered t tm msg ()) (=) (try_put_accepts ops metrics ar (request_signal current ar tm msg reply) st)
    (try_put ops metrics t ar (request_signal current ar tm msg reply) st)"
proof -
  obtain r st' where "mailbox_try_send ops metrics (ar_mailbox ar) (request_signal current ar tm msg reply) st = (r, st')"
    by fastforce
  then show ?thesis
    by (cases r) (auto simp: try_put_accepts_def try_put_def answered_def dest!: mailbox_try_send_gives_back [OF assms])
qed

lemma blocking_put_exact:
  assumes "gives_back ops"
  shows "rel_option (rel_prod (answered t tm msg ()) (=))
    (blocking_put_accepts ops metrics ar (request_signal current ar tm msg reply) st)
    (blocking_put ops metrics t ar (request_signal current ar tm msg reply) st)"
proof (cases "mailbox_blocking_send ops metrics (ar_mailbox ar) (request_signal current ar tm msg reply) st")
  case (Some r)
  then show ?thesis
    by (cases r; cases "fst r") (auto simp: blocking_put_accepts_def blocking_put_def answered_def from_mpsc_send_error_def
        dest!: mailbox_blocking_send_gives_back [OF assms])
qed (simp add: blocking_put_accepts_def blocking_put_def)

lemma answered_unwinding: "t \<noteq> tm \<Longrightarrow> answered t tm msg () taken r \<longleftrightarrow> r = unwinding taken"
  by (simp add: answered_def unwinding_def)

lemma rel_prod_unwinding: "t \<noteq> tm \<Longrightarrow> rel_prod (answered t tm msg ()) (=) x y \<longleftrightarrow> y = apfst unwinding x"
  by (cases x; cases y) (auto simp: answered_unwinding)

lemma rel_option_unwinding:
  "t \<noteq> tm \<Longrightarrow> rel_option (rel_prod (answered t tm msg ()) (=)) x y \<longleftrightarrow> y = map_option (apfst unwinding) x"
  by (cases x; cases y) (auto simp: rel_prod_unwinding)

lemma answered_after_put:
  assumes "rel_prod (answered t tm msg ()) (=) x y"
  shows "rel_option (rel_prod (answered t tm msg p) (=)) (Some x) (after_put y (\<lambda>st. Some (Done (Ok p), st)))"
  using assms by (cases x; cases y) (auto simp: answered_def split: if_splits)

lemma answered_bind_after_put:
  assumes "rel_option (rel_prod (answered t tm msg ()) (=)) x y"
  shows "rel_option (rel_prod (answered t tm msg p) (=)) x
    (Option.bind y (\<lambda>r. after_put r (\<lambda>st. Some (Done (Ok p), st))))"
  using assms by (cases x; cases y) (auto dest: answered_after_put)

text \<open>
  C26. The forward variants never return an error: they do what the mailbox does with the signal and
  succeed if it takes it, and unwind whenever it refuses it, because the early return converts the
  failed signal to the pair of message and reply sender, a type the signal never holds. The enqueue
  variants put the signal with a new oneshot channel and give the pending reply of that channel if the
  mailbox takes it; if not they unwind as well, except for messages of the unit type, which come back
  in an error.
\<close>

theorem forward_panics_instead_of_error:
  assumes "gives_back ops" and "oneshot_channel os st = (rx, st')"
  shows "ask_forward ops metrics tv current ar tm msg sender d st =
      map_option (apfst unwinding) (put_accepts ops metrics ar (request_signal current ar tm msg (Some sender)) d st)
    \<and> ask_try_forward ops metrics tv current ar tm msg sender st =
      apfst unwinding (try_put_accepts ops metrics ar (request_signal current ar tm msg (Some sender)) st)
    \<and> ask_blocking_forward ops metrics tv current ar tm msg sender st =
      map_option (apfst unwinding) (blocking_put_accepts ops metrics ar (request_signal current ar tm msg (Some sender)) st)
    \<and> rel_option (rel_prod (answered TyUnit tm msg (PendingReply rx timeout)) (=))
      (put_accepts ops metrics ar (request_signal current ar tm msg (Some rx)) d st')
      (ask_enqueue ops os metrics current ar tm msg d timeout st)
    \<and> rel_option (rel_prod (answered TyUnit tm msg (PendingReply rx timeout)) (=))
      (Some (try_put_accepts ops metrics ar (request_signal current ar tm msg (Some rx)) st'))
      (ask_try_enqueue ops os metrics current ar tm msg timeout st)
    \<and> rel_option (rel_prod (answered TyUnit tm msg (PendingReply rx None)) (=))
      (blocking_put_accepts ops metrics ar (request_signal current ar tm msg (Some rx)) st')
      (ask_blocking_enqueue ops os metrics current ar tm msg st)"
proof (intro conjI)
  note put = put_exact [OF assms(1)] and tried = try_put_exact [OF assms(1)] and blocking = blocking_put_exact [OF assms(1)]
  show "ask_forward ops metrics tv current ar tm msg sender d st =
      map_option (apfst unwinding) (put_accepts ops metrics ar (request_signal current ar tm msg (Some sender)) d st)"
    unfolding ask_forward_def by (rule rel_option_unwinding [OF TyPair_neq(1), THEN iffD1, OF put])
  show "ask_try_forward ops metrics tv current ar tm msg sender st =
      apfst unwinding (try_put_accepts ops metrics ar (request_signal current ar tm msg (Some sender)) st)"
    unfolding ask_try_forward_def by (rule rel_prod_unwinding [OF TyPair_neq(1), THEN iffD1, OF tried])
  show "ask_blocking_forward ops metrics tv current ar tm msg sender st =
      map_option (apfst unwinding) (blocking_put_accepts ops metrics ar (request_signal current ar tm msg (Some sender)) st)"
    unfolding ask_blocking_forward_def by (rule rel_option_unwinding [OF TyPair_neq(1), THEN iffD1, OF blocking])
  show "rel_option (rel_prod (answered TyUnit tm msg (PendingReply rx timeout)) (=))
      (put_accepts ops metrics ar (request_signal current ar tm msg (Some rx)) d st')
      (ask_enqueue ops os metrics current ar tm msg d timeout st)"
    unfolding ask_enqueue_def assms(2) Let_def prod.case by (rule answered_bind_after_put [OF put])
  show "rel_option (rel_prod (answered TyUnit tm msg (PendingReply rx timeout)) (=))
      (Some (try_put_accepts ops metrics ar (request_signal current ar tm msg (Some rx)) st'))
      (ask_try_enqueue ops os metrics current ar tm msg timeout st)"
    unfolding ask_try_enqueue_def assms(2) Let_def prod.case by (rule answered_after_put [OF tried])
  show "rel_option (rel_prod (answered TyUnit tm msg (PendingReply rx None)) (=))
      (blocking_put_accepts ops metrics ar (request_signal current ar tm msg (Some rx)) st')
      (ask_blocking_enqueue ops os metrics current ar tm msg st)"
    unfolding ask_blocking_enqueue_def assms(2) Let_def prod.case by (rule answered_bind_after_put [OF blocking])
qed

text \<open>A closed mailbox: a forward and an enqueue unwind; an enqueued unit message comes back.\<close>

lemma forward_panics_instead_of_error_witness:
  "fst (ask_try_forward one_channel False TyUnit None \<lparr>ar_id = ActorId 1, ar_mailbox = Bounded ()\<rparr> (TyNamed 0) (5 :: nat) 3
      closed_mailbox) = (Panicked :: (unit, (nat, nat) send_error) result outcome) \<and>
   (\<exists>s. ask_enqueue one_channel no_oneshot False None \<lparr>ar_id = ActorId 1, ar_mailbox = Bounded ()\<rparr> (TyNamed 0) (5 :: nat) None None
      closed_mailbox = Some (Panicked :: (pending_reply, (nat, nat) send_error) result outcome, s)) \<and>
   (\<exists>(e :: (nat, nat) send_error) s. ask_enqueue one_channel no_oneshot False None \<lparr>ar_id = ActorId 1, ar_mailbox = Bounded ()\<rparr> TyUnit (5 :: nat) None None
      closed_mailbox = Some (Done (Err e), s))"
proof -
  let ?ar = "\<lparr>ar_id = ActorId 1, ar_mailbox = Bounded ()\<rparr>"
  have chan: "oneshot_channel no_oneshot closed_mailbox = (0, closed_mailbox)"
    by (simp add: oneshot_channel_def no_oneshot_def closed_mailbox_def)
  have refused: "try_put_accepts one_channel False ?ar s closed_mailbox = (False, closed_mailbox)"
    "put_accepts one_channel False ?ar s None closed_mailbox = Some (False, closed_mailbox)" for s :: "nat signal"
    by (simp_all add: try_put_accepts_def put_accepts_def closed_mailbox_simps)
  have named: "ask_try_forward one_channel False TyUnit None ?ar (TyNamed 0) (5 :: nat) 3 closed_mailbox =
      apfst (unwinding :: bool \<Rightarrow> (unit, (nat, nat) send_error) result outcome) (False, closed_mailbox)"
    "rel_option (rel_prod (answered TyUnit (TyNamed 0) (5 :: nat) (PendingReply 0 None)
        :: bool \<Rightarrow> (pending_reply, (nat, nat) send_error) result outcome \<Rightarrow> bool) (=)) (Some (False, closed_mailbox))
      (ask_enqueue one_channel no_oneshot False None ?ar (TyNamed 0) (5 :: nat) None None closed_mailbox)"
    using forward_panics_instead_of_error [OF gives_back_one_channel chan, of False TyUnit None ?ar "TyNamed 0" "5 :: nat" 3 None None]
    unfolding refused by blast+
  have unit: "rel_option (rel_prod (answered TyUnit TyUnit (5 :: nat) (PendingReply 0 None)
        :: bool \<Rightarrow> (pending_reply, (nat, nat) send_error) result outcome \<Rightarrow> bool) (=)) (Some (False, closed_mailbox))
      (ask_enqueue one_channel no_oneshot False None ?ar TyUnit (5 :: nat) None None closed_mailbox)"
    using forward_panics_instead_of_error [OF gives_back_one_channel chan, of False TyUnit None ?ar TyUnit "5 :: nat" 3 None None]
    unfolding refused by blast
  show ?thesis
    using named unit by (auto simp: unwinding_def answered_def option_rel_Some1)
qed

end
