(* ===== verification/Reply.thy ===== *)
theory Reply
  imports Request Actor_Behaviour
begin

text \<open>
  Replies and the context of a handler (\<open>src/reply.rs\<close>, \<open>src/message.rs\<close>): the reply types of the
  library, the reply sender, delegated and forwarded replies, and \<open>handle_dyn\<close>, which runs a handler
  on a boxed message. A value is of an arbitrary type \<open>'v\<close>; the environment says how an error becomes
  such a value, how a pair is taken apart, and how a oneshot channel takes a reply.
\<close>

section \<open>Reply types\<close>

text \<open>The implementations of \<open>Reply\<close> and the types they are for.\<close>

datatype 'v reply =
    ResultReply "('v, 'v) result"
  | PlainReply 'v
  | DelegatedReply
  | ForwardedReply "(unit, ('v, 'v) send_error) result"
  | DirectReply "('v, 'v) result"

datatype reply_type =
    ResultType type_id type_id
  | PlainType type_id
  | DelegatedType reply_type
  | ForwardedType type_id reply_type

fun ok_type :: "reply_type \<Rightarrow> type_id" where
  "ok_type (ResultType t e) = t"
| "ok_type (PlainType t) = t"
| "ok_type (DelegatedType r) = ok_type r"
| "ok_type (ForwardedType m r) = ok_type r"

fun error_type :: "reply_type \<Rightarrow> type_id" where
  "error_type (ResultType t e) = e"
| "error_type (PlainType t) = TyInfallible"
| "error_type (DelegatedType r) = error_type r"
| "error_type (ForwardedType m r) = TySendError m (error_type r)"

record ('v, 'w) reply_env =
  re_error_value :: "('v, 'v) send_error \<Rightarrow> 'v"
  re_unpair :: "'v \<Rightarrow> 'v \<times> nat"
  re_send :: "nat \<Rightarrow> 'v boxed_reply \<Rightarrow> 'w \<Rightarrow> 'w"
  re_panic :: "'v any"

text \<open>Marker replies and a successful forward cannot be converted: the code is unreachable or unimplemented.\<close>

fun to_result :: "('v, 'w) reply_env \<Rightarrow> 'v reply \<Rightarrow> ('v, 'v) result outcome" where
  "to_result re (ResultReply r) = Done r"
| "to_result re (PlainReply v) = Done (Ok v)"
| "to_result re DelegatedReply = Panicked"
| "to_result re (ForwardedReply (Ok _)) = Panicked"
| "to_result re (ForwardedReply (Err e)) = Done (Err (re_error_value re e))"
| "to_result re (DirectReply r) = Done (map_err (\<lambda>e. re_error_value re (HandlerError e)) r)"

fun into_any_err :: "('v, 'w) reply_env \<Rightarrow> reply_type \<Rightarrow> 'v reply \<Rightarrow> 'v any option" where
  "into_any_err re t (ResultReply (Ok _)) = None"
| "into_any_err re t (ResultReply (Err e)) = Some (Any (error_type t) e)"
| "into_any_err re t (PlainReply v) = None"
| "into_any_err re t DelegatedReply = None"
| "into_any_err re t (ForwardedReply (Ok _)) = None"
| "into_any_err re t (ForwardedReply (Err e)) = Some (Any (error_type t) (re_error_value re e))"
| "into_any_err re t (DirectReply (Ok _)) = None"
| "into_any_err re t (DirectReply (Err e)) = Some (Any (error_type t) (re_error_value re (HandlerError e)))"

fun into_value :: "('v, 'w) reply_env \<Rightarrow> 'v reply \<Rightarrow> 'v reply outcome" where
  "into_value re (ResultReply r) = Done (ResultReply r)"
| "into_value re (PlainReply v) = Done (PlainReply v)"
| "into_value re DelegatedReply = Panicked"
| "into_value re (ForwardedReply (Ok _)) = Panicked"
| "into_value re (ForwardedReply (Err e)) = Done (ResultReply (Err (re_error_value re e)))"
| "into_value re (DirectReply r) = Done (ResultReply (map_err (\<lambda>e. re_error_value re (HandlerError e)) r))"

definition from_ok :: "'v \<Rightarrow> 'v reply" where "from_ok v = DirectReply (Ok v)"
definition from_err :: "'v \<Rightarrow> 'v reply" where "from_err e = DirectReply (Err e)"
definition from_result :: "('v, 'v) result \<Rightarrow> 'v reply" where "from_result r = DirectReply r"

text \<open>The asker's side of a forwarded reply: \<open>downcast_err\<close> of \<open>ForwardedReply\<close>, for an ask of message type \<open>tn\<close>.\<close>

fun no_message_left :: "('v, 'v) send_error \<Rightarrow> ('v, 'v) send_error outcome" where
  "no_message_left (ActorNotRunning _) = Panicked"
| "no_message_left (MailboxFull _) = Panicked"
| "no_message_left (Timeout (Some _)) = Panicked"
| "no_message_left e = Done e"

definition forwarded_downcast ::
  "('v, 'w) reply_env \<Rightarrow> type_id \<Rightarrow> type_id \<Rightarrow> reply_type \<Rightarrow> 'v reply_downcast" where
  "forwarded_downcast re tn tm r =
    \<lparr>rd_ok = (\<lambda>val. unwrap (any_downcast (ok_type r) val)),
     rd_err = (\<lambda>err.
       case send_error_try_downcast tn (error_type r) err of
         Ok e \<Rightarrow> Done (map_send_err (\<lambda>e. re_error_value re (HandlerError e)) e)
       | Err err \<Rightarrow>
           (case send_error_downcast tm (TySendError tm (error_type r)) err of
              Panicked \<Rightarrow> Panicked
            | Done e \<Rightarrow> no_message_left e))\<rparr>"


section \<open>Sending a reply\<close>

definition boxed_result :: "reply_type \<Rightarrow> ('v, 'v) result \<Rightarrow> 'v boxed_reply" where
  "boxed_result t r =
    (case r of
       Ok v \<Rightarrow> Ok (Any (ok_type t) v)
     | Err e \<Rightarrow> Err (HandlerError (Any (error_type t) e)))"

definition reply_sender_send ::
  "('v, 'w) reply_env \<Rightarrow> reply_type \<Rightarrow> nat \<Rightarrow> 'v reply \<Rightarrow> 'w \<Rightarrow> 'w outcome" where
  "reply_sender_send re t tx reply w =
    map_outcome (\<lambda>r. re_send re tx (boxed_result t r) w) (to_result re reply)"


section \<open>The context of a handler\<close>

record msg_context =
  cx_reply :: "nat option"
  cx_stop :: bool

definition ctx_new :: "nat option \<Rightarrow> bool \<Rightarrow> msg_context" where
  "ctx_new reply stop = \<lparr>cx_reply = reply, cx_stop = stop\<rparr>"

definition ctx_stop :: "msg_context \<Rightarrow> msg_context" where
  "ctx_stop cx = cx\<lparr>cx_stop := True\<rparr>"

definition ctx_reply_sender :: "msg_context \<Rightarrow> ('v reply \<times> nat option) \<times> msg_context" where
  "ctx_reply_sender cx = ((DelegatedReply, cx_reply cx), cx\<lparr>cx_reply := None\<rparr>)"

definition ctx_reply ::
  "('v, 'w) reply_env \<Rightarrow> reply_type \<Rightarrow> 'v reply \<Rightarrow> msg_context \<Rightarrow> 'w \<Rightarrow> ('v reply \<times> msg_context \<times> 'w) outcome" where
  "ctx_reply re t reply cx w =
    (case cx_reply cx of
       Some tx \<Rightarrow> map_outcome (\<lambda>w. (DelegatedReply, cx\<lparr>cx_reply := None\<rparr>, w)) (reply_sender_send re t tx reply w)
     | None \<Rightarrow> Done (DelegatedReply, cx, w))"

text \<open>The body of a task spawned by \<open>Context::spawn\<close>, once its future gave a reply.\<close>

definition spawned_reply ::
  "('v, 'w) reply_env \<Rightarrow> reply_type \<Rightarrow> ('v panic_error \<Rightarrow> 'w \<Rightarrow> 'w) \<Rightarrow> nat option \<Rightarrow> 'v reply \<Rightarrow> 'w \<Rightarrow> 'w outcome" where
  "spawned_reply re t error_hook tx reply w =
    (case tx of
       Some tx \<Rightarrow> reply_sender_send re t tx reply w
     | None \<Rightarrow>
         (case into_any_err re t reply of
            Some err \<Rightarrow> Done (error_hook (panic_error_new err OnMessage) w)
          | None \<Rightarrow> Done w))"

text \<open>
  What forwarding makes of the result of the ask or the tell. An error that carries the pair of
  message and reply sender puts the sender back into the context.
\<close>

definition forwarded_ask ::
  "('v, 'w) reply_env \<Rightarrow> msg_context \<Rightarrow> (unit, ('v, 'v) send_error) result outcome \<Rightarrow> ('v reply \<times> msg_context) outcome" where
  "forwarded_ask re cx r =
    map_outcome
      (\<lambda>res. case res of
         Ok _ \<Rightarrow> (ForwardedReply (Ok ()), cx)
       | Err err \<Rightarrow>
           (ForwardedReply (Err (map_msg (\<lambda>p. fst (re_unpair re p)) err)),
            case send_error_msg err of Some p \<Rightarrow> cx\<lparr>cx_reply := Some (snd (re_unpair re p))\<rparr> | None \<Rightarrow> cx)) r"

definition forwarded_tell ::
  "'v \<Rightarrow> msg_context \<Rightarrow> (unit, ('v, 'v) send_error) result outcome \<Rightarrow> ('v reply \<times> msg_context) outcome" where
  "forwarded_tell msg cx r =
    (case r of
       Panicked \<Rightarrow> Panicked
     | Done (Ok _) \<Rightarrow> Done (ForwardedReply (Ok ()), cx)
     | Done (Err err) \<Rightarrow>
         map_outcome (\<lambda>e. (ForwardedReply (Err e), cx)) (reset_err_infallible (map_msg (\<lambda>_. msg) err)))"

definition ctx_forward ::
  "('v, 'w) reply_env \<Rightarrow> ('h, 'k, 'r, 'v signal, 'c) mpsc_send \<Rightarrow> bool \<Rightarrow> type_id \<Rightarrow> actor_id option \<Rightarrow> 'h actor_ref
    \<Rightarrow> type_id \<Rightarrow> 'v \<Rightarrow> msg_context \<Rightarrow> 'c mailbox_state \<Rightarrow> (('v reply \<times> msg_context) outcome \<times> 'c mailbox_state) option" where
  "ctx_forward re ops metrics tv current ar tm message cx st =
    (case cx_reply cx of
       Some tx \<Rightarrow> map_option (\<lambda>(r, st). (forwarded_ask re (cx\<lparr>cx_reply := None\<rparr>) r, st))
         (ask_forward ops metrics tv current ar tm message tx None st)
     | None \<Rightarrow> map_option (\<lambda>(r, st). (forwarded_tell message cx r, st))
         (tell_send ops metrics current ar tm message None st))"

definition ctx_try_forward ::
  "('v, 'w) reply_env \<Rightarrow> ('h, 'k, 'r, 'v signal, 'c) mpsc_send \<Rightarrow> bool \<Rightarrow> type_id \<Rightarrow> actor_id option \<Rightarrow> 'h actor_ref
    \<Rightarrow> type_id \<Rightarrow> 'v \<Rightarrow> msg_context \<Rightarrow> 'c mailbox_state \<Rightarrow> ('v reply \<times> msg_context) outcome \<times> 'c mailbox_state" where
  "ctx_try_forward re ops metrics tv current ar tm message cx st =
    (case cx_reply cx of
       Some tx \<Rightarrow> (let (r, st) = ask_try_forward ops metrics tv current ar tm message tx st
                   in (forwarded_ask re (cx\<lparr>cx_reply := None\<rparr>) r, st))
     | None \<Rightarrow> (let (r, st) = tell_try_send ops metrics current ar tm message st
                in (forwarded_tell message cx r, st)))"

definition ctx_blocking_forward ::
  "('v, 'w) reply_env \<Rightarrow> ('h, 'k, 'r, 'v signal, 'c) mpsc_send \<Rightarrow> bool \<Rightarrow> type_id \<Rightarrow> actor_id option \<Rightarrow> 'h actor_ref
    \<Rightarrow> type_id \<Rightarrow> 'v \<Rightarrow> msg_context \<Rightarrow> 'c mailbox_state \<Rightarrow> (('v reply \<times> msg_context) outcome \<times> 'c mailbox_state) option" where
  "ctx_blocking_forward re ops metrics tv current ar tm message cx st =
    (case cx_reply cx of
       Some tx \<Rightarrow> map_option (\<lambda>(r, st). (forwarded_ask re (cx\<lparr>cx_reply := None\<rparr>) r, st))
         (ask_blocking_forward ops metrics tv current ar tm message tx st)
     | None \<Rightarrow> map_option (\<lambda>(r, st). (forwarded_tell message cx r, st))
         (tell_blocking_send ops metrics current ar tm message st))"


section \<open>Running a handler\<close>

text \<open>
  \<open>handle_dyn\<close>: the stop flag is written back only when the handler returns; a reply that cannot be
  converted unwinds.
\<close>

definition handle_dyn ::
  "('v, 'w) reply_env \<Rightarrow> reply_type \<Rightarrow> ('a \<Rightarrow> 'v \<Rightarrow> msg_context \<Rightarrow> 'w \<Rightarrow> ('v reply, 'v) hook \<times> 'a \<times> msg_context \<times> 'w)
    \<Rightarrow> 'a \<Rightarrow> 'v \<Rightarrow> nat option \<Rightarrow> bool \<Rightarrow> 'w \<Rightarrow> ((unit, 'v any) result, 'v) hook \<times> 'a \<times> bool \<times> 'w" where
  "handle_dyn re t handle state message tx stop w =
    (let (res, state, cx, w) = handle state message (ctx_new tx stop) w
     in case res of
          Unwound p \<Rightarrow> (Unwound p, state, stop, w)
        | Dropped \<Rightarrow> (Dropped, state, stop, w)
        | Returned reply \<Rightarrow>
            (case cx_reply cx of
               Some tx \<Rightarrow>
                 (case into_value re reply of
                    Panicked \<Rightarrow> (Unwound (re_panic re), state, cx_stop cx, w)
                  | Done value \<Rightarrow>
                      (case reply_sender_send re t tx value w of
                         Panicked \<Rightarrow> (Unwound (re_panic re), state, cx_stop cx, w)
                       | Done w \<Rightarrow> (Returned (Ok ()), state, cx_stop cx, w)))
             | None \<Rightarrow>
                 (case into_any_err re t reply of
                    Some err \<Rightarrow> (Returned (Err err), state, cx_stop cx, w)
                  | None \<Rightarrow> (Returned (Ok ()), state, cx_stop cx, w))))"

section \<open>What replies guarantee\<close>

lemma TySendError_neq [simp]: "TySendError m e \<noteq> e" "e \<noteq> TySendError m e"
proof -
  have "TySendError m e \<noteq> e" for m by (induction e arbitrary: m) auto
  then show "TySendError m e \<noteq> e" "e \<noteq> TySendError m e" by metis+
qed

lemma into_value_result:
  "to_result re reply = Done r \<Longrightarrow> \<exists>v. into_value re reply = Done v \<and> to_result re v = Done r"
  by (cases "(re, reply)" rule: to_result.cases) auto

lemma into_value_Panicked: "into_value re reply = Panicked \<longleftrightarrow> to_result re reply = Panicked"
  by (cases "(re, reply)" rule: to_result.cases) auto

lemma open_boxed:
  "open_reply (default_downcast tm (ok_type t) (error_type t)) (boxed_result t r) = Done (map_err HandlerError r)"
  by (cases r) (simp_all add: open_reply_def default_downcast_def boxed_result_def send_error_downcast_def)

lemma open_forwarded_boxed:
  "open_reply (forwarded_downcast re tn tm r) (boxed_result (ForwardedType tm r) res) = Done (map_err HandlerError res)"
  by (cases res) (simp_all add: open_reply_def forwarded_downcast_def boxed_result_def send_error_downcast_def)

lemma open_forwarded_origin:
  "open_reply (forwarded_downcast re tn tm r) (boxed_result r res) =
    Done (map_err (\<lambda>e. HandlerError (re_error_value re (HandlerError e))) res)"
  by (cases res) (simp_all add: open_reply_def forwarded_downcast_def boxed_result_def)

text \<open>
  C20. Round trip of an ask: when the handler returns a reply and leaves the reply sender in its
  context, exactly one boxed reply is sent on the channel of the ask, the handler's task goes on
  normally with the stop flag of the context, and the asker opens the box to exactly what the
  handler returned, an error as a handler error; this holds for a forwarded reply as well. A reply
  that is only a marker unwinds instead and sends nothing.
\<close>

theorem ask_reply_roundtrip:
  assumes "handle state message (ctx_new (Some tx) stop) w = (Returned reply, state', cx, w')"
    and "cx_reply cx = Some tx"
  shows "handle_dyn re t handle state message (Some tx) stop w =
      (case to_result re reply of
         Panicked \<Rightarrow> (Unwound (re_panic re), state', cx_stop cx, w')
       | Done r \<Rightarrow> (Returned (Ok ()), state', cx_stop cx, re_send re tx (boxed_result t r) w'))
    \<and> open_reply (default_downcast tm (ok_type t) (error_type t)) (boxed_result t r) = Done (map_err HandlerError r)
    \<and> open_reply (forwarded_downcast re tn tm u) (boxed_result (ForwardedType tm u) r) = Done (map_err HandlerError r)"
proof (intro conjI)
  show "handle_dyn re t handle state message (Some tx) stop w =
      (case to_result re reply of
         Panicked \<Rightarrow> (Unwound (re_panic re), state', cx_stop cx, w')
       | Done r \<Rightarrow> (Returned (Ok ()), state', cx_stop cx, re_send re tx (boxed_result t r) w'))"
  proof (cases "to_result re reply")
    case (Done r)
    then obtain v where "into_value re reply = Done v" "to_result re v = Done r"
      using into_value_result by blast
    then show ?thesis using Done assms by (simp add: handle_dyn_def reply_sender_send_def)
  next
    case Panicked
    then have "into_value re reply = Panicked" by (simp add: into_value_Panicked)
    then show ?thesis using Panicked assms by (simp add: handle_dyn_def)
  qed
qed (rule open_boxed open_forwarded_boxed)+

definition demo_replies :: "(nat, (nat \<times> nat boxed_reply) list) reply_env" where
  "demo_replies = \<lparr>re_error_value = (\<lambda>_. 99), re_unpair = (\<lambda>v. (v, 0)), re_send = (\<lambda>tx b w. w @ [(tx, b)]),
     re_panic = Any TyStr 0\<rparr>"

lemma ask_reply_roundtrip_witness:
  "handle_dyn demo_replies (ResultType TyUnit TyString)
      (\<lambda>a m cx w. (Returned (ResultReply (Err m)), a, ctx_stop cx, w)) () 7 (Some 3) False [] =
    (Returned (Ok ()), (), True, [(3, Err (HandlerError (Any TyString 7)))])"
  using ask_reply_roundtrip [of "\<lambda>a m cx w. (Returned (ResultReply (Err m)), a, ctx_stop cx, w)" "()" 7 3 False
      "[]" "ResultReply (Err 7)" "()" "ctx_stop (ctx_new (Some 3) False)" "[]" demo_replies "ResultType TyUnit TyString"]
  by (simp add: ctx_stop_def ctx_new_def demo_replies_def boxed_result_def)

text \<open>
  C27. Forwarding: the asker of a message that was forwarded sees the answer of the actor that
  handled it, an error wrapped once more, exactly as if the forwarding actor had built the reply
  from that result itself. After a forward the forwarding handler's own reply sends nothing and
  reports no error unless the tell failed, in which case the context has no reply sender either.
\<close>

theorem forwarded_reply_transparent:
  fixes msg :: 'v
  assumes "gives_back ops"
    and "ctx_try_forward re ops metrics tv current ar tm msg cx st = (Done (reply, cx'), st')"
  shows "open_reply (forwarded_downcast re tn tm r) (boxed_result r res) =
      (case to_result re (from_result res) of
         Done res' \<Rightarrow> open_reply (forwarded_downcast re tn tm r) (boxed_result (ForwardedType tm r) res')
       | Panicked \<Rightarrow> Panicked)
    \<and> cx_reply cx' = None
    \<and> (reply = ForwardedReply (Ok ()) \<or>
       cx_reply cx = None \<and> reply \<in> ForwardedReply ` Err ` {ActorNotRunning msg, MailboxFull msg, Timeout (Some msg)})"
proof (intro conjI)
  show "open_reply (forwarded_downcast re tn tm r) (boxed_result r res) =
      (case to_result re (from_result res) of
         Done res' \<Rightarrow> open_reply (forwarded_downcast re tn tm r) (boxed_result (ForwardedType tm r) res')
       | Panicked \<Rightarrow> Panicked)"
    by (cases res) (simp_all add: from_result_def open_forwarded_boxed open_forwarded_origin)
  have "cx_reply cx' = None \<and> (reply = ForwardedReply (Ok ()) \<or>
       cx_reply cx = None \<and> reply \<in> ForwardedReply ` Err ` {ActorNotRunning msg, MailboxFull msg, Timeout (Some msg)})"
  proof (cases "cx_reply cx")
    case None
    obtain r1 :: "(unit, ('v, 'v) send_error) result outcome" and st1 where p: "tell_try_send ops metrics current ar tm msg st = (r1, st1)" by force
    have "put_result tm tm msg r1"
      by (rule try_put_cases [OF assms(1) p [unfolded tell_try_send_def]])
    then show ?thesis
      using assms(2) None p
      by (auto simp: ctx_try_forward_def forwarded_tell_def put_result_def)
  next
    case (Some tx)
    obtain r1 :: "(unit, ('v, 'v) send_error) result outcome" and st1 where p: "ask_try_forward ops metrics tv current ar tm msg tx st = (r1, st1)" by force
    have "put_result (TyPair tm (TyReplySender tv)) tm msg r1"
      by (rule try_put_cases [OF assms(1) p [unfolded ask_try_forward_def]])
    then show ?thesis
      using assms(2) Some p by (auto simp: ctx_try_forward_def forwarded_ask_def put_result_def)
  qed
  then show "cx_reply cx' = None" "reply = ForwardedReply (Ok ()) \<or>
       cx_reply cx = None \<and> reply \<in> ForwardedReply ` Err ` {ActorNotRunning msg, MailboxFull msg, Timeout (Some msg)}"
    by blast+
qed

lemma forwarded_reply_transparent_witness:
  "open_reply (forwarded_downcast demo_replies (TyNamed 1) (TyNamed 0) (ResultType TyUnit TyString))
      (boxed_result (ResultType TyUnit TyString) (Err 7)) = Done (Err (HandlerError 99))"
proof -
  have "ctx_try_forward demo_replies one_channel False TyUnit None \<lparr>ar_id = ActorId 1, ar_mailbox = Bounded ()\<rparr>
      (TyNamed 0) 5 (ctx_new None False) closed_mailbox =
    (Done (ForwardedReply (Err (ActorNotRunning 5)), ctx_new None False), closed_mailbox)"
    by (simp add: ctx_try_forward_def ctx_new_def tell_try_send_def closed_mailbox_simps forwarded_tell_def)
  from forwarded_reply_transparent [OF gives_back_one_channel this, of "TyNamed 1" "ResultType TyUnit TyString" "Err 7"]
  show ?thesis
    by (simp add: from_result_def open_forwarded_boxed) (simp add: demo_replies_def)
qed

end
