(* ===== verification/Actor_Pool.thy ===== *)
theory Actor_Pool
  imports Request
begin

text \<open>
  The actor pool (\<open>actors/src/pool.rs\<close>): workers with load counters, the choice of a worker,
  dispatching and broadcasting, and the replacement of a worker that died. The load of a worker is
  the number of weak references to its counter, one per message under way. The factory of the user,
  spawning and linking are parameters; sending is the model of requests, for messages that are
  pairs of a payload and a counter (\<open>WorkerMsgWrapper\<close>).
\<close>

section \<open>State\<close>

record 'h pool_worker =
  wk_ref :: "'h actor_ref"
  wk_counter :: nat

datatype 'f factory = SyncFactory 'f | AsyncFactory 'f

record ('h, 'f) actor_pool =
  ap_workers :: "'h pool_worker list"
  ap_size :: nat
  ap_factory :: "'f factory"

text \<open>The counters: how many weak references each has, and the next one to allocate.\<close>

record pool_counters =
  pc_weak :: "nat \<Rightarrow> nat"
  pc_next :: nat

definition counter_new :: "pool_counters \<Rightarrow> nat \<times> pool_counters" where
  "counter_new pc = (pc_next pc, pc\<lparr>pc_weak := (pc_weak pc)(pc_next pc := 0), pc_next := pc_next pc + 1\<rparr>)"

definition counter_downgrade :: "nat \<Rightarrow> pool_counters \<Rightarrow> pool_counters" where
  "counter_downgrade i pc = pc\<lparr>pc_weak := (pc_weak pc)(i := pc_weak pc i + 1)\<rparr>"

definition counter_drop :: "nat \<Rightarrow> pool_counters \<Rightarrow> pool_counters" where
  "counter_drop i pc = pc\<lparr>pc_weak := (pc_weak pc)(i := pc_weak pc i - 1)\<rparr>"

record ('a, 'h, 'f, 'w) pool_ops =
  po_make :: "'f \<Rightarrow> 'w \<Rightarrow> 'a \<times> 'f \<times> 'w"
  po_capacity :: "'a \<Rightarrow> 'w \<Rightarrow> nat option"
  po_spawn :: "'a \<Rightarrow> nat option \<Rightarrow> 'w \<Rightarrow> ('h actor_ref \<times> 'w) outcome"
  po_link :: "'h actor_ref \<Rightarrow> actor_id \<Rightarrow> 'w \<Rightarrow> 'w"


section \<open>Making workers\<close>

text \<open>A synchronous factory keeps its state between calls; an asynchronous one is cloned for each call.\<close>

fun factory_call :: "('a, 'h, 'f, 'w) pool_ops \<Rightarrow> 'f factory \<Rightarrow> 'w \<Rightarrow> 'a \<times> 'f factory \<times> 'w" where
  "factory_call ops (SyncFactory f) w = (let (a, f, w) = po_make ops f w in (a, SyncFactory f, w))"
| "factory_call ops (AsyncFactory f) w = (let (a, _, w) = po_make ops f w in (a, AsyncFactory f, w))"

text \<open>A worker gets a mailbox of the capacity its actor's mailbox has left, or an unbounded one.\<close>

definition worker_new ::
  "('a, 'h, 'f, 'w) pool_ops \<Rightarrow> 'f factory \<Rightarrow> pool_counters \<Rightarrow> 'w
    \<Rightarrow> ('h pool_worker \<times> 'f factory \<times> pool_counters \<times> 'w) outcome" where
  "worker_new ops f pc w =
    (let (a, f, w) = factory_call ops f w
     in case po_spawn ops a (po_capacity ops a w) w of
          Panicked \<Rightarrow> Panicked
        | Done (r, w) \<Rightarrow>
            (let (i, pc) = counter_new pc in Done (\<lparr>wk_ref = r, wk_counter = i\<rparr>, f, pc, w)))"

fun workers_new ::
  "('a, 'h, 'f, 'w) pool_ops \<Rightarrow> nat \<Rightarrow> 'f factory \<Rightarrow> pool_counters \<Rightarrow> 'w
    \<Rightarrow> ('h pool_worker list \<times> 'f factory \<times> pool_counters \<times> 'w) outcome" where
  "workers_new ops 0 f pc w = Done ([], f, pc, w)"
| "workers_new ops (Suc n) f pc w =
    (case worker_new ops f pc w of
       Panicked \<Rightarrow> Panicked
     | Done (wk, f, pc, w) \<Rightarrow>
         map_outcome (\<lambda>(wks, rest). (wk # wks, rest)) (workers_new ops n f pc w))"

text \<open>\<open>new\<close> and \<open>new_async\<close> refuse an empty pool.\<close>

definition pool_new ::
  "('a, 'h, 'f, 'w) pool_ops \<Rightarrow> nat \<Rightarrow> 'f \<Rightarrow> pool_counters \<Rightarrow> 'w
    \<Rightarrow> (('h, 'f) actor_pool \<times> pool_counters \<times> 'w) outcome" where
  "pool_new ops n f pc w =
    (if n = 0 then Panicked
     else map_outcome (\<lambda>(wks, f, pc, w). (\<lparr>ap_workers = wks, ap_size = n, ap_factory = f\<rparr>, pc, w))
       (workers_new ops n (SyncFactory f) pc w))"

text \<open>The asynchronous pool makes its first workers with the factory itself, later ones with clones of it.\<close>

fun async_factory :: "'f factory \<Rightarrow> 'f factory" where
  "async_factory (SyncFactory f) = AsyncFactory f"
| "async_factory (AsyncFactory f) = AsyncFactory f"

definition pool_new_async ::
  "('a, 'h, 'f, 'w) pool_ops \<Rightarrow> nat \<Rightarrow> 'f \<Rightarrow> pool_counters \<Rightarrow> 'w
    \<Rightarrow> (('h, 'f) actor_pool \<times> pool_counters \<times> 'w) outcome" where
  "pool_new_async ops n f pc w =
    (if n = 0 then Panicked
     else map_outcome (\<lambda>(wks, f, pc, w). (\<lparr>ap_workers = wks, ap_size = n, ap_factory = async_factory f\<rparr>, pc, w))
       (workers_new ops n (SyncFactory f) pc w))"

definition pool_on_start :: "('a, 'h, 'f, 'w) pool_ops \<Rightarrow> actor_id \<Rightarrow> ('h, 'f) actor_pool \<Rightarrow> 'w \<Rightarrow> 'w" where
  "pool_on_start ops self pool w = fold (\<lambda>wk. po_link ops (wk_ref wk) self) (ap_workers pool) w"

text \<open>The first position of the worker with this identity.\<close>

fun worker_index :: "actor_id \<Rightarrow> 'h pool_worker list \<Rightarrow> nat option" where
  "worker_index i [] = None"
| "worker_index i (wk # wks) = (if ar_id (wk_ref wk) = i then Some 0 else map_option Suc (worker_index i wks))"

text \<open>\<open>self\<close> is the pool's own identity while it can be upgraded. The hook always continues.\<close>

definition pool_on_link_died ::
  "('a, 'h, 'f, 'w) pool_ops \<Rightarrow> actor_id option \<Rightarrow> actor_id \<Rightarrow> ('h, 'f) actor_pool \<Rightarrow> pool_counters \<Rightarrow> 'w
    \<Rightarrow> (('h, 'f) actor_pool \<times> pool_counters \<times> 'w) outcome" where
  "pool_on_link_died ops self i pool pc w =
    (case self of
       None \<Rightarrow> Done (pool, pc, w)
     | Some self \<Rightarrow>
         (case worker_index i (ap_workers pool) of
            None \<Rightarrow> Done (pool, pc, w)
          | Some k \<Rightarrow>
              map_outcome
                (\<lambda>(wk, f, pc, w).
                   (pool\<lparr>ap_workers := (ap_workers pool)[k := wk], ap_factory := f\<rparr>, pc, po_link ops (wk_ref wk) self w))
                (worker_new ops (ap_factory pool) pc w)))"


section \<open>Dispatching\<close>

text \<open>\<open>Iterator::min_by_key\<close>: the first of the least elements.\<close>

fun min_by_key :: "('a \<Rightarrow> nat) \<Rightarrow> 'a list \<Rightarrow> 'a option" where
  "min_by_key f [] = None"
| "min_by_key f (x # xs) =
    (case min_by_key f xs of None \<Rightarrow> Some x | Some y \<Rightarrow> if f x \<le> f y then Some x else Some y)"

definition next_worker :: "'h pool_worker list \<Rightarrow> pool_counters \<Rightarrow> ('h pool_worker \<times> pool_counters) outcome" where
  "next_worker workers pc =
    (case min_by_key (\<lambda>wk. pc_weak pc (wk_counter wk)) workers of
       None \<Rightarrow> Panicked
     | Some wk \<Rightarrow> Done (wk, counter_downgrade (wk_counter wk) pc))"

datatype ('m, 'e) worker_reply = WorkerForwarded | WorkerErr "('m, 'e) send_error"

fun worker_reply_into_any_err :: "('m, 'e) worker_reply \<Rightarrow> ('m, 'e) send_error option" where
  "worker_reply_into_any_err WorkerForwarded = None"
| "worker_reply_into_any_err (WorkerErr e) = Some e"

text \<open>
  The loop tries as often as there are workers. A message that comes back brings its counter
  reference back, which is dropped; every other error is unreachable code.
\<close>

fun dispatch_loop ::
  "('h, 'k, 'r, ('m \<times> nat) signal, 'c) mpsc_send \<Rightarrow> bool \<Rightarrow> (('m \<times> nat) \<Rightarrow> ('m \<times> nat) \<times> nat) \<Rightarrow> type_id \<Rightarrow> type_id
    \<Rightarrow> actor_id option \<Rightarrow> 'h pool_worker list \<Rightarrow> nat \<Rightarrow> 'm \<Rightarrow> nat option \<Rightarrow> pool_counters \<Rightarrow> 'c mailbox_state
    \<Rightarrow> (('m, 'e) worker_reply outcome \<times> pool_counters \<times> 'c mailbox_state) option" where
  "dispatch_loop ops metrics unpair tv tm current workers 0 msg tx pc st =
    Some (Done (WorkerErr (ActorNotRunning msg)), pc, st)"
| "dispatch_loop ops metrics unpair tv tm current workers (Suc n) msg tx pc st =
    (case next_worker workers pc of
       Panicked \<Rightarrow> Some (Panicked, pc, st)
     | Done (wk, pc) \<Rightarrow>
         (case tx of
            Some tx \<Rightarrow>
              (case ask_forward ops metrics tv current (wk_ref wk) tm (msg, wk_counter wk) tx None st
                  :: ((unit, ('m \<times> nat, 'e) send_error) result outcome \<times> 'c mailbox_state) option of
                 None \<Rightarrow> None
               | Some (Done (Ok _), st) \<Rightarrow> Some (Done WorkerForwarded, pc, st)
               | Some (Done (Err (ActorNotRunning p)), st) \<Rightarrow>
                   (let ((msg, i), tx) = unpair p
                    in dispatch_loop ops metrics unpair tv tm current workers n msg (Some tx) (counter_drop i pc) st)
               | Some (_, st) \<Rightarrow> Some (Panicked, counter_drop (wk_counter wk) pc, st))
          | None \<Rightarrow>
              (case tell_send ops metrics current (wk_ref wk) tm (msg, wk_counter wk) None st
                  :: ((unit, ('m \<times> nat, 'e) send_error) result outcome \<times> 'c mailbox_state) option of
                 None \<Rightarrow> None
               | Some (Done (Ok _), st) \<Rightarrow> Some (Done WorkerForwarded, pc, st)
               | Some (Done (Err (ActorNotRunning (msg, i))), st) \<Rightarrow>
                   dispatch_loop ops metrics unpair tv tm current workers n msg None (counter_drop i pc) st
               | Some (_, st) \<Rightarrow> Some (Panicked, counter_drop (wk_counter wk) pc, st))))"

definition pool_dispatch where
  "pool_dispatch ops metrics unpair tv tm current pool msg tx pc st =
    dispatch_loop ops metrics unpair tv tm current (ap_workers pool) (length (ap_workers pool)) msg tx pc st"

text \<open>A worker passes the message on and drops the counter reference with it.\<close>

definition worker_handle ::
  "('m \<Rightarrow> 'w \<Rightarrow> ('v, ('m, 'e) send_error) result \<times> 'w) \<Rightarrow> 'm \<times> nat \<Rightarrow> pool_counters \<Rightarrow> 'w
    \<Rightarrow> ('v, ('m, 'e) send_error) result \<times> pool_counters \<times> 'w" where
  "worker_handle ask p pc w =
    (let (msg, i) = p; (res, w) = ask msg w in (res, counter_drop i pc, w))"

text \<open>Broadcasting to every worker; an error gives the payload back, a handler error is unreachable.\<close>

fun broadcast_error :: "('m \<times> nat, 'e) send_error \<Rightarrow> ('m, 'e) send_error outcome" where
  "broadcast_error (HandlerError e) = Panicked"
| "broadcast_error (ActorNotRunning p) = Done (ActorNotRunning (fst p))"
| "broadcast_error (MailboxFull p) = Done (MailboxFull (fst p))"
| "broadcast_error (Timeout p) = Done (Timeout (map_option fst p))"
| "broadcast_error ActorStopped = Done ActorStopped"
| "broadcast_error MissingConnection = Done MissingConnection"
| "broadcast_error ConnectionClosed = Done ConnectionClosed"

fun broadcast_loop ::
  "('h, 'k, 'r, ('m \<times> nat) signal, 'c) mpsc_send \<Rightarrow> bool \<Rightarrow> type_id \<Rightarrow> actor_id option \<Rightarrow> 'm \<Rightarrow> 'h pool_worker list
    \<Rightarrow> pool_counters \<Rightarrow> 'c mailbox_state
    \<Rightarrow> ((unit, ('m, 'e) send_error) result list outcome \<times> pool_counters \<times> 'c mailbox_state) option" where
  "broadcast_loop ops metrics tm current msg [] pc st = Some (Done [], pc, st)"
| "broadcast_loop ops metrics tm current msg (wk # wks) pc st =
    (case tell_send ops metrics current (wk_ref wk) tm (msg, wk_counter wk) None st
        :: ((unit, ('m \<times> nat, 'e) send_error) result outcome \<times> 'c mailbox_state) option of
       None \<Rightarrow> None
     | Some (Panicked, st) \<Rightarrow> Some (Panicked, pc, st)
     | Some (Done (Ok _), st) \<Rightarrow>
         map_option (\<lambda>(res, rest). (map_outcome (Cons (Ok ())) res, rest))
           (broadcast_loop ops metrics tm current msg wks (counter_downgrade (wk_counter wk) pc) st)
     | Some (Done (Err e), st) \<Rightarrow>
         (case broadcast_error e of
            Panicked \<Rightarrow> Some (Panicked, pc, st)
          | Done e \<Rightarrow>
              map_option (\<lambda>(res, rest). (map_outcome (Cons (Err e)) res, rest))
                (broadcast_loop ops metrics tm current msg wks pc st)))"

definition pool_broadcast where
  "pool_broadcast ops metrics tm current pool msg pc st =
    broadcast_loop ops metrics tm current msg (ap_workers pool) pc st"

section \<open>Lemmas\<close>

lemma min_by_key_least:
  "(case min_by_key f xs of None \<Rightarrow> xs = [] | Some x \<Rightarrow> x \<in> set xs \<and> (\<forall>y \<in> set xs. f x \<le> f y))"
  by (induction xs) (auto split: option.splits)

lemma counter_drop_downgrade [simp]: "counter_drop i (counter_downgrade i pc) = pc"
  by (cases pc) (simp add: counter_drop_def counter_downgrade_def)

text \<open>A pool has its full size, and no two workers share a counter.\<close>

definition pool_wf :: "('h, 'f) actor_pool \<Rightarrow> pool_counters \<Rightarrow> bool" where
  "pool_wf pool pc \<longleftrightarrow> 0 < ap_size pool \<and> length (ap_workers pool) = ap_size pool \<and>
    distinct (map wk_counter (ap_workers pool)) \<and> list_all (\<lambda>wk. wk_counter wk < pc_next pc) (ap_workers pool)"

lemma worker_new_counter:
  "worker_new ops f pc w = Done (wk, f', pc', w') \<Longrightarrow>
    wk_counter wk = pc_next pc \<and> pc_next pc' = Suc (pc_next pc) \<and> pc_weak pc' (wk_counter wk) = 0"
  by (auto simp: worker_new_def Let_def counter_new_def split: prod.splits outcome.splits)

lemma workers_new_counters:
  "workers_new ops n f pc w = Done (wks, f', pc', w') \<Longrightarrow>
    map wk_counter wks = [pc_next pc..<pc_next pc + n] \<and> pc_next pc' = pc_next pc + n"
proof (induction n arbitrary: f pc w wks)
  case (Suc n)
  then obtain wk f1 pc1 w1 wks1 where "worker_new ops f pc w = Done (wk, f1, pc1, w1)"
    "workers_new ops n f1 pc1 w1 = Done (wks1, f', pc', w')" "wks = wk # wks1"
    by (auto split: outcome.splits prod.splits)
  then show ?case
    using Suc.IH worker_new_counter by (fastforce simp: upt_conv_Cons)
qed simp

lemma workers_new_wf:
  assumes "workers_new ops n f pc w = Done (wks, f', pc', w')" "n \<noteq> 0"
  shows "pool_wf \<lparr>ap_workers = wks, ap_size = n, ap_factory = g\<rparr> pc'"
proof -
  note c = workers_new_counters [OF assms(1)]
  have "length wks = n" using arg_cong [OF c [THEN conjunct1], of length] by simp
  moreover have "wk_counter wk < pc_next pc'" if "wk \<in> set wks" for wk
  proof -
    have "wk_counter wk \<in> set (map wk_counter wks)" using that by simp
    then show ?thesis using c by simp
  qed
  ultimately show ?thesis
    using c assms(2) by (simp add: pool_wf_def list_all_iff)
qed

lemma worker_index_Some:
  "worker_index i wks = Some k \<longleftrightarrow> k < length wks \<and> ar_id (wk_ref (wks ! k)) = i \<and>
    (\<forall>j < k. ar_id (wk_ref (wks ! j)) \<noteq> i)"
proof (induction wks arbitrary: k)
  case (Cons wk wks)
  show ?case
    by (cases k) (auto simp: Cons nth_Cons less_Suc_eq_0_disj split: nat.splits)
qed simp

lemma pool_wf_update:
  assumes "pool_wf pool pc" "k < length (ap_workers pool)" "wk_counter wk = pc_next pc" "pc_next pc' = Suc (pc_next pc)"
  shows "pool_wf (pool\<lparr>ap_workers := (ap_workers pool)[k := wk], ap_factory := f\<rparr>) pc'"
proof -
  have "pc_next pc \<notin> set (map wk_counter (ap_workers pool))"
    using assms(1) by (auto simp: pool_wf_def list_all_iff)
  then have "distinct ((map wk_counter (ap_workers pool))[k := wk_counter wk])"
    using assms by (intro distinct_list_update) (auto simp: pool_wf_def)
  then show ?thesis
    using assms by (auto simp: pool_wf_def list_all_iff map_update dest!: set_update_subset_insert [THEN subsetD])
qed


section \<open>What the pool guarantees\<close>

text \<open>
  C37. Size: a new pool of positive size has exactly so many workers with counters of their own, and
  the death of a worker replaces this worker by a fresh one with no load, in its place, and changes
  no other; the death of any other actor changes nothing. Only an empty pool is refused.
\<close>

theorem pool_keeps_its_workers:
  assumes "pool_wf pool pc"
  shows "(case pool_new ops n f pc0 w of
        Panicked \<Rightarrow> n = 0 \<or> workers_new ops n (SyncFactory f) pc0 w = Panicked
      | Done (pool, pc, _) \<Rightarrow> pool_wf pool pc \<and> ap_size pool = n)
    \<and> (case pool_on_link_died ops (Some self) i pool pc w of
        Panicked \<Rightarrow> worker_new ops (ap_factory pool) pc w = Panicked
      | Done (pool', pc', _) \<Rightarrow> pool_wf pool' pc' \<and> ap_size pool' = ap_size pool \<and>
          (case worker_index i (ap_workers pool) of
             None \<Rightarrow> pool' = pool
           | Some k \<Rightarrow> (\<exists>wk. ap_workers pool' = (ap_workers pool)[k := wk] \<and> pc_weak pc' (wk_counter wk) = 0)))"
proof
  show "case pool_new ops n f pc0 w of
        Panicked \<Rightarrow> n = 0 \<or> workers_new ops n (SyncFactory f) pc0 w = Panicked
      | Done (pool, pc, _) \<Rightarrow> pool_wf pool pc \<and> ap_size pool = n"
    by (cases "workers_new ops n (SyncFactory f) pc0 w") (auto simp: pool_new_def workers_new_wf)
  show "case pool_on_link_died ops (Some self) i pool pc w of
        Panicked \<Rightarrow> worker_new ops (ap_factory pool) pc w = Panicked
      | Done (pool', pc', _) \<Rightarrow> pool_wf pool' pc' \<and> ap_size pool' = ap_size pool \<and>
          (case worker_index i (ap_workers pool) of
             None \<Rightarrow> pool' = pool
           | Some k \<Rightarrow> (\<exists>wk. ap_workers pool' = (ap_workers pool)[k := wk] \<and> pc_weak pc' (wk_counter wk) = 0))"
  proof (cases "worker_index i (ap_workers pool)")
    case None
    then show ?thesis using assms by (simp add: pool_on_link_died_def)
  next
    case (Some k)
    show ?thesis
    proof (cases "worker_new ops (ap_factory pool) pc w")
      case (Done r)
      obtain wk f' pc' w' where r: "r = (wk, f', pc', w')" by (cases r)
      have "k < length (ap_workers pool)" using Some by (simp add: worker_index_Some)
      then show ?thesis
        using Some Done r assms worker_new_counter [OF Done [unfolded r]] pool_wf_update [OF assms]
        by (auto simp: pool_on_link_died_def)
    qed (use Some in \<open>simp add: pool_on_link_died_def\<close>)
  qed
qed

text \<open>
  Dispatching tries one worker only, the first of least load. With a reply sender the outcome is
  that this worker got the message, or a panic of the pool. Without one, when this worker no longer
  runs, every attempt of the loop goes to the same worker, since the failed attempt leaves its load
  as it was: the message comes back although other workers may be running.
\<close>

theorem dispatch_tries_one_worker:
  assumes "gives_back ops" "ap_workers pool \<noteq> []" "next_worker (ap_workers pool) pc = Done (wk, pc1)"
    and "pool_dispatch ops metrics unpair tv tm current pool msg (Some tx) pc st =
      Some (r :: ('m, 'e) worker_reply outcome, pc', st')"
    and "tell_send ops metrics current (wk_ref wk) tm (msg, wk_counter wk) None st0 =
      Some (Done (Err (ActorNotRunning (msg, wk_counter wk)) :: (unit, ('m \<times> nat, 'e) send_error) result), st0)"
  shows "(r = Done WorkerForwarded \<and> pc' = pc1 \<or> r = Panicked \<and> pc' = pc)
    \<and> pool_dispatch ops metrics unpair tv tm current pool msg None pc st0 =
      Some (Done (WorkerErr (ActorNotRunning msg) :: ('m, 'e) worker_reply), pc, st0)"
proof
  have pc1: "counter_drop (wk_counter wk) pc1 = pc"
    using assms(3) by (auto simp: next_worker_def split: option.splits)
  obtain n where n: "length (ap_workers pool) = Suc n"
    using assms(2) by (cases "ap_workers pool") auto
  show "r = Done WorkerForwarded \<and> pc' = pc1 \<or> r = Panicked \<and> pc' = pc"
  proof (cases "ask_forward ops metrics tv current (wk_ref wk) tm (msg, wk_counter wk) tx None st
      :: ((unit, ('m \<times> nat, 'e) send_error) result outcome \<times> _) option")
    case None
    then show ?thesis using assms(3,4) n by (simp add: pool_dispatch_def)
  next
    case (Some p)
    obtain r1 st1 where p: "p = (r1, st1)" by (cases p)
    have "put_result (TyPair tm (TyReplySender tv)) tm (msg, wk_counter wk) r1"
      using put_cases [OF assms(1) Some [unfolded p ask_forward_def]] .
    then show ?thesis
      using Some p assms(3,4) n pc1 by (auto simp: pool_dispatch_def put_result_def)
  qed
  have "dispatch_loop ops metrics unpair tv tm current (ap_workers pool) k msg None pc st0 =
      Some (Done (WorkerErr (ActorNotRunning msg) :: ('m, 'e) worker_reply), pc, st0)" for k
    by (induction k) (simp_all add: assms(3,5) pc1)
  then show "pool_dispatch ops metrics unpair tv tm current pool msg None pc st0 =
      Some (Done (WorkerErr (ActorNotRunning msg) :: ('m, 'e) worker_reply), pc, st0)"
    by (simp add: pool_dispatch_def)
qed

section \<open>Instances\<close>

definition demo_pool_ops :: "(unit, bool, unit, u64) pool_ops" where
  "demo_pool_ops = \<lparr>po_make = (\<lambda>f w. ((), f, w)), po_capacity = (\<lambda>_ _. None),
     po_spawn = (\<lambda>_ _ w. Done (\<lparr>ar_id = ActorId w, ar_mailbox = Unbounded True\<rparr>, w + 1)),
     po_link = (\<lambda>_ _ w. w)\<rparr>"

definition demo_worker :: "u64 \<Rightarrow> bool \<Rightarrow> nat \<Rightarrow> bool pool_worker" where
  "demo_worker i h c = \<lparr>wk_ref = \<lparr>ar_id = ActorId i, ar_mailbox = Unbounded h\<rparr>, wk_counter = c\<rparr>"

text \<open>Two workers of equal load, of which the first no longer runs.\<close>

definition demo_pool :: "(bool, unit) actor_pool" where
  "demo_pool = \<lparr>ap_workers = [demo_worker 1 False 0, demo_worker 2 True 1], ap_size = 2, ap_factory = SyncFactory ()\<rparr>"

definition demo_counters :: pool_counters where
  "demo_counters = \<lparr>pc_weak = (\<lambda>_. 0), pc_next = 2\<rparr>"

lemma pool_keeps_its_workers_witness:
  "(case pool_on_link_died demo_pool_ops (Some (ActorId 9)) (ActorId 1) demo_pool demo_counters 5 of
      Panicked \<Rightarrow> False
    | Done (pool', pc', _) \<Rightarrow> pool_wf pool' pc' \<and> ap_size pool' = 2)"
proof -
  have wf: "pool_wf demo_pool demo_counters"
    by (simp add: pool_wf_def demo_pool_def demo_counters_def demo_worker_def)
  have "worker_new demo_pool_ops (ap_factory demo_pool) demo_counters 5 \<noteq> Panicked"
    by (simp add: worker_new_def demo_pool_ops_def demo_pool_def counter_new_def Let_def)
  then show ?thesis
    using pool_keeps_its_workers [OF wf, where ops = demo_pool_ops and self = "ActorId 9" and i = "ActorId 1" and w = 5]
    by (auto simp: demo_pool_def split: outcome.splits prod.splits)
qed

text \<open>Mailboxes that run or do not, by their handle.\<close>

definition demo_mailboxes :: "(bool, unit, unit, 's, 's list) mpsc_send" where
  "demo_mailboxes =
    \<lparr>mp_channel = (\<lambda>n c. Done ((True, ()), c)), mp_unbounded_channel = (\<lambda>c. ((True, ()), c)),
     mp_send = (\<lambda>h s c. Some (if h then (Ok (), c @ [s]) else (Err s, c))),
     mp_try_send = (\<lambda>h s c. if h then (Ok (), c @ [s]) else (Err (TryClosed s), c)),
     mp_send_timeout = (\<lambda>h s d c. if h then (Ok (), c @ [s]) else (Err (SendTimeoutClosed s), c)),
     mp_blocking_send = (\<lambda>h s c. Some (if h then (Ok (), c @ [s]) else (Err s, c))),
     mp_usend = (\<lambda>h s c. if h then (Ok (), c @ [s]) else (Err s, c)),
     mp_closed = (\<lambda>h c. if h then None else Some ((), c)), mp_is_closed = (\<lambda>h c. \<not> h),
     mp_upgrade = (\<lambda>k c. (Some True, c))\<rparr>"

lemma gives_back_demo_mailboxes: "gives_back demo_mailboxes"
  unfolding gives_back_def demo_mailboxes_def by auto

definition demo_state :: "(nat \<times> nat) signal list mailbox_state" where
  "demo_state =
    \<lparr>mb_chan = [], mb_sent = \<lparr>c_messages = 0, c_lifecycle = 0, c_link_died = 0\<rparr>,
     mb_received = \<lparr>c_messages = 0, c_lifecycle = 0, c_link_died = 0\<rparr>\<rparr>"

lemma dispatch_tries_one_worker_witness:
  "pool_dispatch demo_mailboxes False (\<lambda>p. (p, 0)) TyUnit (TyNamed 0) None demo_pool 5 None demo_counters demo_state =
    Some (Done (WorkerErr (ActorNotRunning 5) :: (nat, unit) worker_reply), demo_counters, demo_state)"
proof -
  let ?wk = "demo_worker 1 False 0" and ?ar = "\<lparr>ar_id = ActorId 1, ar_mailbox = Unbounded False\<rparr>"
  have wk: "wk_ref ?wk = ?ar" "wk_counter ?wk = 0"
    by (simp_all add: demo_worker_def)
  have least: "next_worker (ap_workers demo_pool) demo_counters = Done (?wk, counter_downgrade 0 demo_counters)"
    by (simp add: next_worker_def demo_pool_def demo_counters_def wk)
  have put: "put demo_mailboxes False t ?ar (request_signal None ?ar (TyNamed 0) (5 :: nat, 0 :: nat) reply) None demo_state =
      Some (map_outcome Err (from_mpsc_send_error t (request_signal None ?ar (TyNamed 0) (5, 0) reply)), demo_state)" for t reply
    by (simp add: put_def mailbox_send_def after_send_def demo_mailboxes_def demo_state_def)
  have tell: "tell_send demo_mailboxes False None (wk_ref ?wk) (TyNamed 0) (5 :: nat, wk_counter ?wk) None demo_state =
      Some (Done (Err (ActorNotRunning (5, wk_counter ?wk)) :: (unit, (nat \<times> nat, unit) send_error) result), demo_state)"
    by (simp add: tell_send_def put wk from_mpsc_send_error_def)
  have "length (ap_workers demo_pool) = Suc 1"
    by (simp add: demo_pool_def)
  then have ask: "pool_dispatch demo_mailboxes False (\<lambda>p. (p, 0)) TyUnit (TyNamed 0) None demo_pool 5 (Some 3) demo_counters demo_state =
      Some (Panicked :: (nat, unit) worker_reply outcome, demo_counters, demo_state)"
    by (simp add: pool_dispatch_def ask_forward_def least wk put from_mpsc_send_error_def)
  show ?thesis
    by (rule dispatch_tries_one_worker [OF gives_back_demo_mailboxes _ least ask tell, THEN conjunct2])
      (simp add: demo_pool_def)
qed

end
