(* ===== verification/Actor_Ref.thy ===== *)
theory Actor_Ref
  imports Lifecycle Request "HOL-Library.Sublist"
begin

text \<open>
  What a reference offers beside requests and links (\<open>src/actor/actor_ref.rs\<close>): weak references, the
  ways to stop an actor and to wait for its start and its end, and the task that feeds it a stream.
\<close>

section \<open>References\<close>

definition is_alive :: "('h, 'k, 'r, 'v signal, 'c) mpsc_send \<Rightarrow> 'h actor_ref \<Rightarrow> 'c \<Rightarrow> bool" where
  "is_alive ops ar c = (\<not> mailbox_is_closed ops (ar_mailbox ar) c)"

definition stop_gracefully ::
  "('h, 'k, 'r, 'v signal, 'c) mpsc_send \<Rightarrow> bool \<Rightarrow> 'h actor_ref \<Rightarrow> 'c mailbox_state
    \<Rightarrow> ((unit, (unit, unit) send_error) result \<times> 'c mailbox_state) option" where
  "stop_gracefully ops metrics ar st =
    map_option (map_prod (map_err (\<lambda>_. ActorNotRunning ())) id) (mailbox_send ops metrics (ar_mailbox ar) Stop st)"

record 'k weak_actor_ref =
  wr_id :: actor_id
  wr_mailbox :: "'k weak_mailbox_sender"

definition actor_downgrade ::
  "('h, 'k, 'c) mpsc_handles \<Rightarrow> 'h actor_ref \<Rightarrow> 'c \<Rightarrow> 'k weak_actor_ref \<times> 'c" where
  "actor_downgrade hs ar c =
    (let (m, c) = mailbox_downgrade hs (ar_mailbox ar) c in (\<lparr>wr_id = ar_id ar, wr_mailbox = m\<rparr>, c))"

definition actor_upgrade ::
  "('h, 'k, 'r, 'v signal, 'c) mpsc_send \<Rightarrow> 'k weak_actor_ref \<Rightarrow> 'c \<Rightarrow> 'h actor_ref option \<times> 'c" where
  "actor_upgrade ops wr c =
    (let (m, c) = weak_upgrade ops (wr_mailbox wr) c
     in (map_option (\<lambda>mailbox. \<lparr>ar_id = wr_id wr, ar_mailbox = mailbox\<rparr>) m, c))"

definition actor_clone ::
  "('h, 'k, 'c) mpsc_handles \<Rightarrow> 'h actor_ref \<Rightarrow> 'c \<Rightarrow> 'h actor_ref \<times> 'c" where
  "actor_clone hs ar c =
    (let (m, c) = mailbox_clone hs (ar_mailbox ar) c in (\<lparr>ar_id = ar_id ar, ar_mailbox = m\<rparr>, c))"

definition actor_strong_count :: "('h, 'k, 'c) mpsc_handles \<Rightarrow> 'h actor_ref \<Rightarrow> 'c \<Rightarrow> nat" where
  "actor_strong_count hs ar c = mailbox_strong_count hs (ar_mailbox ar) c"

definition actor_weak_count :: "('h, 'k, 'c) mpsc_handles \<Rightarrow> 'h actor_ref \<Rightarrow> 'c \<Rightarrow> nat" where
  "actor_weak_count hs ar c = mailbox_weak_count hs (ar_mailbox ar) c"


section \<open>Waiting\<close>

text \<open>
  The start and the end of an actor are published in cells that are written once. Waiting for a cell
  gives \<open>None\<close> as long as it is empty: in this world the call does not return. \<open>te\<close> is the actor's
  error type, and \<open>closed\<close> says that the mailbox is closed.
\<close>

definition hook_result :: "type_id \<Rightarrow> (unit, 'v panic_error) result \<Rightarrow> (unit, ('v, 'v) hook_error) result" where
  "hook_result te r =
    (case r of
       Ok _ \<Rightarrow> Ok ()
     | Err err \<Rightarrow> Err (case pe_with_downcast_ref te err HookError of Some e \<Rightarrow> e | None \<Rightarrow> HookPanicked err))"

definition wait_for_startup :: "('v, 'e) world \<Rightarrow> unit option" where
  "wait_for_startup w = map_option (\<lambda>_. ()) (w_startup_result w)"

definition wait_for_startup_result :: "type_id \<Rightarrow> ('v, 'e) world \<Rightarrow> (unit, ('v, 'v) hook_error) result option" where
  "wait_for_startup_result te w = map_option (hook_result te) (w_startup_result w)"

definition wait_for_shutdown :: "bool \<Rightarrow> unit option" where
  "wait_for_shutdown closed = (if closed then Some () else None)"

definition wait_for_shutdown_result ::
  "type_id \<Rightarrow> bool \<Rightarrow> ('v, 'e) world \<Rightarrow> (unit, ('v, 'v) hook_error) result option" where
  "wait_for_shutdown_result te closed w =
    Option.bind (wait_for_shutdown closed) (\<lambda>_. map_option (hook_result te) (w_shutdown_result w))"

text \<open>
  The variants with a closure call it while they hold the lock of the error: \<open>f\<close> is told whether the
  lock is held, and \<open>None\<close> is a closure that does not return.
\<close>

definition call_with_result ::
  "type_id \<Rightarrow> (bool \<Rightarrow> (unit, ('v, 'v) hook_error) result \<Rightarrow> 'r option) \<Rightarrow> (unit, 'v panic_error) result \<Rightarrow> 'r option" where
  "call_with_result te f r =
    (case r of
       Ok _ \<Rightarrow> f False (Ok ())
     | Err err \<Rightarrow>
         (case any_downcast te (pe_err err) of
            Some e \<Rightarrow> f True (Err (HookError e))
          | None \<Rightarrow> f True (Err (HookPanicked err))))"

definition wait_for_startup_with_result ::
  "type_id \<Rightarrow> (bool \<Rightarrow> (unit, ('v, 'v) hook_error) result \<Rightarrow> 'r option) \<Rightarrow> ('v, 'e) world \<Rightarrow> 'r option" where
  "wait_for_startup_with_result te f w = Option.bind (w_startup_result w) (call_with_result te f)"

definition wait_for_shutdown_with_result ::
  "type_id \<Rightarrow> (bool \<Rightarrow> (unit, ('v, 'v) hook_error) result \<Rightarrow> 'r option) \<Rightarrow> bool \<Rightarrow> ('v, 'e) world \<Rightarrow> 'r option" where
  "wait_for_shutdown_with_result te f closed w =
    Option.bind (wait_for_shutdown closed) (\<lambda>_. Option.bind (w_shutdown_result w) (call_with_result te f))"

text \<open>\<open>PanicError::with\<close> takes the error's lock, which the thread that holds it never gets.\<close>

definition locked_with :: "bool \<Rightarrow> 'v panic_error \<Rightarrow> ('v any \<Rightarrow> 'r) \<Rightarrow> 'r option" where
  "locked_with locked p f = (if locked then None else Some (pe_with p f))"


section \<open>Attached streams\<close>

datatype ('m, 't, 'f) stream_message = StreamStarted 't | StreamNext 'm | StreamFinished 'f

text \<open>
  The task of \<open>attach_stream\<close>: what is left of the stream, what the mailbox has accepted, whether it
  is closed, and where the task is. The result is the rest of the stream or the error.
\<close>

datatype 'm attach_phase = Beginning | Feeding | Ending | Finished "('m list, (unit, unit) send_error) result"

record ('m, 't, 'f) attach_state =
  at_stream :: "'m list"
  at_sent :: "('m, 't, 'f) stream_message list"
  at_closed :: bool
  at_phase :: "'m attach_phase"

definition attach_new :: "'m list \<Rightarrow> ('m, 't, 'f) attach_state" where
  "attach_new ms = \<lparr>at_stream = ms, at_sent = [], at_closed = False, at_phase = Beginning\<rparr>"

text \<open>A tell waits for room, and fails once the mailbox is closed.\<close>

definition attach_tell ::
  "('m, 't, 'f) stream_message \<Rightarrow> 'm attach_phase \<Rightarrow> ('m, 't, 'f) attach_state \<Rightarrow> ('m, 't, 'f) attach_state" where
  "attach_tell msg next_phase s =
    (if at_closed s then s\<lparr>at_phase := Finished (Err ActorStopped)\<rparr>
     else s\<lparr>at_sent := at_sent s @ [msg], at_phase := next_phase\<rparr>)"

text \<open>
  One step of the task, or of the actor that stops. \<open>select!\<close> takes either branch that is ready: with
  a closed mailbox and an item at hand it may do both.
\<close>

inductive attach_step :: "'t \<Rightarrow> 'f \<Rightarrow> ('m, 't, 'f) attach_state \<Rightarrow> ('m, 't, 'f) attach_state \<Rightarrow> bool" for start and finish where
  attach_start: "at_phase s = Beginning \<Longrightarrow> attach_step start finish s (attach_tell (StreamStarted start) Feeding s)"
| attach_item: "at_phase s = Feeding \<Longrightarrow> at_stream s = m # ms \<Longrightarrow>
    attach_step start finish s (attach_tell (StreamNext m) Feeding (s\<lparr>at_stream := ms\<rparr>))"
| attach_exhausted: "at_phase s = Feeding \<Longrightarrow> at_stream s = [] \<Longrightarrow> attach_step start finish s (s\<lparr>at_phase := Ending\<rparr>)"
| attach_shutdown: "at_phase s = Feeding \<Longrightarrow> at_closed s \<Longrightarrow>
    attach_step start finish s (s\<lparr>at_phase := Finished (Ok (at_stream s))\<rparr>)"
| attach_finish: "at_phase s = Ending \<Longrightarrow> attach_step start finish s
    (attach_tell (StreamFinished finish) (Finished (Ok (at_stream s))) s)"
| attach_close: "attach_step start finish s (s\<lparr>at_closed := True\<rparr>)"

inductive attach_reachable :: "'t \<Rightarrow> 'f \<Rightarrow> 'm list \<Rightarrow> ('m, 't, 'f) attach_state \<Rightarrow> bool" for start and finish and items where
  attach_init: "attach_reachable start finish items (attach_new items)"
| attach_more: "attach_reachable start finish items s \<Longrightarrow> attach_step start finish s s' \<Longrightarrow>
    attach_reachable start finish items s'"

inductive_simps attach_step_simps: "attach_step start finish s s'"

section \<open>Properties\<close>

text \<open>The result of the startup is what the waiters are given, and \<open>Ran (Err err)\<close> is where the life ends.\<close>

lemma failed_start_world:
  assumes "ai_on_start impl w = (started, w1)" and "start_result started = Ran (Err err)"
    and "w_startup_result w1 = None"
    and "\<And>v. w_startup_result (snd (rt_signal_startup rt v)) = w_startup_result v"
    and "\<And>v. w_shutdown_result (snd (rt_signal_startup rt v)) = w_shutdown_result v"
  shows "\<exists>w'. run_actor_lifecycle impl rt remote i w = Some (Ran (Err err), w') \<and>
    w_startup_result w' = Some (Err err) \<and> w_shutdown_result w' = w_shutdown_result w1"
proof -
  define w2 where "w2 = (invoke_actor_error_hook err w1)\<lparr>w_startup_result := Some (Err err)\<rparr>"
  have "run_actor_lifecycle impl rt remote i w = Some (Ran (Err err), snd (rt_signal_startup rt w2))"
    by (simp add: run_actor_lifecycle_def set_startup_result_def invoke_actor_error_hook_def Let_def
        w2_def assms(1-3) case_prod_beta)
  then show ?thesis
    using assms(4,5) by (simp add: w2_def invoke_actor_error_hook_def)
qed

text \<open>
  C17. An actor whose \<open>on_start\<close> fails or panics is over: its mailbox is closed, and whoever waits
  for its startup is given the error. Whoever waits for the result of its shutdown waits for ever,
  since that result is never published.
\<close>

theorem failed_start_strands_shutdown_waiters:
  assumes "ai_on_start impl w = (started, w1)" and "start_result started = Ran (Err err)"
    and "w_startup_result w1 = None" and "w_shutdown_result w1 = None"
    and "\<And>v. w_startup_result (snd (rt_signal_startup rt v)) = w_startup_result v"
    and "\<And>v. w_shutdown_result (snd (rt_signal_startup rt v)) = w_shutdown_result v"
  shows "\<exists>w'. run_actor_lifecycle impl rt remote i w = Some (Ran (Err err), w') \<and>
    wait_for_startup_result te w' = Some (hook_result te (Err err)) \<and>
    wait_for_shutdown True = Some () \<and> wait_for_shutdown_result te True w' = None"
proof -
  obtain w' where "run_actor_lifecycle impl rt remote i w = Some (Ran (Err err), w')"
    "w_startup_result w' = Some (Err err)" "w_shutdown_result w' = None"
    using failed_start_world [of impl w started w1 err rt remote i, OF assms(1-3,5,6)] assms(4) by auto
  then show ?thesis
    by (simp add: wait_for_startup_result_def wait_for_shutdown_def wait_for_shutdown_result_def)
qed

theorem failed_start_strands_shutdown_waiters_witness:
  "\<exists>w'. run_actor_lifecycle (adder\<lparr>ai_on_start := (\<lambda>w. (Returned (Err (Any TyString 7)), w))\<rparr>) quiet_runtime False (ActorId 1)
      (adder_world []) = Some (Ran (Err (panic_error_new (Any TyString 7) OnStart)), w') \<and>
    wait_for_startup_result TyString w' = Some (Err (HookError 7)) \<and>
    wait_for_shutdown True = Some () \<and> wait_for_shutdown_result TyString True w' = None"
  using failed_start_strands_shutdown_waiters [of "adder\<lparr>ai_on_start := (\<lambda>w. (Returned (Err (Any TyString 7)), w))\<rparr>"
      "adder_world []" "Returned (Err (Any TyString 7))" _ "panic_error_new (Any TyString 7) OnStart" quiet_runtime False
      "ActorId 1" TyString]
  by (auto simp: quiet_runtime_def adder_world_def hook_result_def pe_with_downcast_ref_def panic_error_new_def)

lemma finish_life_publishes:
  assumes "rt_upgrade rt = (\<lambda>_. True)" and "w_shutdown_result w = None"
  shows "\<exists>w'. finish_life rt res w = Done w' \<and>
    w_shutdown_result w' = Some (map_err (\<lambda>e. panic_error_new e OnStop) res)"
  using assms by (cases res) (auto simp: finish_life_def set_shutdown_result_def invoke_actor_error_hook_def Let_def)

lemma send_notices_shutdown_result:
  assumes "\<And>l i r w. w_shutdown_result (rt_notify rt l i r w) = w_shutdown_result w"
  shows "w_shutdown_result (send_notices rt i reason ls w) = w_shutdown_result w"
  by (induction ls arbitrary: w) (auto simp: assms)

text \<open>
  C18. Once a started actor has stopped, a waiter that holds a reference is given what \<open>on_stop\<close>
  returned, its error downcast to the actor's error type. If \<open>on_stop\<close> unwinds or is dropped, the
  waiter for the result waits for ever, although the mailbox is closed.
\<close>

theorem shutdown_result_reaches_waiters:
  assumes "\<And>l i r w. w_shutdown_result (rt_notify rt l i r w) = w_shutdown_result w"
    and "rt_upgrade rt = (\<lambda>_. True)"
    and "ai_on_stop impl (ab_state b) reason (w\<lparr>w_links := []\<rparr>) = (res, a, w1)" and "w_shutdown_result w1 = None"
  shows "wait_for_shutdown_result te True (snd (stop_actor impl rt remote reason b w)) =
    (case res of Returned r \<Rightarrow> Some (hook_result te (map_err (\<lambda>e. panic_error_new e OnStop) r)) | _ \<Rightarrow> None)"
proof (cases res)
  case (Returned r)
  define w2 where "w2 = send_notices rt (ab_actor_id b) reason (w_links w) w1"
  define w3 where "w3 = (if remote then w2 else w2\<lparr>w_registry := snd (registry_remove (ai_name impl) (w_registry w2))\<rparr>)"
  have "w_shutdown_result w3 = None"
    using assms(4) by (simp add: w3_def w2_def send_notices_shutdown_result [OF assms(1)])
  then obtain w4 where w4: "finish_life rt r w3 = Done w4"
    "w_shutdown_result w4 = Some (map_err (\<lambda>e. panic_error_new e OnStop) r)"
    using finish_life_publishes [of rt w3 r] assms(2) by auto
  have "stop_actor impl rt remote reason b w =
      (case finish_life rt r w3 of Panicked \<Rightarrow> (TaskPanicked, w3) | Done w4 \<Rightarrow> (Ran (Ok (a, reason)), w4))"
    unfolding stop_actor_def Let_def assms(3) Returned w3_def w2_def by (simp only: prod.case hook.case)
  then show ?thesis
    by (simp add: w4 Returned wait_for_shutdown_result_def wait_for_shutdown_def)
qed (simp_all add: stop_actor_def assms(3,4) wait_for_shutdown_result_def)

theorem shutdown_result_reaches_waiters_witness:
  "wait_for_shutdown_result TyString True (snd (stop_actor
     (adder\<lparr>ai_on_stop := (\<lambda>a _ w. (Returned (Err (Any TyString 3)), a, w))\<rparr>) quiet_runtime False Normal
     (new_from_actor 0 (ActorId 1)) (adder_world []))) = Some (Err (HookError 3))"
  using shutdown_result_reaches_waiters [of quiet_runtime
      "adder\<lparr>ai_on_stop := (\<lambda>a _ w. (Returned (Err (Any TyString 3)), a, w))\<rparr>" "new_from_actor 0 (ActorId 1)" Normal
      "adder_world []" "Returned (Err (Any TyString 3))" 0 "adder_world []" TyString False]
  by (simp add: quiet_runtime_def adder_world_def new_from_actor_def hook_result_def pe_with_downcast_ref_def
      panic_error_new_def)

text \<open>
  A closure given to \<open>wait_for_startup_with_result\<close> that reads the error it is handed never
  returns exactly when that error is a panic error, for the lock it asks for is held by the caller:
  the variant that returns the result hands out the same error, and it can be read.
\<close>

theorem reading_closure_deadlocks:
  assumes "w_startup_result w = Some r"
  shows "(wait_for_startup_with_result te (\<lambda>locked res.
      case res of Err (HookPanicked p) \<Rightarrow> locked_with locked p f | _ \<Rightarrow> Some y) w = None) =
    (\<exists>p. wait_for_startup_result te w = Some (Err (HookPanicked p)) \<and> locked_with False p f = Some (f (pe_err p)))"
  using assms
  by (cases r) (auto simp: wait_for_startup_with_result_def wait_for_startup_result_def call_with_result_def
      hook_result_def locked_with_def pe_with_def pe_with_downcast_ref_def split: option.splits)

theorem reading_closure_deadlocks_witness:
  "wait_for_startup_with_result TyString (\<lambda>locked res.
      case res of Err (HookPanicked p) \<Rightarrow> locked_with locked p (\<lambda>a. a = Any TyStr 1) | _ \<Rightarrow> Some True)
    ((adder_world [])\<lparr>w_startup_result := Some (Err (panic_error_new (Any TyStr 1) OnStart))\<rparr>) = None"
  by (rule iffD2 [OF reading_closure_deadlocks [where r = "Err (panic_error_new (Any TyStr 1) OnStart)"]])
    (simp_all add: wait_for_startup_result_def hook_result_def pe_with_downcast_ref_def panic_error_new_def
      locked_with_def pe_with_def)

text \<open>What a stream sends in full, and what holds of the task at each of its phases.\<close>

definition attach_script :: "'t \<Rightarrow> 'f \<Rightarrow> 'm list \<Rightarrow> ('m, 't, 'f) stream_message list" where
  "attach_script start finish ms = StreamStarted start # map StreamNext ms @ [StreamFinished finish]"

definition attach_inv :: "'t \<Rightarrow> 'f \<Rightarrow> 'm list \<Rightarrow> ('m, 't, 'f) attach_state \<Rightarrow> bool" where
  "attach_inv start finish ms s =
    (case at_phase s of
       Beginning \<Rightarrow> at_sent s = [] \<and> at_stream s = ms
     | Feeding \<Rightarrow> \<exists>taken. ms = taken @ at_stream s \<and> at_sent s = StreamStarted start # map StreamNext taken
     | Ending \<Rightarrow> at_stream s = [] \<and> at_sent s = StreamStarted start # map StreamNext ms
     | Finished (Ok rest) \<Rightarrow> \<exists>taken. ms = taken @ rest \<and> (at_sent s = StreamStarted start # map StreamNext taken \<or>
         rest = [] \<and> at_sent s = attach_script start finish ms)
     | Finished (Err _) \<Rightarrow> prefix (at_sent s) (attach_script start finish ms))"

lemma attach_step_inv:
  assumes "attach_step start finish s s'" and "attach_inv start finish ms s"
  shows "attach_inv start finish ms s'"
  using assms
proof (cases rule: attach_step.cases)
  case (attach_item m rest)
  then obtain taken where taken: "ms = taken @ m # rest" "at_sent s = StreamStarted start # map StreamNext taken"
    using assms(2) by (auto simp: attach_inv_def)
  show ?thesis
  proof (cases "at_closed s")
    case True
    then show ?thesis by (simp add: attach_item attach_tell_def attach_inv_def attach_script_def taken)
  next
    case False
    have "ms = (taken @ [m]) @ rest" by (simp add: taken)
    then show ?thesis
      using False attach_item taken by (auto simp: attach_tell_def attach_inv_def intro!: exI [of _ "taken @ [m]"])
  qed
qed (auto simp: attach_inv_def attach_tell_def attach_script_def
      split: attach_phase.splits result.splits)

text \<open>
  The steps of the task, as against those of the actor that stops, and how many of them are left:
  the start value, each item, the end of the stream and the finish value.
\<close>

definition attach_works :: "('m, 't, 'f) attach_state \<Rightarrow> ('m, 't, 'f) attach_state \<Rightarrow> bool" where
  "attach_works s s' \<longleftrightarrow> at_phase s' \<noteq> at_phase s \<or> at_stream s' \<noteq> at_stream s"

fun attach_rank :: "('m, 't, 'f) attach_state \<Rightarrow> nat" where
  "attach_rank s =
    (case at_phase s of Beginning \<Rightarrow> length (at_stream s) + 3 | Feeding \<Rightarrow> length (at_stream s) + 2 | Ending \<Rightarrow> 1 | Finished r \<Rightarrow> 0)"

lemma attach_rank_step:
  "attach_step start finish s s' \<Longrightarrow>
    if attach_works s s' then attach_rank s' < attach_rank s else attach_rank s' = attach_rank s"
  by (cases "at_phase s") (auto simp: attach_step_simps attach_tell_def attach_works_def)

lemma attach_has_work:
  assumes "0 < attach_rank s"
  shows "\<exists>s'. attach_step start finish s s' \<and> attach_works s s'"
proof (cases "at_phase s")
  case Beginning
  then show ?thesis by (intro exI conjI, rule attach_start) (simp_all add: attach_works_def attach_tell_def)
next
  case Feeding
  show ?thesis
  proof (cases "at_stream s")
    case Nil
    then show ?thesis by (intro exI conjI, rule attach_exhausted [OF Feeding]) (simp_all add: attach_works_def Feeding)
  next
    case (Cons m ms)
    then show ?thesis by (intro exI conjI, rule attach_item [OF Feeding]) (simp_all add: attach_works_def attach_tell_def Feeding)
  qed
next
  case Ending
  then show ?thesis by (intro exI conjI, rule attach_finish) (simp_all add: attach_works_def attach_tell_def)
qed (use assms in simp)

lemma attach_inv_new: "attach_inv start finish ms (attach_new ms)"
  by (simp add: attach_inv_def attach_new_def)

interpretation attached: working_protocol "\<lambda>s. s = attach_new items" "attach_step start finish"
  "attach_reachable start finish items" "attach_inv start finish items" attach_works attach_rank
  for start finish items
proof unfold_locales
  fix s and P :: "('a, 'b, 'c) attach_state \<Rightarrow> bool"
  assume "attach_reachable start finish items s" "\<And>s. s = attach_new items \<Longrightarrow> P s"
    "\<And>s s'. P s \<Longrightarrow> attach_step start finish s s' \<Longrightarrow> P s'"
  then show "P s" by (induction rule: attach_reachable.induct) simp_all
qed (auto intro: attach_reachable.intros attach_step_inv attach_has_work dest: attach_rank_step
    simp: attach_inv_new simp del: attach_rank.simps split: if_splits)

text \<open>
  C11. The task that feeds an actor a stream: what the mailbox accepted is always a prefix of the
  start value, the items in order and the finish value. If the task returns the stream, the items
  still in it are exactly those the mailbox did not accept.
\<close>

theorem attached_stream_loses_nothing:
  assumes "attach_reachable start finish items s"
  shows "prefix (at_sent s) (attach_script start finish items) \<and>
    (case at_phase s of
       Finished (Ok rest) \<Rightarrow> \<exists>taken. items = taken @ rest \<and>
         (at_sent s = StreamStarted start # map StreamNext taken \<or> rest = [] \<and> at_sent s = attach_script start finish items)
     | _ \<Rightarrow> True)"
  using attached.reach_inv [OF assms]
  by (auto simp: attach_inv_def attach_script_def split: attach_phase.splits result.splits)

lemma attach_run:
  "attach_reachable () () [4 :: nat, 5] \<lparr>at_stream = [5], at_sent = [StreamStarted (), StreamNext 4], at_closed = True,
     at_phase = Finished (Ok [5])\<rparr>"
proof -
  note more = attach_reachable.attach_more [where start = "()" and finish = "()" and items = "[4 :: nat, 5]"]
  have 1: "attach_reachable () () [4 :: nat, 5] \<lparr>at_stream = [4, 5], at_sent = [StreamStarted ()], at_closed = False,
     at_phase = Feeding\<rparr>"
    by (rule more [OF attach_init]) (simp add: attach_step_simps attach_new_def attach_tell_def)
  have 2: "attach_reachable () () [4 :: nat, 5] \<lparr>at_stream = [5], at_sent = [StreamStarted (), StreamNext 4],
     at_closed = False, at_phase = Feeding\<rparr>"
    by (rule more [OF 1]) (simp add: attach_step_simps attach_tell_def)
  have 3: "attach_reachable () () [4 :: nat, 5] \<lparr>at_stream = [5], at_sent = [StreamStarted (), StreamNext 4],
     at_closed = True, at_phase = Feeding\<rparr>"
    by (rule more [OF 2]) (simp add: attach_step_simps attach_tell_def)
  show ?thesis by (rule more [OF 3]) (simp add: attach_step_simps attach_tell_def)
qed

theorem attached_stream_loses_nothing_witness:
  "prefix [StreamStarted (), StreamNext (4 :: nat)] (attach_script () () [4, 5])"
  using attached_stream_loses_nothing [OF attach_run] by simp

text \<open>
  C16. The task of an attached stream makes at most one step for each item and three more, whatever the
  actor does meanwhile; and from every state in between it can go on to its end.
\<close>

theorem attached_task_ends:
  assumes "is_run (attach_step start finish) ss" and "ss \<noteq> []" and "hd ss = attach_new items"
  shows "count_steps attach_works ss \<le> length items + 3 \<and>
    (\<exists>s r. (attach_step start finish)\<^sup>*\<^sup>* (last ss) s \<and> at_phase s = Finished r)"
proof
  have inv: "attach_inv start finish items (hd ss)" using assms(3) by (simp add: attached.inv_first)
  show "count_steps attach_works ss \<le> length items + 3"
    using attached.work_bounded [OF assms(1,2) inv] assms(3) by (simp add: attach_new_def)
  have "attach_inv start finish items (last ss)"
    by (rule attached.runs_inv [OF run_reaches [OF assms(1,2)] inv])
  from attached.can_finish [OF this] obtain s where "(attach_step start finish)\<^sup>*\<^sup>* (last ss) s" "attach_rank s = 0"
    by blast
  then show "\<exists>s r. (attach_step start finish)\<^sup>*\<^sup>* (last ss) s \<and> at_phase s = Finished r"
    by (cases "at_phase s") auto
qed

theorem attached_task_ends_witness:
  "count_steps attach_works [attach_new [4 :: nat], attach_tell (StreamStarted ()) Feeding (attach_new [4])] \<le> 4 \<and>
   is_run (attach_step () ()) [attach_new [4 :: nat], attach_tell (StreamStarted ()) Feeding (attach_new [4])]"
proof
  show run: "is_run (attach_step () ()) [attach_new [4 :: nat], attach_tell (StreamStarted ()) Feeding (attach_new [4])]"
    by (simp add: attach_step_simps attach_new_def)
  show "count_steps attach_works [attach_new [4 :: nat], attach_tell (StreamStarted ()) Feeding (attach_new [4])] \<le> 4"
    using attached_task_ends [OF run, of "[4]"] by simp
qed

end
