(* ===== verification/Scheduler.thy ===== *)
theory Scheduler
  imports Actor_Ref
begin

text \<open>
  The scheduler actor (\<open>actors/src/scheduler.rs\<close>): messages sent once after a while or again and again,
  by background tasks that hold weak references only. Tokio's timers and its \<open>JoinSet\<close> are parameters.
\<close>

section \<open>Messages\<close>

text \<open>
  \<open>tokio::time::Interval\<close>: \<open>interval\<close> and \<open>interval_at\<close> unwind on a period of 0. \<open>tm_tick\<close> waits for
  the next tick; what happened to the world meanwhile is in its result, and \<open>None\<close> is a tick that
  never comes. Instants and durations are numbers.
\<close>

datatype missed_tick = TickBurst | TickDelay | TickSkip

record ('i, 'w) timer_ops =
  tm_interval :: "nat \<Rightarrow> nat \<Rightarrow> 'i outcome"
  tm_interval_at :: "nat \<Rightarrow> nat \<Rightarrow> 'i outcome"
  tm_period :: "'i \<Rightarrow> nat"
  tm_set_behaviour :: "missed_tick \<Rightarrow> 'i \<Rightarrow> 'i"
  tm_tick :: "'i \<Rightarrow> 'w \<Rightarrow> ('i \<times> 'w) option"
  tm_sleep_until :: "nat \<Rightarrow> 'w \<Rightarrow> 'w option"

record ('k, 'v) set_timeout =
  so_target :: "'k weak_actor_ref"
  so_deadline :: nat
  so_msg :: 'v

record ('k, 'i, 'v) set_interval =
  si_target :: "'k weak_actor_ref"
  si_interval :: 'i
  si_msg :: 'v

definition set_timeout_new :: "nat \<Rightarrow> 'k weak_actor_ref \<Rightarrow> nat \<Rightarrow> 'v \<Rightarrow> ('k, 'v) set_timeout" where
  "set_timeout_new now target duration msg = \<lparr>so_target = target, so_deadline = now + duration, so_msg = msg\<rparr>"

definition set_interval_new ::
  "('i, 'w) timer_ops \<Rightarrow> nat \<Rightarrow> 'k weak_actor_ref \<Rightarrow> nat \<Rightarrow> 'v \<Rightarrow> ('k, 'i, 'v) set_interval outcome" where
  "set_interval_new tm now target period msg =
    map_outcome (\<lambda>i. \<lparr>si_target = target, si_interval = i, si_msg = msg\<rparr>) (tm_interval tm now period)"

definition start_delay ::
  "('i, 'w) timer_ops \<Rightarrow> nat \<Rightarrow> nat \<Rightarrow> ('k, 'i, 'v) set_interval \<Rightarrow> ('k, 'i, 'v) set_interval outcome" where
  "start_delay tm now duration si =
    map_outcome (\<lambda>i. si\<lparr>si_interval := i\<rparr>) (tm_interval_at tm (now + duration) (tm_period tm (si_interval si)))"

definition set_missed_tick_behaviour ::
  "('i, 'w) timer_ops \<Rightarrow> missed_tick \<Rightarrow> ('k, 'i, 'v) set_interval \<Rightarrow> ('k, 'i, 'v) set_interval" where
  "set_missed_tick_behaviour tm behaviour si = si\<lparr>si_interval := tm_set_behaviour tm behaviour (si_interval si)\<rparr>"


section \<open>The background tasks\<close>

text \<open>
  The tasks run outside of every actor, so a message is never marked as sent within its target. A
  conversion that unwinds ends the task.
\<close>

definition timeout_task ::
  "('h, 'k, 'r, 'v signal, 'c) mpsc_send \<Rightarrow> bool \<Rightarrow> ('i, 'c mailbox_state) timer_ops \<Rightarrow> type_id \<Rightarrow> ('k, 'v) set_timeout
    \<Rightarrow> 'c mailbox_state \<Rightarrow> 'c mailbox_state option" where
  "timeout_task ops metrics tm t so st =
    Option.bind (tm_sleep_until tm (so_deadline so) st) (\<lambda>st.
      case actor_upgrade ops (so_target so) (mb_chan st) of
        (None, c) \<Rightarrow> Some (st\<lparr>mb_chan := c\<rparr>)
      | (Some target, c) \<Rightarrow>
          map_option (snd :: (unit, ('v, unit) send_error) result outcome \<times> _ \<Rightarrow> _)
            (tell_send ops metrics None target t (so_msg so) None (st\<lparr>mb_chan := c\<rparr>)))"

text \<open>One turn after a tick: whether the task returns, and the world.\<close>

fun interval_over :: "(unit, ('v, unit) send_error) result outcome \<Rightarrow> bool" where
  "interval_over (Done (Err (ActorNotRunning _))) = True"
| "interval_over (Done (Err ActorStopped)) = True"
| "interval_over Panicked = True"
| "interval_over _ = False"

definition interval_turn ::
  "('h, 'k, 'r, 'v signal, 'c) mpsc_send \<Rightarrow> bool \<Rightarrow> type_id \<Rightarrow> 'k weak_actor_ref \<Rightarrow> 'v
    \<Rightarrow> 'c mailbox_state \<Rightarrow> (bool \<times> 'c mailbox_state) option" where
  "interval_turn ops metrics t target msg st =
    (case actor_upgrade ops target (mb_chan st) of
       (None, c) \<Rightarrow> Some (True, st\<lparr>mb_chan := c\<rparr>)
     | (Some target, c) \<Rightarrow>
         map_option (map_prod interval_over id) (tell_send ops metrics None target t msg None (st\<lparr>mb_chan := c\<rparr>)))"

partial_function (option) interval_task ::
  "('h, 'k, 'r, 'v signal, 'c) mpsc_send \<Rightarrow> bool \<Rightarrow> ('i, 'c mailbox_state) timer_ops \<Rightarrow> type_id
    \<Rightarrow> ('k, 'i, 'v) set_interval \<Rightarrow> 'c mailbox_state \<Rightarrow> 'c mailbox_state option" where
  "interval_task ops metrics tm t si st =
    Option.bind (tm_tick tm (si_interval si) st) (\<lambda>(i, st).
      Option.bind (interval_turn ops metrics t (si_target si) (si_msg si) st) (\<lambda>(over, st).
        if over then Some st else interval_task ops metrics tm t (si\<lparr>si_interval := i\<rparr>) st))"


section \<open>The actor\<close>

text \<open>
  \<open>JoinSet\<close> and \<open>select!\<close>: \<open>js_select\<close> takes the branch that is ready, a signal from the mailbox or a
  task that ended, however it ended. \<open>None\<close> is a wait without end.
\<close>

datatype ('k, 'i, 'v) scheduled = TimeoutTask "('k, 'v) set_timeout" | IntervalTask "('k, 'i, 'v) set_interval"

record ('j, 'a, 't, 's, 'w) join_set_ops =
  js_new :: 'j
  js_is_empty :: "'j \<Rightarrow> bool"
  js_spawn :: "'t \<Rightarrow> 'j \<Rightarrow> 'a \<times> 'j"
  js_select :: "'j \<Rightarrow> 'w \<Rightarrow> (('s option + 'j) \<times> 'w) option"

record 'j scheduler =
  sd_tasks :: 'j

definition scheduler_new :: "('j, 'a, 't, 's, 'w) join_set_ops \<Rightarrow> 'j scheduler" where
  "scheduler_new js = \<lparr>sd_tasks = js_new js\<rparr>"

partial_function (option) scheduler_next ::
  "('j, 'a, 't, 's, 'w) join_set_ops \<Rightarrow> ('w \<Rightarrow> ('s option \<times> 'w) option) \<Rightarrow> 'j scheduler \<Rightarrow> 'w
    \<Rightarrow> ('s option \<times> 'j scheduler \<times> 'w) option" where
  "scheduler_next js recv sd w =
    (if js_is_empty js (sd_tasks sd) then map_option (\<lambda>(signal, w). (signal, sd, w)) (recv w)
     else Option.bind (js_select js (sd_tasks sd) w) (\<lambda>(ready, w).
       case ready of
         Inl signal \<Rightarrow> Some (signal, sd, w)
       | Inr tasks \<Rightarrow> scheduler_next js recv (sd\<lparr>sd_tasks := tasks\<rparr>) w))"

definition handle_set_timeout ::
  "('j, 'a, ('k, 'i, 'v) scheduled, 's, 'w) join_set_ops \<Rightarrow> ('k, 'v) set_timeout \<Rightarrow> 'j scheduler \<Rightarrow> 'a \<times> 'j scheduler" where
  "handle_set_timeout js so sd = (let (handle, tasks) = js_spawn js (TimeoutTask so) (sd_tasks sd) in (handle, sd\<lparr>sd_tasks := tasks\<rparr>))"

definition handle_set_interval ::
  "('j, 'a, ('k, 'i, 'v) scheduled, 's, 'w) join_set_ops \<Rightarrow> ('k, 'i, 'v) set_interval \<Rightarrow> 'j scheduler \<Rightarrow> 'a \<times> 'j scheduler" where
  "handle_set_interval js si sd = (let (handle, tasks) = js_spawn js (IntervalTask si) (sd_tasks sd) in (handle, sd\<lparr>sd_tasks := tasks\<rparr>))"

text \<open>What a spawned task does.\<close>

fun run_scheduled ::
  "('h, 'k, 'r, 'v signal, 'c) mpsc_send \<Rightarrow> bool \<Rightarrow> ('i, 'c mailbox_state) timer_ops \<Rightarrow> type_id
    \<Rightarrow> ('k, 'i, 'v) scheduled \<Rightarrow> 'c mailbox_state \<Rightarrow> 'c mailbox_state option" where
  "run_scheduled ops metrics tm t (TimeoutTask so) st = timeout_task ops metrics tm t so st"
| "run_scheduled ops metrics tm t (IntervalTask si) st = interval_task ops metrics tm t si st"

section \<open>Properties\<close>

text \<open>
  One turn of an interval task: if the target is gone nothing is sent and the task ends. If it is
  still referenced, the message is offered to its mailbox as one sent from outside, and the task ends
  exactly when the answer is that the actor is not running; it never unwinds.
\<close>

theorem interval_turn_spec:
  assumes "gives_back ops" and "interval_turn ops metrics t target msg st = Some (over, st')"
  shows "case actor_upgrade ops target (mb_chan st) of
      (None, c) \<Rightarrow> over \<and> st' = st\<lparr>mb_chan := c\<rparr>
    | (Some ar, c) \<Rightarrow> (\<exists>r :: (unit, ('v, unit) send_error) result.
        put ops metrics t ar (MessageSignal (Any t msg) (ar_id ar) None False) None (st\<lparr>mb_chan := c\<rparr>) = Some (Done r, st') \<and>
        (over \<longleftrightarrow> r = Err (ActorNotRunning msg)))"
proof (cases "actor_upgrade ops target (mb_chan st)")
  case (Pair up c)
  show ?thesis
  proof (cases up)
    case None
    then show ?thesis using assms(2) Pair by (simp add: interval_turn_def)
  next
    case (Some ar)
    obtain r :: "(unit, ('v, unit) send_error) result outcome" where
      tell: "tell_send ops metrics None ar t msg None (st\<lparr>mb_chan := c\<rparr>) = Some (r, st')"
      and over: "over = interval_over r"
      using assms(2) Pair Some by (auto simp: interval_turn_def)
    have "put_result t t msg r"
      using put_cases [OF assms(1) tell [unfolded tell_send_def]] .
    then obtain res where res: "r = Done res" "interval_over (Done res) = (res = Err (ActorNotRunning msg))"
      by (auto simp: put_result_def)
    then show ?thesis
      using tell over Pair Some by (simp add: tell_send_def request_signal_def is_current_def)
  qed
qed

theorem interval_turn_spec_witness:
  "interval_turn one_channel False TyUnit \<lparr>wr_id = ActorId 1, wr_mailbox = WeakBounded ()\<rparr> (5 :: nat) closed_mailbox
    = Some (True, closed_mailbox) \<and>
   put one_channel False TyUnit \<lparr>ar_id = ActorId 1, ar_mailbox = Bounded ()\<rparr>
      (MessageSignal (Any TyUnit (5 :: nat)) (ActorId 1) None False) None closed_mailbox
    = Some (Done (Err (ActorNotRunning 5) :: (unit, (nat, unit) send_error) result), closed_mailbox)"
proof
  show 1: "interval_turn one_channel False TyUnit \<lparr>wr_id = ActorId 1, wr_mailbox = WeakBounded ()\<rparr> (5 :: nat) closed_mailbox
    = Some (True, closed_mailbox)"
    by (simp add: interval_turn_def actor_upgrade_def weak_upgrade_def tell_send_def closed_mailbox_simps
        request_signal_def from_mpsc_send_error_def)
  show "put one_channel False TyUnit \<lparr>ar_id = ActorId 1, ar_mailbox = Bounded ()\<rparr>
      (MessageSignal (Any TyUnit (5 :: nat)) (ActorId 1) None False) None closed_mailbox
    = Some (Done (Err (ActorNotRunning 5) :: (unit, (nat, unit) send_error) result), closed_mailbox)"
    using interval_turn_spec [OF gives_back_one_channel 1]
    by (simp add: actor_upgrade_def weak_upgrade_def one_channel_def Let_def)
qed

text \<open>One turn of the loop.\<close>

lemma interval_task_unfold:
  assumes "tm_tick tm (si_interval si) st = Some (i, st1)"
    and "interval_turn ops metrics t (si_target si) (si_msg si) st1 = Some (over, st2)"
  shows "interval_task ops metrics tm t si st =
    (if over then Some st2 else interval_task ops metrics tm t (si\<lparr>si_interval := i\<rparr>) st2)"
  by (subst interval_task.simps) (simp add: assms)

text \<open>
  C34. An interval does not keep its task alive: if ticks go on, sends return, and from some tick on
  the target cannot be upgraded any more, then the task returns.
\<close>

theorem interval_stops_with_target:
  assumes "\<And>i st. \<exists>i' st'. tm_tick tm i st = Some (i', st') \<and> clock st' = Suc (clock st)"
    and "\<And>st. \<exists>over st'. interval_turn ops metrics t target msg st = Some (over, st') \<and> clock st' = clock st"
    and "\<And>st. last_tick \<le> clock st \<Longrightarrow> fst (actor_upgrade ops target (mb_chan st)) = None"
  shows "\<exists>st'. interval_task ops metrics tm t \<lparr>si_target = target, si_interval = i, si_msg = msg\<rparr> st = Some st'"
proof (induction "last_tick - clock st" arbitrary: i st rule: less_induct)
  case less
  obtain i1 st1 where tick: "tm_tick tm i st = Some (i1, st1)" "clock st1 = Suc (clock st)"
    using assms(1) by blast
  obtain over st2 where turn: "interval_turn ops metrics t target msg st1 = Some (over, st2)" "clock st2 = clock st1"
    using assms(2) by blast
  have step: "interval_task ops metrics tm t \<lparr>si_target = target, si_interval = i, si_msg = msg\<rparr> st =
      (if over then Some st2 else interval_task ops metrics tm t \<lparr>si_target = target, si_interval = i1, si_msg = msg\<rparr> st2)"
    using interval_task_unfold [of tm "\<lparr>si_target = target, si_interval = i, si_msg = msg\<rparr>" st i1 st1 ops metrics t over st2]
      tick(1) turn(1) by simp
  show ?case
  proof (cases "last_tick \<le> clock st1")
    case True
    then have over
      using assms(3) [OF True] turn(1)
      by (cases "actor_upgrade ops target (mb_chan st1)") (simp add: interval_turn_def)
    then show ?thesis by (simp add: step)
  next
    case False
    then show ?thesis using less tick(2) turn(2) by (simp add: step)
  qed
qed

text \<open>A mailbox whose capacity counts the ticks, and whose last strong reference goes at the third.\<close>

definition ticking :: "(nat, 'v signal chan mailbox_state) timer_ops" where
  "ticking = \<lparr>tm_interval = (\<lambda>now p. if p = 0 then Panicked else Done p), tm_interval_at = (\<lambda>at p. if p = 0 then Panicked else Done p),
     tm_period = (\<lambda>i. i), tm_set_behaviour = (\<lambda>_ i. i),
     tm_tick = (\<lambda>i st. Some (i, st\<lparr>mb_chan := (mb_chan st)\<lparr>ch_capacity := Suc (ch_capacity (mb_chan st))\<rparr>\<rparr>)),
     tm_sleep_until = (\<lambda>_ st. Some st)\<rparr>"

definition dying_channel :: "(unit, unit, unit, 's, 's chan) mpsc_send" where
  "dying_channel = one_channel\<lparr>mp_upgrade := (\<lambda>k c. (if ch_capacity c < 3 then Some () else None, c))\<rparr>"

theorem interval_stops_with_target_witness:
  "\<exists>st'. interval_task dying_channel False ticking TyUnit
      \<lparr>si_target = \<lparr>wr_id = ActorId 1, wr_mailbox = WeakUnbounded ()\<rparr>, si_interval = 7, si_msg = 5 :: nat\<rparr> closed_mailbox = Some st'"
proof (rule interval_stops_with_target [where clock = "\<lambda>st. ch_capacity (mb_chan st)" and last_tick = 3])
  fix i and st :: "nat signal chan mailbox_state"
  show "\<exists>i' st'. tm_tick ticking i st = Some (i', st') \<and> ch_capacity (mb_chan st') = Suc (ch_capacity (mb_chan st))"
    by (simp add: ticking_def)
next
  fix st :: "nat signal chan mailbox_state"
  show "\<exists>over st'. interval_turn dying_channel False TyUnit \<lparr>wr_id = ActorId 1, wr_mailbox = WeakUnbounded ()\<rparr> 5 st = Some (over, st')
      \<and> ch_capacity (mb_chan st') = ch_capacity (mb_chan st)"
    by (auto simp: interval_turn_def actor_upgrade_def weak_upgrade_def dying_channel_def one_channel_def tell_send_def put_def
        mailbox_send_def after_send_def chan_put_def Let_def)
next
  fix st :: "nat signal chan mailbox_state"
  assume "3 \<le> ch_capacity (mb_chan st)"
  then show "fst (actor_upgrade dying_channel \<lparr>wr_id = ActorId 1, wr_mailbox = WeakUnbounded ()\<rparr> (mb_chan st)) = None"
    by (simp add: actor_upgrade_def weak_upgrade_def dying_channel_def Let_def)
qed

text \<open>
  The scheduler hears of its mailbox whatever its tasks do: if each wait returns, and a wait that
  joins a task leaves one less, \<open>next\<close> returns after at most as many joins as there were tasks, with
  what the mailbox gave.
\<close>

theorem scheduler_next_returns:
  assumes "\<And>j. js_is_empty js j \<longleftrightarrow> tasks_left j = (0 :: nat)"
    and "\<And>w. \<exists>s w'. recv w = Some (s, w')"
    and "\<And>j w. tasks_left j \<noteq> 0 \<Longrightarrow> \<exists>x w'. js_select js j w = Some (x, w') \<and>
      (case x of Inl s \<Rightarrow> \<exists>v. recv v = Some (s, w') | Inr j' \<Rightarrow> tasks_left j = Suc (tasks_left j'))"
  shows "\<exists>signal sd' w'. scheduler_next js recv sd w = Some (signal, sd', w') \<and>
    tasks_left (sd_tasks sd') \<le> tasks_left (sd_tasks sd) \<and> (\<exists>v. recv v = Some (signal, w'))"
proof (induction "tasks_left (sd_tasks sd)" arbitrary: sd w)
  case 0
  obtain s w' where "recv w = Some (s, w')" using assms(2) by blast
  then show ?case
    using 0 by (subst scheduler_next.simps) (auto simp: assms(1))
next
  case (Suc n)
  obtain x w1 where x: "js_select js (sd_tasks sd) w = Some (x, w1)"
    "case x of Inl s \<Rightarrow> \<exists>v. recv v = Some (s, w1) | Inr j' \<Rightarrow> tasks_left (sd_tasks sd) = Suc (tasks_left j')"
    using assms(3) [of "sd_tasks sd" w] Suc.hyps(2) by auto
  have step: "scheduler_next js recv sd w =
      (case x of Inl signal \<Rightarrow> Some (signal, sd, w1) | Inr tasks \<Rightarrow> scheduler_next js recv (sd\<lparr>sd_tasks := tasks\<rparr>) w1)"
    using Suc.hyps(2) by (subst scheduler_next.simps) (simp add: assms(1) x)
  show ?case
  proof (cases x)
    case (Inl s)
    then show ?thesis using x by (auto simp: step)
  next
    case (Inr j)
    then have "tasks_left j = n" using x Suc.hyps(2) by simp
    then obtain signal sd' w' where
      "scheduler_next js recv (sd\<lparr>sd_tasks := j\<rparr>) w1 = Some (signal, sd', w')"
      "tasks_left (sd_tasks sd') \<le> n" "\<exists>v. recv v = Some (signal, w')"
      using Suc.hyps(1) [of "sd\<lparr>sd_tasks := j\<rparr>" w1] by auto
    then show ?thesis using Suc.hyps(2) Inr by (auto simp: step intro!: exI)
  qed
qed

text \<open>A set of two tasks that are over when the scheduler looks, and a mailbox with a stop in it.\<close>

definition counted_tasks :: "(nat, nat, unit, nat signal, nat signal list) join_set_ops" where
  "counted_tasks = \<lparr>js_new = 0, js_is_empty = (\<lambda>j. j = 0), js_spawn = (\<lambda>_ j. (j, Suc j)),
     js_select = (\<lambda>j w. Some (if j = 0 then Inl None else Inr (j - 1), w))\<rparr>"

theorem scheduler_next_returns_witness:
  "\<exists>signal sd' w'. scheduler_next counted_tasks (\<lambda>w. Some (case w of [] \<Rightarrow> (None, []) | s # w \<Rightarrow> (Some s, w))) \<lparr>sd_tasks = 2\<rparr> [Stop]
    = Some (signal, sd', w') \<and> sd_tasks sd' \<le> 2"
proof -
  note returns = scheduler_next_returns [of counted_tasks "\<lambda>j. j" "\<lambda>w. Some (case w of [] \<Rightarrow> (None, []) | s # w \<Rightarrow> (Some s, w))"
      "\<lparr>sd_tasks = 2\<rparr>" "[Stop]"]
  have "\<exists>s w'. Some (case w of [] \<Rightarrow> (None, []) | s # w \<Rightarrow> (Some s, w)) = Some (s, w')" for w :: "nat signal list"
    by (cases w) simp_all
  then show ?thesis
    using returns by (fastforce simp: counted_tasks_def split: list.splits)
qed

text \<open>
  The order of the two settings of an interval matters: a start delay given after the behaviour
  for missed ticks puts the default behaviour back, since it makes a new interval; given before, both
  hold. (\<open>behaviour\<close> reads what tokio's interval was set to.)
\<close>

theorem start_delay_resets_behaviour:
  fixes behaviour :: "'i \<Rightarrow> missed_tick"
  assumes "\<And>b i. behaviour (tm_set_behaviour tm b i) = b \<and> tm_period tm (tm_set_behaviour tm b i) = tm_period tm i"
    and "\<And>at p i. tm_interval_at tm at p = Done i \<Longrightarrow> behaviour i = TickBurst"
    and "\<And>at p. p \<noteq> 0 \<Longrightarrow> \<exists>i. tm_interval_at tm at p = Done i"
    and "tm_period tm (si_interval si) \<noteq> 0"
  shows "\<exists>late early.
    start_delay tm now duration (set_missed_tick_behaviour tm b si) = Done late \<and> behaviour (si_interval late) = TickBurst \<and>
    map_outcome (set_missed_tick_behaviour tm b) (start_delay tm now duration si) = Done early \<and> behaviour (si_interval early) = b"
proof -
  obtain i where "tm_interval_at tm (now + duration) (tm_period tm (si_interval si)) = Done i"
    using assms(3,4) by blast
  then show ?thesis
    using assms(1,2) by (simp add: start_delay_def set_missed_tick_behaviour_def)
qed

definition marked_timers :: "(missed_tick \<times> nat, unit) timer_ops" where
  "marked_timers = \<lparr>tm_interval = (\<lambda>now p. if p = 0 then Panicked else Done (TickBurst, p)),
     tm_interval_at = (\<lambda>at p. if p = 0 then Panicked else Done (TickBurst, p)), tm_period = snd,
     tm_set_behaviour = (\<lambda>b i. (b, snd i)), tm_tick = (\<lambda>i w. Some (i, w)), tm_sleep_until = (\<lambda>_ w. Some w)\<rparr>"

theorem start_delay_resets_behaviour_witness:
  "\<exists>late early.
    start_delay marked_timers 0 9 (set_missed_tick_behaviour marked_timers TickSkip
      \<lparr>si_target = \<lparr>wr_id = ActorId 1, wr_mailbox = WeakBounded ()\<rparr>, si_interval = (TickBurst, 100), si_msg = ()\<rparr>) = Done late
      \<and> fst (si_interval late) = TickBurst \<and>
    map_outcome (set_missed_tick_behaviour marked_timers TickSkip) (start_delay marked_timers 0 9
      \<lparr>si_target = \<lparr>wr_id = ActorId 1, wr_mailbox = WeakBounded ()\<rparr>, si_interval = (TickBurst, 100), si_msg = ()\<rparr>) = Done early
      \<and> fst (si_interval early) = TickSkip"
  by (rule start_delay_resets_behaviour) (auto simp: marked_timers_def split: if_splits)

end
