(* ===== verification/Remote_Link.thy ===== *)
theory Remote_Link
  imports Mailbox
begin

text \<open>
  Links from local actors to actors of other nodes (\<open>src/remote/remote_link.rs\<close>): a table of
  links by the address of the peer, the address each peer identifier was last seen at, and the
  local actors that are linked to every peer that connects. When the connection to a peer is lost,
  its links are taken out of the table and each local actor is sent a \<open>LinkDied\<close> signal.

  Addresses, peer identifiers and mailboxes are type variables; the mailboxes are reached through
  the record of the two signals the component sends.
\<close>

section \<open>State\<close>

text \<open>The part of the trait \<open>SignalMailbox\<close> that the component calls.\<close>

record ('h, 'v, 'c) signal_mailbox =
  sm_link_died :: "'h \<Rightarrow> actor_id \<Rightarrow> 'v stop_reason \<Rightarrow> 'c \<Rightarrow> ((unit, (unit, unit) send_error) result \<times> 'c) option"
  sm_link_established :: "'h \<Rightarrow> actor_id \<Rightarrow> 'c \<Rightarrow> ((unit, (unit, unit) send_error) result \<times> 'c) option"

text \<open>The weak mailboxes an \<open>ActorRef\<close> hands out.\<close>

definition weak_signals ::
  "('h, 'k, 'r, 'v signal, 'c) mpsc_send \<Rightarrow> ('k weak_mailbox_sender, 'v, 'c) signal_mailbox" where
  "weak_signals ops =
    \<lparr>sm_link_died = weak_signal_link_died ops, sm_link_established = weak_signal_link_established ops\<rparr>"

type_synonym 'h remote_actor_links = "(actor_id, (actor_id, 'h) hash_map) hash_map"

record 'h link_intent =
  li_actor :: actor_id
  li_mailbox :: 'h

text \<open>
  The two statics of the module. A \<open>LinkEstablished\<close> signal is sent by a task of its own;
  \<open>rl_tasks\<close> holds the tasks that were spawned, in the order they were.
\<close>

record ('a, 'p, 'h) remote_links =
  rl_links_by_peer :: "('a, 'h remote_actor_links) hash_map"
  rl_peer_id_to_addr :: "('p, 'a) hash_map"
  rl_intents :: "(string, 'h link_intent list) hash_map"
  rl_tasks :: "('h \<times> actor_id) list"

definition remote_links_new :: "('a, 'p, 'h) remote_links" where
  "remote_links_new = \<lparr>rl_links_by_peer = [], rl_peer_id_to_addr = [], rl_intents = [], rl_tasks = []\<rparr>"


section \<open>Operations\<close>

text \<open>An entry that is found makes both \<open>entry\<close> calls find theirs, so nothing was inserted.\<close>

definition registry_link ::
  "'a \<Rightarrow> actor_id \<Rightarrow> actor_id \<Rightarrow> 'h \<Rightarrow> ('a, 'p, 'h) remote_links \<Rightarrow> bool \<times> ('a, 'p, 'h) remote_links" where
  "registry_link peer_addr remote_actor_id local_actor_id local_mailbox r =
    (let by_actor = entry_or [] (rl_links_by_peer r) peer_addr;
         locals = entry_or [] by_actor remote_actor_id
     in if hm_contains locals local_actor_id then (False, r)
        else (True, r\<lparr>rl_links_by_peer :=
          hm_insert peer_addr
            (hm_insert remote_actor_id (hm_insert local_actor_id local_mailbox locals) by_actor)
            (rl_links_by_peer r)\<rparr>))"

definition registry_link_with_peer_id ::
  "'p \<Rightarrow> 'a \<Rightarrow> actor_id \<Rightarrow> actor_id \<Rightarrow> 'h \<Rightarrow> ('a, 'p, 'h) remote_links \<Rightarrow> bool \<times> ('a, 'p, 'h) remote_links" where
  "registry_link_with_peer_id peer_id peer_addr remote_actor_id local_actor_id local_mailbox r =
    registry_link peer_addr remote_actor_id local_actor_id local_mailbox
      (r\<lparr>rl_peer_id_to_addr := hm_insert peer_id peer_addr (rl_peer_id_to_addr r)\<rparr>)"

definition registry_unlink ::
  "'a \<Rightarrow> actor_id \<Rightarrow> actor_id \<Rightarrow> ('a, 'p, 'h) remote_links \<Rightarrow> ('a, 'p, 'h) remote_links" where
  "registry_unlink peer_addr remote_actor_id local_actor_id r =
    (case hm_get (rl_links_by_peer r) peer_addr of
       None \<Rightarrow> r
     | Some by_actor \<Rightarrow>
         (case hm_get by_actor remote_actor_id of
            None \<Rightarrow> r
          | Some locals \<Rightarrow>
              (let locals = hm_remove local_actor_id locals;
                   by_actor = (if locals = [] then hm_remove remote_actor_id by_actor
                               else hm_insert remote_actor_id locals by_actor)
               in r\<lparr>rl_links_by_peer :=
                    (if by_actor = [] then hm_remove peer_addr (rl_links_by_peer r)
                     else hm_insert peer_addr by_actor (rl_links_by_peer r))\<rparr>)))"

definition take_peer_links_by_addr ::
  "'a \<Rightarrow> ('a, 'p, 'h) remote_links \<Rightarrow> 'h remote_actor_links option \<times> ('a, 'p, 'h) remote_links" where
  "take_peer_links_by_addr peer_addr r =
    (hm_get (rl_links_by_peer r) peer_addr,
     r\<lparr>rl_links_by_peer := hm_remove peer_addr (rl_links_by_peer r)\<rparr>)"

definition take_peer_links_by_id ::
  "'p \<Rightarrow> ('a, 'p, 'h) remote_links \<Rightarrow> 'h remote_actor_links option \<times> ('a, 'p, 'h) remote_links" where
  "take_peer_links_by_id peer_id r =
    (case hm_get (rl_peer_id_to_addr r) peer_id of
       None \<Rightarrow> (None, r)
     | Some peer_addr \<Rightarrow>
         take_peer_links_by_addr peer_addr
           (r\<lparr>rl_peer_id_to_addr := hm_remove peer_id (rl_peer_id_to_addr r)\<rparr>))"

text \<open>
  \<open>signal_link_established\<close> spawns the task that sends the signal, and an error is only logged. This is
  the call inside a runtime; outside one the same signal is sent in place.
\<close>

definition spawn_link_established ::
  "'h \<Rightarrow> actor_id \<Rightarrow> ('a, 'p, 'h) remote_links \<Rightarrow> ('a, 'p, 'h) remote_links" where
  "spawn_link_established local_mailbox remote_actor_id r =
    r\<lparr>rl_tasks := rl_tasks r @ [(local_mailbox, remote_actor_id)]\<rparr>"

definition remote_link ::
  "'a \<Rightarrow> actor_id \<Rightarrow> actor_id \<Rightarrow> 'h \<Rightarrow> ('a, 'p, 'h) remote_links \<Rightarrow> ('a, 'p, 'h) remote_links" where
  "remote_link peer_addr remote_actor_id local_actor_id local_mailbox r =
    (let (inserted, r) = registry_link peer_addr remote_actor_id local_actor_id local_mailbox r
     in if inserted then spawn_link_established local_mailbox remote_actor_id r else r)"

definition remote_link_with_peer_id ::
  "'p \<Rightarrow> 'a \<Rightarrow> actor_id \<Rightarrow> actor_id \<Rightarrow> 'h \<Rightarrow> ('a, 'p, 'h) remote_links \<Rightarrow> ('a, 'p, 'h) remote_links" where
  "remote_link_with_peer_id peer_id peer_addr remote_actor_id local_actor_id local_mailbox r =
    (let (inserted, r) =
       registry_link_with_peer_id peer_id peer_addr remote_actor_id local_actor_id local_mailbox r
     in if inserted then spawn_link_established local_mailbox remote_actor_id r else r)"

definition register_local_actor ::
  "string \<Rightarrow> actor_id \<Rightarrow> 'h \<Rightarrow> ('a, 'p, 'h) remote_links \<Rightarrow> ('a, 'p, 'h) remote_links" where
  "register_local_actor name local_actor_id mailbox r =
    r\<lparr>rl_intents := hm_insert name
        (entry_or [] (rl_intents r) name @ [\<lparr>li_actor = local_actor_id, li_mailbox = mailbox\<rparr>])
        (rl_intents r)\<rparr>"

text \<open>
  The identifier a peer's links are made with: the first eight bytes of the peer identifier,
  little endian. Slicing fewer than eight bytes unwinds.
\<close>

definition peer_actor_id :: "('p \<Rightarrow> bytes) \<Rightarrow> 'p \<Rightarrow> actor_id outcome" where
  "peer_actor_id to_bytes peer_id =
    (if length (to_bytes peer_id) < 8 then Panicked
     else Done (actor_id_from_u64 (le_word (take 8 (to_bytes peer_id)))))"

fun link_intents ::
  "'p \<Rightarrow> 'a \<Rightarrow> actor_id \<Rightarrow> 'h link_intent list \<Rightarrow> ('a, 'p, 'h) remote_links \<Rightarrow> ('a, 'p, 'h) remote_links" where
  "link_intents peer_id peer_addr remote_actor_id [] r = r"
| "link_intents peer_id peer_addr remote_actor_id (i # is) r =
    link_intents peer_id peer_addr remote_actor_id is
      (remote_link_with_peer_id peer_id peer_addr remote_actor_id (li_actor i) (li_mailbox i) r)"

definition auto_link_peer ::
  "('p \<Rightarrow> bytes) \<Rightarrow> 'a \<Rightarrow> 'p \<Rightarrow> ('a, 'p, 'h) remote_links \<Rightarrow> ('a, 'p, 'h) remote_links outcome" where
  "auto_link_peer to_bytes peer_addr peer_id r =
    (let r = r\<lparr>rl_peer_id_to_addr := hm_insert peer_id peer_addr (rl_peer_id_to_addr r)\<rparr>;
         intents = rl_intents r
     in if intents = [] then Done r
        else map_outcome
          (\<lambda>remote_actor_id. link_intents peer_id peer_addr remote_actor_id (concat (map snd intents)) r)
          (peer_actor_id to_bytes peer_id))"

text \<open>
  The notices: each is awaited before the next one is sent, and its result is ignored. \<open>None\<close> is
  a notice that waits for ever in a full mailbox nobody reads.
\<close>

fun notify_locals ::
  "('h, 'v, 'c) signal_mailbox \<Rightarrow> actor_id \<Rightarrow> (actor_id \<times> 'h) list \<Rightarrow> 'c \<Rightarrow> 'c option" where
  "notify_locals sm remote_actor_id [] c = Some c"
| "notify_locals sm remote_actor_id ((_, mailbox) # ls) c =
    Option.bind (sm_link_died sm mailbox remote_actor_id PeerDisconnected c)
      (\<lambda>(_, c). notify_locals sm remote_actor_id ls c)"

fun notify_links :: "('h, 'v, 'c) signal_mailbox \<Rightarrow> 'h remote_actor_links \<Rightarrow> 'c \<Rightarrow> 'c option" where
  "notify_links sm [] c = Some c"
| "notify_links sm ((remote_actor_id, locals) # ls) c =
    Option.bind (notify_locals sm remote_actor_id locals c) (notify_links sm ls)"

definition notify_taken ::
  "('h, 'v, 'c) signal_mailbox \<Rightarrow> 'h remote_actor_links option \<times> ('a, 'p, 'h) remote_links \<Rightarrow> 'c
    \<Rightarrow> ('a, 'p, 'h) remote_links \<times> 'c option" where
  "notify_taken sm taken c =
    (case taken of
       (None, r) \<Rightarrow> (r, Some c)
     | (Some by_actor, r) \<Rightarrow> (r, notify_links sm by_actor c))"

definition notify_peer_disconnected_by_id ::
  "('h, 'v, 'c) signal_mailbox \<Rightarrow> 'p \<Rightarrow> ('a, 'p, 'h) remote_links \<Rightarrow> 'c
    \<Rightarrow> ('a, 'p, 'h) remote_links \<times> 'c option" where
  "notify_peer_disconnected_by_id sm peer_id r c = notify_taken sm (take_peer_links_by_id peer_id r) c"

definition notify_peer_disconnected_by_addr ::
  "('h, 'v, 'c) signal_mailbox \<Rightarrow> 'a \<Rightarrow> ('a, 'p, 'h) remote_links \<Rightarrow> 'c
    \<Rightarrow> ('a, 'p, 'h) remote_links \<times> 'c option" where
  "notify_peer_disconnected_by_addr sm peer_addr r c =
    notify_taken sm (take_peer_links_by_addr peer_addr r) c"


section \<open>The table as a relation\<close>

text \<open>
  What the nested maps mean: the mailbox a local actor is notified through when the peer at an
  address goes away. The operations are updates of this function at one point, or at one address.
\<close>

definition link_at :: "('a, 'p, 'h) remote_links \<Rightarrow> 'a \<Rightarrow> actor_id \<Rightarrow> actor_id \<Rightarrow> 'h option" where
  "link_at r peer_addr remote_id local_id =
    hm_get (entry_or [] (entry_or [] (rl_links_by_peer r) peer_addr) remote_id) local_id"

definition by_actor_ok :: "'h remote_actor_links \<Rightarrow> bool" where
  "by_actor_ok b \<longleftrightarrow> b \<noteq> [] \<and> hm_wf b \<and> hm_all (\<lambda>_ l. l \<noteq> [] \<and> hm_wf l) b"

definition remote_links_ok :: "('a, 'p, 'h) remote_links \<Rightarrow> bool" where
  "remote_links_ok r \<longleftrightarrow> hm_wf (rl_links_by_peer r) \<and> hm_all (\<lambda>_. by_actor_ok) (rl_links_by_peer r) \<and>
    hm_wf (rl_peer_id_to_addr r) \<and> hm_wf (rl_intents r)"

named_theorems rl_simps \<open>how the operations change the link table and the address table\<close>

lemmas entry_or_simps [rl_simps] = entry_or_insert entry_or_remove

lemma link_at_registry_link [rl_simps]:
  "link_at (snd (registry_link a x y h r)) a' x' y' =
    (if a' = a \<and> x' = x \<and> y' = y \<and> link_at r a x y = None then Some h else link_at r a' x' y')"
  by (auto simp: registry_link_def link_at_def Let_def rl_simps set_hm_keys)

lemma registry_link_inserted [rl_simps]: "fst (registry_link a x y h r) \<longleftrightarrow> link_at r a x y = None"
  by (auto simp: registry_link_def link_at_def Let_def set_hm_keys)

lemma registry_link_addr [rl_simps]:
  "rl_peer_id_to_addr (snd (registry_link a x y h r)) = rl_peer_id_to_addr r"
  "rl_intents (snd (registry_link a x y h r)) = rl_intents r"
  "rl_tasks (snd (registry_link a x y h r)) = rl_tasks r"
  by (simp_all add: registry_link_def Let_def)

lemma link_at_update [rl_simps]:
  "link_at (r\<lparr>rl_peer_id_to_addr := m\<rparr>) = link_at r"
  "link_at (r\<lparr>rl_intents := is\<rparr>) = link_at r"
  "link_at (r\<lparr>rl_tasks := ts\<rparr>) = link_at r"
  by (intro ext, simp add: link_at_def)+

lemma link_at_unlink [rl_simps]:
  "link_at (registry_unlink a x y r) a' x' y' =
    (if a' = a \<and> x' = x \<and> y' = y then None else link_at r a' x' y')"
proof (cases "hm_get (rl_links_by_peer r) a")
  case None
  then show ?thesis by (auto simp: registry_unlink_def link_at_def entry_or_def)
next
  case (Some b)
  show ?thesis
  proof (cases "hm_get b x")
    case None
    then show ?thesis using Some by (auto simp: registry_unlink_def link_at_def entry_or_def)
  next
    case (Some l)
    define l' where "l' = hm_remove y l"
    define b' where "b' = (if l' = [] then hm_remove x b else hm_insert x l' b)"
    have l': "entry_or [] b' x' = (if x' = x then l' else entry_or [] b x')" for x'
      by (simp add: b'_def rl_simps)
    have b': "entry_or [] (rl_links_by_peer (registry_unlink a x y r)) a' =
        (if a' = a then b' else entry_or [] (rl_links_by_peer r) a')" for a'
      using \<open>hm_get (rl_links_by_peer r) a = Some b\<close> Some
      by (simp add: registry_unlink_def Let_def l'_def [symmetric] b'_def [symmetric] rl_simps)
    have "entry_or [] (rl_links_by_peer r) a = b" "entry_or [] b x = l"
      using \<open>hm_get (rl_links_by_peer r) a = Some b\<close> Some by (simp_all add: entry_or_def)
    then show ?thesis
      by (simp add: link_at_def b' l' l'_def)
  qed
qed

lemma unlink_keeps [rl_simps]:
  "rl_peer_id_to_addr (registry_unlink a x y r) = rl_peer_id_to_addr r"
  "rl_intents (registry_unlink a x y r) = rl_intents r"
  "rl_tasks (registry_unlink a x y r) = rl_tasks r"
  by (simp_all add: registry_unlink_def Let_def split: option.split)

lemma link_at_take_addr [rl_simps]:
  "link_at (snd (take_peer_links_by_addr a r)) a' x y = (if a' = a then None else link_at r a' x y)"
  by (simp add: take_peer_links_by_addr_def link_at_def rl_simps)

text \<open>No operation leaves an empty map behind, so every entry of the table stands for a link.\<close>

lemma by_actor_ok_insert:
  "hm_wf b \<Longrightarrow> hm_all (\<lambda>_ l. l \<noteq> [] \<and> hm_wf l) b \<Longrightarrow> l \<noteq> [] \<Longrightarrow> hm_wf l \<Longrightarrow> by_actor_ok (hm_insert x l b)"
  by (simp add: by_actor_ok_def)

lemma entry_ok:
  assumes "remote_links_ok r"
  shows "hm_wf (entry_or [] (rl_links_by_peer r) a)"
    and "hm_all (\<lambda>_ l. l \<noteq> [] \<and> hm_wf l) (entry_or [] (rl_links_by_peer r) a)"
    and "hm_wf (entry_or [] (entry_or [] (rl_links_by_peer r) a) x)"
proof -
  show b: "hm_wf (entry_or [] (rl_links_by_peer r) a)"
    "hm_all (\<lambda>_ l. l \<noteq> [] \<and> hm_wf l) (entry_or [] (rl_links_by_peer r) a)"
    using assms by (auto simp: remote_links_ok_def entry_or_def by_actor_ok_def dest: hm_allD split: option.split)
  show "hm_wf (entry_or [] (entry_or [] (rl_links_by_peer r) a) x)"
    using b(2) unfolding entry_or_def [of _ _ x] by (auto dest: hm_allD split: option.split)
qed

lemma registry_link_ok: "remote_links_ok r \<Longrightarrow> remote_links_ok (snd (registry_link a x y h r))"
  using entry_ok [of r a] entry_ok(3) [of r a x]
  by (auto simp: registry_link_def Let_def remote_links_ok_def intro!: by_actor_ok_insert)

lemma registry_unlink_ok:
  assumes "remote_links_ok r" shows "remote_links_ok (registry_unlink a x y r)"
proof -
  have ok: "hm_all (\<lambda>_. by_actor_ok) (rl_links_by_peer r)" "hm_wf (rl_links_by_peer r)"
    using assms by (simp_all add: remote_links_ok_def)
  show ?thesis
  proof (cases "hm_get (rl_links_by_peer r) a")
    case (Some b)
    have b: "by_actor_ok b" using hm_allD [OF ok(1) Some] .
    show ?thesis
    proof (cases "hm_get b x")
      case (Some l)
      have l: "hm_wf l" using b Some by (auto simp: by_actor_ok_def dest: hm_allD)
      define b' where "b' = (if hm_remove y l = [] then hm_remove x b else hm_insert x (hm_remove y l) b)"
      have b': "b' \<noteq> [] \<Longrightarrow> by_actor_ok b'"
        using b l by (auto simp: by_actor_ok_def b'_def)
      have "registry_unlink a x y r = r\<lparr>rl_links_by_peer :=
          (if b' = [] then hm_remove a (rl_links_by_peer r) else hm_insert a b' (rl_links_by_peer r))\<rparr>"
        by (simp add: registry_unlink_def \<open>hm_get (rl_links_by_peer r) a = Some b\<close> Some Let_def b'_def)
      then show ?thesis
        using assms b' by (auto simp: remote_links_ok_def)
    qed (use assms Some in \<open>simp add: registry_unlink_def\<close>)
  qed (use assms in \<open>simp add: registry_unlink_def\<close>)
qed

lemma take_addr_ok: "remote_links_ok r \<Longrightarrow> remote_links_ok (snd (take_peer_links_by_addr a r))"
  by (auto simp: take_peer_links_by_addr_def remote_links_ok_def)

lemma take_id_ok: "remote_links_ok r \<Longrightarrow> remote_links_ok (snd (take_peer_links_by_id p r))"
  by (auto simp: take_peer_links_by_id_def intro!: take_addr_ok split: option.split)
    (simp add: remote_links_ok_def)

lemma remote_link_at [rl_simps]:
  "link_at (remote_link a x y h r) = link_at (snd (registry_link a x y h r))"
  "link_at (remote_link_with_peer_id p a x y h r) = link_at (snd (registry_link a x y h r))"
  by (intro ext,
      simp add: remote_link_def remote_link_with_peer_id_def registry_link_with_peer_id_def
        spawn_link_established_def case_prod_beta rl_simps)+

lemma remote_link_tasks [rl_simps]:
  "rl_tasks (remote_link a x y h r) = rl_tasks r @ (if link_at r a x y = None then [(h, x)] else [])"
  "rl_tasks (remote_link_with_peer_id p a x y h r) = rl_tasks r @ (if link_at r a x y = None then [(h, x)] else [])"
  by (simp_all add: remote_link_def remote_link_with_peer_id_def registry_link_with_peer_id_def
      spawn_link_established_def case_prod_beta rl_simps)

lemma remote_link_addr [rl_simps]:
  "rl_peer_id_to_addr (remote_link a x y h r) = rl_peer_id_to_addr r"
  "rl_peer_id_to_addr (remote_link_with_peer_id p a x y h r) = hm_insert p a (rl_peer_id_to_addr r)"
  "rl_intents (remote_link a x y h r) = rl_intents r"
  "rl_intents (remote_link_with_peer_id p a x y h r) = rl_intents r"
  by (simp_all add: remote_link_def remote_link_with_peer_id_def registry_link_with_peer_id_def
      spawn_link_established_def case_prod_beta rl_simps)

lemma remote_links_ok_update:
  "remote_links_ok (r\<lparr>rl_tasks := ts\<rparr>) = remote_links_ok r"
  "remote_links_ok r \<Longrightarrow> hm_wf m \<Longrightarrow> remote_links_ok (r\<lparr>rl_peer_id_to_addr := m\<rparr>)"
  "remote_links_ok r \<Longrightarrow> hm_wf is \<Longrightarrow> remote_links_ok (r\<lparr>rl_intents := is\<rparr>)"
  by (simp_all add: remote_links_ok_def)

lemma remote_link_ok:
  assumes "remote_links_ok r"
  shows "remote_links_ok (remote_link a x y h r)"
    and "remote_links_ok (remote_link_with_peer_id p a x y h r)"
proof -
  have m: "hm_wf (hm_insert p a (rl_peer_id_to_addr r))"
    using assms by (simp add: remote_links_ok_def)
  show "remote_links_ok (remote_link a x y h r)"
    using registry_link_ok [OF assms, of a x y h]
    by (simp add: remote_link_def spawn_link_established_def case_prod_beta remote_links_ok_update)
  show "remote_links_ok (remote_link_with_peer_id p a x y h r)"
    using registry_link_ok [OF remote_links_ok_update(2) [OF assms m], of a x y h]
    by (simp add: remote_link_with_peer_id_def registry_link_with_peer_id_def spawn_link_established_def
        case_prod_beta remote_links_ok_update)
qed

lemma register_local_actor_ok: "remote_links_ok r \<Longrightarrow> remote_links_ok (register_local_actor n i h r)"
  by (simp add: register_local_actor_def remote_links_ok_def)

lemma link_intents_ok: "remote_links_ok r \<Longrightarrow> remote_links_ok (link_intents p a x is r)"
  by (induction "is" arbitrary: r) (simp_all add: remote_link_ok)

lemma auto_link_ok:
  assumes "remote_links_ok r" "auto_link_peer tb a p r = Done r'"
  shows "remote_links_ok r'"
proof -
  have "remote_links_ok (r\<lparr>rl_peer_id_to_addr := hm_insert p a (rl_peer_id_to_addr r)\<rparr>)"
    using assms(1) by (simp add: remote_links_ok_def)
  then show ?thesis
    using assms(2) by (auto simp: auto_link_peer_def Let_def link_intents_ok split: if_splits)
qed

lemma notify_taken_fst: "fst (notify_taken sm t c) = snd t"
  by (cases t) (auto simp: notify_taken_def split: option.split)

text \<open>What a sequence of calls can make of the tables; a notification takes a peer's links first.\<close>

inductive rl_reachable :: "('p \<Rightarrow> bytes) \<Rightarrow> ('a, 'p, 'h) remote_links \<Rightarrow> bool" for tb where
  rl_new: "rl_reachable tb remote_links_new"
| rl_link: "rl_reachable tb r \<Longrightarrow> rl_reachable tb (remote_link a x y h r)"
| rl_link_id: "rl_reachable tb r \<Longrightarrow> rl_reachable tb (remote_link_with_peer_id p a x y h r)"
| rl_unlink: "rl_reachable tb r \<Longrightarrow> rl_reachable tb (registry_unlink a x y r)"
| rl_register: "rl_reachable tb r \<Longrightarrow> rl_reachable tb (register_local_actor n i h r)"
| rl_auto: "rl_reachable tb r \<Longrightarrow> auto_link_peer tb a p r = Done r' \<Longrightarrow> rl_reachable tb r'"
| rl_by_addr: "rl_reachable tb r \<Longrightarrow> rl_reachable tb (snd (take_peer_links_by_addr a r))"
| rl_by_id: "rl_reachable tb r \<Longrightarrow> rl_reachable tb (snd (take_peer_links_by_id p r))"
| rl_task: "rl_reachable tb r \<Longrightarrow> rl_reachable tb (r\<lparr>rl_tasks := ts\<rparr>)"

lemma rl_reachable_ok: "rl_reachable tb r \<Longrightarrow> remote_links_ok r"
proof (induction rule: rl_reachable.induct)
  case rl_new
  then show ?case by (simp add: remote_links_new_def remote_links_ok_def)
qed (auto simp: take_addr_ok take_id_ok remote_link_ok registry_unlink_ok register_local_actor_ok remote_links_ok_update
    intro: auto_link_ok)

section \<open>Notices\<close>

text \<open>
  A world in which the mailboxes accept: every signal is appended to a log, whatever the result
  the sender then ignores.
\<close>

definition logs_signals ::
  "('h, 'v, 'c) signal_mailbox \<Rightarrow> ('c \<Rightarrow> ('h \<times> actor_id \<times> 'v stop_reason) list) \<Rightarrow> bool" where
  "logs_signals sm lg \<longleftrightarrow>
    (\<forall>h i reason c. \<exists>res c'. sm_link_died sm h i reason c = Some (res, c') \<and> lg c' = lg c @ [(h, i, reason)])"

definition flat_links :: "'h remote_actor_links \<Rightarrow> (actor_id \<times> actor_id \<times> 'h) list" where
  "flat_links b = concat (map (\<lambda>(x, ls). map (\<lambda>(y, h). (x, y, h)) ls) b)"

definition death_notices :: "(actor_id \<times> actor_id \<times> 'h) list \<Rightarrow> ('h \<times> actor_id \<times> 'v stop_reason) list" where
  "death_notices ds = map (\<lambda>(x, y, h). (h, x, PeerDisconnected)) ds"

lemma notify_locals_log:
  assumes "logs_signals sm lg"
  shows "\<exists>c'. notify_locals sm x ls c = Some c' \<and>
    lg c' = lg c @ map (\<lambda>(y, h). (h, x, PeerDisconnected)) ls"
proof (induction ls arbitrary: c)
  case (Cons l ls)
  obtain y h where l: "l = (y, h)" by (cases l)
  obtain res c1 where d: "sm_link_died sm h x PeerDisconnected c = Some (res, c1)"
    "lg c1 = lg c @ [(h, x, PeerDisconnected)]"
    using assms unfolding logs_signals_def by blast
  show ?case using Cons.IH [of c1] d by (simp add: l)
qed simp

lemma notify_links_log:
  assumes "logs_signals sm lg"
  shows "\<exists>c'. notify_links sm b c = Some c' \<and> lg c' = lg c @ death_notices (flat_links b)"
proof (induction b arbitrary: c)
  case Nil
  then show ?case by (simp add: flat_links_def death_notices_def)
next
  case (Cons e b)
  obtain x ls where e: "e = (x, ls)" by (cases e)
  obtain c1 where c1: "notify_locals sm x ls c = Some c1"
    "lg c1 = lg c @ map (\<lambda>(y, h). (h, x, PeerDisconnected)) ls"
    using notify_locals_log [OF assms] by blast
  show ?case
    using Cons.IH [of c1] c1
    by (auto simp: e flat_links_def death_notices_def comp_def case_prod_beta)
qed

lemma flat_links_mem:
  assumes "by_actor_ok b"
  shows "(x, y, h) \<in> set (flat_links b) \<longleftrightarrow> hm_get (entry_or [] b x) y = Some h"
proof -
  have wf: "hm_wf b" "\<And>l. (x, l) \<in> set b \<Longrightarrow> hm_wf l"
    using assms by (auto simp: by_actor_ok_def hm_all_def hm_get_eq_Some_iff)
  have "(x, y, h) \<in> set (flat_links b) \<longleftrightarrow> (\<exists>l. (x, l) \<in> set b \<and> (y, h) \<in> set l)"
    by (auto simp: flat_links_def)
  also have "\<dots> \<longleftrightarrow> (\<exists>l. hm_get b x = Some l \<and> hm_get l y = Some h)"
    using wf by (auto simp: hm_get_eq_Some_iff)
  finally show ?thesis by (auto simp: entry_or_def split: option.splits)
qed

lemma flat_links_distinct:
  assumes "hm_wf b" "\<And>x l. (x, l) \<in> set b \<Longrightarrow> hm_wf l"
  shows "distinct (map (\<lambda>(x, y, h). (x, y)) (flat_links b))"
  using assms
proof (induction b)
  case (Cons e b)
  obtain x l where e: "e = (x, l)" by (cases e)
  have l: "distinct (map fst l)" and x: "x \<notin> fst ` set b" and wf: "hm_wf b"
    using Cons.prems by (auto simp: e hm_wf_def hm_keys_def)
  have head: "map (\<lambda>(x, y, h). (x, y)) (flat_links (e # b)) =
      map (\<lambda>y. (x, y)) (map fst l) @ map (\<lambda>(x, y, h). (x, y)) (flat_links b)"
    by (simp add: flat_links_def e comp_def case_prod_beta)
  have "distinct (map (\<lambda>y. (x, y)) (map fst l))"
    using l by (simp add: distinct_map inj_on_def)
  moreover have "fst ` set (map (\<lambda>(x, y, h). (x, y)) (flat_links b)) \<subseteq> fst ` set b"
    unfolding flat_links_def by (auto simp: image_iff) (metis fst_conv)
  moreover have "hm_wf l'" if "(x', l') \<in> set b" for x' l'
    using Cons.prems(2) [of x' l'] that by simp
  then have "distinct (map (\<lambda>(x, y, h). (x, y)) (flat_links b))"
    by (rule Cons.IH [OF wf])
  moreover have "fst ` set (map (\<lambda>y. (x, y)) (map fst l)) \<subseteq> {x}" by auto
  ultimately show ?case
    using x unfolding head distinct_append by blast
qed (simp add: flat_links_def)

text \<open>The links of a peer, each once, as its table lists them.\<close>

definition lists_links ::
  "(actor_id \<times> actor_id \<times> 'h) list \<Rightarrow> ('a, 'p, 'h) remote_links \<Rightarrow> 'a \<Rightarrow> bool" where
  "lists_links ds r a \<longleftrightarrow> distinct (map (\<lambda>(x, y, h). (x, y)) ds) \<and>
    (\<forall>x y h. (x, y, h) \<in> set ds \<longleftrightarrow> link_at r a x y = Some h)"

lemma taken_notices:
  assumes "remote_links_ok r" "logs_signals sm lg"
  shows "\<exists>ds c'. notify_taken sm (take_peer_links_by_addr a r) c =
      (r\<lparr>rl_links_by_peer := hm_remove a (rl_links_by_peer r)\<rparr>, Some c') \<and>
    lg c' = lg c @ death_notices ds \<and> lists_links ds r a"
proof (cases "hm_get (rl_links_by_peer r) a")
  case None
  then have "lists_links [] r a"
    by (simp add: lists_links_def link_at_def entry_or_def)
  then show ?thesis
    using None by (auto simp: notify_taken_def take_peer_links_by_addr_def death_notices_def intro!: exI [of _ "[]"])
next
  case (Some b)
  have ok: "by_actor_ok b"
    using assms(1) Some by (auto simp: remote_links_ok_def dest: hm_allD)
  have "lists_links (flat_links b) r a"
    unfolding lists_links_def
  proof (intro conjI allI)
    show "distinct (map (\<lambda>(x, y, h). (x, y)) (flat_links b))"
      using ok by (intro flat_links_distinct) (auto simp: by_actor_ok_def hm_all_def hm_get_eq_Some_iff)
    have "entry_or [] (rl_links_by_peer r) a = b" using Some by (simp add: entry_or_def)
    then show "(x, y, h) \<in> set (flat_links b) \<longleftrightarrow> link_at r a x y = Some h" for x y h
      by (simp add: flat_links_mem [OF ok] link_at_def)
  qed
  then show ?thesis
    using notify_links_log [OF assms(2), of b c] Some
    by (auto simp: notify_taken_def take_peer_links_by_addr_def)
qed

section \<open>Properties\<close>

definition link_rel :: "('a, 'p, 'h) remote_links \<Rightarrow> 'a \<times> actor_id \<times> actor_id \<Rightarrow> 'h option" where
  "link_rel r = (\<lambda>(a, x, y). link_at r a x y)"

text \<open>
  C33. The nested tables implement a partial function from an address, a remote and a local actor to
  a mailbox, and never keep an empty table: a link is added, and its actor signalled, only where
  there was none, so a second link changes nothing; an unlink removes one point; a lost peer loses
  the points of its address.
\<close>

theorem remote_links_refine:
  assumes "rl_reachable tb r"
  shows "remote_links_ok r \<and>
    link_rel (remote_link a x y h r) =
      (if link_rel r (a, x, y) = None then (link_rel r)((a, x, y) \<mapsto> h) else link_rel r) \<and>
    rl_tasks (remote_link a x y h r) = rl_tasks r @ (if link_rel r (a, x, y) = None then [(h, x)] else []) \<and>
    link_rel (registry_unlink a x y r) = (link_rel r)((a, x, y) := None) \<and>
    link_rel (snd (take_peer_links_by_addr a r)) = link_rel r |` {(a', _). a' \<noteq> a}"
  using rl_reachable_ok [OF assms]
  by (auto simp: link_rel_def rl_simps restrict_map_def fun_eq_iff)

definition rl_demo :: "(string, nat, nat) remote_links" where
  "rl_demo = remote_link ''a'' (ActorId 1) (ActorId 2) 0 remote_links_new"

lemma rl_demo_reachable: "rl_reachable tb rl_demo"
  unfolding rl_demo_def by (intro rl_link rl_new)

theorem remote_links_refine_witness:
  "link_rel (remote_link ''a'' (ActorId 1) (ActorId 2) 7 rl_demo) (''a'', ActorId 1, ActorId 2) = Some 0"
proof -
  have "link_rel rl_demo (''a'', ActorId 1, ActorId 2) = Some 0"
    by (simp add: link_rel_def rl_demo_def rl_simps) (simp add: link_at_def remote_links_new_def)
  with remote_links_refine [OF rl_demo_reachable [of "\<lambda>_. []"], of "''a''" "ActorId 1" "ActorId 2" 7]
  show ?thesis by simp
qed

lemma notify_known_peer:
  assumes "remote_links_ok r" and "logs_signals sm lg" and "hm_get (rl_peer_id_to_addr r) p = Some a"
  shows "\<exists>ds r' c'. notify_peer_disconnected_by_id sm p r c = (r', Some c') \<and>
    lg c' = lg c @ death_notices ds \<and> lists_links ds r a \<and>
    link_rel r' = link_rel r |` {(a', _). a' \<noteq> a} \<and> hm_get (rl_peer_id_to_addr r') p = None"
proof -
  define r1 where "r1 = r\<lparr>rl_peer_id_to_addr := hm_remove p (rl_peer_id_to_addr r)\<rparr>"
  define r2 where "r2 = r1\<lparr>rl_links_by_peer := hm_remove a (rl_links_by_peer r1)\<rparr>"
  have ok: "remote_links_ok r1"
    using assms(1) by (simp add: r1_def remote_links_ok_def)
  have take: "take_peer_links_by_id p r = take_peer_links_by_addr a r1"
    by (simp add: take_peer_links_by_id_def assms(3) r1_def)
  obtain ds c' where n: "notify_taken sm (take_peer_links_by_addr a r1) c = (r2, Some c')"
    "lg c' = lg c @ death_notices ds" "lists_links ds r1 a"
    using taken_notices [OF ok assms(2), of a c] unfolding r2_def by blast
  have same: "link_at r1 = link_at r" by (simp add: r1_def rl_simps)
  have "link_rel r2 = link_rel r |` {(a', _). a' \<noteq> a}"
    using same by (auto simp: link_rel_def r2_def link_at_def entry_or_remove restrict_map_def fun_eq_iff)
  moreover have "lists_links ds r a"
    using n(3) same by (simp add: lists_links_def)
  moreover have "hm_get (rl_peer_id_to_addr r2) p = None"
    by (simp add: r2_def r1_def)
  ultimately show ?thesis
    using n(1,2) by (auto simp: notify_peer_disconnected_by_id_def take)
qed

lemma notify_unknown_peer:
  "hm_get (rl_peer_id_to_addr r) p = None \<Longrightarrow> notify_peer_disconnected_by_id sm p r c = (r, Some c)"
  by (simp add: notify_peer_disconnected_by_id_def take_peer_links_by_id_def notify_taken_def)

text \<open>
  When a peer whose address is known disconnects, each link at that address is sent one death
  notice with the reason \<open>PeerDisconnected\<close>, nobody else is sent anything, the links are gone, and
  a second disconnect sends nothing; a peer whose address is not known gets no notice at all.
\<close>

theorem disconnect_notifies_links:
  assumes "rl_reachable tb r" and "logs_signals sm lg"
  shows "case hm_get (rl_peer_id_to_addr r) p of
      None \<Rightarrow> notify_peer_disconnected_by_id sm p r c = (r, Some c)
    | Some a \<Rightarrow> \<exists>ds r' c'. notify_peer_disconnected_by_id sm p r c = (r', Some c') \<and>
        lg c' = lg c @ death_notices ds \<and> lists_links ds r a \<and>
        link_rel r' = link_rel r |` {(a', _). a' \<noteq> a} \<and>
        notify_peer_disconnected_by_id sm p r' c' = (r', Some c')"
  using notify_known_peer [OF rl_reachable_ok [OF assms(1)] assms(2), of p _ c]
  by (auto simp: notify_unknown_peer split: option.split) (metis notify_unknown_peer)

definition log_mailboxes :: "(nat, 'v, (nat \<times> actor_id \<times> 'v stop_reason) list) signal_mailbox" where
  "log_mailboxes = \<lparr>sm_link_died = (\<lambda>h i reason c. Some (Ok (), c @ [(h, i, reason)])),
    sm_link_established = (\<lambda>h i c. Some (Ok (), c))\<rparr>"

lemma logs_log_mailboxes: "logs_signals log_mailboxes (\<lambda>c. c)"
  by (simp add: logs_signals_def log_mailboxes_def)

theorem disconnect_notifies_links_witness:
  "notify_peer_disconnected_by_id (log_mailboxes :: (nat, nat, _) signal_mailbox) 5 rl_demo [] = (rl_demo, Some [])"
  using disconnect_notifies_links [OF rl_demo_reachable [of "\<lambda>_. []"] logs_log_mailboxes, of 5 "[]"]
  by (simp add: rl_demo_def rl_simps remote_links_new_def)

lemma link_intents_at:
  "link_at (link_intents p a x is r) a' x' y =
    (if a' = a \<and> x' = x \<and> link_at r a x y = None
     then map_option li_mailbox (find (\<lambda>i. li_actor i = y) is) else link_at r a' x' y)"
  by (induction "is" arbitrary: r) (auto simp: rl_simps)

lemma link_intents_addr:
  "is \<noteq> [] \<Longrightarrow> hm_get (rl_peer_id_to_addr (link_intents p a x is r)) p = Some a"
proof (induction "is" arbitrary: r)
  case (Cons i "is")
  then show ?case by (cases "is") (simp_all add: rl_simps)
qed simp

lemma find_some_iff: "(\<exists>i. find P xs = Some i) \<longleftrightarrow> (\<exists>x\<in>set xs. P x)"
  by (induction xs) auto

lemma lists_one_remote:
  assumes "lists_links ds r a" and "\<And>x' y. link_at r a x' y = (if x' = x then f y else None)"
  shows "(\<forall>(x', y, h) \<in> set ds. x' = x) \<and> distinct (map (\<lambda>(_, y, _). y) ds) \<and>
    (y \<in> set (map (\<lambda>(_, y, _). y) ds) \<longleftrightarrow> f y \<noteq> None)"
proof (intro conjI)
  have mem: "(x', y, h) \<in> set ds \<longleftrightarrow> x' = x \<and> f y = Some h" for x' y h
    using assms by (simp add: lists_links_def)
  then show here: "\<forall>(x', y, h) \<in> set ds. x' = x" by auto
  have "map (\<lambda>(x, y, h). (x, y)) ds = map (Pair x) (map (\<lambda>(_, y, _). y) ds)"
    using here by (simp add: comp_def case_prod_beta)
  moreover have "distinct (map (\<lambda>(x, y, h). (x, y)) ds)"
    using assms(1) by (simp add: lists_links_def)
  ultimately show "distinct (map (\<lambda>(_, y, _). y) ds)"
    by (metis distinct_map)
  have "y \<in> set (map (\<lambda>(_, y, _). y) ds) \<longleftrightarrow> (\<exists>x' h. (x', y, h) \<in> set ds)"
    by (simp add: image_iff) (metis case_prod_conv surj_pair)
  then show "y \<in> set (map (\<lambda>(_, y, _). y) ds) \<longleftrightarrow> f y \<noteq> None"
    by (simp add: mem)
qed

lemma auto_link_at:
  assumes "\<And>x y. link_at r a x y = None"
    and "peer_actor_id tb p = Done x" and "auto_link_peer tb a p r = Done r'"
  shows "link_at r' a x' y = (if x' = x
      then map_option li_mailbox (find (\<lambda>i. li_actor i = y) (concat (map snd (rl_intents r)))) else None)"
    and "hm_get (rl_peer_id_to_addr r') p = Some a"
proof -
  define r1 where "r1 = r\<lparr>rl_peer_id_to_addr := hm_insert p a (rl_peer_id_to_addr r)\<rparr>"
  define intents where "intents = concat (map snd (rl_intents r))"
  have none: "link_at r1 a x' y = None" for x' y
    using assms(1) by (simp add: r1_def rl_simps)
  have r': "r' = link_intents p a x intents r1"
    using assms(2,3) by (auto simp: auto_link_peer_def Let_def r1_def intents_def split: if_splits)
  then show "link_at r' a x' y = (if x' = x
      then map_option li_mailbox (find (\<lambda>i. li_actor i = y) (concat (map snd (rl_intents r)))) else None)"
    using none by (simp add: link_intents_at intents_def)
  show "hm_get (rl_peer_id_to_addr r') p = Some a"
    unfolding r' by (cases "intents = []") (simp_all add: link_intents_addr r1_def)
qed

text \<open>
  C24. Reconnecting: a connect after the peer's links were taken links every registered local actor
  to the identifier made of the peer's identifier, through the mailbox it registered with first,
  and the next disconnect sends each of them exactly one death notice under that identifier.
\<close>

theorem reconnect_relinks:
  assumes "rl_reachable tb r" and "logs_signals sm lg"
    and "\<forall>x y. link_at r a x y = None"
    and "peer_actor_id tb p = Done x" and "auto_link_peer tb a p r = Done r'"
  shows "(\<forall>x' y. link_at r' a x' y = (if x' = x
        then map_option li_mailbox (find (\<lambda>i. li_actor i = y) (concat (map snd (rl_intents r)))) else None)) \<and>
    (\<exists>ds r'' c'. notify_peer_disconnected_by_id sm p r' c = (r'', Some c') \<and>
      lg c' = lg c @ death_notices ds \<and> (\<forall>(x', y, h) \<in> set ds. x' = x) \<and>
      distinct (map (\<lambda>(_, y, _). y) ds) \<and>
      set (map (\<lambda>(_, y, _). y) ds) = li_actor ` set (concat (map snd (rl_intents r))))"
proof (intro conjI allI)
  note none = assms(3) [rule_format]
  note at = auto_link_at(1) [OF none assms(4,5)]
  show "link_at r' a x' y = (if x' = x
      then map_option li_mailbox (find (\<lambda>i. li_actor i = y) (concat (map snd (rl_intents r)))) else None)" for x' y
    by (rule at)
  obtain ds r'' c' where n: "notify_peer_disconnected_by_id sm p r' c = (r'', Some c')"
    "lg c' = lg c @ death_notices ds" "lists_links ds r' a"
    using notify_known_peer [OF rl_reachable_ok [OF rl_auto [OF assms(1,5)]] assms(2) auto_link_at(2) [OF none assms(4,5)]]
    by blast
  note ds = lists_one_remote [OF n(3) at]
  have "set (map (\<lambda>(_, y, _). y) ds) = li_actor ` set (concat (map snd (rl_intents r)))"
  proof (rule set_eqI)
    fix y
    show "y \<in> set (map (\<lambda>(_, y, _). y) ds) \<longleftrightarrow> y \<in> li_actor ` set (concat (map snd (rl_intents r)))"
      using ds [of y] find_some_iff [of "\<lambda>i. li_actor i = y" "concat (map snd (rl_intents r))"] by blast
  qed
  then show "\<exists>ds r'' c'. notify_peer_disconnected_by_id sm p r' c = (r'', Some c') \<and>
      lg c' = lg c @ death_notices ds \<and> (\<forall>(x', y, h) \<in> set ds. x' = x) \<and>
      distinct (map (\<lambda>(_, y, _). y) ds) \<and>
      set (map (\<lambda>(_, y, _). y) ds) = li_actor ` set (concat (map snd (rl_intents r)))"
    using n(1,2) ds by blast
qed

lemma auto_link_returns: "peer_actor_id tb p = Done x \<Longrightarrow> \<exists>r'. auto_link_peer tb a p r = Done r'"
  by (simp add: auto_link_peer_def Let_def)

theorem reconnect_relinks_witness:
  "\<exists>r' ds r'' c'. auto_link_peer (\<lambda>_. replicate 32 1) ''a'' (5 :: nat)
        (register_local_actor ''n'' (ActorId 2) (0 :: nat) remote_links_new) = Done r' \<and>
      notify_peer_disconnected_by_id (log_mailboxes :: (nat, nat, _) signal_mailbox) 5 r' [] = (r'', Some c') \<and>
      c' = death_notices ds \<and> set (map (\<lambda>(_, y, _). y) ds) = {ActorId 2}"
proof -
  let ?tb = "\<lambda>_ :: nat. replicate 32 1 :: bytes"
  let ?r = "register_local_actor ''n'' (ActorId 2) 0 remote_links_new :: (string, nat, nat) remote_links"
  define x where "x = actor_id_from_u64 (le_word (take 8 (replicate 32 (1 :: u8))))"
  have x: "peer_actor_id ?tb 5 = Done x" by (simp add: peer_actor_id_def x_def)
  obtain r' where r': "auto_link_peer ?tb ''a'' 5 ?r = Done r'"
    using auto_link_returns [OF x, of "''a''" ?r] by (elim exE) (rule that)
  have none: "\<forall>x y. link_at ?r ''a'' x y = None"
    by (simp add: register_local_actor_def remote_links_new_def link_at_def)
  have "concat (map snd (rl_intents ?r)) = [\<lparr>li_actor = ActorId 2, li_mailbox = 0\<rparr>]"
    by (simp add: register_local_actor_def remote_links_new_def hm_insert_def)
  with reconnect_relinks [OF rl_register [OF rl_new] logs_log_mailboxes none x r', of "[]"] r'
  show ?thesis by auto
qed

end
