(* ===== verification/Handle_Cache.thy ===== *)
theory Handle_Cache
  imports Kameo_Prelude
begin

text \<open>
  The cache of liveness tokens (\<open>src/remote/handle_cache.rs\<close>). A cached connection to a peer
  carries a token, an \<open>Arc<AtomicBool>\<close>; the cache keeps weak pointers to the tokens under the
  peer's address and, if it is known, under its identifier, and a disconnect sets them to false.
\<close>

section \<open>State\<close>

datatype ('a, 'p) cache_key = AddrKey 'a | PeerIdKey 'p

text \<open>
  Tokens are numbered. \<open>hc_alive\<close> is the flag a token holds and \<open>hc_strong\<close> tells whether a strong
  pointer to it exists; the cache itself holds weak pointers only.
\<close>

record ('a, 'p) handle_cache =
  hc_map :: "(('a, 'p) cache_key, nat list) hash_map"
  hc_alive :: "nat \<Rightarrow> bool"
  hc_strong :: "nat \<Rightarrow> bool"
  hc_next :: nat

definition handle_cache_new :: "('a, 'p) handle_cache" where
  "handle_cache_new = \<lparr>hc_map = [], hc_alive = (\<lambda>_. False), hc_strong = (\<lambda>_. False), hc_next = 0\<rparr>"


section \<open>Operations\<close>

definition register_key :: "('a, 'p) cache_key \<Rightarrow> nat \<Rightarrow> ('a, 'p) handle_cache \<Rightarrow> ('a, 'p) handle_cache" where
  "register_key key alive c =
    c\<lparr>hc_map := hm_insert key (filter (hc_strong c) (entry_or [] (hc_map c) key) @ [alive]) (hc_map c)\<rparr>"

definition invalidate_key :: "('a, 'p) cache_key \<Rightarrow> ('a, 'p) handle_cache \<Rightarrow> ('a, 'p) handle_cache" where
  "invalidate_key key c =
    (case hm_get (hc_map c) key of
       None \<Rightarrow> c
     | Some entry \<Rightarrow>
         (let kept = filter (hc_strong c) entry
          in c\<lparr>hc_alive := fold (\<lambda>t f. f(t := False)) kept (hc_alive c),
               hc_map := (if kept = [] then hm_remove key (hc_map c) else hm_insert key kept (hc_map c))\<rparr>))"

definition register_handle :: "'a \<Rightarrow> 'p option \<Rightarrow> ('a, 'p) handle_cache \<Rightarrow> nat \<times> ('a, 'p) handle_cache" where
  "register_handle peer_addr peer_id c =
    (let alive = hc_next c;
         c = c\<lparr>hc_alive := (hc_alive c)(alive := True), hc_strong := (hc_strong c)(alive := True),
               hc_next := Suc alive\<rparr>;
         c = register_key (AddrKey peer_addr) alive c;
         c = (case peer_id of Some p \<Rightarrow> register_key (PeerIdKey p) alive c | None \<Rightarrow> c)
     in (alive, c))"

definition invalidate_handles :: "'a \<Rightarrow> 'p option \<Rightarrow> ('a, 'p) handle_cache \<Rightarrow> ('a, 'p) handle_cache" where
  "invalidate_handles peer_addr peer_id c =
    (let c = invalidate_key (AddrKey peer_addr) c
     in case peer_id of Some p \<Rightarrow> invalidate_key (PeerIdKey p) c | None \<Rightarrow> c)"

text \<open>What happens to the cache: its two operations, and a token that loses its last owner.\<close>

datatype ('a, 'p) cache_op =
    Register 'a "'p option"
  | Invalidate 'a "'p option"
  | Release nat

fun cache_step :: "('a, 'p) cache_op \<Rightarrow> ('a, 'p) handle_cache \<Rightarrow> ('a, 'p) handle_cache" where
  "cache_step (Register a p) c = snd (register_handle a p c)"
| "cache_step (Invalidate a p) c = invalidate_handles a p c"
| "cache_step (Release t) c = c\<lparr>hc_strong := (hc_strong c)(t := False)\<rparr>"

definition cache_run :: "('a, 'p) cache_op list \<Rightarrow> ('a, 'p) handle_cache \<Rightarrow> ('a, 'p) handle_cache" where
  "cache_run = fold cache_step"

text \<open>The keys a connection is filed under, and the operations that concern them.\<close>

definition keys_of :: "'a \<Rightarrow> 'p option \<Rightarrow> ('a, 'p) cache_key set" where
  "keys_of a p = insert (AddrKey a) (PeerIdKey ` set_option p)"

fun invalidates :: "('a, 'p) cache_key set \<Rightarrow> ('a, 'p) cache_op \<Rightarrow> bool" where
  "invalidates ks (Invalidate a p) \<longleftrightarrow> keys_of a p \<inter> ks \<noteq> {}"
| "invalidates ks _ \<longleftrightarrow> False"


section \<open>Lemmas\<close>

abbreviation filed :: "('a, 'p) handle_cache \<Rightarrow> ('a, 'p) cache_key \<Rightarrow> nat list" where
  "filed c k \<equiv> entry_or [] (hc_map c) k"

lemma fold_clear: "fold (\<lambda>t f. f(t := False)) ts f t = (f t \<and> t \<notin> set ts)"
  by (induction ts arbitrary: f) auto

lemma register_key_simps [simp]:
  "hc_alive (register_key k t c) = hc_alive c"
  "hc_strong (register_key k t c) = hc_strong c"
  "hc_next (register_key k t c) = hc_next c"
  "filed (register_key k t c) j = (if j = k then filter (hc_strong c) (filed c k) @ [t] else filed c j)"
  by (simp_all add: register_key_def entry_or_insert)

lemma invalidate_key_simps [simp]:
  "hc_strong (invalidate_key k c) = hc_strong c"
  "hc_next (invalidate_key k c) = hc_next c"
  "filed (invalidate_key k c) j = (if j = k then filter (hc_strong c) (filed c k) else filed c j)"
  "hc_alive (invalidate_key k c) t = (hc_alive c t \<and> \<not> (hc_strong c t \<and> t \<in> set (filed c k)))"
  by (auto simp: invalidate_key_def Let_def fold_clear entry_or_def split: option.split)

lemma register_handle_fst [simp]: "fst (register_handle a p c) = hc_next c"
  by (simp add: register_handle_def Let_def)

lemma register_handle_simps:
  "hc_alive (snd (register_handle a p c)) = (hc_alive c)(hc_next c := True)"
  "hc_strong (snd (register_handle a p c)) = (hc_strong c)(hc_next c := True)"
  "hc_next (snd (register_handle a p c)) = Suc (hc_next c)"
  "filed (snd (register_handle a p c)) k =
    (if k \<in> keys_of a p
     then filter ((hc_strong c)(hc_next c := True)) (filed c k) @ [hc_next c] else filed c k)"
  by (auto simp: register_handle_def Let_def keys_of_def split: option.split)

lemma invalidate_handles_simps:
  "hc_strong (invalidate_handles a p c) = hc_strong c"
  "hc_next (invalidate_handles a p c) = hc_next c"
  "filed (invalidate_handles a p c) k =
    (if k \<in> keys_of a p then filter (hc_strong c) (filed c k) else filed c k)"
  "hc_alive (invalidate_handles a p c) t =
    (hc_alive c t \<and> \<not> (hc_strong c t \<and> (\<exists>k \<in> keys_of a p. t \<in> set (filed c k))))"
  by (auto simp: invalidate_handles_def Let_def keys_of_def split: option.split)

text \<open>Tokens are numbered upwards; a token is filed under the keys it was registered with.\<close>

definition cache_ok :: "('a, 'p) handle_cache \<Rightarrow> bool" where
  "cache_ok c \<longleftrightarrow> (\<forall>t. hc_strong c t \<longrightarrow> t < hc_next c) \<and> (\<forall>k. \<forall>t \<in> set (filed c k). t < hc_next c)"

definition token_at :: "('a, 'p) cache_key set \<Rightarrow> nat \<Rightarrow> ('a, 'p) handle_cache \<Rightarrow> bool" where
  "token_at ks t c \<longleftrightarrow> t < hc_next c \<and> hc_strong c t \<and> (\<forall>k. t \<in> set (filed c k) \<longleftrightarrow> k \<in> ks)"

lemma cache_step_ok: "cache_ok c \<Longrightarrow> cache_ok (cache_step op c)"
  by (cases op)
    (fastforce simp: cache_ok_def register_handle_simps invalidate_handles_simps less_Suc_eq)+

lemma cache_run_ok: "cache_ok c \<Longrightarrow> cache_ok (cache_run ops c)"
  unfolding cache_run_def by (induction ops arbitrary: c) (simp_all add: cache_step_ok)

lemma cache_ok_new: "cache_ok handle_cache_new"
  by (simp add: cache_ok_def handle_cache_new_def)

lemma register_token_at:
  "cache_ok c \<Longrightarrow> token_at (keys_of a p) (hc_next c) (snd (register_handle a p c))"
  by (auto simp: token_at_def cache_ok_def register_handle_simps)

lemma cache_step_token:
  assumes "token_at ks t c" "op \<noteq> Release t"
  shows "token_at ks t (cache_step op c) \<and>
    (hc_alive (cache_step op c) t \<longleftrightarrow> hc_alive c t \<and> \<not> invalidates ks op)"
  using assms
  by (cases op) (auto simp: token_at_def register_handle_simps invalidate_handles_simps)

lemma cache_run_token:
  assumes "token_at ks t c" "Release t \<notin> set ops"
  shows "hc_alive (cache_run ops c) t \<longleftrightarrow> hc_alive c t \<and> (\<forall>op \<in> set ops. \<not> invalidates ks op)"
  using assms unfolding cache_run_def
proof (induction ops arbitrary: c)
  case (Cons op ops)
  have "token_at ks t (cache_step op c)"
    and "hc_alive (cache_step op c) t \<longleftrightarrow> hc_alive c t \<and> \<not> invalidates ks op"
    using cache_step_token [OF Cons.prems(1), of op] Cons.prems(2) by auto
  then show ?case using Cons.IH [of "cache_step op c"] Cons.prems(2) by auto
qed simp


section \<open>Properties\<close>

text \<open>
  A cached connection is alive exactly as long as no disconnect of its peer, by address or by
  identifier, came after it was registered, whatever else happens to the cache: connections to
  other peers, and those registered after the disconnect, are not touched.
\<close>

theorem liveness_token_exact:
  assumes "register_handle a p (cache_run before handle_cache_new) = (t, c)"
    and "Release t \<notin> set after"
  shows "hc_alive (cache_run after c) t \<longleftrightarrow> (\<forall>op \<in> set after. \<not> invalidates (keys_of a p) op)"
proof -
  let ?c = "cache_run before handle_cache_new"
  have t: "t = hc_next ?c" "c = snd (register_handle a p ?c)"
    using assms(1) by (metis register_handle_fst fst_conv, metis snd_conv)
  have "token_at (keys_of a p) t c"
    unfolding t by (rule register_token_at [OF cache_run_ok [OF cache_ok_new]])
  moreover have "hc_alive c t" by (simp add: t register_handle_simps)
  ultimately show ?thesis using cache_run_token assms(2) by blast
qed

theorem liveness_token_exact_witness:
  "hc_alive (cache_run [Register ''b'' None, Invalidate ''b'' (Some (8 :: nat))]
     (snd (register_handle ''a'' (Some 7) handle_cache_new))) 0 \<and>
   \<not> hc_alive (cache_run [Invalidate ''c'' (Some (7 :: nat))]
     (snd (register_handle ''a'' (Some 7) handle_cache_new))) 0"
proof -
  have r: "register_handle ''a'' (Some (7 :: nat)) (cache_run [] handle_cache_new) =
      (0, snd (register_handle ''a'' (Some 7) handle_cache_new))"
    by (simp add: prod_eq_iff cache_run_def) (simp add: handle_cache_new_def)
  show ?thesis
    using liveness_token_exact [OF r, of "[Register ''b'' None, Invalidate ''b'' (Some 8)]"]
      liveness_token_exact [OF r, of "[Invalidate ''c'' (Some 7)]"]
    by (simp add: keys_of_def)
qed

end
