(* ===== verification/Remote_Handlers.thy ===== *)
theory Remote_Handlers
  imports Type_Hash Wire_Protocol Errors Request
begin

text \<open>
  What a node does with a message that arrives from another one: the registry of handlers by the
  32 bits of a type hash (\<open>src/remote/message_handler.rs\<close>,
  \<open>src/remote/distributed_message_handler.rs\<close>, \<open>src/remote/_internal.rs\<close>), the type registry
  (\<open>src/remote/type_registry.rs\<close>), the bridge from kameo\_remote (\<open>src/remote/v2_bootstrap.rs\<close>) and
  the handlers the macro \<open>distributed_actor!\<close> generates and registers
  (\<open>src/remote/distributed_actor.rs\<close>). The rkyv codecs and the channels are parameters.
\<close>

section \<open>The registry of handlers\<close>

type_synonym ('a, 'e, 'c) remote_call = "(('a, 'e remote_send_error) result outcome \<times> 'c mailbox_state) option"

record 'c message_fns =
  mf_ask :: "actor_id \<Rightarrow> bytes \<Rightarrow> nat option \<Rightarrow> nat option \<Rightarrow> 'c mailbox_state \<Rightarrow> (bytes, bytes, 'c) remote_call"
  mf_try_ask :: "actor_id \<Rightarrow> bytes \<Rightarrow> nat option \<Rightarrow> 'c mailbox_state \<Rightarrow> (bytes, bytes, 'c) remote_call"
  mf_tell :: "actor_id \<Rightarrow> bytes \<Rightarrow> nat option \<Rightarrow> 'c mailbox_state \<Rightarrow> (unit, unit, 'c) remote_call"
  mf_try_tell :: "actor_id \<Rightarrow> bytes \<Rightarrow> 'c mailbox_state \<Rightarrow> (unit, unit, 'c) remote_call"

type_synonym 'c handler_registry = "(u32, 'c message_fns) hash_map"

definition register_type_hash :: "type_hash \<Rightarrow> 'c message_fns \<Rightarrow> 'c handler_registry \<Rightarrow> 'c handler_registry" where
  "register_type_hash type_hash fns regs = hm_insert (as_u32 type_hash) fns regs"

definition register_type_handler :: "u32 \<Rightarrow> 'c message_fns \<Rightarrow> 'c handler_registry \<Rightarrow> 'c handler_registry" where
  "register_type_handler type_hash fns regs = register_type_hash (from_u32 type_hash) fns regs"

text \<open>The texts of the errors; \<open>dbg\<close> is the derived \<open>Debug\<close> output of an error.\<close>

definition hex8 :: "u32 \<Rightarrow> string" where
  "hex8 w = map (\<lambda>i. ''0123456789abcdef'' ! unat (take_bit 4 (drop_bit (4 * i) w))) [7, 6, 5, 4, 3, 2, 1, 0]"

definition unknown_hash_text :: "u32 \<Rightarrow> string" where
  "unknown_hash_text h = ''Unknown type hash: '' @ hex8 h"

fun remote_error_text :: "('e remote_send_error \<Rightarrow> string) \<Rightarrow> 'e remote_send_error \<Rightarrow> string" where
  "remote_error_text dbg (RUnknownMessage a m) = ''Unknown message: '' @ a @ '':'' @ m"
| "remote_error_text dbg e = ''Remote send error: '' @ dbg e"

definition string_type_text :: "string \<Rightarrow> string" where
  "string_type_text t = ''String message types are not supported (got: '' @ t @ '')''"

definition map_call :: "('e \<Rightarrow> 'f) \<Rightarrow> (('a, 'e) result outcome \<times> 's) option \<Rightarrow> (('a, 'f) result outcome \<times> 's) option" where
  "map_call f = map_option (map_prod (map_outcome (map_err f)) id)"

definition handle_tell_string :: "actor_id \<Rightarrow> string \<Rightarrow> bytes \<Rightarrow> (unit, string) result" where
  "handle_tell_string actor_id message_type payload = Err (string_type_text message_type)"

definition handle_ask_string :: "actor_id \<Rightarrow> string \<Rightarrow> bytes \<Rightarrow> (bytes, string) result" where
  "handle_ask_string actor_id message_type payload = Err (string_type_text message_type)"

definition handle_tell_typed ::
  "(unit remote_send_error \<Rightarrow> string) \<Rightarrow> 'c handler_registry \<Rightarrow> actor_id \<Rightarrow> u32 \<Rightarrow> bytes \<Rightarrow> 'c mailbox_state
    \<Rightarrow> ((unit, string) result outcome \<times> 'c mailbox_state) option" where
  "handle_tell_typed dbg regs actor_id type_hash payload st =
    (case hm_get regs type_hash of
       Some fns \<Rightarrow> map_call (remote_error_text dbg) (mf_tell fns actor_id payload (Some (from_secs 30)) st)
     | None \<Rightarrow> Some (Done (Err (unknown_hash_text type_hash)), st))"

definition handle_ask_typed ::
  "(bytes remote_send_error \<Rightarrow> string) \<Rightarrow> 'c handler_registry \<Rightarrow> actor_id \<Rightarrow> u32 \<Rightarrow> bytes \<Rightarrow> 'c mailbox_state
    \<Rightarrow> ((bytes, string) result outcome \<times> 'c mailbox_state) option" where
  "handle_ask_typed dbg regs actor_id type_hash payload st =
    (case hm_get regs type_hash of
       Some fns \<Rightarrow> map_call (remote_error_text dbg)
         (mf_ask fns actor_id payload (Some (from_secs 30)) (Some (from_secs 30)) st)
     | None \<Rightarrow> Some (Done (Err (unknown_hash_text type_hash)), st))"

text \<open>
  The bridge that kameo\_remote calls: a correlation number makes the message an ask. \<open>quote\<close> is the
  \<open>Debug\<close> output of an error that is a text.
\<close>

definition tell_failed_text :: "(string \<Rightarrow> string) \<Rightarrow> string \<Rightarrow> string" where
  "tell_failed_text quote e = ''Tell handler error: '' @ quote e"

definition ask_failed_text :: "(string \<Rightarrow> string) \<Rightarrow> string \<Rightarrow> string" where
  "ask_failed_text quote e = ''Ask handler error: '' @ quote e"

definition handle_actor_message ::
  "(unit remote_send_error \<Rightarrow> string) \<Rightarrow> (bytes remote_send_error \<Rightarrow> string) \<Rightarrow> (string \<Rightarrow> string)
    \<Rightarrow> 'c handler_registry \<Rightarrow> u64 \<Rightarrow> u32 \<Rightarrow> bytes \<Rightarrow> u16 option \<Rightarrow> 'c mailbox_state
    \<Rightarrow> ((bytes option, string) result outcome \<times> 'c mailbox_state) option" where
  "handle_actor_message dbg_t dbg_a quote regs actor_id type_hash payload correlation st =
    (let actor_id = actor_id_from_u64 actor_id
     in case correlation of
          Some _ \<Rightarrow>
            map_option (map_prod (map_outcome (map_ok Some)) id)
              (map_call (ask_failed_text quote) (handle_ask_typed dbg_a regs actor_id type_hash payload st))
        | None \<Rightarrow>
            map_option (map_prod (map_outcome (map_ok (\<lambda>_. None))) id)
              (map_call (tell_failed_text quote) (handle_tell_typed dbg_t regs actor_id type_hash payload st)))"


section \<open>The type registry\<close>

record type_registry_entry =
  tr_actor_id :: actor_id
  tr_handler_name :: string

type_synonym type_registry = "(u32, type_registry_entry) hash_map"

definition register_type :: "u32 \<Rightarrow> actor_id \<Rightarrow> string \<Rightarrow> type_registry \<Rightarrow> type_registry" where
  "register_type type_hash actor_id handler_name reg =
    hm_insert type_hash \<lparr>tr_actor_id = actor_id, tr_handler_name = handler_name\<rparr> reg"

definition lookup_handler :: "u32 \<Rightarrow> type_registry \<Rightarrow> type_registry_entry option" where
  "lookup_handler type_hash reg = hm_get reg type_hash"

definition unregister_actor_types :: "actor_id \<Rightarrow> type_registry \<Rightarrow> type_registry" where
  "unregister_actor_types actor_id reg = hm_retain (\<lambda>_ e. tr_actor_id e \<noteq> actor_id) reg"

section \<open>Generated handlers: the list syntax\<close>

text \<open>
  One message type of \<open>distributed_actor!\<close>: its type hash, its type, rkyv's decoder for it and
  encoder for its reply, how its reply type takes a boxed reply apart, and the handler's name.
\<close>

record 'v remote_msg =
  rm_hash :: type_hash
  rm_type :: type_id
  rm_decode :: "bytes \<Rightarrow> 'v option"
  rm_encode_reply :: "'v \<Rightarrow> bytes option"
  rm_reply :: "'v reply_downcast"
  rm_name :: string

text \<open>The checks before a message goes to the mailbox: the actor and the decoder.\<close>

definition with_message ::
  "'h actor_ref \<Rightarrow> 'v remote_msg \<Rightarrow> actor_id \<Rightarrow> bytes \<Rightarrow> 's
    \<Rightarrow> ('v \<Rightarrow> (('a, 'e remote_send_error) result outcome \<times> 's) option)
    \<Rightarrow> (('a, 'e remote_send_error) result outcome \<times> 's) option" where
  "with_message ar m aid payload st k =
    (if aid \<noteq> ar_id ar then Some (Done (Err RActorNotRunning), st)
     else case rm_decode m payload of
            None \<Rightarrow> Some (Done (Err RActorStopped), st)
          | Some msg \<Rightarrow> k msg)"

text \<open>The reply of an ask goes back encoded; \<open>failed\<close> is what every error of the ask becomes.\<close>

definition encode_result ::
  "'e remote_send_error \<Rightarrow> 'v remote_msg \<Rightarrow> ('v, 'f) result \<Rightarrow> (bytes, 'e remote_send_error) result" where
  "encode_result failed m r =
    (case r of
       Ok reply \<Rightarrow> (case rm_encode_reply m reply of Some b \<Rightarrow> Ok b | None \<Rightarrow> Err RActorStopped)
     | Err _ \<Rightarrow> Err failed)"

definition list_tell ::
  "('h, 'k, 'r, 'v signal, 'c) mpsc_send \<Rightarrow> bool \<Rightarrow> actor_id option \<Rightarrow> 'h actor_ref \<Rightarrow> 'v remote_msg
    \<Rightarrow> actor_id \<Rightarrow> bytes \<Rightarrow> nat option \<Rightarrow> 'c mailbox_state \<Rightarrow> (unit, unit, 'c) remote_call" where
  "list_tell ops metrics current ar m aid payload timeout st =
    with_message ar m aid payload st (\<lambda>msg.
      map_call (\<lambda>_ :: ('v, 'v) send_error. RActorStopped)
        (tell_send ops metrics current ar (rm_type m) msg timeout st))"

definition list_try_tell ::
  "('h, 'k, 'r, 'v signal, 'c) mpsc_send \<Rightarrow> bool \<Rightarrow> actor_id option \<Rightarrow> 'h actor_ref \<Rightarrow> 'v remote_msg
    \<Rightarrow> actor_id \<Rightarrow> bytes \<Rightarrow> 'c mailbox_state \<Rightarrow> (unit, unit, 'c) remote_call" where
  "list_try_tell ops metrics current ar m aid payload st =
    with_message ar m aid payload st (\<lambda>msg.
      map_call (\<lambda>_ :: ('v, 'v) send_error. RActorNotRunning)
        (Some (tell_try_send ops metrics current ar (rm_type m) msg st)))"

text \<open>The four branches on the two timeouts set exactly the timeouts that are given.\<close>

definition list_ask ::
  "('h, 'k, 'r, 'v signal, 'c) mpsc_send \<Rightarrow> ('v, 'c) oneshot_ops \<Rightarrow> bool \<Rightarrow> actor_id option \<Rightarrow> 'h actor_ref
    \<Rightarrow> 'v remote_msg \<Rightarrow> actor_id \<Rightarrow> bytes \<Rightarrow> nat option \<Rightarrow> nat option \<Rightarrow> 'c mailbox_state
    \<Rightarrow> (bytes, bytes, 'c) remote_call" where
  "list_ask ops os metrics current ar m aid payload mailbox_timeout reply_timeout st =
    with_message ar m aid payload st (\<lambda>msg.
      map_option (map_prod (map_outcome (encode_result RActorStopped m)) id)
        (ask_send ops os metrics (rm_reply m) current ar (rm_type m) msg mailbox_timeout reply_timeout st))"

definition list_try_ask ::
  "('h, 'k, 'r, 'v signal, 'c) mpsc_send \<Rightarrow> ('v, 'c) oneshot_ops \<Rightarrow> bool \<Rightarrow> actor_id option \<Rightarrow> 'h actor_ref
    \<Rightarrow> 'v remote_msg \<Rightarrow> actor_id \<Rightarrow> bytes \<Rightarrow> nat option \<Rightarrow> 'c mailbox_state \<Rightarrow> (bytes, bytes, 'c) remote_call" where
  "list_try_ask ops os metrics current ar m aid payload reply_timeout st =
    with_message ar m aid payload st (\<lambda>msg.
      map_option (map_prod (map_outcome (encode_result RActorNotRunning m)) id)
        (ask_try_send ops os metrics (rm_reply m) current ar (rm_type m) msg reply_timeout st))"

definition list_fns ::
  "('h, 'k, 'r, 'v signal, 'c) mpsc_send \<Rightarrow> ('v, 'c) oneshot_ops \<Rightarrow> bool \<Rightarrow> actor_id option \<Rightarrow> 'h actor_ref
    \<Rightarrow> 'v remote_msg \<Rightarrow> 'c message_fns" where
  "list_fns ops os metrics current ar m =
    \<lparr>mf_ask = list_ask ops os metrics current ar m, mf_try_ask = list_try_ask ops os metrics current ar m,
     mf_tell = list_tell ops metrics current ar m, mf_try_tell = list_try_tell ops metrics current ar m\<rparr>"

text \<open>
  \<open>__internal_register_handlers\<close>: it unwinds without a global transport, then registers the
  handlers of each message type, and the type itself, in the order they are listed.
\<close>

fun register_listed ::
  "('h, 'k, 'r, 'v signal, 'c) mpsc_send \<Rightarrow> ('v, 'c) oneshot_ops \<Rightarrow> bool \<Rightarrow> actor_id option \<Rightarrow> 'h actor_ref
    \<Rightarrow> 'v remote_msg list \<Rightarrow> 'c handler_registry \<times> type_registry \<Rightarrow> 'c handler_registry \<times> type_registry" where
  "register_listed ops os metrics current ar [] regs = regs"
| "register_listed ops os metrics current ar (m # ms) (handlers, types) =
    register_listed ops os metrics current ar ms
      (register_type_handler (as_u32 (rm_hash m)) (list_fns ops os metrics current ar m) handlers,
       register_type (as_u32 (rm_hash m)) (ar_id ar) (rm_name m) types)"

definition register_list_handlers ::
  "bool \<Rightarrow> ('h, 'k, 'r, 'v signal, 'c) mpsc_send \<Rightarrow> ('v, 'c) oneshot_ops \<Rightarrow> bool \<Rightarrow> actor_id option \<Rightarrow> 'h actor_ref
    \<Rightarrow> 'v remote_msg list \<Rightarrow> 'c handler_registry \<times> type_registry \<Rightarrow> ('c handler_registry \<times> type_registry) outcome" where
  "register_list_handlers transport_set ops os metrics current ar ms regs =
    (if transport_set then Done (register_listed ops os metrics current ar ms regs) else Panicked)"


section \<open>Generated handlers: the mapping syntax\<close>

text \<open>
  The handlers of the mapping syntax send a \<open>DistributedMessage\<close>, the hash and the payload, to the
  actor. As a dynamically typed value it is \<open>wrap hash payload\<close> of type \<open>td\<close>; its reply, a
  \<open>Result<Vec<u8>, BoxError>\<close>, is read by \<open>rd\<close>, and \<open>unbytes\<close> gives the bytes of a successful one.
\<close>

record 'v mapping_env =
  me_type :: type_id
  me_wrap :: "u32 \<Rightarrow> bytes \<Rightarrow> 'v"
  me_reply :: "'v reply_downcast"
  me_unbytes :: "'v \<Rightarrow> bytes"

definition mapped_tell ::
  "('h, 'k, 'r, 'v signal, 'c) mpsc_send \<Rightarrow> bool \<Rightarrow> actor_id option \<Rightarrow> 'h actor_ref \<Rightarrow> 'v mapping_env \<Rightarrow> type_hash
    \<Rightarrow> actor_id \<Rightarrow> bytes \<Rightarrow> nat option \<Rightarrow> 'c mailbox_state \<Rightarrow> (unit, unit, 'c) remote_call" where
  "mapped_tell ops metrics current ar me h aid payload timeout st =
    (if aid \<noteq> ar_id ar then Some (Done (Err RActorNotRunning), st)
     else map_call (\<lambda>_ :: ('v, 'v) send_error. RActorNotRunning)
       (tell_send ops metrics current ar (me_type me) (me_wrap me (as_u32 h) payload) None st))"

definition mapped_try_tell ::
  "('h, 'k, 'r, 'v signal, 'c) mpsc_send \<Rightarrow> bool \<Rightarrow> actor_id option \<Rightarrow> 'h actor_ref \<Rightarrow> 'v mapping_env \<Rightarrow> type_hash
    \<Rightarrow> actor_id \<Rightarrow> bytes \<Rightarrow> 'c mailbox_state \<Rightarrow> (unit, unit, 'c) remote_call" where
  "mapped_try_tell ops metrics current ar me h aid payload st =
    (if aid \<noteq> ar_id ar then Some (Done (Err RActorNotRunning), st)
     else map_call (\<lambda>_ :: ('v, 'v) send_error. RActorNotRunning)
       (tell_send ops metrics current ar (me_type me) (me_wrap me (as_u32 h) payload) None st))"

fun mapped_result ::
  "'v mapping_env \<Rightarrow> ('v, ('m, 'f) send_error) result \<Rightarrow> (bytes, 'e remote_send_error) result" where
  "mapped_result me (Ok reply) = Ok (me_unbytes me reply)"
| "mapped_result me (Err (HandlerError _)) = Err RActorStopped"
| "mapped_result me (Err _) = Err RActorNotRunning"

definition mapped_ask ::
  "('h, 'k, 'r, 'v signal, 'c) mpsc_send \<Rightarrow> ('v, 'c) oneshot_ops \<Rightarrow> bool \<Rightarrow> actor_id option \<Rightarrow> 'h actor_ref
    \<Rightarrow> 'v mapping_env \<Rightarrow> type_hash \<Rightarrow> actor_id \<Rightarrow> bytes \<Rightarrow> nat option \<Rightarrow> nat option \<Rightarrow> 'c mailbox_state
    \<Rightarrow> (bytes, bytes, 'c) remote_call" where
  "mapped_ask ops os metrics current ar me h aid payload mailbox_timeout reply_timeout st =
    (if aid \<noteq> ar_id ar then Some (Done (Err RActorNotRunning), st)
     else map_option (map_prod (map_outcome (mapped_result me)) id)
       (ask_send ops os metrics (me_reply me) current ar (me_type me) (me_wrap me (as_u32 h) payload) None None st))"

definition mapped_try_ask ::
  "('h, 'k, 'r, 'v signal, 'c) mpsc_send \<Rightarrow> ('v, 'c) oneshot_ops \<Rightarrow> bool \<Rightarrow> actor_id option \<Rightarrow> 'h actor_ref
    \<Rightarrow> 'v mapping_env \<Rightarrow> type_hash \<Rightarrow> actor_id \<Rightarrow> bytes \<Rightarrow> nat option \<Rightarrow> 'c mailbox_state
    \<Rightarrow> (bytes, bytes, 'c) remote_call" where
  "mapped_try_ask ops os metrics current ar me h aid payload timeout st =
    (if aid \<noteq> ar_id ar then Some (Done (Err RActorNotRunning), st)
     else map_option (map_prod (map_outcome (mapped_result me)) id)
       (ask_send ops os metrics (me_reply me) current ar (me_type me) (me_wrap me (as_u32 h) payload) None None st))"

definition mapped_fns ::
  "('h, 'k, 'r, 'v signal, 'c) mpsc_send \<Rightarrow> ('v, 'c) oneshot_ops \<Rightarrow> bool \<Rightarrow> actor_id option \<Rightarrow> 'h actor_ref
    \<Rightarrow> 'v mapping_env \<Rightarrow> type_hash \<Rightarrow> 'c message_fns" where
  "mapped_fns ops os metrics current ar me h =
    \<lparr>mf_ask = mapped_ask ops os metrics current ar me h, mf_try_ask = mapped_try_ask ops os metrics current ar me h,
     mf_tell = mapped_tell ops metrics current ar me h, mf_try_tell = mapped_try_tell ops metrics current ar me h\<rparr>"

definition register_mapped_handlers ::
  "bool \<Rightarrow> ('h, 'k, 'r, 'v signal, 'c) mpsc_send \<Rightarrow> ('v, 'c) oneshot_ops \<Rightarrow> bool \<Rightarrow> actor_id option \<Rightarrow> 'h actor_ref
    \<Rightarrow> 'v mapping_env \<Rightarrow> type_hash list \<Rightarrow> 'c handler_registry \<Rightarrow> 'c handler_registry outcome" where
  "register_mapped_handlers transport_set ops os metrics current ar me hs regs =
    (if transport_set
     then Done (fold (\<lambda>h. register_type_handler (as_u32 h) (mapped_fns ops os metrics current ar me h)) hs regs)
     else Panicked)"

text \<open>
  The actor's side: the handler of \<open>DistributedMessage\<close> looks for the first message type with the
  hash, reads the payload in its archived form and runs the method the macro names. \<open>ah_size\<close> is
  the size of the method's result type, of which only the unit type has none.
\<close>

record ('s, 'x, 'y) archived_handler =
  ah_hash :: type_hash
  ah_access :: "bytes \<Rightarrow> ('x, string) result"
  ah_run :: "'x \<Rightarrow> 's \<Rightarrow> 'y \<times> 's"
  ah_size :: "'y \<Rightarrow> nat"
  ah_encode :: "'y \<Rightarrow> (bytes, string) result"

fun handle_distributed ::
  "('s, 'x, 'y) archived_handler list \<Rightarrow> u32 \<Rightarrow> bytes \<Rightarrow> 's \<Rightarrow> (bytes, string) result \<times> 's" where
  "handle_distributed [] type_hash payload s = (Err (''Unknown message type hash: '' @ hex8 type_hash), s)"
| "handle_distributed (h # hs) type_hash payload s =
    (if type_hash = as_u32 (ah_hash h)
     then (case ah_access h payload of
             Err e \<Rightarrow> (Err e, s)
           | Ok archived \<Rightarrow>
               (let (result, s) = ah_run h archived s
                in if ah_size h result > 0 then (ah_encode h result, s) else (Ok [], s)))
     else handle_distributed hs type_hash payload s)"

text \<open>\<open>AlignedBytes::from_bytes\<close> copies the payload into an aligned buffer, or fails with a text.\<close>

definition handle_distributed_message ::
  "(bytes \<Rightarrow> (bytes, string) result) \<Rightarrow> ('s, 'x, 'y) archived_handler list \<Rightarrow> u32 \<Rightarrow> bytes \<Rightarrow> 's
    \<Rightarrow> (bytes, string) result \<times> 's" where
  "handle_distributed_message align hs type_hash payload s =
    (case align payload of
       Err e \<Rightarrow> (Err e, s)
     | Ok aligned \<Rightarrow> handle_distributed hs type_hash aligned s)"

section \<open>Lemmas\<close>

lemma as_u32_from_u32 [simp]: "as_u32 (from_u32 v) = v"
  unfolding as_u32_def from_u32_def hash_u64.simps by (rule bit_eqI) (simp add: bit_simps)

lemma register_type_handler_eq [simp]: "register_type_handler v fns regs = hm_insert v fns regs"
  by (simp add: register_type_handler_def register_type_hash_def)

lemma actor_id_u64_roundtrip [simp]: "actor_id_from_u64 (actor_id_into_u64 i) = i"
  by (cases i) (simp add: actor_id_from_u64_def actor_id_into_u64_def new_actor_id_def)

definition msg_key :: "'v remote_msg \<Rightarrow> u32" where
  "msg_key m = as_u32 (rm_hash m)"

lemma register_listed_other:
  "k \<notin> msg_key ` set ms \<Longrightarrow>
    hm_get (fst (register_listed ops os metrics current ar ms regs)) k = hm_get (fst regs) k \<and>
    hm_get (snd (register_listed ops os metrics current ar ms regs)) k = hm_get (snd regs) k"
proof (induction ms arbitrary: regs)
  case (Cons m ms)
  obtain hs ts where regs: "regs = (hs, ts)" by (cases regs)
  have "k \<noteq> as_u32 (rm_hash m)" and k: "k \<notin> msg_key ` set ms"
    using Cons.prems by (auto simp: msg_key_def)
  then show ?case
    using Cons.IH [OF k] by (simp add: regs register_type_def)
qed simp

lemma register_listed_get:
  assumes "m \<in> set ms" "distinct (map msg_key ms)"
  shows "hm_get (fst (register_listed ops os metrics current ar ms regs)) (msg_key m) =
      Some (list_fns ops os metrics current ar m) \<and>
    lookup_handler (msg_key m) (snd (register_listed ops os metrics current ar ms regs)) =
      Some \<lparr>tr_actor_id = ar_id ar, tr_handler_name = rm_name m\<rparr>"
  using assms
proof (induction ms arbitrary: regs)
  case (Cons a ms)
  obtain hs ts where regs: "regs = (hs, ts)" by (cases regs)
  show ?case
  proof (cases "m \<in> set ms")
    case True
    then show ?thesis using Cons by (simp add: regs)
  next
    case False
    then have m: "m = a" and new: "msg_key a \<notin> msg_key ` set ms"
      using Cons.prems by auto
    show ?thesis
      using register_listed_other [OF new, of ops os metrics current ar
          "(hm_insert (msg_key a) (list_fns ops os metrics current ar a) hs,
            register_type (msg_key a) (ar_id ar) (rm_name a) ts)"]
      by (simp add: regs m msg_key_def [symmetric] register_type_def lookup_handler_def)
  qed
qed simp

lemma map_call_None [simp]: "map_call f x = None \<longleftrightarrow> x = None"
  by (simp add: map_call_def)

lemma map_call_Some [simp]: "map_call f (Some (r, s)) = Some (map_outcome (map_err f) r, s)"
  by (simp add: map_call_def)

lemma with_message_ok:
  "rm_decode m payload = Some msg \<Longrightarrow> with_message ar m (ar_id ar) payload st k = k msg"
  by (simp add: with_message_def)

lemma with_message_rejected:
  "with_message ar m aid payload st k = (if aid \<noteq> ar_id ar then Some (Done (Err RActorNotRunning), st)
    else if rm_decode m payload = None then Some (Done (Err RActorStopped), st)
    else k (the (rm_decode m payload)))"
  by (auto simp: with_message_def)


section \<open>Properties\<close>

text \<open>What a tell and an ask become for the node that sent them.\<close>

definition remote_tell_result ::
  "(unit remote_send_error \<Rightarrow> string) \<Rightarrow> (string \<Rightarrow> string) \<Rightarrow> (unit, 'f) result \<Rightarrow> (bytes option, string) result" where
  "remote_tell_result dbg quote r =
    (case r of
       Ok _ \<Rightarrow> Ok None
     | Err _ \<Rightarrow> Err (tell_failed_text quote (remote_error_text dbg RActorStopped)))"

definition remote_ask_result ::
  "(bytes remote_send_error \<Rightarrow> string) \<Rightarrow> (string \<Rightarrow> string) \<Rightarrow> 'v remote_msg \<Rightarrow> ('v, 'f) result
    \<Rightarrow> (bytes option, string) result" where
  "remote_ask_result dbg quote m r =
    (case Option.bind (case r of Ok v \<Rightarrow> Some v | Err _ \<Rightarrow> None) (rm_encode_reply m) of
       Some b \<Rightarrow> Ok (Some b)
     | None \<Rightarrow> Err (ask_failed_text quote (remote_error_text dbg RActorStopped)))"

lemma map_outcome_comp: "map_outcome f (map_outcome g r) = map_outcome (\<lambda>x. f (g x)) r"
  by (cases r) auto

lemma map_outcome_fun_eq: "(\<And>x. f x = g x) \<Longrightarrow> map_outcome f r = map_outcome g r"
  by (cases r) auto

lemma tell_result_eq:
  "map_option (map_prod (map_outcome (map_ok (\<lambda>_. None))) id)
     (map_call (tell_failed_text quote) (map_call (remote_error_text dbg) (map_call (\<lambda>_. RActorStopped) x))) =
   map_option (map_prod (map_outcome (remote_tell_result dbg quote)) id) x"
  by (auto simp: map_call_def option.map_comp comp_def remote_tell_result_def map_prod_def map_outcome_comp
      intro!: option.map_cong map_outcome_fun_eq split: prod.splits result.splits)

lemma ask_result_eq:
  "map_option (map_prod (map_outcome (map_ok Some)) id)
     (map_call (ask_failed_text quote) (map_call (remote_error_text dbg)
       (map_option (map_prod (map_outcome (encode_result RActorStopped m)) id) x))) =
   map_option (map_prod (map_outcome (remote_ask_result dbg quote m)) id) x"
  by (auto simp: map_call_def option.map_comp comp_def remote_ask_result_def encode_result_def map_prod_def map_outcome_comp
      intro!: option.map_cong map_outcome_fun_eq split: prod.splits result.splits option.splits)

lemma remote_tell_local:
  fixes ops :: "('h, 'k, 'r, 'v signal, 'c) mpsc_send"
  assumes "register_list_handlers True ops os metrics current ar ms regs = Done (handlers, types)"
    and "m \<in> set ms" and "distinct (map msg_key ms)" and "rm_decode m payload = Some msg"
  shows "handle_actor_message dt da quote handlers (actor_id_into_u64 (ar_id ar)) (msg_key m) payload None st =
      map_option (map_prod (map_outcome (remote_tell_result dt quote)) id)
        (tell_send ops metrics current ar (rm_type m) msg (Some (from_secs 30)) st
          :: ((unit, ('v, 'v) send_error) result outcome \<times> 'c mailbox_state) option)"
    and "handle_actor_message dt da quote handlers (actor_id_into_u64 (ar_id ar)) (msg_key m) payload (Some cn) st =
      map_option (map_prod (map_outcome (remote_ask_result da quote m)) id)
        (ask_send ops os metrics (rm_reply m) current ar (rm_type m) msg
          (Some (from_secs 30)) (Some (from_secs 30)) st)"
proof -
  have get: "hm_get handlers (msg_key m) = Some (list_fns ops os metrics current ar m)"
    using register_listed_get [OF assms(2,3), of ops os metrics current ar regs] assms(1)
    by (simp add: register_list_handlers_def)
  note defs = handle_actor_message_def handle_tell_typed_def handle_ask_typed_def get list_fns_def list_tell_def
    list_ask_def with_message_ok [OF assms(4)] tell_result_eq ask_result_eq
  show "handle_actor_message dt da quote handlers (actor_id_into_u64 (ar_id ar)) (msg_key m) payload None st =
      map_option (map_prod (map_outcome (remote_tell_result dt quote)) id)
        (tell_send ops metrics current ar (rm_type m) msg (Some (from_secs 30)) st
          :: ((unit, ('v, 'v) send_error) result outcome \<times> 'c mailbox_state) option)"
    by (simp add: defs)
  show "handle_actor_message dt da quote handlers (actor_id_into_u64 (ar_id ar)) (msg_key m) payload (Some cn) st =
      map_option (map_prod (map_outcome (remote_ask_result da quote m)) id)
        (ask_send ops os metrics (rm_reply m) current ar (rm_type m) msg
          (Some (from_secs 30)) (Some (from_secs 30)) st)"
    by (simp add: defs)
qed

text \<open>
  A message that arrives from another node for a registered actor does to the mailbox exactly
  what a local tell or ask of the decoded message with timeouts of 30 seconds does, and is answered
  by the encoded reply; every error, be it a full mailbox, a timeout or the handler's own, is the
  same text.
\<close>

theorem remote_calls_are_local_calls:
  fixes ops :: "('h, 'k, 'r, 'v signal, 'c) mpsc_send"
  assumes "register_list_handlers True ops os metrics current ar ms regs = Done (handlers, types)"
    and "m \<in> set ms" and "distinct (map msg_key ms)" and "rm_decode m payload = Some msg"
  shows "handle_actor_message dt da quote handlers (actor_id_into_u64 (ar_id ar)) (msg_key m) payload None st =
      map_option (map_prod (map_outcome (remote_tell_result dt quote)) id)
        (tell_send ops metrics current ar (rm_type m) msg (Some (from_secs 30)) st
          :: ((unit, ('v, 'v) send_error) result outcome \<times> 'c mailbox_state) option) \<and>
    handle_actor_message dt da quote handlers (actor_id_into_u64 (ar_id ar)) (msg_key m) payload (Some cn) st =
      map_option (map_prod (map_outcome (remote_ask_result da quote m)) id)
        (ask_send ops os metrics (rm_reply m) current ar (rm_type m) msg
          (Some (from_secs 30)) (Some (from_secs 30)) st)"
  using remote_tell_local [OF assms] by (rule conjI)

definition demo_remote_msg :: "nat remote_msg" where
  "demo_remote_msg = \<lparr>rm_hash = TypeHash 7, rm_type = TyNamed 0,
     rm_decode = (\<lambda>b. case b of [x] \<Rightarrow> Some (unat x) | _ \<Rightarrow> None), rm_encode_reply = (\<lambda>v. Some [of_nat v]),
     rm_reply = default_downcast (TyNamed 0) TyUnit TyInfallible, rm_name = ''demo''\<rparr>"

definition demo_ref :: "nat \<Rightarrow> unit actor_ref" where
  "demo_ref i = \<lparr>ar_id = ActorId (of_nat i), ar_mailbox = Unbounded ()\<rparr>"

definition demo_ops :: "(unit, unit, unit, nat signal, nat signal list) mpsc_send" where
  "demo_ops = queue_send"

definition demo_oneshot :: "(nat, nat signal list) oneshot_ops" where
  "demo_oneshot = no_oneshot"

definition demo_registered :: "nat \<Rightarrow> nat signal list handler_registry \<times> type_registry \<Rightarrow> nat signal list handler_registry \<times> type_registry" where
  "demo_registered i = register_listed demo_ops demo_oneshot False None (demo_ref i) [demo_remote_msg]"

lemma demo_registers:
  "register_list_handlers True demo_ops demo_oneshot False None (demo_ref i) [demo_remote_msg] regs =
    Done (fst (demo_registered i regs), snd (demo_registered i regs))"
  by (simp add: register_list_handlers_def demo_registered_def)

lemma demo_key: "msg_key demo_remote_msg = 7" "distinct (map msg_key [demo_remote_msg])"
  by (simp_all add: msg_key_def demo_remote_msg_def as_u32_def)

lemma demo_ref_id: "ar_id (demo_ref i) = ActorId (of_nat i)"
  by (simp add: demo_ref_def)

theorem remote_calls_are_local_calls_witness:
  "handle_actor_message (\<lambda>_. ''x'') (\<lambda>_. ''x'') id (fst (demo_registered 3 ([], []))) 3 7 [5] None empty_mailbox =
      Some (Done (Ok None), empty_mailbox\<lparr>mb_chan := [MessageSignal (Any (TyNamed 0) 5) (ActorId 3) None False]\<rparr>)"
proof -
  have "tell_send demo_ops False None (demo_ref 3) (rm_type demo_remote_msg) 5 (Some (from_secs 30)) empty_mailbox =
    Some (Done (Ok ()) :: (unit, (nat, nat) send_error) result outcome,
      empty_mailbox\<lparr>mb_chan := [MessageSignal (Any (TyNamed 0) 5) (ActorId 3) None False]\<rparr>)"
    by (simp add: tell_send_def put_def mailbox_send_timeout_def demo_ref_def demo_ops_def queue_send_def Let_def
        after_send_def request_signal_def is_current_def demo_remote_msg_def empty_mailbox_def)
  moreover have "rm_decode demo_remote_msg [5] = Some 5" by (simp add: demo_remote_msg_def)
  moreover have "actor_id_into_u64 (ar_id (demo_ref 3)) = 3" by (simp add: demo_ref_id actor_id_into_u64_def)
  ultimately show ?thesis
    using remote_calls_are_local_calls [OF demo_registers [of 3 "([], [])"], of demo_remote_msg "[5]" 5 "\<lambda>_. ''x''"
        "\<lambda>_. ''x''" id empty_mailbox] demo_key
    by (simp add: remote_tell_result_def)
qed

text \<open>
  Handlers are kept by message type alone: when two actors register the same message type, the
  second takes it over, every message for the first one is refused as \<open>ActorNotRunning\<close> and does not
  reach a mailbox, and the type registry names the second.
\<close>

theorem last_registration_takes_over:
  assumes "register_list_handlers True ops os metrics current ar1 ms1 regs = Done regs1"
    and "register_list_handlers True ops os metrics current ar2 ms2 regs1 = Done (handlers, types)"
    and "m2 \<in> set ms2" and "distinct (map msg_key ms2)"
    and "m1 \<in> set ms1" and "msg_key m1 = msg_key m2" and "ar_id ar1 \<noteq> ar_id ar2"
  shows "handle_tell_typed dt handlers (ar_id ar1) (msg_key m1) payload st =
      Some (Done (Err (remote_error_text dt RActorNotRunning)), st) \<and>
    handle_ask_typed da handlers (ar_id ar1) (msg_key m1) payload st =
      Some (Done (Err (remote_error_text da RActorNotRunning)), st) \<and>
    map_option tr_actor_id (lookup_handler (msg_key m1) types) = Some (ar_id ar2)"
proof -
  have "register_listed ops os metrics current ar2 ms2 regs1 = (handlers, types)"
    using assms(2) by (simp add: register_list_handlers_def)
  then have get: "hm_get handlers (msg_key m1) = Some (list_fns ops os metrics current ar2 m2)"
    "lookup_handler (msg_key m1) types = Some \<lparr>tr_actor_id = ar_id ar2, tr_handler_name = rm_name m2\<rparr>"
    using register_listed_get [OF assms(3,4), of ops os metrics current ar2 regs1] assms(6) by simp_all
  then show ?thesis
    using assms(7)
    by (simp add: handle_tell_typed_def handle_ask_typed_def list_fns_def list_tell_def list_ask_def with_message_def)
qed

theorem last_registration_takes_over_witness:
  "handle_tell_typed (\<lambda>_. ''gone'') (fst (demo_registered 4 (demo_registered 3 ([], [])))) (ActorId 3) 7 [5] empty_mailbox =
      Some (Done (Err ''Remote send error: gone''), empty_mailbox)"
proof -
  have first: "register_list_handlers True demo_ops demo_oneshot False None (demo_ref 3) [demo_remote_msg] ([], []) =
      Done (demo_registered 3 ([], []))"
    using demo_registers [of 3 "([], [])"] by simp
  show ?thesis
    using last_registration_takes_over [OF first demo_registers [of 4], of demo_remote_msg demo_remote_msg "\<lambda>_. ''gone''"
        "[5]" empty_mailbox] demo_key
    by (simp add: demo_ref_id)
qed

text \<open>
  Nothing that is not meant for a registered actor reaches a mailbox: an unknown type hash,
  another actor's identifier and an undecodable payload are each answered with their error and
  leave the mailbox as it was.
\<close>

theorem unmatched_messages_rejected:
  assumes "register_list_handlers True ops os metrics current ar ms ([], []) = Done (handlers, types)"
    and "distinct (map msg_key ms)"
  shows "(h \<notin> msg_key ` set ms \<longrightarrow>
      handle_tell_typed dt handlers aid h payload st = Some (Done (Err (unknown_hash_text h)), st) \<and>
      handle_ask_typed da handlers aid h payload st = Some (Done (Err (unknown_hash_text h)), st)) \<and>
    (\<forall>m \<in> set ms. aid \<noteq> ar_id ar \<or> rm_decode m payload = None \<longrightarrow>
      (let t = (if aid \<noteq> ar_id ar then remote_error_text dt RActorNotRunning else remote_error_text dt RActorStopped);
           a = (if aid \<noteq> ar_id ar then remote_error_text da RActorNotRunning else remote_error_text da RActorStopped)
       in handle_tell_typed dt handlers aid (msg_key m) payload st = Some (Done (Err t), st) \<and>
          handle_ask_typed da handlers aid (msg_key m) payload st = Some (Done (Err a), st)))"
proof (intro conjI impI ballI)
  have reg: "register_listed ops os metrics current ar ms ([], []) = (handlers, types)"
    using assms(1) by (simp add: register_list_handlers_def)
  show "handle_tell_typed dt handlers aid h payload st = Some (Done (Err (unknown_hash_text h)), st)"
    "handle_ask_typed da handlers aid h payload st = Some (Done (Err (unknown_hash_text h)), st)"
    if "h \<notin> msg_key ` set ms"
    using register_listed_other [OF that, of ops os metrics current ar "([], [])"] reg
    by (simp_all add: handle_tell_typed_def handle_ask_typed_def)
  fix m assume m: "m \<in> set ms" and bad: "aid \<noteq> ar_id ar \<or> rm_decode m payload = None"
  have "hm_get handlers (msg_key m) = Some (list_fns ops os metrics current ar m)"
    using register_listed_get [OF m assms(2), of ops os metrics current ar "([], [])"] reg by simp
  then show "let t = (if aid \<noteq> ar_id ar then remote_error_text dt RActorNotRunning else remote_error_text dt RActorStopped);
           a = (if aid \<noteq> ar_id ar then remote_error_text da RActorNotRunning else remote_error_text da RActorStopped)
       in handle_tell_typed dt handlers aid (msg_key m) payload st = Some (Done (Err t), st) \<and>
          handle_ask_typed da handlers aid (msg_key m) payload st = Some (Done (Err a), st)"
    using bad by (auto simp: handle_tell_typed_def handle_ask_typed_def list_fns_def list_tell_def list_ask_def
        with_message_def Let_def)
qed

theorem unmatched_messages_rejected_witness:
  "handle_tell_typed (\<lambda>_. ''x'') (fst (demo_registered 3 ([], []))) (ActorId 3) 0xBEEF [5] empty_mailbox =
      Some (Done (Err ''Unknown type hash: 0000beef''), empty_mailbox)"
proof -
  have "unknown_hash_text 0xBEEF = ''Unknown type hash: 0000beef''"
    by (simp add: unknown_hash_text_def hex8_def drop_bit_eq_div take_bit_eq_mod)
  then show ?thesis
    using unmatched_messages_rejected [OF demo_registers [of 3 "([], [])"], of "0xBEEF" "\<lambda>_. ''x''" "ActorId 3" "[5]" empty_mailbox]
      demo_key by simp
qed

text \<open>
  The handlers of the mapping syntax drop the timeouts they are given: on a full mailbox nobody
  reads, the tell that arrives never returns, while the handlers of the list syntax return under
  every given timeout.
\<close>

theorem mapped_tell_ignores_timeout:
  fixes ops :: "('h, 'k, 'r, 'v signal, 'c) mpsc_send"
  assumes "ar_mailbox ar = Bounded h" and "\<forall>s. mp_send ops h s (mb_chan st) = None"
  shows "mf_tell (mapped_fns ops os metrics current ar me th) (ar_id ar) payload timeout st = None \<and>
    mf_tell (list_fns ops os metrics current ar m) (ar_id ar) payload (Some d) st \<noteq> None"
proof -
  have "tell_send ops metrics current ar t v None st =
      (None :: ((unit, ('v, 'v) send_error) result outcome \<times> 'c mailbox_state) option)" for t v
    using assms by (simp add: tell_send_def put_def mailbox_send_def)
  moreover have "tell_send ops metrics current ar t v (Some d) st \<noteq>
      (None :: ((unit, ('v, 'v) send_error) result outcome \<times> 'c mailbox_state) option)" for t v
    by (simp add: tell_send_def put_def Let_def case_prod_beta)
  ultimately show ?thesis
    by (simp add: mapped_fns_def mapped_tell_def list_fns_def list_tell_def with_message_def
        del: not_None_eq not_Some_eq split: option.split)
qed

definition full_mailbox :: "'v signal chan mailbox_state" where
  "full_mailbox = closed_mailbox\<lparr>mb_chan := \<lparr>ch_open = True, ch_capacity = 0, ch_queue = []\<rparr>\<rparr>"

definition demo_mapping :: "nat mapping_env" where
  "demo_mapping = \<lparr>me_type = TyNamed 1, me_wrap = (\<lambda>h b. 0),
     me_reply = default_downcast (TyNamed 1) TyUnit TyInfallible, me_unbytes = (\<lambda>_. [])\<rparr>"

definition demo_full_ref :: "unit actor_ref" where
  "demo_full_ref = \<lparr>ar_id = ActorId 1, ar_mailbox = Bounded ()\<rparr>"

theorem mapped_tell_ignores_timeout_witness:
  "mf_tell (mapped_fns one_channel no_oneshot False None demo_full_ref demo_mapping (TypeHash 7)) (ActorId 1) [] (Some 5)
    full_mailbox = None"
proof -
  have full: "\<forall>s. mp_send one_channel () s (mb_chan (full_mailbox :: nat signal chan mailbox_state)) = None"
    by (simp add: full_mailbox_def one_channel_def)
  have ref: "ar_mailbox demo_full_ref = Bounded ()" "ar_id demo_full_ref = ActorId 1"
    by (simp_all add: demo_full_ref_def)
  show ?thesis
    using mapped_tell_ignores_timeout [OF ref(1) full, of no_oneshot False None demo_mapping "TypeHash 7" "[]" "Some 5"]
    by (simp add: ref(2))
qed

end
