(* ===== verification/Location_Metadata.thy ===== *)
theory Location_Metadata
  imports Wire_Protocol
begin

text \<open>
  The metadata a node attaches to a registered actor (\<open>src/remote/location_metadata.rs\<close>) and the
  access to archived payloads it goes through (\<open>src/remote/archived_access.rs\<close>). The rkyv library
  is a parameter: encoding, checked and unchecked access, and deserialisation of what was accessed.
\<close>

section \<open>Archived access\<close>

text \<open>A buffer and the address it lies at; \<open>alignment\<close> is \<open>kameo_remote::PAYLOAD_ALIGNMENT\<close>.\<close>

record buffer =
  bf_ptr :: nat
  bf_data :: bytes

datatype archived_error = Misaligned | Validation string

text \<open>What the program uses of rkyv for one archived type \<open>'x\<close> of values \<open>'v\<close>.\<close>

record ('v, 'x) rkyv =
  rk_to_bytes :: "'v \<Rightarrow> (bytes, string) result"
  rk_access :: "bytes \<Rightarrow> ('x, string) result"
  rk_access_unchecked :: "bytes \<Rightarrow> 'x"
  rk_deserialize :: "'x \<Rightarrow> ('v, string) result"

text \<open>The switch only has an effect when the crate is built with the feature.\<close>

definition trusted_archived_enabled :: "bool \<Rightarrow> bool \<Rightarrow> bool" where
  "trusted_archived_enabled feature flag = (if \<not> feature then False else flag)"

definition ensure_aligned :: "nat \<Rightarrow> buffer \<Rightarrow> (unit, archived_error) result" where
  "ensure_aligned alignment b = (if bf_ptr b mod alignment \<noteq> 0 then Err Misaligned else Ok ())"

definition access_archived ::
  "nat \<Rightarrow> bool \<Rightarrow> ('v, 'x) rkyv \<Rightarrow> buffer \<Rightarrow> ('x, archived_error) result" where
  "access_archived alignment trusted rk payload =
    (if trusted
     then and_then (ensure_aligned alignment payload) (\<lambda>_. Ok (rk_access_unchecked rk (bf_data payload)))
     else map_err Validation (rk_access rk (bf_data payload)))"


section \<open>Location metadata\<close>

record 'p location_metadata =
  lm_actor_id :: actor_id
  lm_peer_id :: 'p

text \<open>The two codecs: the struct of this version, and the bare identifier of older peers.\<close>

record ('p, 'x, 'y) metadata_codec =
  mc_v1 :: "('p location_metadata, 'x) rkyv"
  mc_legacy :: "(actor_id, 'y) rkyv"
  mc_alignment :: nat
  mc_trusted :: bool
  mc_alloc :: nat

definition encode_v1 :: "('p, 'x, 'y) metadata_codec \<Rightarrow> actor_id \<Rightarrow> 'p \<Rightarrow> (bytes, string) result" where
  "encode_v1 mc actor_id peer_id =
    rk_to_bytes (mc_v1 mc) \<lparr>lm_actor_id = actor_id, lm_peer_id = peer_id\<rparr>"

text \<open>The copy lies at an address of the allocator's choice that is a multiple of the alignment.\<close>

definition aligned_copy :: "('p, 'x, 'y) metadata_codec \<Rightarrow> bytes \<Rightarrow> buffer" where
  "aligned_copy mc bs = \<lparr>bf_ptr = mc_alloc mc * mc_alignment mc, bf_data = bs\<rparr>"

definition decode_v1 :: "('p, 'x, 'y) metadata_codec \<Rightarrow> bytes \<Rightarrow> ('p location_metadata, archived_error) result" where
  "decode_v1 mc bs =
    and_then (access_archived (mc_alignment mc) (mc_trusted mc) (mc_v1 mc) (aligned_copy mc bs))
      (\<lambda>archived. map_err Validation (rk_deserialize (mc_v1 mc) archived))"

definition decode_legacy_actor_id :: "('p, 'x, 'y) metadata_codec \<Rightarrow> bytes \<Rightarrow> (actor_id, archived_error) result" where
  "decode_legacy_actor_id mc bs =
    and_then (access_archived (mc_alignment mc) (mc_trusted mc) (mc_legacy mc) (aligned_copy mc bs))
      (\<lambda>archived. map_err Validation (rk_deserialize (mc_legacy mc) archived))"


section \<open>Lemmas\<close>

text \<open>
  rkyv's contract for one type: checked access of encoded bytes gives what unchecked access gives,
  and it deserialises to the value that was encoded.
\<close>

definition rkyv_roundtrip :: "('v, 'x) rkyv \<Rightarrow> bool" where
  "rkyv_roundtrip rk \<longleftrightarrow> (\<forall>v b. rk_to_bytes rk v = Ok b \<longrightarrow>
    rk_access rk b = Ok (rk_access_unchecked rk b) \<and> rk_deserialize rk (rk_access_unchecked rk b) = Ok v)"

lemma aligned_copy_aligned [simp]: "ensure_aligned (mc_alignment mc) (aligned_copy mc bs) = Ok ()"
  by (simp add: ensure_aligned_def aligned_copy_def)

lemma access_aligned_copy:
  "rkyv_roundtrip rk \<Longrightarrow> rk_to_bytes rk v = Ok b \<Longrightarrow>
    access_archived (mc_alignment mc) trusted rk (aligned_copy mc b) = Ok (rk_access_unchecked rk b)"
  by (simp add: access_archived_def rkyv_roundtrip_def) (simp add: aligned_copy_def)

text \<open>
  The metadata of a registration is read back by every node, in checked and in trusted mode, and a
  decoded copy never fails for its alignment.
\<close>

lemma decode_v1_encode:
  "rkyv_roundtrip (mc_v1 mc) \<Longrightarrow> encode_v1 mc a p = Ok b \<Longrightarrow>
    decode_v1 mc b = Ok \<lparr>lm_actor_id = a, lm_peer_id = p\<rparr>"
  unfolding encode_v1_def decode_v1_def by (simp add: access_aligned_copy) (simp add: rkyv_roundtrip_def)

lemma decode_never_misaligned:
  "decode_v1 mc b \<noteq> Err Misaligned \<and> decode_legacy_actor_id mc b \<noteq> Err Misaligned"
  by (auto simp: decode_v1_def decode_legacy_actor_id_def access_archived_def and_then_eq_Err)

lemma misaligned_rejected:
  "bf_ptr b mod alignment \<noteq> 0 \<Longrightarrow> access_archived alignment True rk b = Err Misaligned"
  by (simp add: access_archived_def ensure_aligned_def)

end
