(* ===== verification/Transport.thy ===== *)
theory Transport
  imports Location_Metadata Registry Remote_Link Remote_Handlers
begin

text \<open>
  The transport (\<open>src/remote/transport.rs\<close>, \<open>src/remote/kameo_transport.rs\<close>): starting, names and
  their registration with the gossip registry of kameo\_remote, lookup, connections, and the typed
  sends. kameo\_remote is a parameter, a record of the calls the transport makes over a world \<open>'w\<close>;
  an error text is kept as the data it is formatted from.
\<close>

section \<open>Errors\<close>

text \<open>The variants of \<open>GossipError\<close> the program tells apart; every other one is \<open>GossipOther\<close>.\<close>

datatype gossip_error = GossipTimeout | GossipConnectionClosed | GossipShutdown | GossipEperm | GossipOther string

datatype ('a, 'p) error_text =
    TransportNotStarted
  | MissingKeypair
  | TlsRequired
  | NoGlobalTransport
  | TypedNotSupported
  | UseTypedTell
  | UseTypedAsk
  | FromGossip gossip_error
  | LookupPeerFailed 'p gossip_error
  | NoConnectionToPeer 'p
  | LookupAddrFailed 'a gossip_error
  | NoConnectionToAddr 'a
  | ForceDropFailed gossip_error
  | MetadataFailed string
  | TypedTellFailed gossip_error
  | TypedAskFailed gossip_error
  | AskFailed gossip_error
  | StreamingAskFailed gossip_error
  | NoHandleForHandlers
  | BadAddress string

datatype ('a, 'p) transport_error =
    ConnectionFailed "('a, 'p) error_text"
  | SerializationFailed "('a, 'p) error_text"
  | ActorNotFound string
  | TransportTimeout
  | TransportShutdown
  | TransportOther "('a, 'p) error_text"

datatype ('a, 'p) remote_error =
    ActorNotRegistered string
  | RemoteTimeout
  | TransportClosed
  | RemoteOther "('a, 'p) transport_error"

fun remote_from_transport_error :: "('a, 'p) transport_error \<Rightarrow> ('a, 'p) remote_error" where
  "remote_from_transport_error (ActorNotFound name) = ActorNotRegistered name"
| "remote_from_transport_error TransportTimeout = RemoteTimeout"
| "remote_from_transport_error TransportShutdown = TransportClosed"
| "remote_from_transport_error err = RemoteOther err"


section \<open>The gossip library\<close>

datatype registration_priority = NormalPriority | ImmediatePriority

record 'p gossip_location =
  gl_address :: string
  gl_peer_id :: 'p
  gl_metadata :: bytes
  gl_priority :: registration_priority

record ('kp, 'p) gossip_config =
  gc_key_pair :: "'kp option"
  gc_interval :: nat
  gc_max_peers :: nat
  gc_schema_hash :: "u64 option"

text \<open>
  The calls on a started registry \<open>'g\<close> and on a connection \<open>'k\<close>. A call that may wait for ever is
  one the library gives a bound of its own, so each returns.
\<close>

record ('g, 'a, 'p, 'kp, 'k, 'w) gossip =
  gp_new_with_tls :: "'a \<Rightarrow> 'kp \<Rightarrow> ('kp, 'p) gossip_config \<Rightarrow> 'w \<Rightarrow> ('g, gossip_error) result \<times> 'w"
  gp_bind_addr :: "'g \<Rightarrow> 'a"
  gp_peer_id :: "'g \<Rightarrow> 'p"
  gp_location :: "'a \<Rightarrow> 'p \<Rightarrow> bytes \<Rightarrow> 'p gossip_location"
  gp_register :: "'g \<Rightarrow> string \<Rightarrow> 'p gossip_location \<Rightarrow> registration_priority \<Rightarrow> 'w \<Rightarrow> (unit, gossip_error) result \<times> 'w"
  gp_register_sync :: "'g \<Rightarrow> string \<Rightarrow> 'p gossip_location \<Rightarrow> nat \<Rightarrow> 'w \<Rightarrow> (unit, gossip_error) result \<times> 'w"
  gp_unregister :: "'g \<Rightarrow> string \<Rightarrow> 'w \<Rightarrow> (unit, gossip_error) result \<times> 'w"
  gp_lookup :: "'g \<Rightarrow> string \<Rightarrow> 'w \<Rightarrow> 'p gossip_location option \<times> 'w"
  gp_lookup_address :: "'g \<Rightarrow> 'a \<Rightarrow> 'w \<Rightarrow> ('k option, gossip_error) result \<times> 'w"
  gp_lookup_peer :: "'g \<Rightarrow> 'p \<Rightarrow> 'w \<Rightarrow> ('k option, gossip_error) result \<times> 'w"
  gp_configure_peer :: "'g \<Rightarrow> 'p \<Rightarrow> 'a \<Rightarrow> 'w \<Rightarrow> 'w"
  gp_disconnect_peer :: "'g \<Rightarrow> 'p \<Rightarrow> 'w \<Rightarrow> 'w"
  gp_connection_failure :: "'g \<Rightarrow> 'a \<Rightarrow> 'w \<Rightarrow> (unit, gossip_error) result \<times> 'w"
  gp_connect :: "'g \<Rightarrow> 'p \<Rightarrow> 'a \<Rightarrow> 'w \<Rightarrow> (unit, gossip_error) result \<times> 'w"
  gp_connected_peers :: "'g \<Rightarrow> 'w \<Rightarrow> 'a list"
  gp_peer_id_by_addr :: "'g \<Rightarrow> 'a \<Rightarrow> 'w \<Rightarrow> 'p option"
  gp_parse_addr :: "string \<Rightarrow> 'a option"
  gp_unspecified_addr :: 'a
  cn_is_closed :: "'k \<Rightarrow> 'w \<Rightarrow> bool"
  cn_threshold :: "'k \<Rightarrow> nat"
  cn_tell :: "'k \<Rightarrow> u64 \<Rightarrow> u32 \<Rightarrow> bytes \<Rightarrow> 'w \<Rightarrow> (unit, gossip_error) result \<times> 'w"
  cn_ask :: "'k \<Rightarrow> u64 \<Rightarrow> u32 \<Rightarrow> bytes \<Rightarrow> nat \<Rightarrow> 'w \<Rightarrow> (bytes, gossip_error) result \<times> 'w"
  cn_ask_streaming :: "'k \<Rightarrow> bytes \<Rightarrow> u32 \<Rightarrow> u64 \<Rightarrow> nat \<Rightarrow> 'w \<Rightarrow> (bytes, gossip_error) result \<times> 'w"
  cn_stream_large :: "'k \<Rightarrow> bytes \<Rightarrow> u32 \<Rightarrow> u64 \<Rightarrow> 'w \<Rightarrow> (unit, gossip_error) result \<times> 'w"


section \<open>Transports\<close>

record ('a, 'p) peer_config =
  pe_addr :: 'a
  pe_peer_id :: 'p

record ('a, 'p, 'kp) transport_config =
  tc_bind_addr :: 'a
  tc_max_connections :: nat
  tc_connection_timeout :: nat
  tc_enable_encryption :: bool
  tc_keypair :: "'kp option"
  tc_peers :: "('a, 'p) peer_config list"
  tc_schema_hash :: "u64 option"

definition transport_config_default :: "'a \<Rightarrow> ('a, 'p, 'kp) transport_config" where
  "transport_config_default loopback =
    \<lparr>tc_bind_addr = loopback, tc_max_connections = 1000, tc_connection_timeout = from_secs 30,
     tc_enable_encryption = True, tc_keypair = None, tc_peers = [], tc_schema_hash = None\<rparr>"

record 'a remote_location =
  rm_peer_addr :: 'a
  rm_actor_id :: actor_id
  rm_metadata :: bytes

text \<open>
  A transport is its configuration, its handle and its handler. Clones share the map of local names,
  which is a part of the node, beside its links, its registries of handlers and the world of the
  library.
\<close>

record ('g, 'a, 'p, 'kp) kameo_transport =
  kt_config :: "('a, 'p, 'kp) transport_config"
  kt_handle :: "'g option"
  kt_has_handler :: bool

record ('a, 'p, 'h, 'r, 'w) node =
  nd_names :: "(string, actor_id) hash_map"
  nd_links :: "('a, 'p, 'h) remote_links"
  nd_regs :: 'r
  nd_world :: 'w

definition kameo_transport_new :: "('a, 'p, 'kp) transport_config \<Rightarrow> ('g, 'a, 'p, 'kp) kameo_transport" where
  "kameo_transport_new config = \<lparr>kt_config = config, kt_handle = None, kt_has_handler = False\<rparr>"

definition kt_get_handle :: "('g, 'a, 'p, 'kp) kameo_transport \<Rightarrow> ('g, ('a, 'p) transport_error) result" where
  "kt_get_handle tr = ok_or (kt_handle tr) (TransportOther TransportNotStarted)"

definition kt_set_handle :: "'g \<Rightarrow> ('g, 'a, 'p, 'kp) kameo_transport \<Rightarrow> ('g, 'a, 'p, 'kp) kameo_transport" where
  "kt_set_handle g tr = tr\<lparr>kt_handle := Some g\<rparr>"

definition kt_set_message_handler :: "('g, 'a, 'p, 'kp) kameo_transport \<Rightarrow> ('g, 'a, 'p, 'kp) kameo_transport" where
  "kt_set_message_handler tr = tr\<lparr>kt_has_handler := True\<rparr>"

definition kt_start ::
  "('g, 'a, 'p, 'kp, 'k, 'w) gossip \<Rightarrow> ('g, 'a, 'p, 'kp) kameo_transport \<Rightarrow> 'w
    \<Rightarrow> (unit, ('a, 'p) transport_error) result \<times> ('g, 'a, 'p, 'kp) kameo_transport \<times> 'w" where
  "kt_start gp tr w =
    (if kt_handle tr \<noteq> None then (Ok (), tr, w)
     else case tc_keypair (kt_config tr) of
            None \<Rightarrow> (Err (TransportOther MissingKeypair), tr, w)
          | Some keypair \<Rightarrow>
              (let config = \<lparr>gc_key_pair = Some keypair, gc_interval = from_secs 5, gc_max_peers = 3,
                     gc_schema_hash = tc_schema_hash (kt_config tr)\<rparr>
               in if \<not> tc_enable_encryption (kt_config tr) then (Err (TransportOther TlsRequired), tr, w)
                  else (case gp_new_with_tls gp (tc_bind_addr (kt_config tr)) keypair config w of
                          (Ok g, w) \<Rightarrow> (Ok (), tr\<lparr>kt_handle := Some g\<rparr>, w)
                        | (Err e, w) \<Rightarrow> (Err (TransportOther (FromGossip e)), tr, w))))"

definition kt_shutdown :: "('g, 'a, 'p, 'kp) kameo_transport \<Rightarrow> ('g, 'a, 'p, 'kp) kameo_transport" where
  "kt_shutdown tr = tr\<lparr>kt_handle := None\<rparr>"

definition kt_local_addr :: "('g, 'a, 'p, 'kp, 'k, 'w) gossip \<Rightarrow> ('g, 'a, 'p, 'kp) kameo_transport \<Rightarrow> 'a" where
  "kt_local_addr gp tr = (case kt_handle tr of Some g \<Rightarrow> gp_bind_addr gp g | None \<Rightarrow> tc_bind_addr (kt_config tr))"

text \<open>Every configured peer is dialled in turn; a failure is only printed.\<close>

definition kt_connect_to_peers ::
  "('g, 'a, 'p, 'kp, 'k, 'w) gossip \<Rightarrow> ('g, 'a, 'p, 'kp) kameo_transport \<Rightarrow> 'w
    \<Rightarrow> (unit, ('a, 'p) transport_error) result \<times> 'w" where
  "kt_connect_to_peers gp tr w =
    (case kt_handle tr of
       None \<Rightarrow> (Ok (), w)
     | Some g \<Rightarrow> (Ok (), fold (\<lambda>peer w. snd (gp_connect gp g (pe_peer_id peer) (pe_addr peer) w))
                     (tc_peers (kt_config tr)) w))"


section \<open>Names\<close>

text \<open>
  The three registrations first require the handle, then enter the name locally, encode the
  metadata and call the library. A call through \<open>handle\<close> runs on the world of the node.
\<close>

definition on_world :: "('w \<Rightarrow> 'b \<times> 'w) \<Rightarrow> ('a, 'p, 'h, 'r, 'w) node \<Rightarrow> 'b \<times> ('a, 'p, 'h, 'r, 'w) node" where
  "on_world f nd = (let (r, w) = f (nd_world nd) in (r, nd\<lparr>nd_world := w\<rparr>))"

definition gossip_result :: "(unit, gossip_error) result \<times> 's \<Rightarrow> (unit, ('a, 'p) transport_error) result \<times> 's" where
  "gossip_result r = map_prod (map_err (\<lambda>e. TransportOther (FromGossip e))) id r"

text \<open>The common part up to the location: the name is entered before the encoder can fail.\<close>

definition named_location ::
  "('g, 'a, 'p, 'kp, 'k, 'w) gossip \<Rightarrow> ('p, 'x, 'y) metadata_codec \<Rightarrow> 'g \<Rightarrow> string \<Rightarrow> actor_id \<Rightarrow> ('a, 'p, 'h, 'r, 'w) node
    \<Rightarrow> ('p gossip_location, ('a, 'p) transport_error) result \<times> ('a, 'p, 'h, 'r, 'w) node" where
  "named_location gp mc g name actor_id nd =
    (let nd = nd\<lparr>nd_names := hm_insert name actor_id (nd_names nd)\<rparr>
     in (case encode_v1 mc actor_id (gp_peer_id gp g) of
           Err e \<Rightarrow> Err (SerializationFailed (MetadataFailed e))
         | Ok metadata \<Rightarrow> Ok (gp_location gp (gp_bind_addr gp g) (gp_peer_id gp g) metadata), nd))"

definition kt_register_actor ::
  "('g, 'a, 'p, 'kp, 'k, 'w) gossip \<Rightarrow> ('p, 'x, 'y) metadata_codec \<Rightarrow> ('g, 'a, 'p, 'kp) kameo_transport \<Rightarrow> string
    \<Rightarrow> actor_id \<Rightarrow> ('a, 'p, 'h, 'r, 'w) node \<Rightarrow> (unit, ('a, 'p) transport_error) result \<times> ('a, 'p, 'h, 'r, 'w) node" where
  "kt_register_actor gp mc tr name actor_id nd =
    (case kt_get_handle tr of
       Err e \<Rightarrow> (Err e, nd)
     | Ok g \<Rightarrow>
         (case named_location gp mc g name actor_id nd of
            (Err e, nd) \<Rightarrow> (Err e, nd)
          | (Ok location, nd) \<Rightarrow>
              gossip_result (on_world
                (gp_register gp g name (location\<lparr>gl_priority := ImmediatePriority\<rparr>) ImmediatePriority) nd)))"

definition priority_of :: "u8 \<Rightarrow> registration_priority" where
  "priority_of priority = (if priority \<ge> 1 then ImmediatePriority else NormalPriority)"

definition kt_register_with_priority ::
  "('g, 'a, 'p, 'kp, 'k, 'w) gossip \<Rightarrow> ('p, 'x, 'y) metadata_codec \<Rightarrow> ('g, 'a, 'p, 'kp) kameo_transport \<Rightarrow> string
    \<Rightarrow> actor_id \<Rightarrow> u8 \<Rightarrow> ('a, 'p, 'h, 'r, 'w) node \<Rightarrow> (unit, ('a, 'p) transport_error) result \<times> ('a, 'p, 'h, 'r, 'w) node" where
  "kt_register_with_priority gp mc tr name actor_id priority nd =
    (case kt_get_handle tr of
       Err e \<Rightarrow> (Err e, nd)
     | Ok g \<Rightarrow>
         (case named_location gp mc g name actor_id nd of
            (Err e, nd) \<Rightarrow> (Err e, nd)
          | (Ok location, nd) \<Rightarrow>
              gossip_result (on_world
                (gp_register gp g name (location\<lparr>gl_priority := priority_of priority\<rparr>) (priority_of priority)) nd)))"

definition kt_register_sync ::
  "('g, 'a, 'p, 'kp, 'k, 'w) gossip \<Rightarrow> ('p, 'x, 'y) metadata_codec \<Rightarrow> ('g, 'a, 'p, 'kp) kameo_transport \<Rightarrow> string
    \<Rightarrow> actor_id \<Rightarrow> nat \<Rightarrow> ('a, 'p, 'h, 'r, 'w) node \<Rightarrow> (unit, ('a, 'p) transport_error) result \<times> ('a, 'p, 'h, 'r, 'w) node" where
  "kt_register_sync gp mc tr name actor_id timeout nd =
    (case kt_get_handle tr of
       Err e \<Rightarrow> (Err e, nd)
     | Ok g \<Rightarrow>
         (case named_location gp mc g name actor_id nd of
            (Err e, nd) \<Rightarrow> (Err e, nd)
          | (Ok location, nd) \<Rightarrow> gossip_result (on_world (gp_register_sync gp g name location timeout) nd)))"

text \<open>The inherent method of the same name passes two seconds.\<close>

definition kt_register_sync_default ::
  "('g, 'a, 'p, 'kp, 'k, 'w) gossip \<Rightarrow> ('p, 'x, 'y) metadata_codec \<Rightarrow> ('g, 'a, 'p, 'kp) kameo_transport \<Rightarrow> string
    \<Rightarrow> actor_id \<Rightarrow> ('a, 'p, 'h, 'r, 'w) node \<Rightarrow> (unit, ('a, 'p) transport_error) result \<times> ('a, 'p, 'h, 'r, 'w) node" where
  "kt_register_sync_default gp mc tr name actor_id nd = kt_register_sync gp mc tr name actor_id (from_secs 2) nd"

definition kt_unregister_actor ::
  "('g, 'a, 'p, 'kp, 'k, 'w) gossip \<Rightarrow> ('g, 'a, 'p, 'kp) kameo_transport \<Rightarrow> string
    \<Rightarrow> ('a, 'p, 'h, 'r, 'w) node \<Rightarrow> (unit, ('a, 'p) transport_error) result \<times> ('a, 'p, 'h, 'r, 'w) node" where
  "kt_unregister_actor gp tr name nd =
    (case kt_get_handle tr of
       Err e \<Rightarrow> (Err e, nd)
     | Ok g \<Rightarrow> gossip_result (on_world (gp_unregister gp g name) (nd\<lparr>nd_names := hm_remove name (nd_names nd)\<rparr>)))"

text \<open>Whose identifier a looked up location has: the metadata's, or the local name's, or zero.\<close>

definition location_actor_id ::
  "('p, 'x, 'y) metadata_codec \<Rightarrow> string \<Rightarrow> bytes \<Rightarrow> (string, actor_id) hash_map \<Rightarrow> actor_id" where
  "location_actor_id mc name metadata names =
    (let local = (case hm_get names name of Some i \<Rightarrow> i | None \<Rightarrow> actor_id_from_u64 0)
     in if metadata \<noteq> []
        then (case decode_v1 mc metadata of
                Ok meta \<Rightarrow> lm_actor_id meta
              | Err _ \<Rightarrow> (case decode_legacy_actor_id mc metadata of Ok i \<Rightarrow> i | Err _ \<Rightarrow> local))
        else local)"

definition kt_lookup_actor ::
  "('g, 'a, 'p, 'kp, 'k, 'w) gossip \<Rightarrow> ('p, 'x, 'y) metadata_codec \<Rightarrow> ('g, 'a, 'p, 'kp) kameo_transport \<Rightarrow> string
    \<Rightarrow> ('a, 'p, 'h, 'r, 'w) node \<Rightarrow> ('a remote_location option, ('a, 'p) transport_error) result \<times> ('a, 'p, 'h, 'r, 'w) node" where
  "kt_lookup_actor gp mc tr name nd =
    (case kt_get_handle tr of
       Err e \<Rightarrow> (Err e, nd)
     | Ok g \<Rightarrow>
         (case on_world (gp_lookup gp g name) nd of
            (None, nd) \<Rightarrow> (Ok None, nd)
          | (Some info, nd) \<Rightarrow>
              (let actor_id = location_actor_id mc name (gl_metadata info) (nd_names nd);
                   metadata = (case encode_v1 mc actor_id (gl_peer_id info) of Ok b \<Rightarrow> b | Err _ \<Rightarrow> gl_metadata info);
                   peer_addr = (case gp_parse_addr gp (gl_address info) of
                                  Some a \<Rightarrow> a | None \<Rightarrow> gp_unspecified_addr gp)
               in (Ok (Some \<lparr>rm_peer_addr = peer_addr, rm_actor_id = actor_id, rm_metadata = metadata\<rparr>), nd))))"

section \<open>Connections\<close>

definition connection_of ::
  "(gossip_error \<Rightarrow> ('a, 'p) error_text) \<Rightarrow> ('a, 'p) error_text \<Rightarrow> ('k option, gossip_error) result
    \<Rightarrow> ('k, ('a, 'p) transport_error) result" where
  "connection_of failed absent r =
    (case r of
       Err e \<Rightarrow> Err (ConnectionFailed (failed e))
     | Ok None \<Rightarrow> Err (ConnectionFailed absent)
     | Ok (Some conn) \<Rightarrow> Ok conn)"

definition connection_for_peer ::
  "('g, 'a, 'p, 'kp, 'k, 'w) gossip \<Rightarrow> ('g, 'a, 'p, 'kp) kameo_transport \<Rightarrow> 'a \<Rightarrow> 'w
    \<Rightarrow> ('k, ('a, 'p) transport_error) result \<times> 'w" where
  "connection_for_peer gp tr peer_addr w =
    (case kt_get_handle tr of
       Err e \<Rightarrow> (Err e, w)
     | Ok g \<Rightarrow>
         (let (r, w) = gp_lookup_address gp g peer_addr w
          in (connection_of (LookupAddrFailed peer_addr) (NoConnectionToAddr peer_addr) r, w)))"

definition connection_for_location ::
  "('g, 'a, 'p, 'kp, 'k, 'w) gossip \<Rightarrow> ('p, 'x, 'y) metadata_codec \<Rightarrow> ('g, 'a, 'p, 'kp) kameo_transport
    \<Rightarrow> 'a remote_location \<Rightarrow> 'w \<Rightarrow> ('k, ('a, 'p) transport_error) result \<times> 'w" where
  "connection_for_location gp mc tr location w =
    (case decode_v1 mc (rm_metadata location) of
       Ok meta \<Rightarrow>
         (case kt_get_handle tr of
            Err e \<Rightarrow> (Err e, w)
          | Ok g \<Rightarrow>
              (let w = gp_configure_peer gp g (lm_peer_id meta) (rm_peer_addr location) w;
                   (r, w) = gp_lookup_peer gp g (lm_peer_id meta) w
               in (connection_of (LookupPeerFailed (lm_peer_id meta)) (NoConnectionToPeer (lm_peer_id meta)) r, w)))
     | Err _ \<Rightarrow> connection_for_peer gp tr (rm_peer_addr location) w)"

definition force_drop_connection ::
  "('g, 'a, 'p, 'kp, 'k, 'w) gossip \<Rightarrow> ('g, 'a, 'p, 'kp) kameo_transport \<Rightarrow> 'a \<Rightarrow> 'w
    \<Rightarrow> (unit, ('a, 'p) transport_error) result \<times> 'w" where
  "force_drop_connection gp tr peer_addr w =
    (case kt_get_handle tr of
       Err e \<Rightarrow> (Err e, w)
     | Ok g \<Rightarrow> map_prod (map_err (\<lambda>e. ConnectionFailed (ForceDropFailed e))) id
         (gp_connection_failure gp g peer_addr w))"

definition force_drop_for_location ::
  "('g, 'a, 'p, 'kp, 'k, 'w) gossip \<Rightarrow> ('p, 'x, 'y) metadata_codec \<Rightarrow> ('g, 'a, 'p, 'kp) kameo_transport
    \<Rightarrow> 'a remote_location \<Rightarrow> 'w \<Rightarrow> (unit, ('a, 'p) transport_error) result \<times> 'w" where
  "force_drop_for_location gp mc tr location w =
    (case kt_get_handle tr of
       Err e \<Rightarrow> (Err e, w)
     | Ok g \<Rightarrow>
         (case decode_v1 mc (rm_metadata location) of
            Ok meta \<Rightarrow> (Ok (), gp_disconnect_peer gp g (lm_peer_id meta) w)
          | Err _ \<Rightarrow> force_drop_connection gp tr (rm_peer_addr location) w))"

definition connection_fresh ::
  "('g, 'a, 'p, 'kp, 'k, 'w) gossip \<Rightarrow> ('p, 'x, 'y) metadata_codec \<Rightarrow> ('g, 'a, 'p, 'kp) kameo_transport
    \<Rightarrow> 'a remote_location \<Rightarrow> bool \<Rightarrow> 'w \<Rightarrow> ('k, ('a, 'p) transport_error) result \<times> 'w" where
  "connection_fresh gp mc tr location force_new w =
    (let w = (if force_new then snd (force_drop_for_location gp mc tr location w) else w)
     in case connection_for_location gp mc tr location w of
          (Err e, w) \<Rightarrow> (Err e, w)
        | (Ok conn, w) \<Rightarrow>
            if \<not> cn_is_closed gp conn w then (Ok conn, w)
            else connection_for_location gp mc tr location (snd (force_drop_for_location gp mc tr location w)))"


section \<open>Typed sends\<close>

definition kt_send_tell_typed ::
  "('g, 'a, 'p, 'kp, 'k, 'w) gossip \<Rightarrow> ('g, 'a, 'p, 'kp) kameo_transport \<Rightarrow> actor_id \<Rightarrow> 'a remote_location \<Rightarrow> u32
    \<Rightarrow> bytes \<Rightarrow> 'w \<Rightarrow> (unit, ('a, 'p) transport_error) result \<times> 'w" where
  "kt_send_tell_typed gp tr actor_id location type_hash payload w =
    (case connection_for_peer gp tr (rm_peer_addr location) w of
       (Err e, w) \<Rightarrow> (Err e, w)
     | (Ok conn, w) \<Rightarrow> map_prod (map_err (\<lambda>e. TransportOther (TypedTellFailed e))) id
         (cn_tell gp conn (actor_id_into_u64 actor_id) type_hash payload w))"

fun ask_error :: "(gossip_error \<Rightarrow> ('a, 'p) error_text) \<Rightarrow> gossip_error \<Rightarrow> ('a, 'p) transport_error" where
  "ask_error f GossipTimeout = TransportTimeout"
| "ask_error f e = TransportOther (f e)"

definition kt_send_ask_typed ::
  "('g, 'a, 'p, 'kp, 'k, 'w) gossip \<Rightarrow> ('g, 'a, 'p, 'kp) kameo_transport \<Rightarrow> actor_id \<Rightarrow> 'a remote_location \<Rightarrow> u32
    \<Rightarrow> bytes \<Rightarrow> nat \<Rightarrow> 'w \<Rightarrow> (bytes, ('a, 'p) transport_error) result \<times> 'w" where
  "kt_send_ask_typed gp tr actor_id location type_hash payload timeout w =
    (case connection_for_peer gp tr (rm_peer_addr location) w of
       (Err e, w) \<Rightarrow> (Err e, w)
     | (Ok conn, w) \<Rightarrow> map_prod (map_err (ask_error TypedAskFailed)) id
         (cn_ask gp conn (actor_id_into_u64 actor_id) type_hash payload timeout w))"

definition kt_send_ask_streaming ::
  "('g, 'a, 'p, 'kp, 'k, 'w) gossip \<Rightarrow> ('g, 'a, 'p, 'kp) kameo_transport \<Rightarrow> actor_id \<Rightarrow> 'a remote_location \<Rightarrow> u32
    \<Rightarrow> bytes \<Rightarrow> nat \<Rightarrow> 'w \<Rightarrow> (bytes, ('a, 'p) transport_error) result \<times> 'w" where
  "kt_send_ask_streaming gp tr actor_id location type_hash payload timeout w =
    (case connection_for_peer gp tr (rm_peer_addr location) w of
       (Err e, w) \<Rightarrow> (Err e, w)
     | (Ok conn, w) \<Rightarrow>
         if length payload \<le> cn_threshold gp conn
         then map_prod (map_err (ask_error AskFailed)) id
           (cn_ask gp conn (actor_id_into_u64 actor_id) type_hash payload timeout w)
         else map_prod (map_err (ask_error StreamingAskFailed)) id
           (cn_ask_streaming gp conn payload type_hash (actor_id_into_u64 actor_id) timeout w))"

text \<open>The untyped sends of the trait are refused.\<close>

definition kt_send_tell :: "actor_id \<Rightarrow> 'a remote_location \<Rightarrow> 'm \<Rightarrow> (unit, ('a, 'p) transport_error) result" where
  "kt_send_tell actor_id location message = Err (TransportOther UseTypedTell)"

definition kt_send_ask :: "actor_id \<Rightarrow> 'a remote_location \<Rightarrow> 'm \<Rightarrow> nat \<Rightarrow> ('r, ('a, 'p) transport_error) result" where
  "kt_send_ask actor_id location message timeout = Err (TransportOther UseTypedAsk)"

text \<open>The methods the trait provides when a transport does not: typed sends, priority, streaming.\<close>

definition default_send_tell_typed :: "actor_id \<Rightarrow> 'a remote_location \<Rightarrow> u32 \<Rightarrow> bytes \<Rightarrow> (unit, ('a, 'p) transport_error) result" where
  "default_send_tell_typed actor_id location type_hash payload = Err (TransportOther TypedNotSupported)"

definition default_send_ask_typed ::
  "actor_id \<Rightarrow> 'a remote_location \<Rightarrow> u32 \<Rightarrow> bytes \<Rightarrow> nat \<Rightarrow> (bytes, ('a, 'p) transport_error) result" where
  "default_send_ask_typed actor_id location type_hash payload timeout = Err (TransportOther TypedNotSupported)"

definition default_register_with_priority :: "(string \<Rightarrow> actor_id \<Rightarrow> 's) \<Rightarrow> string \<Rightarrow> actor_id \<Rightarrow> u8 \<Rightarrow> 's" where
  "default_register_with_priority register name actor_id priority = register name actor_id"

definition default_send_ask_streaming ::
  "(actor_id \<Rightarrow> 'a remote_location \<Rightarrow> u32 \<Rightarrow> bytes \<Rightarrow> nat \<Rightarrow> 's) \<Rightarrow> actor_id \<Rightarrow> 'a remote_location \<Rightarrow> u32 \<Rightarrow> bytes \<Rightarrow> nat \<Rightarrow> 's" where
  "default_send_ask_streaming ask_typed actor_id location type_hash payload timeout =
    ask_typed actor_id location type_hash payload timeout"

text \<open>
  The instance for \<open>Box<T>\<close> passes on every method but these two, for which it has the default.
\<close>

definition box_register_with_priority ::
  "('g, 'a, 'p, 'kp, 'k, 'w) gossip \<Rightarrow> ('p, 'x, 'y) metadata_codec \<Rightarrow> ('g, 'a, 'p, 'kp) kameo_transport \<Rightarrow> string
    \<Rightarrow> actor_id \<Rightarrow> u8 \<Rightarrow> ('a, 'p, 'h, 'r, 'w) node \<Rightarrow> (unit, ('a, 'p) transport_error) result \<times> ('a, 'p, 'h, 'r, 'w) node" where
  "box_register_with_priority gp mc tr = default_register_with_priority (kt_register_actor gp mc tr)"

definition box_send_ask_streaming ::
  "('g, 'a, 'p, 'kp, 'k, 'w) gossip \<Rightarrow> ('g, 'a, 'p, 'kp) kameo_transport \<Rightarrow> actor_id \<Rightarrow> 'a remote_location \<Rightarrow> u32
    \<Rightarrow> bytes \<Rightarrow> nat \<Rightarrow> 'w \<Rightarrow> (bytes, ('a, 'p) transport_error) result \<times> 'w" where
  "box_send_ask_streaming gp tr = default_send_ask_streaming (kt_send_ask_typed gp tr)"


section \<open>Distributed actors\<close>

text \<open>
  Registering a distributed actor: \<open>global\<close> tells whether the global transport is set, \<open>install\<close>
  registers the handlers of the actor, and may unwind. Then the actor is linked to every peer that
  connects, and to those that are connected and whose identifier the library knows.
\<close>

fun link_peers ::
  "('g, 'a, 'p, 'kp, 'k, 'w) gossip \<Rightarrow> ('p \<Rightarrow> bytes) \<Rightarrow> 'g \<Rightarrow> 'w \<Rightarrow> 'a list \<Rightarrow> ('a, 'p, 'h) remote_links
    \<Rightarrow> ('a, 'p, 'h) remote_links outcome" where
  "link_peers gp tb g w [] r = Done r"
| "link_peers gp tb g w (peer_addr # peers) r =
    (case gp_peer_id_by_addr gp g peer_addr w of
       None \<Rightarrow> link_peers gp tb g w peers r
     | Some peer_id \<Rightarrow>
         (case auto_link_peer tb peer_addr peer_id r of
            Panicked \<Rightarrow> Panicked
          | Done r \<Rightarrow> link_peers gp tb g w peers r))"

definition install_and_link ::
  "('g, 'a, 'p, 'kp, 'k, 'w) gossip \<Rightarrow> ('p \<Rightarrow> bytes) \<Rightarrow> ('g, 'a, 'p, 'kp) kameo_transport \<Rightarrow> ('r \<Rightarrow> 'r outcome)
    \<Rightarrow> string \<Rightarrow> actor_id \<Rightarrow> 'h \<Rightarrow> ('a, 'p, 'h, 'r, 'w) node \<Rightarrow> ('a, 'p, 'h, 'r, 'w) node outcome" where
  "install_and_link gp tb tr install name actor_id mailbox nd =
    (case install (nd_regs nd) of
       Panicked \<Rightarrow> Panicked
     | Done regs \<Rightarrow>
         (let nd = nd\<lparr>nd_regs := regs, nd_links := register_local_actor name actor_id mailbox (nd_links nd)\<rparr>
          in case kt_handle tr of
               None \<Rightarrow> Done nd
             | Some g \<Rightarrow> map_outcome (\<lambda>r. nd\<lparr>nd_links := r\<rparr>)
                 (link_peers gp tb g (nd_world nd) (gp_connected_peers gp g (nd_world nd)) (nd_links nd))))"

definition register_distributed_with_priority ::
  "('g, 'a, 'p, 'kp, 'k, 'w) gossip \<Rightarrow> ('p, 'x, 'y) metadata_codec \<Rightarrow> ('p \<Rightarrow> bytes) \<Rightarrow> bool \<Rightarrow> ('r \<Rightarrow> 'r outcome)
    \<Rightarrow> ('g, 'a, 'p, 'kp) kameo_transport \<Rightarrow> string \<Rightarrow> actor_id \<Rightarrow> 'h \<Rightarrow> registration_priority \<Rightarrow> ('a, 'p, 'h, 'r, 'w) node
    \<Rightarrow> ((unit, ('a, 'p) transport_error) result \<times> ('a, 'p, 'h, 'r, 'w) node) outcome" where
  "register_distributed_with_priority gp mc tb global install tr name actor_id mailbox priority nd =
    (if \<not> global then Done (Err (TransportOther NoGlobalTransport), nd)
     else
       let priority_u8 = (case priority of NormalPriority \<Rightarrow> 0 | ImmediatePriority \<Rightarrow> 1)
       in case kt_register_with_priority gp mc tr name actor_id priority_u8 nd of
            (Err e, nd) \<Rightarrow> Done (Err e, nd)
          | (Ok _, nd) \<Rightarrow> map_outcome (\<lambda>nd. (Ok (), nd)) (install_and_link gp tb tr install name actor_id mailbox nd))"

definition register_distributed_actor ::
  "('g, 'a, 'p, 'kp, 'k, 'w) gossip \<Rightarrow> ('p, 'x, 'y) metadata_codec \<Rightarrow> ('p \<Rightarrow> bytes) \<Rightarrow> bool \<Rightarrow> ('r \<Rightarrow> 'r outcome)
    \<Rightarrow> ('g, 'a, 'p, 'kp) kameo_transport \<Rightarrow> string \<Rightarrow> actor_id \<Rightarrow> 'h \<Rightarrow> ('a, 'p, 'h, 'r, 'w) node
    \<Rightarrow> ((unit, ('a, 'p) transport_error) result \<times> ('a, 'p, 'h, 'r, 'w) node) outcome" where
  "register_distributed_actor gp mc tb global install tr name actor_id mailbox nd =
    register_distributed_with_priority gp mc tb global install tr name actor_id mailbox ImmediatePriority nd"

text \<open>
  The synchronous variant installs and links first, does not enter the name locally, and unwinds when
  the text of the library's error speaks of a timeout.
\<close>

definition register_distributed_sync ::
  "('g, 'a, 'p, 'kp, 'k, 'w) gossip \<Rightarrow> ('p, 'x, 'y) metadata_codec \<Rightarrow> ('p \<Rightarrow> bytes) \<Rightarrow> bool \<Rightarrow> ('r \<Rightarrow> 'r outcome)
    \<Rightarrow> (gossip_error \<Rightarrow> bool) \<Rightarrow> ('g, 'a, 'p, 'kp) kameo_transport \<Rightarrow> string \<Rightarrow> actor_id \<Rightarrow> 'h \<Rightarrow> nat \<Rightarrow> ('a, 'p, 'h, 'r, 'w) node
    \<Rightarrow> ((unit, ('a, 'p) transport_error) result \<times> ('a, 'p, 'h, 'r, 'w) node) outcome" where
  "register_distributed_sync gp mc tb global install speaks_of_timeout tr name actor_id mailbox timeout nd =
    (if \<not> global then Done (Err (TransportOther NoGlobalTransport), nd)
     else case install_and_link gp tb tr install name actor_id mailbox nd of
       Panicked \<Rightarrow> Panicked
     | Done nd \<Rightarrow>
         (case kt_get_handle tr of
            Err e \<Rightarrow> Done (Err e, nd)
          | Ok g \<Rightarrow>
              (case encode_v1 mc actor_id (gp_peer_id gp g) of
                 Err e \<Rightarrow> Done (Err (SerializationFailed (MetadataFailed e)), nd)
               | Ok metadata \<Rightarrow>
                   (let location = (gp_location gp (gp_bind_addr gp g) (gp_peer_id gp g) metadata)\<lparr>gl_priority := ImmediatePriority\<rparr>
                    in case on_world (gp_register_sync gp g name location timeout) nd of
                         (Ok _, nd) \<Rightarrow> Done (Ok (), nd)
                       | (Err e, nd) \<Rightarrow>
                           if speaks_of_timeout e then Panicked
                           else Done (Err (TransportOther (FromGossip e)), nd)))))"

text \<open>
  The \<open>ActorRegistration\<close> the macro generates: the local registry first, and then, if there is a
  global transport, a task of its own that registers the actor with it; its failure is only logged.
\<close>

definition register_actor_by_macro ::
  "bool \<Rightarrow> string \<Rightarrow> type_id \<Rightarrow> actor_id \<Rightarrow> actor_registry
    \<Rightarrow> (unit, registry_error) result \<times> actor_registry \<times> (string \<times> actor_id) option" where
  "register_actor_by_macro global name t a reg =
    (let (was_inserted, reg) = registry_insert name t a reg
     in if \<not> was_inserted then (Err NameAlreadyRegistered, reg, None)
        else (Ok (), reg, if global then Some (name, a) else None))"


section \<open>Lemmas\<close>

lemma kt_get_handle_Ok [simp]: "kt_get_handle tr = Ok g \<longleftrightarrow> kt_handle tr = Some g"
  by (cases "kt_handle tr") (simp_all add: kt_get_handle_def)

lemma kt_get_handle_None: "kt_handle tr = None \<Longrightarrow> kt_get_handle tr = Err (TransportOther TransportNotStarted)"
  by (simp add: kt_get_handle_def)

text \<open>What the program relies on: a location holds what it was made of.\<close>

definition location_faithful :: "('g, 'a, 'p, 'kp, 'k, 'w) gossip \<Rightarrow> bool" where
  "location_faithful gp \<longleftrightarrow> (\<forall>a p md. gl_metadata (gp_location gp a p md) = md \<and>
    gl_peer_id (gp_location gp a p md) = p \<and> gp_parse_addr gp (gl_address (gp_location gp a p md)) = Some a)"

text \<open>
  \<dots> and it invents no locations: what a lookup on any node finds under a name, if it finds anything,
  is a location that some registration handed to the library under that name. \<open>stored\<close> are the
  locations handed over so far and \<open>moves\<close> what the library does on its own, spreading and expiring
  what it has. Nothing says when, or whether, a registration is seen by another node.
\<close>

definition names_sound ::
  "('g, 'a, 'p, 'kp, 'k, 'w) gossip \<Rightarrow> ('w \<Rightarrow> 'w \<Rightarrow> bool) \<Rightarrow> ('w \<Rightarrow> string \<Rightarrow> 'p gossip_location set) \<Rightarrow> bool" where
  "names_sound gp moves stored \<longleftrightarrow>
    (\<forall>g n l pr w m. stored (snd (gp_register gp g n l pr w)) m \<subseteq> stored w m \<union> (if m = n then {l} else {})) \<and>
    (\<forall>g n l t w m. stored (snd (gp_register_sync gp g n l t w)) m \<subseteq> stored w m \<union> (if m = n then {l} else {})) \<and>
    (\<forall>g n w m. stored (snd (gp_unregister gp g n w)) m \<subseteq> stored w m) \<and>
    (\<forall>g n w m. stored (snd (gp_lookup gp g n w)) m \<subseteq> stored w m) \<and>
    (\<forall>w w' m. moves w w' \<longrightarrow> stored w' m \<subseteq> stored w m) \<and>
    (\<forall>g n w l. fst (gp_lookup gp g n w) = Some l \<longrightarrow> l \<in> stored w n)"

text \<open>
  The nodes on worlds that their calls and the library's own moves lead to, with the registrations
  made on the way: the name, the actor and the handle of the registering node. The calls are made by
  any nodes in any order, each with whatever it has in its map of local names.
\<close>

inductive name_run ::
  "('g, 'a, 'p, 'kp, 'k, 'w) gossip \<Rightarrow> ('p, 'x, 'y) metadata_codec \<Rightarrow> ('w \<Rightarrow> 'w \<Rightarrow> bool) \<Rightarrow> 'w
    \<Rightarrow> (string \<times> actor_id \<times> 'g) list \<Rightarrow> ('a, 'p, 'h, 'r, 'w) node \<Rightarrow> bool"
  for gp :: "('g, 'a, 'p, 'kp, 'k, 'w) gossip" and mc :: "('p, 'x, 'y) metadata_codec" and moves w0 where
  start: "nd_world nd = w0 \<Longrightarrow> name_run gp mc moves w0 [] nd"
| other: "name_run gp mc moves w0 made nd \<Longrightarrow> nd_world nd' = nd_world nd \<Longrightarrow> name_run gp mc moves w0 made nd'"
| moves: "name_run gp mc moves w0 made nd \<Longrightarrow> moves (nd_world nd) w \<Longrightarrow>
    name_run gp mc moves w0 made (nd\<lparr>nd_world := w\<rparr>)"
| register: "name_run gp mc moves w0 made nd \<Longrightarrow> kt_handle tr = Some g \<Longrightarrow>
    kt_register_actor gp mc tr name i nd = (res, nd') \<Longrightarrow> name_run gp mc moves w0 (made @ [(name, i, g)]) nd'"
| register_with_priority: "name_run gp mc moves w0 made nd \<Longrightarrow> kt_handle tr = Some g \<Longrightarrow>
    kt_register_with_priority gp mc tr name i priority nd = (res, nd') \<Longrightarrow>
    name_run gp mc moves w0 (made @ [(name, i, g)]) nd'"
| register_sync: "name_run gp mc moves w0 made nd \<Longrightarrow> kt_handle tr = Some g \<Longrightarrow>
    kt_register_sync gp mc tr name i timeout nd = (res, nd') \<Longrightarrow> name_run gp mc moves w0 (made @ [(name, i, g)]) nd'"
| unregister: "name_run gp mc moves w0 made nd \<Longrightarrow> kt_unregister_actor gp tr name nd = (res, nd') \<Longrightarrow>
    name_run gp mc moves w0 made nd'"
| lookup: "name_run gp mc moves w0 made nd \<Longrightarrow> kt_lookup_actor gp mc tr name nd = (found, nd') \<Longrightarrow>
    name_run gp mc moves w0 made nd'"

text \<open>The location a registration hands over, up to its priority.\<close>

definition location_of ::
  "('g, 'a, 'p, 'kp, 'k, 'w) gossip \<Rightarrow> ('p, 'x, 'y) metadata_codec \<Rightarrow> actor_id \<Rightarrow> 'g \<Rightarrow> 'p gossip_location \<Rightarrow> bool" where
  "location_of gp mc i g l \<longleftrightarrow> (\<exists>md pr. encode_v1 mc i (gp_peer_id gp g) = Ok md \<and>
    l = (gp_location gp (gp_bind_addr gp g) (gp_peer_id gp g) md)\<lparr>gl_priority := pr\<rparr>)"

lemma location_of_named:
  "encode_v1 mc i (gp_peer_id gp g) = Ok md \<Longrightarrow> location_of gp mc i g (gp_location gp (gp_bind_addr gp g) (gp_peer_id gp g) md)"
  "encode_v1 mc i (gp_peer_id gp g) = Ok md \<Longrightarrow>
    location_of gp mc i g ((gp_location gp (gp_bind_addr gp g) (gp_peer_id gp g) md)\<lparr>gl_priority := pr\<rparr>)"
proof -
  assume "encode_v1 mc i (gp_peer_id gp g) = Ok md"
  then show "location_of gp mc i g ((gp_location gp (gp_bind_addr gp g) (gp_peer_id gp g) md)\<lparr>gl_priority := pr\<rparr>)" for pr
    by (auto simp: location_of_def)
  from this [of "gl_priority (gp_location gp (gp_bind_addr gp g) (gp_peer_id gp g) md)"]
  show "location_of gp mc i g (gp_location gp (gp_bind_addr gp g) (gp_peer_id gp g) md)" by simp
qed

text \<open>A registration adds its own location under its name, at most.\<close>

lemma registration_stores:
  assumes sound: "names_sound gp moves stored" and g: "kt_handle tr = Some g"
    and call: "kt_register_actor gp mc tr name i nd = (res, nd') \<or>
      kt_register_with_priority gp mc tr name i priority nd = (res, nd') \<or>
      kt_register_sync gp mc tr name i timeout nd = (res, nd')"
    and l: "l \<in> stored (nd_world nd') n"
  shows "l \<in> stored (nd_world nd) n \<or> n = name \<and> location_of gp mc i g l"
proof (cases "encode_v1 mc i (gp_peer_id gp g)")
  case (Err e)
  then have "nd_world nd' = nd_world nd"
    using call g by (auto simp: kt_register_actor_def kt_register_with_priority_def kt_register_sync_def
        kt_get_handle_def named_location_def Let_def)
  then show ?thesis using l by simp
next
  case (Ok md)
  let ?l = "gp_location gp (gp_bind_addr gp g) (gp_peer_id gp g) md"
  have "nd_world nd' = snd (gp_register gp g name (?l\<lparr>gl_priority := ImmediatePriority\<rparr>) ImmediatePriority (nd_world nd)) \<or>
      nd_world nd' = snd (gp_register gp g name (?l\<lparr>gl_priority := priority_of priority\<rparr>) (priority_of priority) (nd_world nd)) \<or>
      nd_world nd' = snd (gp_register_sync gp g name ?l timeout (nd_world nd))"
    using call g Ok
    by (auto simp: kt_register_actor_def kt_register_with_priority_def kt_register_sync_def kt_get_handle_def
        named_location_def Let_def gossip_result_def on_world_def split_beta)
  then obtain l' where l': "location_of gp mc i g l'"
    and w: "(\<exists>pr. nd_world nd' = snd (gp_register gp g name l' pr (nd_world nd))) \<or>
      nd_world nd' = snd (gp_register_sync gp g name l' timeout (nd_world nd))"
    using location_of_named [OF Ok] by blast
  have "stored (nd_world nd') n \<subseteq> stored (nd_world nd) n \<union> (if n = name then {l'} else {})"
    using sound w unfolding names_sound_def by metis
  then show ?thesis using l l' by (auto split: if_splits)
qed

lemma name_run_stored:
  assumes "name_run gp mc moves w0 made nd" and sound: "names_sound gp moves stored" and "\<And>n. stored w0 n = {}"
    and "l \<in> stored (nd_world nd) name"
  shows "\<exists>i g. (name, i, g) \<in> set made \<and> location_of gp mc i g l"
  using assms(1,4)
proof (induction arbitrary: l)
  case (start nd)
  then show ?case using assms(3) by simp
next
  case (moves made nd w)
  have "stored w name \<subseteq> stored (nd_world nd) name"
    using sound moves.hyps(2) unfolding names_sound_def by blast
  then show ?case using moves by auto
next
  case (register made nd tr g n i res nd')
  then show ?case using registration_stores [OF sound, of tr g] by fastforce
next
  case (register_with_priority made nd tr g n i priority res nd')
  then show ?case using registration_stores [OF sound, of tr g] by fastforce
next
  case (register_sync made nd tr g n i timeout res nd')
  then show ?case using registration_stores [OF sound, of tr g] by fastforce
next
  case (unregister made nd tr n res nd')
  have "nd_world nd' = nd_world nd \<or> (\<exists>g. nd_world nd' = snd (gp_unregister gp g n (nd_world nd)))"
    using unregister.hyps(2)
    by (auto simp: kt_unregister_actor_def gossip_result_def on_world_def split_beta split: result.splits)
  then have "l \<in> stored (nd_world nd) name"
    using unregister.prems sound unfolding names_sound_def by (metis subsetD)
  then show ?case by (rule unregister.IH)
next
  case (lookup made nd tr n found nd')
  have "nd_world nd' = nd_world nd \<or> (\<exists>g. nd_world nd' = snd (gp_lookup gp g n (nd_world nd)))"
    using lookup.hyps(2)
    by (auto simp: kt_lookup_actor_def on_world_def Let_def split_beta split: result.splits option.splits)
  then have "l \<in> stored (nd_world nd) name"
    using lookup.prems sound unfolding names_sound_def by (metis subsetD)
  then show ?case by (rule lookup.IH)
qed simp

lemma lookup_location:
  assumes "rkyv_roundtrip (mc_v1 mc)" and "location_faithful gp" and "kt_handle tr = Some g"
    and "encode_v1 mc i p = Ok md" and "md \<noteq> []"
    and "fst (gp_lookup gp g name (nd_world nd)) = Some ((gp_location gp a p md)\<lparr>gl_priority := pr\<rparr>)"
  shows "fst (kt_lookup_actor gp mc tr name nd) = Ok (Some \<lparr>rm_peer_addr = a, rm_actor_id = i, rm_metadata = md\<rparr>)"
proof -
  have h: "kt_get_handle tr = Ok g" using assms(3) by simp
  have dec: "decode_v1 mc md = Ok \<lparr>lm_actor_id = i, lm_peer_id = p\<rparr>"
    by (rule decode_v1_encode [OF assms(1,4)])
  have addr: "gl_address ((gp_location gp a p md)\<lparr>gl_priority := pr\<rparr>) = gl_address (gp_location gp a p md)"
    by simp
  show ?thesis
    using assms(2,4,5,6) dec
    by (cases "gp_lookup gp g name (nd_world nd)")
      (simp add: kt_lookup_actor_def h on_world_def Let_def location_actor_id_def location_faithful_def)
qed

text \<open>Connecting to peers only adds links.\<close>

lemma link_intents_mono: "link_at r a x y \<noteq> None \<Longrightarrow> link_at (link_intents p a' x' is r) a x y \<noteq> None"
  by (auto simp: link_intents_at)

lemma auto_link_mono:
  assumes "auto_link_peer tb a' p r = Done r'" "link_at r a x y \<noteq> None"
  shows "link_at r' a x y \<noteq> None"
  using assms link_intents_mono [of "r\<lparr>rl_peer_id_to_addr := hm_insert p a' (rl_peer_id_to_addr r)\<rparr>"]
  by (auto simp: auto_link_peer_def Let_def rl_simps split: if_splits)

lemma auto_link_intents [simp]:
  "auto_link_peer tb a' p r = Done r' \<Longrightarrow> rl_intents r' = rl_intents r"
proof -
  have "rl_intents (link_intents p a' x is s) = rl_intents s" for x "is" and s :: "('a, 'b, 'c) remote_links"
    by (induction "is" arbitrary: s) (simp_all add: rl_simps)
  then show "auto_link_peer tb a' p r = Done r' \<Longrightarrow> rl_intents r' = rl_intents r"
    by (auto simp: auto_link_peer_def Let_def split: if_splits)
qed

lemma auto_link_links:
  assumes "auto_link_peer tb a p r = Done r'" "peer_actor_id tb p = Done x"
    and "i \<in> set (concat (map snd (rl_intents r)))"
  shows "link_at r' a x (li_actor i) \<noteq> None"
proof -
  define r1 where "r1 = r\<lparr>rl_peer_id_to_addr := hm_insert p a (rl_peer_id_to_addr r)\<rparr>"
  have "rl_intents r \<noteq> []" using assms(3) by (cases "rl_intents r") simp_all
  then have r': "r' = link_intents p a x (concat (map snd (rl_intents r))) r1"
    using assms(1) unfolding auto_link_peer_def Let_def assms(2) r1_def by simp
  obtain j where "find (\<lambda>j. li_actor j = li_actor i) (concat (map snd (rl_intents r))) = Some j"
    using find_some_iff [of "\<lambda>j. li_actor j = li_actor i" "concat (map snd (rl_intents r))"] assms(3) by blast
  then show ?thesis
    unfolding r' link_intents_at by simp
qed

lemma link_peers_mono:
  "link_peers gp tb g w peers r = Done r' \<Longrightarrow> link_at r a x y \<noteq> None \<Longrightarrow> link_at r' a x y \<noteq> None"
  by (induction peers arbitrary: r) (auto split: option.splits outcome.splits dest: auto_link_mono)

lemma link_peers_links:
  assumes "link_peers gp tb g w peers r = Done r'"
    and "a \<in> set peers" and "gp_peer_id_by_addr gp g a w = Some p" and "peer_actor_id tb p = Done x"
    and "i \<in> set (concat (map snd (rl_intents r)))"
  shows "link_at r' a x (li_actor i) \<noteq> None"
  using assms(1,2,5)
proof (induction peers arbitrary: r)
  case (Cons b peers)
  show ?case
  proof (cases "gp_peer_id_by_addr gp g b w")
    case None
    then have "a \<noteq> b" using assms(3) by auto
    then show ?thesis using Cons None by simp
  next
    case (Some q)
    obtain r1 where r1: "auto_link_peer tb b q r = Done r1" "link_peers gp tb g w peers r1 = Done r'"
      using Cons.prems(1) Some by (auto split: outcome.splits)
    show ?thesis
    proof (cases "a = b")
      case True
      then have "link_at r1 a x (li_actor i) \<noteq> None"
        using auto_link_links [OF r1(1)] assms(3,4) Cons.prems(3) Some by simp
      then show ?thesis by (rule link_peers_mono [OF r1(2)])
    next
      case False
      then show ?thesis
        using Cons.IH [OF r1(2)] Cons.prems(2,3) r1(1) by simp
    qed
  qed
qed simp

lemma link_peers_intents: "link_peers gp tb g w peers r = Done r' \<Longrightarrow> rl_intents r' = rl_intents r"
  by (induction peers arbitrary: r) (auto split: option.splits outcome.splits)

lemma registered_intent:
  "\<exists>it \<in> set (concat (map snd (rl_intents (register_local_actor name i h r)))). li_actor it = i"
proof -
  let ?v = "entry_or [] (rl_intents r) name @ [\<lparr>li_actor = i, li_mailbox = h\<rparr>]"
  have "hm_get (rl_intents (register_local_actor name i h r)) name = Some ?v"
    by (simp add: register_local_actor_def)
  then have "(name, ?v) \<in> set (rl_intents (register_local_actor name i h r))"
    by (rule hm_get_in_set)
  then have "\<lparr>li_actor = i, li_mailbox = h\<rparr> \<in> set (concat (map snd (rl_intents (register_local_actor name i h r))))"
    by force
  then show ?thesis by force
qed

lemma install_and_link_links:
  assumes "install_and_link gp tb tr install name i h nd = Done nd'" and "kt_handle tr = Some g"
  shows "nd_world nd' = nd_world nd \<and>
    i \<in> li_actor ` set (concat (map snd (rl_intents (nd_links nd')))) \<and>
    (\<forall>a \<in> set (gp_connected_peers gp g (nd_world nd)). \<forall>p x.
      gp_peer_id_by_addr gp g a (nd_world nd) = Some p \<and> peer_actor_id tb p = Done x \<longrightarrow>
      link_at (nd_links nd') a x i \<noteq> None)"
proof -
  define r0 where "r0 = register_local_actor name i h (nd_links nd)"
  obtain regs r where r: "link_peers gp tb g (nd_world nd) (gp_connected_peers gp g (nd_world nd)) r0 = Done r"
    and nd': "nd' = nd\<lparr>nd_regs := regs, nd_links := r\<rparr>"
    using assms by (auto simp: install_and_link_def Let_def r0_def split: outcome.splits)
  obtain it where it: "it \<in> set (concat (map snd (rl_intents r0)))" "li_actor it = i"
    using registered_intent [of name i h "nd_links nd"] unfolding r0_def by blast
  have "rl_intents r = rl_intents r0" by (rule link_peers_intents [OF r])
  moreover have "link_at r a x i \<noteq> None"
    if "a \<in> set (gp_connected_peers gp g (nd_world nd))" "gp_peer_id_by_addr gp g a (nd_world nd) = Some p"
      "peer_actor_id tb p = Done x" for a p x
    using link_peers_links [OF r that it(1)] it(2) by simp
  ultimately show ?thesis
    using it by (auto simp: nd')
qed

section \<open>Properties\<close>


text \<open>
  When registering a distributed actor returns success, the actor is linked to every peer that is
  connected and whose identifier is known, under the identifier made of the peer's, and will be
  linked to every peer that connects later.
\<close>

theorem registration_links_connected_peers:
  assumes "register_distributed_with_priority gp mc tb global install tr name i mailbox prio nd = Done (Ok (), nd')"
    and "kt_handle tr = Some g"
  shows "i \<in> li_actor ` set (concat (map snd (rl_intents (nd_links nd')))) \<and>
    (\<forall>a \<in> set (gp_connected_peers gp g (nd_world nd')). \<forall>p x.
      gp_peer_id_by_addr gp g a (nd_world nd') = Some p \<and> peer_actor_id tb p = Done x \<longrightarrow>
      link_at (nd_links nd') a x i \<noteq> None)"
proof -
  obtain nd1 where "install_and_link gp tb tr install name i mailbox nd1 = Done nd'"
    using assms(1)
    by (auto simp: register_distributed_with_priority_def Let_def split: if_splits prod.splits result.splits)
  from install_and_link_links [OF this assms(2)]
  have w: "nd_world nd' = nd_world nd1"
    and linked: "i \<in> li_actor ` set (concat (map snd (rl_intents (nd_links nd')))) \<and>
      (\<forall>a \<in> set (gp_connected_peers gp g (nd_world nd1)). \<forall>p x.
        gp_peer_id_by_addr gp g a (nd_world nd1) = Some p \<and> peer_actor_id tb p = Done x \<longrightarrow>
        link_at (nd_links nd') a x i \<noteq> None)" by blast+
  show ?thesis unfolding w by (rule linked)
qed

text \<open>
  What a refused registration leaves behind depends on the variant: with a priority, the name is
  entered locally but neither handlers nor links are installed; the synchronous variant has installed
  the handlers and the links, and entered no name. A timeout makes it unwind.
\<close>

theorem refused_registration_leftovers:
  assumes "kt_handle tr = Some g" and "encode_v1 mc i (gp_peer_id gp g) = Ok md"
    and "\<And>l pr w. fst (gp_register gp g name l pr w) = Err e"
    and "\<And>l t w. fst (gp_register_sync gp g name l t w) = Err e"
    and "install_and_link gp tb tr install name i mailbox nd = Done nd'"
  shows "(\<exists>w. register_distributed_with_priority gp mc tb True install tr name i mailbox prio nd =
      Done (Err (TransportOther (FromGossip e)), nd\<lparr>nd_names := hm_insert name i (nd_names nd), nd_world := w\<rparr>)) \<and>
    (\<exists>w. register_distributed_sync gp mc tb True install speaks tr name i mailbox timeout nd =
      (if speaks e then Panicked else Done (Err (TransportOther (FromGossip e)), nd'\<lparr>nd_world := w\<rparr>)))"
proof (intro conjI)
  have h: "kt_get_handle tr = Ok g" using assms(1) by simp
  have "kt_register_with_priority gp mc tr name i pr nd = (Err (TransportOther (FromGossip e)),
      nd\<lparr>nd_names := hm_insert name i (nd_names nd), nd_world :=
        snd (gp_register gp g name ((gp_location gp (gp_bind_addr gp g) (gp_peer_id gp g) md)\<lparr>gl_priority := priority_of pr\<rparr>)
          (priority_of pr) (nd_world nd))\<rparr>)" for pr
    using assms(3) [of "(gp_location gp (gp_bind_addr gp g) (gp_peer_id gp g) md)\<lparr>gl_priority := priority_of pr\<rparr>"
        "priority_of pr" "nd_world nd"]
    by (simp add: kt_register_with_priority_def h named_location_def Let_def assms(2) gossip_result_def on_world_def
        case_prod_beta)
  then show "\<exists>w. register_distributed_with_priority gp mc tb True install tr name i mailbox prio nd =
      Done (Err (TransportOther (FromGossip e)), nd\<lparr>nd_names := hm_insert name i (nd_names nd), nd_world := w\<rparr>)"
    by (auto simp: register_distributed_with_priority_def Let_def)
  show "\<exists>w. register_distributed_sync gp mc tb True install speaks tr name i mailbox timeout nd =
      (if speaks e then Panicked else Done (Err (TransportOther (FromGossip e)), nd'\<lparr>nd_world := w\<rparr>))"
    using assms(4) [of "(gp_location gp (gp_bind_addr gp g) (gp_peer_id gp g) md)\<lparr>gl_priority := ImmediatePriority\<rparr>"
        timeout "nd_world nd'"]
    by (auto simp: register_distributed_sync_def assms(2,5) h on_world_def Let_def case_prod_beta)
qed

text \<open>
  A connection is never handed out closed: if the library dials anew after an eviction, a fresh
  connection is open, forced or not, and an error is one of the dial itself.
\<close>

theorem fresh_connection_is_open:
  assumes "decode_v1 mc (rm_metadata location) = Ok meta" and "kt_handle tr = Some g"
    and "\<And>w k w'. gp_lookup_peer gp g (lm_peer_id meta)
        (gp_configure_peer gp g (lm_peer_id meta) (rm_peer_addr location)
          (gp_disconnect_peer gp g (lm_peer_id meta) w)) = (Ok (Some k), w') \<Longrightarrow> \<not> cn_is_closed gp k w'"
  shows "case connection_fresh gp mc tr location force w of
      (Ok k, w') \<Rightarrow> \<not> cn_is_closed gp k w'
    | (Err e, _) \<Rightarrow> \<exists>ge. e \<in> {ConnectionFailed (LookupPeerFailed (lm_peer_id meta) ge),
        ConnectionFailed (NoConnectionToPeer (lm_peer_id meta))}"
proof -
  let ?dial = "\<lambda>w. connection_for_location gp mc tr location w"
  let ?drop = "\<lambda>w. snd (force_drop_for_location gp mc tr location w)"
  have h: "kt_get_handle tr = Ok g" using assms(2) by simp
  have dial: "case ?dial w of (Ok k, w') \<Rightarrow> True | (Err e, _) \<Rightarrow> \<exists>ge. e \<in> {ConnectionFailed (LookupPeerFailed (lm_peer_id meta) ge),
        ConnectionFailed (NoConnectionToPeer (lm_peer_id meta))}" for w
    by (auto simp: connection_for_location_def assms(1) h Let_def connection_of_def split: prod.splits result.splits option.splits)
  have anew: "\<not> cn_is_closed gp k w'" if "?dial (?drop w) = (Ok k, w')" for k w w'
    using that assms(3) [of w k w']
    by (auto simp: connection_for_location_def force_drop_for_location_def assms(1) h Let_def connection_of_def
        split: prod.splits result.splits option.splits)
  define w0 where "w0 = (if force then ?drop w else w)"
  obtain r1 w1 where d1: "?dial w0 = (r1, w1)" by (cases "?dial w0")
  obtain r2 w2 where d2: "?dial (?drop w1) = (r2, w2)" by (cases "?dial (?drop w1)")
  have fresh: "connection_fresh gp mc tr location force w =
      (case r1 of Err e \<Rightarrow> (Err e, w1) | Ok k \<Rightarrow> if \<not> cn_is_closed gp k w1 then (Ok k, w1) else (r2, w2))"
    unfolding connection_fresh_def Let_def w0_def [symmetric] d1 prod.case d2 by (cases r1) simp_all
  show ?thesis
    using dial [of w0] dial [of "?drop w1"] anew [of w1] unfolding fresh d1 d2 prod.case
    by (cases r1; cases r2) auto
qed

text \<open>
  Through a box a transport loses two of its methods: a registration with normal priority is made
  with immediate priority, and a streaming ask of a payload over the threshold is sent in one frame.
\<close>

theorem boxed_transport_drops_overrides:
  assumes "kt_handle tr = Some g" and "encode_v1 mc i (gp_peer_id gp g) = Ok md"
    and "gp_lookup_address gp g (rm_peer_addr loc) w = (Ok (Some k), w1)" and "length payload > cn_threshold gp k"
  shows "box_register_with_priority gp mc tr name i 0 nd = kt_register_with_priority gp mc tr name i 1 nd \<and>
    fst (box_send_ask_streaming gp tr i loc h payload t w) =
      map_err (ask_error TypedAskFailed) (fst (cn_ask gp k (actor_id_into_u64 i) h payload t w1)) \<and>
    fst (kt_send_ask_streaming gp tr i loc h payload t w) =
      map_err (ask_error StreamingAskFailed) (fst (cn_ask_streaming gp k payload h (actor_id_into_u64 i) t w1))"
proof -
  have h: "kt_get_handle tr = Ok g" using assms(1) by simp
  have dial: "connection_for_peer gp tr (rm_peer_addr loc) w = (Ok k, w1)"
    by (simp add: connection_for_peer_def h assms(3) connection_of_def)
  have one: "priority_of 1 = ImmediatePriority" by (simp add: priority_of_def)
  have "box_register_with_priority gp mc tr name i 0 nd = kt_register_with_priority gp mc tr name i 1 nd"
    unfolding box_register_with_priority_def default_register_with_priority_def kt_register_actor_def
      kt_register_with_priority_def one by (rule refl)
  then show ?thesis
    using assms(4)
    by (simp add: box_send_ask_streaming_def default_send_ask_streaming_def
        kt_send_ask_typed_def kt_send_ask_streaming_def dial)
qed

text \<open>
  A transport is started exactly when it has a handle: starting needs a key pair and encryption,
  does nothing a second time, and leaves the transport as it was when it fails; without a handle
  every operation on names and connections fails and changes nothing.
\<close>

theorem transport_needs_start:
  assumes "kt_start gp tr w = (r, tr', w')"
  shows "(is_ok r \<longleftrightarrow> kt_handle tr' \<noteq> None) \<and> (is_ok r \<or> tr' = tr) \<and>
    (r = Ok () \<longrightarrow> kt_handle tr = None \<longrightarrow> tc_enable_encryption (kt_config tr) \<and> tc_keypair (kt_config tr) \<noteq> None) \<and>
    (kt_handle tr = None \<longrightarrow>
      kt_register_actor gp mc tr name i nd = (Err (TransportOther TransportNotStarted), nd) \<and>
      kt_register_with_priority gp mc tr name i pr nd = (Err (TransportOther TransportNotStarted), nd) \<and>
      kt_register_sync gp mc tr name i t nd = (Err (TransportOther TransportNotStarted), nd) \<and>
      kt_unregister_actor gp tr name nd = (Err (TransportOther TransportNotStarted), nd) \<and>
      kt_lookup_actor gp mc tr name nd = (Err (TransportOther TransportNotStarted), nd) \<and>
      connection_fresh gp mc tr loc force v = (Err (TransportOther TransportNotStarted), v))"
proof -
  have none: "kt_handle tr = None \<Longrightarrow> kt_get_handle tr = Err (TransportOther TransportNotStarted)"
    by (simp add: kt_get_handle_def)
  have start: "(is_ok r \<longleftrightarrow> kt_handle tr' \<noteq> None) \<and> (is_ok r \<or> tr' = tr) \<and>
    (r = Ok () \<longrightarrow> kt_handle tr = None \<longrightarrow> tc_enable_encryption (kt_config tr) \<and> tc_keypair (kt_config tr) \<noteq> None)"
    using assms by (auto simp: kt_start_def Let_def split: if_splits option.splits prod.splits result.splits)
  have conn: "kt_handle tr = None \<Longrightarrow> connection_fresh gp mc tr loc force v = (Err (TransportOther TransportNotStarted), v)"
    by (auto simp: connection_fresh_def connection_for_location_def connection_for_peer_def force_drop_for_location_def
        none Let_def split: result.split)
  have names: "kt_handle tr = None \<Longrightarrow>
      kt_register_actor gp mc tr name i nd = (Err (TransportOther TransportNotStarted), nd) \<and>
      kt_register_with_priority gp mc tr name i pr nd = (Err (TransportOther TransportNotStarted), nd) \<and>
      kt_register_sync gp mc tr name i t nd = (Err (TransportOther TransportNotStarted), nd) \<and>
      kt_unregister_actor gp tr name nd = (Err (TransportOther TransportNotStarted), nd) \<and>
      kt_lookup_actor gp mc tr name nd = (Err (TransportOther TransportNotStarted), nd)"
    by (simp add: kt_register_actor_def kt_register_with_priority_def kt_register_sync_def
        kt_unregister_actor_def kt_lookup_actor_def none)
  show ?thesis using start conn names by blast
qed

section \<open>An instance\<close>

text \<open>
  A metadata codec and a gossip library that meet the assumptions: the world is the map of the
  registered names, an address is printed in unary, every dial gives connection 1, and one peer is
  connected.
\<close>

definition demo_rkyv :: "(u8 location_metadata, bytes) rkyv" where
  "demo_rkyv = \<lparr>rk_to_bytes = (\<lambda>m. Ok (lm_peer_id m # to_le_bytes (sequence_id (lm_actor_id m)))), rk_access = Ok,
     rk_access_unchecked = id,
     rk_deserialize = (\<lambda>b. Ok \<lparr>lm_actor_id = ActorId (le_word (tl b)), lm_peer_id = hd b\<rparr>)\<rparr>"

definition demo_codec :: "(u8, bytes, unit) metadata_codec" where
  "demo_codec = \<lparr>mc_v1 = demo_rkyv, mc_legacy = \<lparr>rk_to_bytes = (\<lambda>_. Err ''no''), rk_access = (\<lambda>_. Err ''no''),
     rk_access_unchecked = (\<lambda>_. ()), rk_deserialize = (\<lambda>_. Err ''no'')\<rparr>, mc_alignment = 16, mc_trusted = False, mc_alloc = 3\<rparr>"

type_synonym demo_names = "(string, u8 gossip_location) hash_map"

definition demo_gossip :: "(unit, nat, u8, unit, nat, demo_names) gossip" where
  "demo_gossip =
    \<lparr>gp_new_with_tls = (\<lambda>a kp c w. (Ok (), w)), gp_bind_addr = (\<lambda>_. 7), gp_peer_id = (\<lambda>_. 9),
     gp_location = (\<lambda>a p md. \<lparr>gl_address = replicate a (CHR ''x''), gl_peer_id = p, gl_metadata = md, gl_priority = NormalPriority\<rparr>),
     gp_register = (\<lambda>g n l pr w. (Ok (), hm_insert n l w)), gp_register_sync = (\<lambda>g n l t w. (Ok (), hm_insert n l w)),
     gp_unregister = (\<lambda>g n w. (Ok (), hm_remove n w)), gp_lookup = (\<lambda>g n w. (hm_get w n, w)),
     gp_lookup_address = (\<lambda>g a w. (Ok (Some 1), w)), gp_lookup_peer = (\<lambda>g p w. (Ok (Some 1), w)),
     gp_configure_peer = (\<lambda>g p a w. w), gp_disconnect_peer = (\<lambda>g p w. w),
     gp_connection_failure = (\<lambda>g a w. (Ok (), w)), gp_connect = (\<lambda>g p a w. (Ok (), w)),
     gp_connected_peers = (\<lambda>g w. [5]), gp_peer_id_by_addr = (\<lambda>g a w. Some 9),
     gp_parse_addr = (\<lambda>s. Some (length s)), gp_unspecified_addr = 0,
     cn_is_closed = (\<lambda>k w. k = 0), cn_threshold = (\<lambda>k. 3), cn_tell = (\<lambda>k i h b w. (Ok (), w)),
     cn_ask = (\<lambda>k i h b t w. (Ok [1], w)), cn_ask_streaming = (\<lambda>k b h i t w. (Ok [2], w)),
     cn_stream_large = (\<lambda>k b h i w. (Ok (), w))\<rparr>"

definition demo_transport :: "(unit, nat, u8, unit) kameo_transport" where
  "demo_transport = kt_set_handle () (kameo_transport_new (transport_config_default 0))"

definition demo_node :: "(nat, u8, nat, unit, demo_names) node" where
  "demo_node = \<lparr>nd_names = [], nd_links = remote_links_new, nd_regs = (), nd_world = []\<rparr>"

lemma demo_codec_roundtrip: "rkyv_roundtrip (mc_v1 demo_codec)"
  by (simp add: rkyv_roundtrip_def demo_codec_def demo_rkyv_def)

lemma demo_encode: "encode_v1 demo_codec i p = Ok (p # to_le_bytes (sequence_id i))"
  by (simp add: encode_v1_def demo_codec_def demo_rkyv_def)

text \<open>The demo library forgets names on its own.\<close>

definition demo_moves :: "demo_names \<Rightarrow> demo_names \<Rightarrow> bool" where
  "demo_moves w w' \<longleftrightarrow> (\<exists>n. w' = hm_remove n w)"

definition demo_stored :: "demo_names \<Rightarrow> string \<Rightarrow> u8 gossip_location set" where
  "demo_stored w n = set_option (hm_get w n)"

lemma demo_gossip_contracts: "location_faithful demo_gossip" "names_sound demo_gossip demo_moves demo_stored"
  by (auto simp: location_faithful_def names_sound_def demo_gossip_def demo_moves_def demo_stored_def split: if_splits)

lemma demo_handle: "kt_handle demo_transport = Some ()"
  by (simp add: demo_transport_def kt_set_handle_def)


theorem registration_links_connected_peers_witness:
  "\<exists>nd'. register_distributed_with_priority demo_gossip demo_codec (\<lambda>p. replicate 8 p) True Done demo_transport ''n''
      (ActorId 3) 0 NormalPriority demo_node = Done (Ok (), nd') \<and>
    link_at (nd_links nd') 5 (actor_id_from_u64 (le_word (replicate 8 9))) (ActorId 3) \<noteq> None"
proof -
  define x where "x = actor_id_from_u64 (le_word (replicate 8 9))"
  have x: "peer_actor_id (\<lambda>p. replicate 8 p) (9 :: u8) = Done x" by (simp add: peer_actor_id_def x_def)
  have peers: "gp_connected_peers demo_gossip g w = [5]" "gp_peer_id_by_addr demo_gossip g a w = Some 9" for g a w
    by (simp_all add: demo_gossip_def)
  obtain nd1 where nd1: "kt_register_with_priority demo_gossip demo_codec demo_transport ''n'' (ActorId 3) 0 demo_node = (Ok (), nd1)"
    by (simp add: kt_register_with_priority_def kt_get_handle_def demo_handle named_location_def Let_def demo_encode
        gossip_result_def on_world_def) (simp add: demo_gossip_def)
  obtain r where "auto_link_peer (\<lambda>p. replicate 8 p) (5 :: nat) (9 :: u8) (register_local_actor ''n'' (ActorId 3) 0 (nd_links nd1)) = Done r"
    using auto_link_returns [OF x, of "5 :: nat" "register_local_actor ''n'' (ActorId 3) 0 (nd_links nd1)"] by (elim exE)
  then have reg: "register_distributed_with_priority demo_gossip demo_codec (\<lambda>p. replicate 8 p) True Done demo_transport ''n''
      (ActorId 3) 0 NormalPriority demo_node =
      Done (Ok (), nd1\<lparr>nd_links := r\<rparr>)"
    by (simp add: register_distributed_with_priority_def Let_def nd1 install_and_link_def demo_handle peers)
  have "link_at (nd_links (nd1\<lparr>nd_links := r\<rparr>)) 5 x (ActorId 3) \<noteq> None"
    using registration_links_connected_peers [OF reg demo_handle] x unfolding peers by simp
  then show ?thesis
    unfolding x_def [symmetric] using reg by blast
qed

definition refusing_gossip :: "(unit, nat, u8, unit, nat, demo_names) gossip" where
  "refusing_gossip = demo_gossip\<lparr>gp_register := (\<lambda>_ _ _ _ w. (Err GossipShutdown, w)),
     gp_register_sync := (\<lambda>_ _ _ _ w. (Err GossipShutdown, w)), gp_connected_peers := (\<lambda>_ _. [])\<rparr>"

theorem refused_registration_leftovers_witness:
  "\<exists>w. register_distributed_sync refusing_gossip demo_codec (\<lambda>p. replicate 8 p) True Done
      (\<lambda>e. e = GossipTimeout) demo_transport ''n'' (ActorId 3) 0 100 demo_node =
    Done (Err (TransportOther (FromGossip GossipShutdown)),
      demo_node\<lparr>nd_links := register_local_actor ''n'' (ActorId 3) 0 (nd_links demo_node), nd_world := w\<rparr>)"
proof -
  have refused: "fst (gp_register refusing_gossip () n l pr w) = Err GossipShutdown"
    "fst (gp_register_sync refusing_gossip () n l t w) = Err GossipShutdown" for n l pr t w
    by (simp_all add: refusing_gossip_def)
  have inst: "install_and_link refusing_gossip (\<lambda>p. replicate 8 p) demo_transport Done ''n'' (ActorId 3) 0 demo_node =
      Done (demo_node\<lparr>nd_links := register_local_actor ''n'' (ActorId 3) 0 (nd_links demo_node)\<rparr>)"
    by (simp add: install_and_link_def demo_handle refusing_gossip_def demo_node_def)
  show ?thesis
    using refused_registration_leftovers [OF demo_handle demo_encode refused inst, of NormalPriority "\<lambda>e. e = GossipTimeout" 100]
    by simp
qed

theorem fresh_connection_is_open_witness:
  "case connection_fresh demo_gossip demo_codec demo_transport
      \<lparr>rm_peer_addr = 5, rm_actor_id = ActorId 3, rm_metadata = 9 # to_le_bytes (3 :: u64)\<rparr> True [] of
    (Ok k, w') \<Rightarrow> k \<noteq> 0 | (Err e, _) \<Rightarrow> True"
proof -
  have dec: "decode_v1 demo_codec (9 # to_le_bytes (3 :: u64)) = Ok \<lparr>lm_actor_id = ActorId 3, lm_peer_id = 9\<rparr>"
    by (rule decode_v1_encode [OF demo_codec_roundtrip]) (simp add: demo_encode)
  have opened: "gp_lookup_peer demo_gossip () p w = (Ok (Some k), w') \<Longrightarrow> \<not> cn_is_closed demo_gossip k w'" for p w k w'
    by (auto simp: demo_gossip_def)
  have "cn_is_closed demo_gossip k w' \<longleftrightarrow> k = 0" for k w' by (simp add: demo_gossip_def)
  then show ?thesis
    using fresh_connection_is_open [of demo_codec "\<lparr>rm_peer_addr = 5, rm_actor_id = ActorId 3, rm_metadata = 9 # to_le_bytes (3 :: u64)\<rparr>",
        simplified, OF dec demo_handle opened, where force = True and w = "[]"]
    by (auto split: prod.splits result.splits)
qed

theorem boxed_transport_drops_overrides_witness:
  "fst (box_send_ask_streaming demo_gossip demo_transport (ActorId 3) \<lparr>rm_peer_addr = 5, rm_actor_id = ActorId 3, rm_metadata = []\<rparr>
      7 [0, 0, 0, 0] 100 []) = Ok [1]"
proof -
  have k: "gp_lookup_address demo_gossip () 5 [] = (Ok (Some 1), [])" "length [0 :: u8, 0, 0, 0] > cn_threshold demo_gossip 1"
    by (simp_all add: demo_gossip_def)
  have ask: "fst (cn_ask demo_gossip 1 i h b t w) = Ok [1]" for i h b t w by (simp add: demo_gossip_def)
  show ?thesis
    using boxed_transport_drops_overrides [OF demo_handle demo_encode, where gp = demo_gossip and w = "[]" and k = 1
        and ?w1.0 = "[]" and payload = "[0, 0, 0, 0]" and nd = demo_node
        and loc = "\<lparr>rm_peer_addr = 5, rm_actor_id = ActorId 3, rm_metadata = []\<rparr>"] k ask
    by simp
qed

theorem transport_needs_start_witness:
  "kt_register_actor demo_gossip demo_codec (kameo_transport_new (transport_config_default 0)) ''n'' (ActorId 3) demo_node =
    (Err (TransportOther TransportNotStarted), demo_node)"
proof -
  let ?tr = "kameo_transport_new (transport_config_default 0) :: (unit, nat, u8, unit) kameo_transport"
  have start: "kt_start demo_gossip ?tr [] = (Err (TransportOther MissingKeypair), ?tr, [])"
    by (simp add: kt_start_def kameo_transport_new_def transport_config_default_def)
  have "kt_handle ?tr = None" by (simp add: kameo_transport_new_def)
  then show ?thesis
    using transport_needs_start [OF start, of demo_codec "''n''" "ActorId 3" demo_node] by simp
qed

end
