(* ===== verification/Distributed_Ref.thy ===== *)
theory Distributed_Ref
  imports Transport Handle_Cache
begin

text \<open>
  References to actors on other nodes: the typed one (\<open>src/remote/distributed_actor_ref.rs\<close>) and the
  dynamic one (\<open>src/remote/dynamic_distributed_actor_ref.rs\<close>), their lookup by name, refresh, links,
  and what a tell and an ask send over the cached connection. The codec of a message type is a
  parameter, and the connection is one of the gossip library of \<open>Transport\<close>.
\<close>

section \<open>References\<close>

text \<open>\<open>dr_alive\<close> is the number of the liveness token in the handle cache.\<close>

record ('g, 'a, 'p, 'kp, 'k) distributed_ref =
  dr_actor_id :: actor_id
  dr_location :: "'a remote_location"
  dr_name :: "string option"
  dr_transport :: "('g, 'a, 'p, 'kp) kameo_transport"
  dr_connection :: "'k option"
  dr_alive :: "nat option"

record ('g, 'a, 'p, 'kp, 'k) dynamic_ref =
  dy_actor_id :: actor_id
  dy_location :: "'a remote_location"
  dy_name :: "string option"
  dy_transport :: "('g, 'a, 'p, 'kp) kameo_transport"
  dy_connection :: "'k option"

definition new_with_connection ::
  "actor_id \<Rightarrow> 'a remote_location \<Rightarrow> ('g, 'a, 'p, 'kp) kameo_transport \<Rightarrow> 'k \<Rightarrow> ('g, 'a, 'p, 'kp, 'k) distributed_ref" where
  "new_with_connection actor_id location tr connection =
    \<lparr>dr_actor_id = actor_id, dr_location = location, dr_name = None, dr_transport = tr,
     dr_connection = Some connection, dr_alive = None\<rparr>"

definition dynamic_ref_new ::
  "actor_id \<Rightarrow> 'a remote_location \<Rightarrow> ('g, 'a, 'p, 'kp) kameo_transport \<Rightarrow> ('g, 'a, 'p, 'kp, 'k) dynamic_ref" where
  "dynamic_ref_new actor_id location tr =
    \<lparr>dy_actor_id = actor_id, dy_location = location, dy_name = None, dy_transport = tr, dy_connection = None\<rparr>"

text \<open>A link is made under the peer's identifier if the metadata has one; unlinking needs only the address.\<close>

definition dist_link ::
  "('p, 'x, 'y) metadata_codec \<Rightarrow> ('g, 'a, 'p, 'kp, 'k) distributed_ref \<Rightarrow> actor_id \<Rightarrow> 'h
    \<Rightarrow> ('a, 'p, 'h) remote_links \<Rightarrow> ('a, 'p, 'h) remote_links" where
  "dist_link mc r local_id mailbox links =
    (case decode_v1 mc (rm_metadata (dr_location r)) of
       Ok meta \<Rightarrow> remote_link_with_peer_id (lm_peer_id meta) (rm_peer_addr (dr_location r))
         (rm_actor_id (dr_location r)) local_id mailbox links
     | Err _ \<Rightarrow> remote_link (rm_peer_addr (dr_location r)) (rm_actor_id (dr_location r)) local_id mailbox links)"

definition dist_unlink ::
  "('g, 'a, 'p, 'kp, 'k) distributed_ref \<Rightarrow> actor_id \<Rightarrow> ('a, 'p, 'h) remote_links \<Rightarrow> ('a, 'p, 'h) remote_links" where
  "dist_unlink r local_id links =
    registry_unlink (rm_peer_addr (dr_location r)) (rm_actor_id (dr_location r)) local_id links"

definition dynamic_link ::
  "('p, 'x, 'y) metadata_codec \<Rightarrow> ('g, 'a, 'p, 'kp, 'k) dynamic_ref \<Rightarrow> actor_id \<Rightarrow> 'h
    \<Rightarrow> ('a, 'p, 'h) remote_links \<Rightarrow> ('a, 'p, 'h) remote_links" where
  "dynamic_link mc r local_id mailbox links =
    (case decode_v1 mc (rm_metadata (dy_location r)) of
       Ok meta \<Rightarrow> remote_link_with_peer_id (lm_peer_id meta) (rm_peer_addr (dy_location r))
         (rm_actor_id (dy_location r)) local_id mailbox links
     | Err _ \<Rightarrow> remote_link (rm_peer_addr (dy_location r)) (rm_actor_id (dy_location r)) local_id mailbox links)"

definition dynamic_unlink ::
  "('g, 'a, 'p, 'kp, 'k) dynamic_ref \<Rightarrow> actor_id \<Rightarrow> ('a, 'p, 'h) remote_links \<Rightarrow> ('a, 'p, 'h) remote_links" where
  "dynamic_unlink r local_id links =
    registry_unlink (rm_peer_addr (dy_location r)) (rm_actor_id (dy_location r)) local_id links"


section \<open>Lookup and refresh\<close>

text \<open>The boxed errors of the lookups.\<close>

datatype ('a, 'p) lookup_error = NoTransportSet | LookupFailed "('a, 'p) transport_error"

text \<open>The connection of a new reference: none if the dial fails or gives a closed one.\<close>

definition open_connection ::
  "('g, 'a, 'p, 'kp, 'k, 'w) gossip \<Rightarrow> ('p, 'x, 'y) metadata_codec \<Rightarrow> ('g, 'a, 'p, 'kp) kameo_transport
    \<Rightarrow> 'a remote_location \<Rightarrow> bool \<Rightarrow> 'w \<Rightarrow> 'k option \<times> 'w" where
  "open_connection gp mc tr location force_new w =
    (case connection_fresh gp mc tr location force_new w of
       (Err _, w) \<Rightarrow> (None, w)
     | (Ok conn, w) \<Rightarrow> (if cn_is_closed gp conn w then None else Some conn, w))"

definition dist_connect ::
  "('g, 'a, 'p, 'kp, 'k, 'w) gossip \<Rightarrow> ('p, 'x, 'y) metadata_codec \<Rightarrow> ('g, 'a, 'p, 'kp) kameo_transport \<Rightarrow> string
    \<Rightarrow> 'a remote_location \<Rightarrow> bool \<Rightarrow> 'w \<Rightarrow> ('a, 'p) handle_cache
    \<Rightarrow> ('g, 'a, 'p, 'kp, 'k) distributed_ref option \<times> 'w \<times> ('a, 'p) handle_cache" where
  "dist_connect gp mc tr name location force_new w c =
    (case open_connection gp mc tr location force_new w of
       (None, w) \<Rightarrow> (None, w, c)
     | (Some conn, w) \<Rightarrow>
         (let r = new_with_connection (rm_actor_id location) location tr conn;
              peer_id = (case decode_v1 mc (rm_metadata location) of Ok meta \<Rightarrow> Some (lm_peer_id meta) | Err _ \<Rightarrow> None);
              (alive, c) = register_handle (rm_peer_addr location) peer_id c
          in (Some (r\<lparr>dr_alive := Some alive, dr_name := Some name\<rparr>), w, c)))"

definition dist_lookup ::
  "('g, 'a, 'p, 'kp, 'k, 'w) gossip \<Rightarrow> ('p, 'x, 'y) metadata_codec \<Rightarrow> ('g, 'a, 'p, 'kp) kameo_transport option \<Rightarrow> string
    \<Rightarrow> ('a, 'p, 'h, 'r, 'w) node \<Rightarrow> ('a, 'p) handle_cache
    \<Rightarrow> (('g, 'a, 'p, 'kp, 'k) distributed_ref option, ('a, 'p) lookup_error) result
      \<times> ('a, 'p, 'h, 'r, 'w) node \<times> ('a, 'p) handle_cache" where
  "dist_lookup gp mc global name nd c =
    (case global of
       None \<Rightarrow> (Err NoTransportSet, nd, c)
     | Some tr \<Rightarrow>
         (case kt_lookup_actor gp mc tr name nd of
            (Err e, nd) \<Rightarrow> (Err (LookupFailed e), nd, c)
          | (Ok None, nd) \<Rightarrow> (Ok None, nd, c)
          | (Ok (Some location), nd) \<Rightarrow>
              (let (r, w, c) = dist_connect gp mc tr name location False (nd_world nd) c
               in (Ok r, nd\<lparr>nd_world := w\<rparr>, c))))"

text \<open>\<open>refresh\<close> and \<open>refresh_force_new\<close> differ in \<open>force_new\<close> only.\<close>

definition dist_refresh ::
  "('g, 'a, 'p, 'kp, 'k, 'w) gossip \<Rightarrow> ('p, 'x, 'y) metadata_codec \<Rightarrow> bool \<Rightarrow> ('g, 'a, 'p, 'kp, 'k) distributed_ref
    \<Rightarrow> ('a, 'p, 'h, 'r, 'w) node \<Rightarrow> ('a, 'p) handle_cache
    \<Rightarrow> (('g, 'a, 'p, 'kp, 'k) distributed_ref option, ('a, 'p) lookup_error) result
      \<times> ('a, 'p, 'h, 'r, 'w) node \<times> ('a, 'p) handle_cache" where
  "dist_refresh gp mc force_new self nd c =
    (case dr_name self of
       None \<Rightarrow> (Ok None, nd, c)
     | Some name \<Rightarrow>
         (case kt_lookup_actor gp mc (dr_transport self) name nd of
            (Err e, nd) \<Rightarrow> (Err (LookupFailed e), nd, c)
          | (Ok found, nd) \<Rightarrow>
              (let location = (case found of Some l \<Rightarrow> l | None \<Rightarrow> dr_location self);
                   (r, w, c) = dist_connect gp mc (dr_transport self) name location force_new (nd_world nd) c
               in (Ok r, nd\<lparr>nd_world := w\<rparr>, c))))"

definition dynamic_connect ::
  "('g, 'a, 'p, 'kp, 'k, 'w) gossip \<Rightarrow> ('p, 'x, 'y) metadata_codec \<Rightarrow> ('g, 'a, 'p, 'kp) kameo_transport \<Rightarrow> string
    \<Rightarrow> 'a remote_location \<Rightarrow> bool \<Rightarrow> 'w \<Rightarrow> ('g, 'a, 'p, 'kp, 'k) dynamic_ref option \<times> 'w" where
  "dynamic_connect gp mc tr name location force_new w =
    (case open_connection gp mc tr location force_new w of
       (None, w) \<Rightarrow> (None, w)
     | (Some conn, w) \<Rightarrow>
         (Some \<lparr>dy_actor_id = rm_actor_id location, dy_location = location, dy_name = Some name,
            dy_transport = tr, dy_connection = Some conn\<rparr>, w))"

definition dynamic_lookup ::
  "('g, 'a, 'p, 'kp, 'k, 'w) gossip \<Rightarrow> ('p, 'x, 'y) metadata_codec \<Rightarrow> ('g, 'a, 'p, 'kp) kameo_transport \<Rightarrow> string
    \<Rightarrow> ('a, 'p, 'h, 'r, 'w) node
    \<Rightarrow> (('g, 'a, 'p, 'kp, 'k) dynamic_ref option, ('a, 'p) lookup_error) result \<times> ('a, 'p, 'h, 'r, 'w) node" where
  "dynamic_lookup gp mc tr name nd =
    (case kt_lookup_actor gp mc tr name nd of
       (Err e, nd) \<Rightarrow> (Err (LookupFailed e), nd)
     | (Ok None, nd) \<Rightarrow> (Ok None, nd)
     | (Ok (Some location), nd) \<Rightarrow>
         (let (r, w) = dynamic_connect gp mc tr name location False (nd_world nd) in (Ok r, nd\<lparr>nd_world := w\<rparr>)))"

definition dynamic_refresh ::
  "('g, 'a, 'p, 'kp, 'k, 'w) gossip \<Rightarrow> ('p, 'x, 'y) metadata_codec \<Rightarrow> bool \<Rightarrow> ('g, 'a, 'p, 'kp, 'k) dynamic_ref
    \<Rightarrow> ('a, 'p, 'h, 'r, 'w) node
    \<Rightarrow> (('g, 'a, 'p, 'kp, 'k) dynamic_ref option, ('a, 'p) lookup_error) result \<times> ('a, 'p, 'h, 'r, 'w) node" where
  "dynamic_refresh gp mc force_new self nd =
    (case dy_name self of
       None \<Rightarrow> (Ok None, nd)
     | Some name \<Rightarrow>
         (case kt_lookup_actor gp mc (dy_transport self) name nd of
            (Err e, nd) \<Rightarrow> (Err (LookupFailed e), nd)
          | (Ok found, nd) \<Rightarrow>
              (let location = (case found of Some l \<Rightarrow> l | None \<Rightarrow> dy_location self);
                   (r, w) = dynamic_connect gp mc (dy_transport self) name location force_new (nd_world nd)
               in (Ok r, nd\<lparr>nd_world := w\<rparr>))))"


section \<open>Tells and asks\<close>

fun tell_error :: "gossip_error \<Rightarrow> (unit, unit) send_error" where
  "tell_error GossipConnectionClosed = ConnectionClosed"
| "tell_error GossipShutdown = ConnectionClosed"
| "tell_error _ = ActorStopped"

fun ask_send_error :: "gossip_error \<Rightarrow> (unit, unit) send_error" where
  "ask_send_error GossipTimeout = Timeout None"
| "ask_send_error GossipConnectionClosed = ConnectionClosed"
| "ask_send_error GossipShutdown = ConnectionClosed"
| "ask_send_error _ = ActorStopped"

text \<open>Without a token a reference counts as alive.\<close>

definition ref_alive :: "('a, 'p) handle_cache \<Rightarrow> ('g, 'a, 'p, 'kp, 'k) distributed_ref \<Rightarrow> bool" where
  "ref_alive c r = (case dr_alive r of Some t \<Rightarrow> hc_alive c t | None \<Rightarrow> True)"

definition dist_tell_send ::
  "('g, 'a, 'p, 'kp, 'k, 'w) gossip \<Rightarrow> ('a, 'p) handle_cache \<Rightarrow> ('g, 'a, 'p, 'kp, 'k) distributed_ref \<Rightarrow> type_hash
    \<Rightarrow> ('m \<Rightarrow> (bytes, string) result) \<Rightarrow> 'm \<Rightarrow> nat option \<Rightarrow> 'w
    \<Rightarrow> (unit, (unit, unit) send_error) result \<times> 'w" where
  "dist_tell_send gp c r h to_bytes message timeout w =
    (if \<not> ref_alive c r then (Err ConnectionClosed, w)
     else case to_bytes message of
       Err _ \<Rightarrow> (Err ActorStopped, w)
     | Ok payload \<Rightarrow>
         (case dr_connection r of
            None \<Rightarrow> (Err MissingConnection, w)
          | Some conn \<Rightarrow>
              if length payload > cn_threshold gp conn
              then map_prod (map_err tell_error) id
                (cn_stream_large gp conn payload (as_u32 h) (actor_id_into_u64 (dr_actor_id r)) w)
              else map_prod (map_err tell_error) id
                (cn_tell gp conn (actor_id_into_u64 (dr_actor_id r)) (as_u32 h) payload w)))"

text \<open>Two seconds, or for a streamed payload thirty and one more for each whole MiB.\<close>

definition ask_timeout :: "nat option \<Rightarrow> nat" where
  "ask_timeout timeout = (case timeout of Some t \<Rightarrow> t | None \<Rightarrow> from_secs 2)"

definition streaming_timeout :: "nat \<Rightarrow> nat option \<Rightarrow> nat" where
  "streaming_timeout payload_len timeout =
    (case timeout of Some t \<Rightarrow> t | None \<Rightarrow> from_secs (30 + payload_len div (1024 * 1024)))"

definition dist_ask_raw ::
  "('g, 'a, 'p, 'kp, 'k, 'w) gossip \<Rightarrow> ('a, 'p) handle_cache \<Rightarrow> ('g, 'a, 'p, 'kp, 'k) distributed_ref \<Rightarrow> type_hash
    \<Rightarrow> ('m \<Rightarrow> (bytes, string) result) \<Rightarrow> 'm \<Rightarrow> nat option \<Rightarrow> 'w
    \<Rightarrow> (bytes, (unit, unit) send_error) result \<times> 'w" where
  "dist_ask_raw gp c r h to_bytes message timeout w =
    (if \<not> ref_alive c r then (Err ConnectionClosed, w)
     else case to_bytes message of
       Err _ \<Rightarrow> (Err ActorStopped, w)
     | Ok payload \<Rightarrow>
         (case dr_connection r of
            None \<Rightarrow> (Err MissingConnection, w)
          | Some conn \<Rightarrow>
              if length payload > cn_threshold gp conn
              then map_prod (map_err ask_send_error) id
                (cn_ask_streaming gp conn payload (as_u32 h) (actor_id_into_u64 (dr_actor_id r))
                  (streaming_timeout (length payload) timeout) w)
              else map_prod (map_err ask_send_error) id
                (cn_ask gp conn (actor_id_into_u64 (dr_actor_id r)) (as_u32 h) payload (ask_timeout timeout) w)))"

text \<open>The reply is decoded; \<open>send\<close> of both requests.\<close>

definition decode_reply ::
  "(bytes \<Rightarrow> ('v, string) result) \<Rightarrow> (bytes, (unit, unit) send_error) result \<times> 'w
    \<Rightarrow> ('v, (unit, unit) send_error) result \<times> 'w" where
  "decode_reply from_bytes r =
    (case r of
       (Err e, w) \<Rightarrow> (Err e, w)
     | (Ok reply_bytes, w) \<Rightarrow> (case from_bytes reply_bytes of Ok v \<Rightarrow> Ok v | Err _ \<Rightarrow> Err ActorStopped, w))"

definition dist_ask_send ::
  "('g, 'a, 'p, 'kp, 'k, 'w) gossip \<Rightarrow> ('a, 'p) handle_cache \<Rightarrow> ('g, 'a, 'p, 'kp, 'k) distributed_ref \<Rightarrow> type_hash
    \<Rightarrow> ('m \<Rightarrow> (bytes, string) result) \<Rightarrow> (bytes \<Rightarrow> ('v, string) result) \<Rightarrow> 'm \<Rightarrow> nat option \<Rightarrow> 'w
    \<Rightarrow> ('v, (unit, unit) send_error) result \<times> 'w" where
  "dist_ask_send gp c r h to_bytes from_bytes message timeout w =
    decode_reply from_bytes (dist_ask_raw gp c r h to_bytes message timeout w)"

text \<open>The dynamic reference has no token, and its tell never streams.\<close>

definition dynamic_tell_send ::
  "('g, 'a, 'p, 'kp, 'k, 'w) gossip \<Rightarrow> ('g, 'a, 'p, 'kp, 'k) dynamic_ref \<Rightarrow> type_hash
    \<Rightarrow> ('m \<Rightarrow> (bytes, string) result) \<Rightarrow> 'm \<Rightarrow> nat option \<Rightarrow> 'w
    \<Rightarrow> (unit, (unit, unit) send_error) result \<times> 'w" where
  "dynamic_tell_send gp r h to_bytes message timeout w =
    (case to_bytes message of
       Err _ \<Rightarrow> (Err ActorStopped, w)
     | Ok payload \<Rightarrow>
         (case dy_connection r of
            None \<Rightarrow> (Err MissingConnection, w)
          | Some conn \<Rightarrow> map_prod (map_err tell_error) id
              (cn_tell gp conn (actor_id_into_u64 (dy_actor_id r)) (as_u32 h) payload w)))"

definition dynamic_ask_raw ::
  "('g, 'a, 'p, 'kp, 'k, 'w) gossip \<Rightarrow> ('g, 'a, 'p, 'kp, 'k) dynamic_ref \<Rightarrow> type_hash
    \<Rightarrow> ('m \<Rightarrow> (bytes, string) result) \<Rightarrow> 'm \<Rightarrow> nat option \<Rightarrow> 'w
    \<Rightarrow> (bytes, (unit, unit) send_error) result \<times> 'w" where
  "dynamic_ask_raw gp r h to_bytes message timeout w =
    (case to_bytes message of
       Err _ \<Rightarrow> (Err ActorStopped, w)
     | Ok payload \<Rightarrow>
         (case dy_connection r of
            None \<Rightarrow> (Err MissingConnection, w)
          | Some conn \<Rightarrow>
              if length payload > cn_threshold gp conn
              then map_prod (map_err ask_send_error) id
                (cn_ask_streaming gp conn payload (as_u32 h) (actor_id_into_u64 (dy_actor_id r))
                  (streaming_timeout (length payload) timeout) w)
              else map_prod (map_err ask_send_error) id
                (cn_ask gp conn (actor_id_into_u64 (dy_actor_id r)) (as_u32 h) payload (ask_timeout timeout) w)))"

definition dynamic_ask_send ::
  "('g, 'a, 'p, 'kp, 'k, 'w) gossip \<Rightarrow> ('g, 'a, 'p, 'kp, 'k) dynamic_ref \<Rightarrow> type_hash
    \<Rightarrow> ('m \<Rightarrow> (bytes, string) result) \<Rightarrow> (bytes \<Rightarrow> ('v, string) result) \<Rightarrow> 'm \<Rightarrow> nat option \<Rightarrow> 'w
    \<Rightarrow> ('v, (unit, unit) send_error) result \<times> 'w" where
  "dynamic_ask_send gp r h to_bytes from_bytes message timeout w =
    decode_reply from_bytes (dynamic_ask_raw gp r h to_bytes message timeout w)"

section \<open>Lemmas\<close>

text \<open>The keys a reference is filed under in the handle cache.\<close>

definition location_keys :: "('p, 'x, 'y) metadata_codec \<Rightarrow> 'a remote_location \<Rightarrow> ('a, 'p) cache_key set" where
  "location_keys mc location = keys_of (rm_peer_addr location)
    (case decode_v1 mc (rm_metadata location) of Ok meta \<Rightarrow> Some (lm_peer_id meta) | Err _ \<Rightarrow> None)"

text \<open>A reference as the lookups hand it out.\<close>

definition ref_ok ::
  "('g, 'a, 'p, 'kp, 'k, 'w) gossip \<Rightarrow> string \<Rightarrow> 'w \<Rightarrow> ('a, 'p) handle_cache \<Rightarrow> ('g, 'a, 'p, 'kp, 'k) distributed_ref \<Rightarrow> bool" where
  "ref_ok gp name w c r \<longleftrightarrow> dr_name r = Some name \<and> dr_actor_id r = rm_actor_id (dr_location r) \<and>
    (\<exists>k. dr_connection r = Some k \<and> \<not> cn_is_closed gp k w) \<and> (\<exists>t. dr_alive r = Some t \<and> hc_alive c t)"

lemma dist_connect_Some:
  assumes "dist_connect gp mc tr name l force w c = (Some r, w', c')"
  shows "ref_ok gp name w' c' r" and "dr_location r = l" and "dr_transport r = tr" and "dr_alive r = Some (hc_next c)"
    and "c' = snd (register_handle (rm_peer_addr l)
      (case decode_v1 mc (rm_metadata l) of Ok meta \<Rightarrow> Some (lm_peer_id meta) | Err _ \<Rightarrow> None) c)"
    and "\<exists>k. dr_connection r = Some k \<and> connection_fresh gp mc tr l force w = (Ok k, w')"
proof -
  obtain k where k: "open_connection gp mc tr l force w = (Some k, w')"
    and r: "r = (new_with_connection (rm_actor_id l) l tr k)\<lparr>dr_alive := Some (hc_next c), dr_name := Some name\<rparr>"
    and c': "c' = snd (register_handle (rm_peer_addr l)
      (case decode_v1 mc (rm_metadata l) of Ok meta \<Rightarrow> Some (lm_peer_id meta) | Err _ \<Rightarrow> None) c)"
    using assms
    by (auto simp: dist_connect_def Let_def prod_eq_iff split: prod.splits option.splits dest: arg_cong [where f = fst])
  have fresh: "connection_fresh gp mc tr l force w = (Ok k, w')" "\<not> cn_is_closed gp k w'"
    using k by (auto simp: open_connection_def split: prod.splits result.splits if_splits)
  show "ref_ok gp name w' c' r" "dr_location r = l" "dr_transport r = tr" "dr_alive r = Some (hc_next c)"
    "\<exists>k. dr_connection r = Some k \<and> connection_fresh gp mc tr l force w = (Ok k, w')"
    using fresh unfolding r c' ref_ok_def new_with_connection_def by (simp_all add: register_handle_simps)
  show "c' = snd (register_handle (rm_peer_addr l)
      (case decode_v1 mc (rm_metadata l) of Ok meta \<Rightarrow> Some (lm_peer_id meta) | Err _ \<Rightarrow> None) c)" by (rule c')
qed

lemma dist_lookup_Some:
  assumes "dist_lookup gp mc global name nd c = (Ok (Some r), nd', c')"
  obtains tr nd1 w where "global = Some tr" and "kt_lookup_actor gp mc tr name nd = (Ok (Some (dr_location r)), nd1)"
    and "dist_connect gp mc tr name (dr_location r) False (nd_world nd1) c = (Some r, w, c')"
    and "nd' = nd1\<lparr>nd_world := w\<rparr>"
proof -
  obtain tr l nd1 w where "global = Some tr" "kt_lookup_actor gp mc tr name nd = (Ok (Some l), nd1)"
    "dist_connect gp mc tr name l False (nd_world nd1) c = (Some r, w, c')" "nd' = nd1\<lparr>nd_world := w\<rparr>"
    using assms by (auto simp: dist_lookup_def Let_def split: option.splits prod.splits result.splits)
  then show ?thesis using that dist_connect_Some(2) by metis
qed

lemma dist_refresh_Some:
  assumes "dist_refresh gp mc force self nd c = (Ok (Some r), nd', c')"
  obtains name nd1 w where "dr_name self = Some name"
    and "dist_connect gp mc (dr_transport self) name (dr_location r) force (nd_world nd1) c = (Some r, w, c')"
    and "nd' = nd1\<lparr>nd_world := w\<rparr>"
proof -
  obtain name l nd1 w where "dr_name self = Some name"
    "dist_connect gp mc (dr_transport self) name l force (nd_world nd1) c = (Some r, w, c')" "nd' = nd1\<lparr>nd_world := w\<rparr>"
    using assms by (auto simp: dist_refresh_def Let_def split: option.splits prod.splits result.splits)
  then show ?thesis using that dist_connect_Some(2) by metis
qed

text \<open>A dead reference sends nothing; a live one sends as if it had no token.\<close>

lemma dead_ref_sends_nothing:
  "\<not> ref_alive c r \<Longrightarrow> dist_tell_send gp c r h enc m t w = (Err ConnectionClosed, w) \<and>
    dist_ask_send gp c r h enc dec m t w = (Err ConnectionClosed, w)"
  by (simp add: dist_tell_send_def dist_ask_send_def dist_ask_raw_def decode_reply_def)

lemma live_ref_sends:
  "ref_alive c r \<Longrightarrow> dist_tell_send gp c r h enc m t w = dist_tell_send gp c (r\<lparr>dr_alive := None\<rparr>) h enc m t w \<and>
    dist_ask_send gp c r h enc dec m t w = dist_ask_send gp c (r\<lparr>dr_alive := None\<rparr>) h enc dec m t w"
  by (cases "enc m"; cases "dr_connection r")
    (simp_all add: dist_tell_send_def dist_ask_send_def dist_ask_raw_def ref_alive_def)

lemma connect_alive:
  assumes "dist_connect gp mc tr name l force w (cache_run before handle_cache_new) = (Some r, w', c)"
    and "dr_alive r = Some t" and "Release t \<notin> set after"
  shows "ref_alive (cache_run after c) r \<longleftrightarrow> (\<forall>op \<in> set after. \<not> invalidates (location_keys mc l) op)"
proof -
  let ?c = "cache_run before handle_cache_new"
  let ?p = "case decode_v1 mc (rm_metadata l) of Ok meta \<Rightarrow> Some (lm_peer_id meta) | Err _ \<Rightarrow> None"
  have t: "t = hc_next ?c" and c: "c = snd (register_handle (rm_peer_addr l) ?p ?c)"
    using dist_connect_Some(4,5) [OF assms(1)] assms(2) by simp_all
  have at: "token_at (location_keys mc l) t c"
    unfolding c t location_keys_def by (rule register_token_at [OF cache_run_ok [OF cache_ok_new]])
  have "hc_alive c t" by (simp add: t c register_handle_simps)
  then show ?thesis
    using cache_run_token [OF at assms(3)] by (simp add: ref_alive_def assms(2))
qed


section \<open>Properties\<close>

text \<open>
  C38. A reference found by its name, first or again, carries that name and the identifier of its
  location, an open connection of the last dial, and a live token of its own that no other operation
  has seen; it is looked up where the gossip registry has the actor.
\<close>

theorem found_refs_are_live:
  assumes "dist_lookup gp mc global name nd c = (Ok (Some r), nd1, c1)"
    and "dist_refresh gp mc force r nd2 c2 = (Ok (Some r'), nd3, c3)"
  shows "ref_ok gp name (nd_world nd1) c1 r \<and> ref_ok gp name (nd_world nd3) c3 r' \<and>
    dr_alive r = Some (hc_next c) \<and> dr_alive r' = Some (hc_next c2) \<and> dr_transport r' = dr_transport r \<and>
    global = Some (dr_transport r)"
proof -
  obtain tr nda w where l: "global = Some tr"
    "dist_connect gp mc tr name (dr_location r) False (nd_world nda) c = (Some r, w, c1)" "nd1 = nda\<lparr>nd_world := w\<rparr>"
    using dist_lookup_Some [OF assms(1)] by blast
  have r: "ref_ok gp name w c1 r" "dr_transport r = tr" "dr_alive r = Some (hc_next c)"
    using dist_connect_Some [OF l(2)] by blast+
  obtain name' ndb w' where f: "dr_name r = Some name'"
    "dist_connect gp mc (dr_transport r) name' (dr_location r') force (nd_world ndb) c2 = (Some r', w', c3)"
    "nd3 = ndb\<lparr>nd_world := w'\<rparr>"
    using dist_refresh_Some [OF assms(2)] by blast
  have "name' = name" using r(1) f(1) by (simp add: ref_ok_def)
  then have r': "ref_ok gp name w' c3 r'" "dr_transport r' = dr_transport r" "dr_alive r' = Some (hc_next c2)"
    using dist_connect_Some [OF f(2)] by blast+
  show ?thesis unfolding l(3) f(3) using r r' l(1) by simp
qed

text \<open>
  C22. From the moment a disconnect of its peer, under its address or its identifier, is recorded, a
  reference obtained by lookup answers every tell and ask with \<open>ConnectionClosed\<close> at once and sends
  nothing; until then the token has no effect on what it sends.
\<close>

theorem dead_refs_fail_fast:
  assumes "dist_lookup gp mc global name nd (cache_run before handle_cache_new) = (Ok (Some r), nd', c)"
    and "dr_alive r = Some t" and "Release t \<notin> set after"
  shows "if \<exists>op \<in> set after. invalidates (location_keys mc (dr_location r)) op
    then dist_tell_send gp (cache_run after c) r h enc m to w = (Err ConnectionClosed, w) \<and>
      dist_ask_send gp (cache_run after c) r h enc dec m to w = (Err ConnectionClosed, w)
    else dist_tell_send gp (cache_run after c) r h enc m to w =
        dist_tell_send gp (cache_run after c) (r\<lparr>dr_alive := None\<rparr>) h enc m to w \<and>
      dist_ask_send gp (cache_run after c) r h enc dec m to w =
        dist_ask_send gp (cache_run after c) (r\<lparr>dr_alive := None\<rparr>) h enc dec m to w"
proof -
  obtain tr nd1 w1 where "global = Some tr" and "kt_lookup_actor gp mc tr name nd = (Ok (Some (dr_location r)), nd1)"
    and con: "dist_connect gp mc tr name (dr_location r) False (nd_world nd1) (cache_run before handle_cache_new) = (Some r, w1, c)"
    and "nd' = nd1\<lparr>nd_world := w1\<rparr>"
    by (rule dist_lookup_Some [OF assms(1)])
  have alive: "ref_alive (cache_run after c) r \<longleftrightarrow>
      (\<forall>op \<in> set after. \<not> invalidates (location_keys mc (dr_location r)) op)"
    using con assms(2,3) by (rule connect_alive)
  show ?thesis
  proof (cases "ref_alive (cache_run after c) r")
    case True
    then have no: "\<not> (\<exists>op \<in> set after. invalidates (location_keys mc (dr_location r)) op)" unfolding alive by blast
    show ?thesis unfolding if_not_P [OF no] using True by (rule live_ref_sends)
  next
    case False
    then have ex: "\<exists>op \<in> set after. invalidates (location_keys mc (dr_location r)) op" unfolding alive by blast
    show ?thesis unfolding if_P [OF ex] using False by (rule dead_ref_sends_nothing)
  qed
qed

text \<open>
  What the program relies on of a connection \<open>k\<close> whose peer's bridge is \<open>handle\<close>, and whose peer's
  mailbox the world holds: a frame that was sent reaches the bridge, and a reply that comes back is
  the one the bridge gave to this frame.
\<close>

definition frames_delivered ::
  "('g, 'a, 'p, 'kp, 'k, 'w) gossip \<Rightarrow> 'k
    \<Rightarrow> (u64 \<Rightarrow> u32 \<Rightarrow> bytes \<Rightarrow> u16 option \<Rightarrow> 's \<Rightarrow> ((bytes option, string) result outcome \<times> 's) option) \<Rightarrow> ('w \<Rightarrow> 's) \<Rightarrow> bool" where
  "frames_delivered gp k handle peer \<longleftrightarrow>
    (\<forall>i h b w w'. (cn_tell gp k i h b w = (Ok (), w') \<or> cn_stream_large gp k b h i w = (Ok (), w')) \<longrightarrow>
      (\<exists>res. handle i h b None (peer w) = Some (res, peer w'))) \<and>
    (\<forall>i h b t w w' reply. (cn_ask gp k i h b t w = (Ok reply, w') \<or> cn_ask_streaming gp k b h i t w = (Ok reply, w')) \<longrightarrow>
      (\<exists>cn. handle i h b (Some cn) (peer w) = Some (Done (Ok (Some reply)), peer w')))"

lemma map_err_pair_Ok [simp]: "map_prod (map_err f) id x = (Ok a, w) \<longleftrightarrow> x = (Ok a, w)"
  by (cases x) auto

lemma dist_tell_Ok:
  assumes "dist_tell_send gp c r h enc m t w = (Ok (), w')" and "dr_connection r = Some k"
  obtains b where "enc m = Ok b" and "ref_alive c r"
    and "cn_tell gp k (actor_id_into_u64 (dr_actor_id r)) (as_u32 h) b w = (Ok (), w') \<or>
      cn_stream_large gp k b (as_u32 h) (actor_id_into_u64 (dr_actor_id r)) w = (Ok (), w')"
  using assms that by (auto simp: dist_tell_send_def split: if_splits result.splits)

lemma dist_ask_Ok:
  assumes "dist_ask_send gp c r h enc dec m t w = (Ok v, w')" and "dr_connection r = Some k"
  obtains b reply timeout where "enc m = Ok b" and "ref_alive c r" and "dec reply = Ok v"
    and "cn_ask gp k (actor_id_into_u64 (dr_actor_id r)) (as_u32 h) b timeout w = (Ok reply, w') \<or>
      cn_ask_streaming gp k b (as_u32 h) (actor_id_into_u64 (dr_actor_id r)) timeout w = (Ok reply, w')"
proof -
  obtain reply where reply: "dist_ask_raw gp c r h enc m t w = (Ok reply, w')" "dec reply = Ok v"
    using assms(1) by (auto simp: dist_ask_send_def decode_reply_def split: prod.splits result.splits)
  show ?thesis
    using reply(1) assms(2) by (auto simp: dist_ask_raw_def split: if_splits result.splits intro: that reply(2))
qed

lemma remote_tell_result_done:
  "map_option (map_prod f id) x = Some (y, st) \<Longrightarrow> \<exists>res. x = Some (res, st)"
  by (cases x) auto

lemma remote_ask_result_Ok:
  "remote_ask_result da quote m r = Ok (Some b) \<Longrightarrow> \<exists>v. r = Ok v \<and> rm_encode_reply m v = Some b"
  by (cases r) (auto simp: remote_ask_result_def split: option.splits)

lemma remote_ask_done:
  assumes "map_option (map_prod (map_outcome (remote_ask_result da quote m)) id) x = Some (Done (Ok (Some b)), st)"
  shows "\<exists>v. x = Some (Done (Ok v), st) \<and> rm_encode_reply m v = Some b"
proof -
  obtain res where "x = Some (Done res, st)" "remote_ask_result da quote m res = Ok (Some b)"
    using assms by (cases x) (auto elim: map_outcome.elims)
  then show ?thesis using remote_ask_result_Ok [of da quote m res b] by blast
qed

lemma delivered_tell:
  assumes "frames_delivered gp k handle peer"
    and "cn_tell gp k i h b w = (Ok (), w') \<or> cn_stream_large gp k b h i w = (Ok (), w')"
  shows "\<exists>res. handle i h b None (peer w) = Some (res, peer w')"
  using assms unfolding frames_delivered_def by blast

lemma delivered_ask:
  assumes "frames_delivered gp k handle peer"
    and "cn_ask gp k i h b t w = (Ok reply, w') \<or> cn_ask_streaming gp k b h i t w = (Ok reply, w')"
  shows "\<exists>cn. handle i h b (Some cn) (peer w) = Some (Done (Ok (Some reply)), peer w')"
  using assms unfolding frames_delivered_def by blast

text \<open>
  C9. What a node asks of an actor on another node is what the actor is asked there: a remote ask
  that returns a value returns the one a local ask of the same message returns, with the same effect
  on the actor's mailbox, and a remote tell that succeeds has had the effect of a local tell, which
  may itself have failed.
\<close>

theorem remote_requests_are_local:
  fixes ops :: "('h, 'kk, 'r, 'v signal, 'c) mpsc_send"
  assumes "register_list_handlers True ops os metrics current ar ms regs = Done (handlers, types)"
    and "m \<in> set ms" and "distinct (map msg_key ms)"
    and "\<And>b. enc msg = Ok b \<Longrightarrow> rm_decode m b = Some msg"
    and "\<And>v b. rm_encode_reply m v = Some b \<Longrightarrow> dec b = Ok v"
    and "frames_delivered gp k (handle_actor_message dt da quote handlers) peer"
    and "dr_connection r = Some k" and "dr_actor_id r = ar_id ar"
  shows "(dist_tell_send gp c r (rm_hash m) enc msg t w = (Ok (), w') \<longrightarrow>
      (\<exists>res. (tell_send ops metrics current ar (rm_type m) msg (Some (from_secs 30)) (peer w)
        :: ((unit, ('v, 'v) send_error) result outcome \<times> 'c mailbox_state) option) = Some (res, peer w'))) \<and>
    (dist_ask_send gp c r (rm_hash m) enc dec msg t w = (Ok v, w') \<longrightarrow>
      ask_send ops os metrics (rm_reply m) current ar (rm_type m) msg (Some (from_secs 30)) (Some (from_secs 30)) (peer w) =
        Some (Done (Ok v), peer w'))"
proof (intro conjI impI)
  let ?i = "actor_id_into_u64 (ar_id ar)"
  let ?tell = "tell_send ops metrics current ar (rm_type m) msg (Some (from_secs 30)) (peer w)
    :: ((unit, ('v, 'v) send_error) result outcome \<times> 'c mailbox_state) option"
  let ?ask = "ask_send ops os metrics (rm_reply m) current ar (rm_type m) msg (Some (from_secs 30)) (Some (from_secs 30)) (peer w)"
  have key: "as_u32 (rm_hash m) = msg_key m" by (simp add: msg_key_def)
  { assume sent: "dist_tell_send gp c r (rm_hash m) enc msg t w = (Ok (), w')"
    obtain b where b: "enc msg = Ok b" and "ref_alive c r"
      and frame: "cn_tell gp k (actor_id_into_u64 (dr_actor_id r)) (as_u32 (rm_hash m)) b w = (Ok (), w') \<or>
        cn_stream_large gp k b (as_u32 (rm_hash m)) (actor_id_into_u64 (dr_actor_id r)) w = (Ok (), w')"
      by (rule dist_tell_Ok [OF sent assms(7)])
    obtain res where "handle_actor_message dt da quote handlers ?i (msg_key m) b None (peer w) = Some (res, peer w')"
      using delivered_tell [OF assms(6) frame] unfolding assms(8) key by (elim exE)
    then have "map_option (map_prod (map_outcome (remote_tell_result dt quote)) id) ?tell = Some (res, peer w')"
      unfolding remote_tell_local(1) [OF assms(1-3) assms(4) [OF b]] .
    then show "\<exists>res. ?tell = Some (res, peer w')" by (rule remote_tell_result_done) }
  { assume sent: "dist_ask_send gp c r (rm_hash m) enc dec msg t w = (Ok v, w')"
    obtain b reply timeout where b: "enc msg = Ok b" and "ref_alive c r" and reply: "dec reply = Ok v"
      and frame: "cn_ask gp k (actor_id_into_u64 (dr_actor_id r)) (as_u32 (rm_hash m)) b timeout w = (Ok reply, w') \<or>
        cn_ask_streaming gp k b (as_u32 (rm_hash m)) (actor_id_into_u64 (dr_actor_id r)) timeout w = (Ok reply, w')"
      by (rule dist_ask_Ok [OF sent assms(7)])
    obtain cn where "handle_actor_message dt da quote handlers ?i (msg_key m) b (Some cn) (peer w) =
        Some (Done (Ok (Some reply)), peer w')"
      using delivered_ask [OF assms(6) frame] unfolding assms(8) key by (elim exE)
    then have "map_option (map_prod (map_outcome (remote_ask_result da quote m)) id) ?ask = Some (Done (Ok (Some reply)), peer w')"
      unfolding remote_tell_local(2) [OF assms(1-3) assms(4) [OF b]] .
    then obtain v' where v': "?ask = Some (Done (Ok v'), peer w') \<and> rm_encode_reply m v' = Some reply"
      by (rule exE [OF remote_ask_done])
    have "v' = v" using assms(5) [OF conjunct2 [OF v']] reply by simp
    then show "?ask = Some (Done (Ok v), peer w')" using conjunct1 [OF v'] by (rule subst) }
qed

text \<open>
  The dynamic reference asks exactly as the typed one whose token is live, and tells as it does
  up to the streaming threshold; above it the typed one streams the payload, and the dynamic one
  still sends it as a single frame.
\<close>

theorem dynamic_refs_agree:
  assumes "ref_alive c r" and "dy_actor_id d = dr_actor_id r" and "dy_connection d = dr_connection r"
  shows "dynamic_ask_send gp d h enc dec m t w = dist_ask_send gp c r h enc dec m t w \<and>
    (\<forall>k b. dr_connection r = Some k \<and> enc m = Ok b \<and> length b > cn_threshold gp k \<longrightarrow>
      dynamic_tell_send gp d h enc m t w = map_prod (map_err tell_error) id
        (cn_tell gp k (actor_id_into_u64 (dr_actor_id r)) (as_u32 h) b w) \<and>
      dist_tell_send gp c r h enc m t w = map_prod (map_err tell_error) id
        (cn_stream_large gp k b (as_u32 h) (actor_id_into_u64 (dr_actor_id r)) w)) \<and>
    ((\<forall>k b. dr_connection r = Some k \<longrightarrow> enc m = Ok b \<longrightarrow> length b \<le> cn_threshold gp k) \<longrightarrow>
      dynamic_tell_send gp d h enc m t w = dist_tell_send gp c r h enc m t w)"
  using assms
  by (cases "enc m"; cases "dr_connection r")
    (simp_all add: dynamic_ask_send_def dynamic_ask_raw_def dynamic_tell_send_def dist_ask_send_def dist_ask_raw_def
      dist_tell_send_def)

section \<open>Instances\<close>

text \<open>The node of \<open>Transport\<close>'s instance once actor 3 is registered as \<open>n\<close>, and what is found there.\<close>

definition demo_metadata :: bytes where
  "demo_metadata = 9 # to_le_bytes (3 :: u64)"

definition demo_world :: demo_names where
  "demo_world = hm_insert ''n'' ((gp_location demo_gossip 7 9 demo_metadata)\<lparr>gl_priority := ImmediatePriority\<rparr>) []"

definition demo_location :: "nat remote_location" where
  "demo_location = \<lparr>rm_peer_addr = 7, rm_actor_id = ActorId 3, rm_metadata = demo_metadata\<rparr>"

definition demo_dist_ref :: "nat \<Rightarrow> (unit, nat, u8, unit, nat) distributed_ref" where
  "demo_dist_ref t = \<lparr>dr_actor_id = ActorId 3, dr_location = demo_location, dr_name = Some ''n'',
     dr_transport = demo_transport, dr_connection = Some 1, dr_alive = Some t\<rparr>"

definition demo_registered_node :: "(nat, u8, nat, unit, demo_names) node" where
  "demo_registered_node = demo_node\<lparr>nd_world := demo_world\<rparr>"

lemma demo_decode: "decode_v1 demo_codec demo_metadata = Ok \<lparr>lm_actor_id = ActorId 3, lm_peer_id = 9\<rparr>"
  by (rule decode_v1_encode [OF demo_codec_roundtrip]) (simp add: demo_encode demo_metadata_def)

lemma demo_lookup:
  "kt_lookup_actor demo_gossip demo_codec demo_transport ''n'' demo_registered_node = (Ok (Some demo_location), demo_registered_node)"
proof -
  have gl: "fst (gp_lookup demo_gossip () ''n'' (nd_world demo_registered_node)) =
      Some ((gp_location demo_gossip 7 9 demo_metadata)\<lparr>gl_priority := ImmediatePriority\<rparr>)"
    by (simp add: demo_registered_node_def demo_world_def) (simp add: demo_gossip_def)
  have "fst (kt_lookup_actor demo_gossip demo_codec demo_transport ''n'' demo_registered_node) = Ok (Some demo_location)"
    unfolding demo_location_def
    by (rule lookup_location [OF demo_codec_roundtrip demo_gossip_contracts(1) demo_handle _ _ gl])
      (simp_all add: demo_encode demo_metadata_def)
  moreover have "gp_lookup demo_gossip g n w = (hm_get w n, w)" for g n w by (simp add: demo_gossip_def)
  then have "snd (kt_lookup_actor demo_gossip demo_codec demo_transport ''n'' demo_registered_node) = demo_registered_node"
    by (simp add: kt_lookup_actor_def kt_get_handle_def demo_handle on_world_def Let_def split: option.split)
  ultimately show ?thesis by (simp add: prod_eq_iff)
qed

lemma demo_fresh: "connection_fresh demo_gossip demo_codec demo_transport demo_location force w = (Ok 1, w)"
proof -
  have calls: "gp_lookup_peer demo_gossip g p w = (Ok (Some 1), w)" "gp_configure_peer demo_gossip g p a w = w"
    "gp_disconnect_peer demo_gossip g p w = w" "cn_is_closed demo_gossip k w = (k = 0)" for g p a w k
    by (simp_all add: demo_gossip_def)
  show ?thesis
    by (simp add: connection_fresh_def connection_for_location_def force_drop_for_location_def demo_location_def demo_decode
        kt_get_handle_def demo_handle Let_def calls connection_of_def)
qed

lemma demo_connect:
  "dist_connect demo_gossip demo_codec demo_transport ''n'' demo_location force w c =
    (Some (demo_dist_ref (hc_next c)), w, snd (register_handle 7 (Some 9) c))"
proof -
  have "cn_is_closed demo_gossip 1 w = False" by (simp add: demo_gossip_def)
  then have opened: "open_connection demo_gossip demo_codec demo_transport demo_location force w = (Some 1, w)"
    by (simp add: open_connection_def demo_fresh)
  have loc: "rm_peer_addr demo_location = 7" "rm_actor_id demo_location = ActorId 3" "rm_metadata demo_location = demo_metadata"
    by (simp_all add: demo_location_def)
  show ?thesis
    by (simp add: dist_connect_def opened loc demo_decode Let_def demo_dist_ref_def new_with_connection_def prod_eq_iff
        case_prod_beta)
qed

lemma demo_found:
  "dist_lookup demo_gossip demo_codec (Some demo_transport) ''n'' demo_registered_node c =
    (Ok (Some (demo_dist_ref (hc_next c))), demo_registered_node, snd (register_handle 7 (Some 9) c))"
  by (simp add: dist_lookup_def demo_lookup demo_connect)

lemma hc_next_new: "hc_next handle_cache_new = 0"
  by (simp add: handle_cache_new_def)

theorem found_refs_are_live_witness:
  "ref_ok demo_gossip ''n'' demo_world (snd (register_handle 7 (Some 9) handle_cache_new)) (demo_dist_ref 0)"
proof -
  have again: "dist_refresh demo_gossip demo_codec True (demo_dist_ref (hc_next c)) demo_registered_node c =
      (Ok (Some (demo_dist_ref (hc_next c))), demo_registered_node, snd (register_handle 7 (Some 9) c))"
    for c :: "(nat, u8) handle_cache"
  proof -
    have "dr_name (demo_dist_ref i) = Some ''n''" "dr_transport (demo_dist_ref i) = demo_transport" for i
      by (simp_all add: demo_dist_ref_def)
    then show ?thesis by (simp add: dist_refresh_def demo_lookup demo_connect)
  qed
  have "nd_world demo_registered_node = demo_world" by (simp add: demo_registered_node_def)
  then show ?thesis
    using found_refs_are_live [OF demo_found again, of handle_cache_new] by (simp add: hc_next_new)
qed

theorem dead_refs_fail_fast_witness:
  "dist_tell_send demo_gossip (cache_run [Register 5 None, Invalidate 6 (Some 9)]
      (snd (register_handle 7 (Some 9) handle_cache_new))) (demo_dist_ref 0) (TypeHash 7) Ok [1, 2] None [] = (Err ConnectionClosed, []) \<and>
    dist_tell_send demo_gossip (cache_run [Invalidate 6 None] (snd (register_handle 7 (Some 9) handle_cache_new)))
      (demo_dist_ref 0) (TypeHash 7) Ok [1, 2] None [] = (Ok (), [])"
proof -
  have found: "dist_lookup demo_gossip demo_codec (Some demo_transport) ''n'' demo_registered_node (cache_run [] handle_cache_new) =
      (Ok (Some (demo_dist_ref 0)), demo_registered_node, snd (register_handle 7 (Some 9) handle_cache_new))"
    using demo_found [of handle_cache_new] by (simp add: cache_run_def handle_cache_new_def)
  have token: "dr_alive (demo_dist_ref 0) = Some 0" by (simp add: demo_dist_ref_def)
  have keys: "location_keys demo_codec (dr_location (demo_dist_ref 0)) = keys_of 7 (Some 9)"
    by (simp add: location_keys_def demo_dist_ref_def demo_location_def demo_decode)
  have sent: "dist_tell_send demo_gossip c ((demo_dist_ref 0)\<lparr>dr_alive := None\<rparr>) (TypeHash 7) Ok [1, 2] None [] = (Ok (), [])" for c
    by (simp add: dist_tell_send_def ref_alive_def demo_dist_ref_def) (simp add: demo_gossip_def)
  note exact = dead_refs_fail_fast [OF found token, where h = "TypeHash 7" and enc = Ok and m = "[1, 2]"
      and to = None and w = "[]" and dec = Ok, unfolded keys sent]
  show ?thesis
    using exact [of "[Register 5 None, Invalidate 6 (Some 9)]"] exact [of "[Invalidate 6 None]"]
    by (simp add: keys_of_def)
qed

text \<open>
  A network of one peer, actor 3 with its handlers, whose mailbox is the world: a frame runs the
  peer's bridge, and a reply is six.
\<close>

definition answer_six :: "(nat, nat signal list) oneshot_ops" where
  "answer_six = no_oneshot\<lparr>os_recv_timeout := (\<lambda>_ _ c. (Ok (Ok (Ok (Any TyUnit 6))), c))\<rparr>"

definition peer_msg :: "nat remote_msg" where
  "peer_msg = demo_remote_msg\<lparr>rm_encode_reply := (\<lambda>v. if v < 256 then Some [of_nat v] else None)\<rparr>"

definition decode_byte :: "bytes \<Rightarrow> (nat, string) result" where
  "decode_byte b = (case b of [x] \<Rightarrow> Ok (unat x) | _ \<Rightarrow> Err ''bad'')"

definition peer_handlers :: "nat signal list handler_registry" where
  "peer_handlers = fst (register_listed demo_ops answer_six False None (demo_ref 3) [peer_msg] ([], []))"

definition peer_bridge ::
  "u64 \<Rightarrow> u32 \<Rightarrow> bytes \<Rightarrow> u16 option \<Rightarrow> nat signal list mailbox_state
    \<Rightarrow> ((bytes option, string) result outcome \<times> nat signal list mailbox_state) option" where
  "peer_bridge = handle_actor_message (\<lambda>_. ''x'') (\<lambda>_. ''x'') id peer_handlers"

definition carry_tell :: "u64 \<Rightarrow> u32 \<Rightarrow> bytes \<Rightarrow> nat signal list mailbox_state \<Rightarrow> (unit, gossip_error) result \<times> nat signal list mailbox_state" where
  "carry_tell i h b w = (case peer_bridge i h b None w of Some (_, w') \<Rightarrow> (Ok (), w') | None \<Rightarrow> (Err GossipTimeout, w))"

definition carry_ask :: "u64 \<Rightarrow> u32 \<Rightarrow> bytes \<Rightarrow> nat signal list mailbox_state \<Rightarrow> (bytes, gossip_error) result \<times> nat signal list mailbox_state" where
  "carry_ask i h b w =
    (case peer_bridge i h b (Some 1) w of
       Some (Done (Ok (Some reply)), w') \<Rightarrow> (Ok reply, w')
     | _ \<Rightarrow> (Err GossipTimeout, w))"

definition demo_network :: "(unit, nat, u8, unit, nat, nat signal list mailbox_state) gossip" where
  "demo_network =
    \<lparr>gp_new_with_tls = (\<lambda>a kp c w. (Ok (), w)), gp_bind_addr = (\<lambda>_. 7), gp_peer_id = (\<lambda>_. 9),
     gp_location = (\<lambda>a p md. \<lparr>gl_address = [], gl_peer_id = p, gl_metadata = md, gl_priority = NormalPriority\<rparr>),
     gp_register = (\<lambda>g n l pr w. (Ok (), w)), gp_register_sync = (\<lambda>g n l t w. (Ok (), w)),
     gp_unregister = (\<lambda>g n w. (Ok (), w)), gp_lookup = (\<lambda>g n w. (None, w)),
     gp_lookup_address = (\<lambda>g a w. (Ok (Some 1), w)), gp_lookup_peer = (\<lambda>g p w. (Ok (Some 1), w)),
     gp_configure_peer = (\<lambda>g p a w. w), gp_disconnect_peer = (\<lambda>g p w. w),
     gp_connection_failure = (\<lambda>g a w. (Ok (), w)), gp_connect = (\<lambda>g p a w. (Ok (), w)),
     gp_connected_peers = (\<lambda>g w. [5]), gp_peer_id_by_addr = (\<lambda>g a w. Some 9),
     gp_parse_addr = (\<lambda>s. Some (length s)), gp_unspecified_addr = 0,
     cn_is_closed = (\<lambda>k w. False), cn_threshold = (\<lambda>k. 3), cn_tell = (\<lambda>k i h b w. carry_tell i h b w),
     cn_ask = (\<lambda>k i h b t w. carry_ask i h b w), cn_ask_streaming = (\<lambda>k b h i t w. carry_ask i h b w),
     cn_stream_large = (\<lambda>k b h i w. carry_tell i h b w)\<rparr>"

lemma demo_network_delivers:
  "frames_delivered demo_network k (handle_actor_message (\<lambda>_. ''x'') (\<lambda>_. ''x'') id peer_handlers) (\<lambda>w. w)"
proof -
  have tell: "carry_tell i h b w = (Ok (), w') \<Longrightarrow> \<exists>res. peer_bridge i h b None w = Some (res, w')" for i h b w w'
    by (auto simp: carry_tell_def split: option.splits)
  have ask: "carry_ask i h b w = (Ok reply, w') \<Longrightarrow> peer_bridge i h b (Some 1) w = Some (Done (Ok (Some reply)), w')"
    for i h b w w' reply
    by (auto simp: carry_ask_def split: option.splits outcome.splits result.splits)
  have calls: "cn_tell demo_network k i h b w = carry_tell i h b w" "cn_stream_large demo_network k b h i w = carry_tell i h b w"
    "cn_ask demo_network k i h b t w = carry_ask i h b w" "cn_ask_streaming demo_network k b h i t w = carry_ask i h b w"
    for k i h b t w
    by (simp_all add: demo_network_def)
  show ?thesis
    unfolding frames_delivered_def calls peer_bridge_def [symmetric] using tell ask by blast
qed

lemma peer_registered:
  "register_list_handlers True demo_ops answer_six False None (demo_ref 3) [peer_msg] ([], []) =
    Done (peer_handlers, snd (register_listed demo_ops answer_six False None (demo_ref 3) [peer_msg] ([], [])))"
  by (simp add: register_list_handlers_def peer_handlers_def)

definition asked_mailbox :: "nat signal list mailbox_state" where
  "asked_mailbox = empty_mailbox\<lparr>mb_chan := [MessageSignal (Any (TyNamed 0) 5) (ActorId 3) (Some 0) False]\<rparr>"

lemma peer_answers:
  "ask_send demo_ops answer_six False (rm_reply peer_msg) None (demo_ref 3) (rm_type peer_msg) 5
     (Some (from_secs 30)) (Some (from_secs 30)) empty_mailbox = Some (Done (Ok 6), asked_mailbox)"
  by (simp add: ask_send_def put_def mailbox_send_timeout_def demo_ref_def demo_ops_def queue_send_def Let_def asked_mailbox_def
      after_send_def request_signal_def is_current_def peer_msg_def demo_remote_msg_def empty_mailbox_def oneshot_channel_def answer_six_def
      no_oneshot_def await_reply_def received_def open_reply_def default_downcast_def )

lemma peer_codec:
  "\<And>b. (\<lambda>_. Ok [5]) (5 :: nat) = (Ok b :: (bytes, string) result) \<Longrightarrow> rm_decode peer_msg b = Some 5"
  "\<And>v b. rm_encode_reply peer_msg v = Some b \<Longrightarrow> decode_byte b = Ok v"
  by (auto simp: peer_msg_def demo_remote_msg_def decode_byte_def unat_of_nat split: if_splits)

lemma peer_key: "msg_key peer_msg = 7" "distinct (map msg_key [peer_msg])" "peer_msg \<in> set [peer_msg]"
  by (simp_all add: msg_key_def peer_msg_def demo_remote_msg_def as_u32_def)

definition plain_ref :: "(unit, nat, u8, unit, nat) distributed_ref" where
  "plain_ref = (demo_dist_ref 0)\<lparr>dr_alive := None\<rparr>"

lemma plain_ref_simps:
  "dr_connection plain_ref = Some 1" "dr_actor_id plain_ref = ar_id (demo_ref 3)" "ref_alive c plain_ref"
  by (simp_all add: plain_ref_def demo_dist_ref_def demo_ref_def ref_alive_def)

lemma peer_bridge_answers: "peer_bridge 3 7 [5] (Some 1) empty_mailbox = Some (Done (Ok (Some [6])), asked_mailbox)"
proof -
  have i: "actor_id_into_u64 (ar_id (demo_ref 3)) = 3" by (simp add: demo_ref_def actor_id_into_u64_def)
  have "rm_encode_reply peer_msg 6 = Some [6]" by (simp add: peer_msg_def)
  then show ?thesis
    using remote_tell_local(2) [OF peer_registered peer_key(3,2) peer_codec(1) [OF refl],
        of "\<lambda>_. ''x''" "\<lambda>_. ''x''" id 1 empty_mailbox]
    unfolding i peer_key(1) peer_answers peer_bridge_def by (simp add: remote_ask_result_def)
qed

lemma remote_ask_answers:
  "dist_ask_send demo_network handle_cache_new plain_ref (rm_hash peer_msg) (\<lambda>_. Ok [5]) decode_byte (5 :: nat) None empty_mailbox =
    (Ok 6, asked_mailbox)"
proof -
  have net: "cn_threshold demo_network k = 3" "cn_ask demo_network k i h b t w = carry_ask i h b w" for k i h b t w
    by (simp_all add: demo_network_def)
  have ids: "actor_id_into_u64 (dr_actor_id plain_ref) = 3" "as_u32 (rm_hash peer_msg) = 7"
    using peer_key(1) by (simp_all add: plain_ref_simps demo_ref_def actor_id_into_u64_def msg_key_def)
  have "carry_ask 3 7 [5] empty_mailbox = (Ok [6], asked_mailbox)"
    by (simp add: carry_ask_def peer_bridge_answers)
  then show ?thesis
    by (simp add: dist_ask_send_def dist_ask_raw_def plain_ref_simps(1,3) ids net decode_reply_def decode_byte_def)
qed

theorem remote_requests_are_local_witness:
  "dist_ask_send demo_network handle_cache_new plain_ref (rm_hash peer_msg) (\<lambda>_. Ok [5]) decode_byte (5 :: nat) None empty_mailbox =
    (Ok 6, asked_mailbox) \<and>
   ask_send demo_ops answer_six False (rm_reply peer_msg) None (demo_ref 3) (rm_type peer_msg) 5
     (Some (from_secs 30)) (Some (from_secs 30)) empty_mailbox = Some (Done (Ok 6), asked_mailbox)"
proof -
  have "(dist_tell_send demo_network handle_cache_new plain_ref (rm_hash peer_msg) (\<lambda>_. Ok [5]) (5 :: nat) None empty_mailbox =
        (Ok (), asked_mailbox) \<longrightarrow>
      (\<exists>res. (tell_send demo_ops False None (demo_ref 3) (rm_type peer_msg) 5 (Some (from_secs 30)) empty_mailbox
        :: ((unit, (nat, nat) send_error) result outcome \<times> nat signal list mailbox_state) option) = Some (res, asked_mailbox))) \<and>
    (dist_ask_send demo_network handle_cache_new plain_ref (rm_hash peer_msg) (\<lambda>_. Ok [5]) decode_byte (5 :: nat) None empty_mailbox =
        (Ok 6, asked_mailbox) \<longrightarrow>
      ask_send demo_ops answer_six False (rm_reply peer_msg) None (demo_ref 3) (rm_type peer_msg) 5
        (Some (from_secs 30)) (Some (from_secs 30)) empty_mailbox = Some (Done (Ok 6), asked_mailbox))"
    by (rule remote_requests_are_local [OF peer_registered peer_key(3,2) _ _ demo_network_delivers plain_ref_simps(1,2)])
      (rule peer_codec, assumption)+
  then show ?thesis using remote_ask_answers by simp
qed

theorem dynamic_refs_agree_witness:
  "dynamic_tell_send demo_network
      \<lparr>dy_actor_id = ActorId 3, dy_location = demo_location, dy_name = None, dy_transport = demo_transport, dy_connection = Some 1\<rparr>
      (TypeHash 7) Ok [5, 5, 5, 5] None empty_mailbox =
    map_prod (map_err tell_error) id (carry_tell 3 7 [5, 5, 5, 5] empty_mailbox)"
proof -
  have net: "cn_threshold demo_network k = 3" "cn_tell demo_network k i h b w = carry_tell i h b w" for k i h b w
    by (simp_all add: demo_network_def)
  have ids: "actor_id_into_u64 (ActorId 3) = 3" "as_u32 (TypeHash 7) = 7" by (simp_all add: actor_id_into_u64_def as_u32_def)
  show ?thesis
    using dynamic_refs_agree [of handle_cache_new "demo_dist_ref 0\<lparr>dr_alive := None\<rparr>"
        "\<lparr>dy_actor_id = ActorId 3, dy_location = demo_location, dy_name = None, dy_transport = demo_transport, dy_connection = Some 1\<rparr>"
        demo_network "TypeHash 7" Ok Ok "[5, 5, 5, 5]" None empty_mailbox]
    by (simp add: ref_alive_def demo_dist_ref_def net ids)
qed

end
