(* ===== verification/V2_Bootstrap.thy ===== *)
theory V2_Bootstrap
  imports Distributed_Ref
begin

text \<open>
  Starting a node (\<open>src/remote/v2_bootstrap.rs\<close>, \<open>src/remote.rs\<close>) and what it does when a peer
  comes or goes: the handlers it sets in the gossip registry, the global transport, and the order in
  which a lost peer's references die and its links are told. The bridge for messages is in
  \<open>Remote_Handlers\<close>.
\<close>

section \<open>Peers that come and go\<close>

text \<open>
  The disconnect handler. The mailboxes act on a state whose first part is the handle cache, so that
  what an actor sees of it when it is told is a part of the model.
\<close>

definition resolve_peer_id ::
  "('g, 'a, 'p, 'kp, 'k, 'w) gossip \<Rightarrow> 'g \<Rightarrow> 'w \<Rightarrow> 'a \<Rightarrow> 'p option \<Rightarrow> 'p option" where
  "resolve_peer_id gp g w peer_addr peer_id =
    (case peer_id of Some p \<Rightarrow> Some p | None \<Rightarrow> gp_peer_id_by_addr gp g peer_addr w)"

definition handle_peer_disconnect ::
  "('g, 'a, 'p, 'kp, 'k, 'w) gossip \<Rightarrow> 'g \<Rightarrow> 'w \<Rightarrow> ('h, 'v, ('a, 'p) handle_cache \<times> 'c) signal_mailbox
    \<Rightarrow> 'a \<Rightarrow> 'p option \<Rightarrow> ('a, 'p, 'h) remote_links \<Rightarrow> ('a, 'p) handle_cache \<times> 'c
    \<Rightarrow> ('a, 'p, 'h) remote_links \<times> (('a, 'p) handle_cache \<times> 'c) option" where
  "handle_peer_disconnect gp g w sm peer_addr peer_id links s =
    (let resolved = resolve_peer_id gp g w peer_addr peer_id;
         s = apfst (invalidate_handles peer_addr resolved) s
     in case resolved of
          Some p \<Rightarrow> notify_peer_disconnected_by_id sm p links s
        | None \<Rightarrow> notify_peer_disconnected_by_addr sm peer_addr links s)"

definition handle_peer_connect ::
  "('p \<Rightarrow> bytes) \<Rightarrow> 'a \<Rightarrow> 'p option \<Rightarrow> ('a, 'p, 'h) remote_links \<Rightarrow> ('a, 'p, 'h) remote_links outcome" where
  "handle_peer_connect to_bytes peer_addr peer_id links =
    (case peer_id of Some p \<Rightarrow> auto_link_peer to_bytes peer_addr p links | None \<Rightarrow> Done links)"


section \<open>Bootstrapping\<close>

text \<open>Which handlers a gossip registry has been given.\<close>

record peer_hooks =
  hk_message :: bool
  hk_disconnect :: bool
  hk_connect :: bool

definition no_hooks :: peer_hooks where
  "no_hooks = \<lparr>hk_message = False, hk_disconnect = False, hk_connect = False\<rparr>"

text \<open>The process: the global transport, the registries' handlers, and the environment variable.\<close>

record ('g, 'a, 'p, 'kp, 'w) process =
  pr_global :: "('g, 'a, 'p, 'kp) kameo_transport option"
  pr_hooks :: "'g \<Rightarrow> peer_hooks"
  pr_v2_env :: "string option"
  pr_world :: 'w

datatype ('a, 'p) boot_error =
    BootGossip gossip_error
  | BootTransport "('a, 'p) transport_error"
  | BootText "('a, 'p) error_text"

definition set_v2_env :: "('g, 'a, 'p, 'kp, 'w) process \<Rightarrow> ('g, 'a, 'p, 'kp, 'w) process" where
  "set_v2_env st = st\<lparr>pr_v2_env := Some ''true''\<rparr>"

definition set_global_transport ::
  "('g, 'a, 'p, 'kp) kameo_transport \<Rightarrow> ('g, 'a, 'p, 'kp, 'w) process \<Rightarrow> ('g, 'a, 'p, 'kp, 'w) process" where
  "set_global_transport tr st = st\<lparr>pr_global := Some tr\<rparr>"

definition set_hooks :: "'g \<Rightarrow> (peer_hooks \<Rightarrow> peer_hooks) \<Rightarrow> ('g, 'a, 'p, 'kp, 'w) process \<Rightarrow> ('g, 'a, 'p, 'kp, 'w) process" where
  "set_hooks g f st = st\<lparr>pr_hooks := (pr_hooks st)(g := f (pr_hooks st g))\<rparr>"

text \<open>The loop around the library's start: it tries again after \<open>EPERM\<close>, five times at most.\<close>

definition max_eperm_retries :: nat where
  "max_eperm_retries = 5"

function start_registry ::
  "('g, 'a, 'p, 'kp, 'k, 'w) gossip \<Rightarrow> 'a \<Rightarrow> 'kp \<Rightarrow> ('kp, 'p) gossip_config \<Rightarrow> nat \<Rightarrow> 'w
    \<Rightarrow> ('g, gossip_error) result \<times> 'w" where
  "start_registry gp addr keypair config attempt w =
    (case gp_new_with_tls gp addr keypair config w of
       (Ok h, w) \<Rightarrow> (Ok h, w)
     | (Err e, w) \<Rightarrow>
         if e = GossipEperm \<and> attempt < max_eperm_retries
         then start_registry gp addr keypair config (Suc attempt) w
         else (Err e, w))"
  by pat_completeness auto
termination
  by (relation "measure (\<lambda>(gp, addr, keypair, config, attempt, w). max_eperm_retries - attempt)") auto

declare start_registry.simps [simp del]

definition bootstrap_with_keypair ::
  "('g, 'a, 'p, 'kp, 'k, 'w) gossip \<Rightarrow> 'a \<Rightarrow> 'kp \<Rightarrow> ('g, 'a, 'p, 'kp, 'w) process
    \<Rightarrow> (('g, 'a, 'p, 'kp) kameo_transport, ('a, 'p) boot_error) result \<times> ('g, 'a, 'p, 'kp, 'w) process" where
  "bootstrap_with_keypair gp addr keypair st =
    (let config = (transport_config_default addr)\<lparr>tc_bind_addr := addr, tc_enable_encryption := True\<rparr>;
         st = set_v2_env st;
         transport = kameo_transport_new config;
         gossip_config = \<lparr>gc_key_pair = Some keypair, gc_interval = from_secs 5, gc_max_peers = 3, gc_schema_hash = None\<rparr>
     in case start_registry gp addr keypair gossip_config 0 (pr_world st) of
          (Err e, w) \<Rightarrow> (Err (BootGossip e), st\<lparr>pr_world := w\<rparr>)
        | (Ok h, w) \<Rightarrow>
            (let st = st\<lparr>pr_world := w\<rparr>;
                 transport = kt_set_handle h transport
             in case kt_handle transport of
                  None \<Rightarrow> (Err (BootText NoHandleForHandlers), st)
                | Some g \<Rightarrow>
                    (let st = set_hooks g (hk_message_update (\<lambda>_. True)) st;
                         st = set_hooks g (hk_disconnect_update (\<lambda>_. True)) st;
                         st = set_hooks g (hk_connect_update (\<lambda>_. True)) st
                     in (Ok transport, set_global_transport transport st))))"

definition bootstrap_on ::
  "('g, 'a, 'p, 'kp, 'k, 'w) gossip \<Rightarrow> 'a \<Rightarrow> 'kp \<Rightarrow> ('g, 'a, 'p, 'kp, 'w) process
    \<Rightarrow> (('g, 'a, 'p, 'kp) kameo_transport, ('a, 'p) boot_error) result \<times> ('g, 'a, 'p, 'kp, 'w) process" where
  "bootstrap_on gp addr keypair st = bootstrap_with_keypair gp addr keypair st"

definition bootstrap_with_config ::
  "('g, 'a, 'p, 'kp, 'k, 'w) gossip \<Rightarrow> ('a, 'p, 'kp) transport_config \<Rightarrow> ('g, 'a, 'p, 'kp, 'w) process
    \<Rightarrow> (('g, 'a, 'p, 'kp) kameo_transport, ('a, 'p) boot_error) result \<times> ('g, 'a, 'p, 'kp, 'w) process" where
  "bootstrap_with_config gp config st =
    (let st = set_v2_env st;
         transport = kameo_transport_new config
     in case kt_start gp transport (pr_world st) of
          (Err e, transport, w) \<Rightarrow> (Err (BootTransport e), st\<lparr>pr_world := w\<rparr>)
        | (Ok _, transport, w) \<Rightarrow>
            (let st = st\<lparr>pr_world := w\<rparr>
             in case kt_handle transport of
                  None \<Rightarrow> (Err (BootText NoHandleForHandlers), st)
                | Some g \<Rightarrow>
                    (Ok transport, set_global_transport transport (set_hooks g (hk_message_update (\<lambda>_. True)) st))))"

text \<open>
  A cluster on one host, from node \<open>i\<close> on. \<open>base_port + i as u16\<close> overflows: with overflow checks it
  unwinds, without it wraps around. \<open>loopback\<close> is the address of a port, \<open>test_keypair\<close> the key pair
  of a seed.
\<close>

definition cluster_port :: "bool \<Rightarrow> u16 \<Rightarrow> nat \<Rightarrow> u16 outcome" where
  "cluster_port checks base_port i =
    (let i16 = (of_nat i :: u16)
     in if checks \<and> unat base_port + unat i16 \<ge> 2 ^ 16 then Panicked else Done (base_port + i16))"

fun bootstrap_nodes ::
  "('g, 'a, 'p, 'kp, 'k, 'w) gossip \<Rightarrow> bool \<Rightarrow> (u16 \<Rightarrow> 'a) \<Rightarrow> (u64 \<Rightarrow> 'kp) \<Rightarrow> u16 \<Rightarrow> nat list
    \<Rightarrow> ('g, 'a, 'p, 'kp) kameo_transport list \<Rightarrow> ('g, 'a, 'p, 'kp, 'w) process
    \<Rightarrow> ((('g, 'a, 'p, 'kp) kameo_transport list, ('a, 'p) boot_error) result \<times> ('g, 'a, 'p, 'kp, 'w) process) outcome" where
  "bootstrap_nodes gp checks loopback test_keypair base_port [] transports st = Done (Ok transports, st)"
| "bootstrap_nodes gp checks loopback test_keypair base_port (i # is) transports st =
    (case cluster_port checks base_port i of
       Panicked \<Rightarrow> Panicked
     | Done port \<Rightarrow>
         (case bootstrap_with_keypair gp (loopback port) (test_keypair (of_nat i)) st of
            (Err e, st) \<Rightarrow> Done (Err e, st)
          | (Ok transport, st) \<Rightarrow>
              bootstrap_nodes gp checks loopback test_keypair base_port is (transports @ [transport]) st))"

definition bootstrap_cluster ::
  "('g, 'a, 'p, 'kp, 'k, 'w) gossip \<Rightarrow> bool \<Rightarrow> (u16 \<Rightarrow> 'a) \<Rightarrow> (u64 \<Rightarrow> 'kp) \<Rightarrow> nat \<Rightarrow> u16 \<Rightarrow> ('g, 'a, 'p, 'kp, 'w) process
    \<Rightarrow> ((('g, 'a, 'p, 'kp) kameo_transport list, ('a, 'p) boot_error) result \<times> ('g, 'a, 'p, 'kp, 'w) process) outcome" where
  "bootstrap_cluster gp checks loopback test_keypair n base_port st =
    bootstrap_nodes gp checks loopback test_keypair base_port [0..<n] [] st"

text \<open>The functions of the module \<open>remote\<close>.\<close>

definition remote_bootstrap_with_keypair ::
  "('g, 'a, 'p, 'kp, 'k, 'w) gossip \<Rightarrow> 'a \<Rightarrow> 'kp \<Rightarrow> ('g, 'a, 'p, 'kp, 'w) process
    \<Rightarrow> (unit, ('a, 'p) boot_error) result \<times> ('g, 'a, 'p, 'kp, 'w) process" where
  "remote_bootstrap_with_keypair gp addr keypair st = map_prod (map_ok (\<lambda>_. ())) id (bootstrap_with_keypair gp addr keypair st)"

definition remote_bootstrap_on ::
  "('g, 'a, 'p, 'kp, 'k, 'w) gossip \<Rightarrow> string \<Rightarrow> 'kp \<Rightarrow> ('g, 'a, 'p, 'kp, 'w) process
    \<Rightarrow> (unit, ('a, 'p) boot_error) result \<times> ('g, 'a, 'p, 'kp, 'w) process" where
  "remote_bootstrap_on gp addr keypair st =
    (case gp_parse_addr gp addr of
       None \<Rightarrow> (Err (BootText (BadAddress addr)), st)
     | Some a \<Rightarrow> remote_bootstrap_with_keypair gp a keypair st)"

definition remote_unregister :: "string \<Rightarrow> (unit, registry_error) result" where
  "remote_unregister name = Ok ()"

definition lookup_stream_poll :: "(unit, registry_error) result option" where
  "lookup_stream_poll = Some (Err TransportNotBootstrapped)"

text \<open>The library calls a handler if one was set.\<close>

definition peer_disconnected ::
  "('g, 'a, 'p, 'kp, 'k, 'w) gossip \<Rightarrow> ('g, 'a, 'p, 'kp, 'w) process \<Rightarrow> 'g \<Rightarrow> ('h, 'v, ('a, 'p) handle_cache \<times> 'c) signal_mailbox
    \<Rightarrow> 'a \<Rightarrow> 'p option \<Rightarrow> ('a, 'p, 'h) remote_links \<Rightarrow> ('a, 'p) handle_cache \<times> 'c
    \<Rightarrow> ('a, 'p, 'h) remote_links \<times> (('a, 'p) handle_cache \<times> 'c) option" where
  "peer_disconnected gp st g sm peer_addr peer_id links s =
    (if hk_disconnect (pr_hooks st g) then handle_peer_disconnect gp g (pr_world st) sm peer_addr peer_id links s
     else (links, Some s))"

definition peer_connected ::
  "('p \<Rightarrow> bytes) \<Rightarrow> ('g, 'a, 'p, 'kp, 'w) process \<Rightarrow> 'g \<Rightarrow> 'a \<Rightarrow> 'p option \<Rightarrow> ('a, 'p, 'h) remote_links
    \<Rightarrow> ('a, 'p, 'h) remote_links outcome" where
  "peer_connected to_bytes st g peer_addr peer_id links =
    (if hk_connect (pr_hooks st g) then handle_peer_connect to_bytes peer_addr peer_id links else Done links)"


section \<open>Lemmas\<close>

lemmas process_simps = set_v2_env_def set_global_transport_def set_hooks_def

lemma keypair_booted:
  assumes "bootstrap_with_keypair gp addr keypair st = (Ok tr, st')"
  obtains g where "kt_handle tr = Some g" and "tc_bind_addr (kt_config tr) = addr" and "pr_global st' = Some tr"
    and "pr_hooks st' g = \<lparr>hk_message = True, hk_disconnect = True, hk_connect = True\<rparr>"
proof -
  obtain g w where "start_registry gp addr keypair
      \<lparr>gc_key_pair = Some keypair, gc_interval = from_secs 5, gc_max_peers = 3, gc_schema_hash = None\<rparr> 0 (pr_world st) = (Ok g, w)"
    "tr = kt_set_handle g (kameo_transport_new ((transport_config_default addr)\<lparr>tc_bind_addr := addr, tc_enable_encryption := True\<rparr>))"
    using assms by (auto simp: bootstrap_with_keypair_def Let_def process_simps kt_set_handle_def split: prod.splits result.splits)
  then show ?thesis
    using assms by (intro that [of g])
      (auto simp: bootstrap_with_keypair_def Let_def process_simps kt_set_handle_def kameo_transport_new_def)
qed

lemma keypair_boots:
  assumes "\<And>w. \<exists>g. fst (gp_new_with_tls gp addr keypair config w) = Ok g"
  shows "\<exists>g w'. start_registry gp addr keypair config n w = (Ok g, w')"
proof -
  obtain g where "fst (gp_new_with_tls gp addr keypair config w) = Ok g" using assms by blast
  then show ?thesis
    by (cases "gp_new_with_tls gp addr keypair config w") (simp add: start_registry.simps [of gp addr keypair config n w])
qed

lemma config_booted:
  assumes "bootstrap_with_config gp config st = (Ok tr, st')"
  obtains g where "kt_handle tr = Some g" and "pr_global st' = Some tr"
    and "pr_hooks st' g = (pr_hooks st g)\<lparr>hk_message := True\<rparr>"
  using assms
  by (auto simp: bootstrap_with_config_def Let_def process_simps split: prod.splits result.splits option.splits)

text \<open>The loop that starts the registry makes at most six attempts.\<close>

definition start_attempts ::
  "('g, 'a, 'p, 'kp, 'k, 'w) gossip \<Rightarrow> 'a \<Rightarrow> 'kp \<Rightarrow> ('kp, 'p) gossip_config \<Rightarrow> nat \<Rightarrow> 'w \<Rightarrow> 'w" where
  "start_attempts gp addr keypair config n = (\<lambda>w. snd (gp_new_with_tls gp addr keypair config w)) ^^ n"

lemma start_registry_attempts:
  assumes "start_registry gp addr keypair config attempt w = (r, w')" and "attempt \<le> max_eperm_retries"
  shows "\<exists>n \<le> max_eperm_retries - attempt.
    gp_new_with_tls gp addr keypair config (start_attempts gp addr keypair config n w) = (r, w') \<and>
    (\<forall>j < n. fst (gp_new_with_tls gp addr keypair config (start_attempts gp addr keypair config j w)) = Err GossipEperm) \<and>
    (r = Err GossipEperm \<longrightarrow> n = max_eperm_retries - attempt)"
  using assms
proof (induction gp addr keypair config attempt w rule: start_registry.induct)
  case (1 gp addr keypair config attempt w)
  let ?new = "gp_new_with_tls gp addr keypair config"
  let ?nth = "start_attempts gp addr keypair config"
  obtain r1 w1 where new: "?new w = (r1, w1)" by (cases "?new w")
  show ?case
  proof (cases "r1 = Err GossipEperm \<and> attempt < max_eperm_retries")
    case True
    then have again: "start_registry gp addr keypair config (Suc attempt) w1 = (r, w')"
      using 1(2) new by (simp add: start_registry.simps [of gp addr keypair config attempt w])
    have "\<exists>n \<le> max_eperm_retries - Suc attempt. ?new (?nth n w1) = (r, w') \<and>
        (\<forall>j < n. fst (?new (?nth j w1)) = Err GossipEperm) \<and> (r = Err GossipEperm \<longrightarrow> n = max_eperm_retries - Suc attempt)"
      using 1(1) [OF new [symmetric] _ _ again] True by simp
    then obtain n where n: "n \<le> max_eperm_retries - Suc attempt" "?new (?nth n w1) = (r, w')"
        "\<forall>j < n. fst (?new (?nth j w1)) = Err GossipEperm" "r = Err GossipEperm \<longrightarrow> n = max_eperm_retries - Suc attempt"
      by blast
    have step: "?nth (Suc j) w = ?nth j w1" for j
      by (simp add: start_attempts_def funpow_swap1 new del: funpow.simps add: funpow_Suc_right)
    have "fst (?new (?nth j w)) = Err GossipEperm" if "j < Suc n" for j
      using that n(3) True step by (cases j) (simp_all add: start_attempts_def new)
    then show ?thesis
      using n True step by (intro exI [of _ "Suc n"]) auto
  next
    case False
    then have "r = r1" "w' = w1" "r = Err GossipEperm \<longrightarrow> attempt = max_eperm_retries"
      using 1(2,3) new
      by (auto simp: start_registry.simps [of gp addr keypair config attempt w] split: result.splits if_splits)
    then show ?thesis
      using new by (intro exI [of _ 0]) (simp add: start_attempts_def)
  qed
qed

text \<open>
  Mailboxes that accept, leave the handle cache alone, and log each notice together with the flags of
  the cache as the notice finds them.
\<close>

definition observes_cache ::
  "('h, 'v, ('a, 'p) handle_cache \<times> 'c) signal_mailbox
    \<Rightarrow> ('c \<Rightarrow> (('h \<times> actor_id \<times> 'v stop_reason) \<times> (nat \<Rightarrow> bool)) list) \<Rightarrow> bool" where
  "observes_cache sm lg \<longleftrightarrow>
    (\<forall>h i reason s. \<exists>res s'. sm_link_died sm h i reason s = Some (res, s') \<and> fst s' = fst s \<and>
      lg (snd s') = lg (snd s) @ [((h, i, reason), hc_alive (fst s))])"

lemma observed_notice:
  assumes "observes_cache sm lg"
  obtains res s' where "sm_link_died sm h i reason s = Some (res, s')" and "fst s' = fst s"
    and "lg (snd s') = lg (snd s) @ [((h, i, reason), hc_alive (fst s))]"
  using assms [unfolded observes_cache_def, rule_format, of h i reason s] by (elim exE conjE)

lemma observes_logs:
  assumes "observes_cache sm lg"
  shows "logs_signals sm (\<lambda>s. map fst (lg (snd s)))"
  unfolding logs_signals_def
proof (intro allI)
  fix h i reason s
  obtain res s' where "sm_link_died sm h i reason s = Some (res, s')"
    "lg (snd s') = lg (snd s) @ [((h, i, reason), hc_alive (fst s))]" using observed_notice [OF assms] by metis
  then show "\<exists>res s'. sm_link_died sm h i reason s = Some (res, s') \<and>
      map fst (lg (snd s')) = map fst (lg (snd s)) @ [(h, i, reason)]" by simp
qed

lemma notify_locals_observed:
  "observes_cache sm lg \<Longrightarrow> notify_locals sm x ls s = Some s' \<Longrightarrow>
    fst s' = fst s \<and> (\<exists>es. lg (snd s') = lg (snd s) @ es \<and> snd ` set es \<subseteq> {hc_alive (fst s)})"
proof (induction ls arbitrary: s)
  case (Cons l ls)
  obtain y h where l: "l = (y, h)" by (cases l)
  obtain res s1 where s1: "sm_link_died sm h x PeerDisconnected s = Some (res, s1)" "fst s1 = fst s"
      "lg (snd s1) = lg (snd s) @ [((h, x, PeerDisconnected), hc_alive (fst s))]"
    by (rule observed_notice [OF Cons.prems(1)])
  obtain es where "fst s' = fst s1" "lg (snd s') = lg (snd s1) @ es" "snd ` set es \<subseteq> {hc_alive (fst s1)}"
    using Cons.IH [OF Cons.prems(1), of s1] Cons.prems(2) s1(1) by (auto simp: l)
  then show ?case
    using s1(2,3) by (auto intro!: exI [of _ "((h, x, PeerDisconnected), hc_alive (fst s)) # es"])
qed simp

lemma notify_links_observed:
  "observes_cache sm lg \<Longrightarrow> notify_links sm b s = Some s' \<Longrightarrow>
    fst s' = fst s \<and> (\<exists>es. lg (snd s') = lg (snd s) @ es \<and> snd ` set es \<subseteq> {hc_alive (fst s)})"
proof (induction b arbitrary: s)
  case (Cons e b)
  obtain x ls where e: "e = (x, ls)" by (cases e)
  obtain s1 where s1: "notify_locals sm x ls s = Some s1" "notify_links sm b s1 = Some s'"
    using Cons.prems(2) by (auto simp: e bind_eq_Some_conv)
  obtain es1 where "fst s1 = fst s" "lg (snd s1) = lg (snd s) @ es1" "snd ` set es1 \<subseteq> {hc_alive (fst s)}"
    using notify_locals_observed [OF Cons.prems(1) s1(1)] by blast
  moreover obtain es2 where "fst s' = fst s1" "lg (snd s') = lg (snd s1) @ es2" "snd ` set es2 \<subseteq> {hc_alive (fst s1)}"
    using Cons.IH [OF Cons.prems(1) s1(2)] by blast
  ultimately show ?case by (auto intro!: exI [of _ "es1 @ es2"])
qed simp

lemma notify_taken_observed:
  assumes "observes_cache sm lg" and "notify_taken sm t s = (r', Some s')"
  shows "fst s' = fst s \<and> (\<exists>es. lg (snd s') = lg (snd s) @ es \<and> snd ` set es \<subseteq> {hc_alive (fst s)})"
proof (cases "fst t")
  case None
  then show ?thesis using assms(2) by (cases t) (auto simp: notify_taken_def)
next
  case (Some b)
  then have "notify_links sm b s = Some s'" using assms(2) by (cases t) (simp add: notify_taken_def)
  then show ?thesis by (rule notify_links_observed [OF assms(1)])
qed

text \<open>The address whose links a disconnect notifies: the one recorded for the peer, if it is known.\<close>

definition notified_addr :: "'a \<Rightarrow> 'p option \<Rightarrow> ('a, 'p, 'h) remote_links \<Rightarrow> 'a option" where
  "notified_addr peer_addr resolved links =
    (case resolved of Some p \<Rightarrow> hm_get (rl_peer_id_to_addr links) p | None \<Rightarrow> Some peer_addr)"

lemma link_rel_remove_peer:
  "link_rel (links\<lparr>rl_links_by_peer := hm_remove a (rl_links_by_peer links)\<rparr>) = link_rel links |` {(a', _). a' \<noteq> a}"
  by (auto simp: link_rel_def link_at_def entry_or_remove restrict_map_def fun_eq_iff)

text \<open>What is told and what is left, for the peer as the handler names it.\<close>

definition notify_resolved ::
  "('h, 'v, 'c) signal_mailbox \<Rightarrow> 'a \<Rightarrow> 'p option \<Rightarrow> ('a, 'p, 'h) remote_links \<Rightarrow> 'c \<Rightarrow> ('a, 'p, 'h) remote_links \<times> 'c option" where
  "notify_resolved sm peer_addr resolved links s =
    (case resolved of Some p \<Rightarrow> notify_peer_disconnected_by_id sm p links s
     | None \<Rightarrow> notify_peer_disconnected_by_addr sm peer_addr links s)"

lemma notify_resolved_taken: "\<exists>t. notify_resolved sm peer_addr resolved links s = notify_taken sm t s"
  unfolding notify_resolved_def notify_peer_disconnected_by_id_def notify_peer_disconnected_by_addr_def
  by (cases resolved) (simp_all only: option.case, blast+)

lemma notify_resolved_logs:
  assumes "remote_links_ok links" and "logs_signals sm lg"
  shows "\<exists>links' s' ds. notify_resolved sm peer_addr resolved links s = (links', Some s') \<and> lg s' = lg s @ death_notices ds \<and>
    (case notified_addr peer_addr resolved links of
       Some a \<Rightarrow> lists_links ds links a \<and> link_rel links' = link_rel links |` {(a', _). a' \<noteq> a}
     | None \<Rightarrow> ds = [] \<and> links' = links)"
proof (cases resolved)
  case None
  then show ?thesis
    using taken_notices [OF assms, of peer_addr s] link_rel_remove_peer [where links = links and a = peer_addr]
    by (auto simp: notify_resolved_def notified_addr_def notify_peer_disconnected_by_addr_def)
next
  case p: (Some p)
  show ?thesis
  proof (cases "hm_get (rl_peer_id_to_addr links) p")
    case None
    then show ?thesis
      by (auto simp: p notify_resolved_def notified_addr_def notify_unknown_peer death_notices_def)
  next
    case (Some a)
    from notify_known_peer [OF assms Some, of s] show ?thesis
      by (auto simp: p notify_resolved_def notified_addr_def Some)
  qed
qed

lemma disconnect_notices:
  assumes "remote_links_ok links" and "observes_cache sm lg"
    and "resolved = resolve_peer_id gp g w peer_addr peer_id"
  shows "\<exists>links' s' ds es. handle_peer_disconnect gp g w sm peer_addr peer_id links s = (links', Some s') \<and>
    fst s' = invalidate_handles peer_addr resolved (fst s) \<and>
    lg (snd s') = lg (snd s) @ es \<and> map fst es = death_notices ds \<and>
    snd ` set es \<subseteq> {hc_alive (fst s')} \<and>
    (case notified_addr peer_addr resolved links of
       Some a \<Rightarrow> lists_links ds links a \<and> link_rel links' = link_rel links |` {(a', _). a' \<noteq> a}
     | None \<Rightarrow> ds = [] \<and> links' = links)"
proof -
  let ?s = "apfst (invalidate_handles peer_addr resolved) s"
  have run: "handle_peer_disconnect gp g w sm peer_addr peer_id links s = notify_resolved sm peer_addr resolved links ?s"
    unfolding handle_peer_disconnect_def notify_resolved_def Let_def assms(3) [symmetric] by (rule refl)
  obtain links' s' ds where n: "notify_resolved sm peer_addr resolved links ?s = (links', Some s')"
    "map fst (lg (snd s')) = map fst (lg (snd ?s)) @ death_notices ds"
    "case notified_addr peer_addr resolved links of
       Some a \<Rightarrow> lists_links ds links a \<and> link_rel links' = link_rel links |` {(a', _). a' \<noteq> a}
     | None \<Rightarrow> ds = [] \<and> links' = links"
    using notify_resolved_logs [OF assms(1) observes_logs [OF assms(2)], of peer_addr resolved ?s] by blast
  obtain t where "notify_taken sm t ?s = (links', Some s')" using notify_resolved_taken n(1) by metis
  from notify_taken_observed [OF assms(2) this] obtain es where
    es: "fst s' = fst ?s" "lg (snd s') = lg (snd ?s) @ es" "snd ` set es \<subseteq> {hc_alive (fst ?s)}" by blast
  have "map fst es = death_notices ds" using n(2) es(2) by simp
  then show ?thesis
    using n(3) es by (intro exI [of _ links'] exI [of _ s'] exI [of _ ds] exI [of _ es]) (simp add: run n(1))
qed

section \<open>Properties\<close>

text \<open>
  C10. When a peer disconnects, the references to it die before anybody is told: each death notice
  finds the token of every reference cached under its address or identifier cleared. Exactly one
  notice goes to each link at the peer's address, the one recorded for its identifier where that is
  known, and these links are gone afterwards.
\<close>

theorem references_die_before_notices:
  assumes "rl_reachable tb links" and "observes_cache sm lg"
    and "register_handle a p (cache_run before handle_cache_new) = (t, c)" and "Release t \<notin> set after"
    and "keys_of a p \<inter> keys_of peer_addr (resolve_peer_id gp g w peer_addr peer_id) \<noteq> {}"
  shows "\<exists>links' s' ds es.
    handle_peer_disconnect gp g w sm peer_addr peer_id links (cache_run after c, x) = (links', Some s') \<and>
    lg (snd s') = lg x @ es \<and> (\<forall>e \<in> set es. \<not> snd e t) \<and> \<not> hc_alive (fst s') t \<and> map fst es = death_notices ds \<and>
    (case notified_addr peer_addr (resolve_peer_id gp g w peer_addr peer_id) links of
       Some b \<Rightarrow> lists_links ds links b \<and> link_rel links' = link_rel links |` {(b', _). b' \<noteq> b}
     | None \<Rightarrow> ds = [] \<and> links' = links)"
proof -
  let ?p = "resolve_peer_id gp g w peer_addr peer_id"
  let ?c = "cache_run before handle_cache_new"
  have t: "t = hc_next ?c" "c = snd (register_handle a p ?c)"
    using arg_cong [OF assms(3), of fst] arg_cong [OF assms(3), of snd] by simp_all
  have at: "token_at (keys_of a p) t c"
    unfolding t by (rule register_token_at [OF cache_run_ok [OF cache_ok_new]])
  have "invalidate_handles peer_addr ?p (cache_run after c) = cache_run (after @ [Invalidate peer_addr ?p]) c"
    by (simp add: cache_run_def)
  moreover have "\<not> hc_alive (cache_run (after @ [Invalidate peer_addr ?p]) c) t"
    using cache_run_token [OF at, of "after @ [Invalidate peer_addr ?p]"] assms(4,5) by (simp add: Int_commute)
  ultimately have dead: "\<not> hc_alive (invalidate_handles peer_addr ?p (cache_run after c)) t" by simp
  obtain links' s' ds es where n:
    "handle_peer_disconnect gp g w sm peer_addr peer_id links (cache_run after c, x) = (links', Some s')"
    "fst s' = invalidate_handles peer_addr ?p (cache_run after c)" "lg (snd s') = lg x @ es"
    "map fst es = death_notices ds" "snd ` set es \<subseteq> {hc_alive (fst s')}"
    "case notified_addr peer_addr ?p links of
       Some b \<Rightarrow> lists_links ds links b \<and> link_rel links' = link_rel links |` {(b', _). b' \<noteq> b}
     | None \<Rightarrow> ds = [] \<and> links' = links"
    using disconnect_notices [OF rl_reachable_ok [OF assms(1)] assms(2) refl,
        of gp g w peer_addr peer_id "(cache_run after c, x)"] unfolding fst_conv snd_conv by blast
  have dead': "\<not> hc_alive (fst s') t" using dead n(2) by simp
  have "\<not> snd e t" if "e \<in> set es" for e
  proof -
    have "snd e = hc_alive (fst s')" using n(5) that by blast
    then show ?thesis using dead' by simp
  qed
  then show ?thesis using n(1,3,4,6) dead' by blast
qed

text \<open>
  A node that is started from a configuration never hears of its peers: it answers their
  messages, but when one disconnects no link is notified and no reference dies, and when one connects
  no link is made. A node started from a key pair handles both.
\<close>

theorem config_bootstrap_is_deaf_to_peers:
  assumes "bootstrap_with_config gp config st = (Ok tr, st1)" and "\<And>g. pr_hooks st g = no_hooks"
    and "bootstrap_with_keypair gp addr keypair st = (Ok tr', st2)"
  shows "(\<exists>g. kt_handle tr = Some g \<and> pr_global st1 = Some tr \<and> hk_message (pr_hooks st1 g) \<and>
      peer_disconnected gp st1 g sm peer_addr peer_id links s = (links, Some s) \<and>
      peer_connected tb st1 g peer_addr peer_id links = Done links) \<and>
    (\<exists>g. kt_handle tr' = Some g \<and> pr_global st2 = Some tr' \<and> hk_message (pr_hooks st2 g) \<and>
      peer_disconnected gp st2 g sm peer_addr peer_id links s =
        handle_peer_disconnect gp g (pr_world st2) sm peer_addr peer_id links s \<and>
      peer_connected tb st2 g peer_addr peer_id links = handle_peer_connect tb peer_addr peer_id links)"
proof -
  obtain g where g: "kt_handle tr = Some g" "pr_global st1 = Some tr" "pr_hooks st1 g = (pr_hooks st g)\<lparr>hk_message := True\<rparr>"
    by (rule config_booted [OF assms(1)])
  obtain g' where g': "kt_handle tr' = Some g'" "tc_bind_addr (kt_config tr') = addr" "pr_global st2 = Some tr'"
    "pr_hooks st2 g' = \<lparr>hk_message = True, hk_disconnect = True, hk_connect = True\<rparr>"
    by (rule keypair_booted [OF assms(3)])
  show ?thesis
    using g g' assms(2) [of g]
    by (intro conjI exI [of _ g] exI [of _ g']) (simp_all add: peer_disconnected_def peer_connected_def no_hooks_def)
qed

text \<open>
  Starting the registry makes at least one and at most six attempts, each in the world the one
  before left; all but the last failed with \<open>EPERM\<close>, the last one's outcome is returned, and \<open>EPERM\<close>
  is returned only by the sixth.
\<close>

theorem start_registry_attempts_bounded:
  assumes "start_registry gp addr keypair config 0 w = (r, w')"
  shows "\<exists>n < 6. gp_new_with_tls gp addr keypair config (start_attempts gp addr keypair config n w) = (r, w') \<and>
    (\<forall>j < n. fst (gp_new_with_tls gp addr keypair config (start_attempts gp addr keypair config j w)) = Err GossipEperm) \<and>
    (r = Err GossipEperm \<longrightarrow> n = 5)"
  using start_registry_attempts [OF assms] unfolding max_eperm_retries_def by (auto simp: less_eq_Suc_le)

lemma keypair_bootstraps:
  assumes "\<And>addr kp config w. \<exists>g. fst (gp_new_with_tls gp addr kp config w) = Ok g"
  obtains tr st' where "bootstrap_with_keypair gp addr keypair st = (Ok tr, st')"
proof -
  obtain g w' where start: "start_registry gp addr keypair
      \<lparr>gc_key_pair = Some keypair, gc_interval = from_secs 5, gc_max_peers = 3, gc_schema_hash = None\<rparr> 0
      (pr_world (set_v2_env st)) = (Ok g, w')"
    using keypair_boots [OF assms] by blast
  have "\<exists>tr st'. bootstrap_with_keypair gp addr keypair st = (Ok tr, st')"
    by (simp add: bootstrap_with_keypair_def Let_def start kt_set_handle_def)
  then show ?thesis using that by blast
qed

text \<open>The nodes of a cluster, when every registry starts.\<close>

lemma bootstrap_nodes_run:
  assumes "\<And>addr kp config w. \<exists>g. fst (gp_new_with_tls gp addr kp config w) = Ok g"
  shows "if \<exists>i \<in> set is. cluster_port checks base i = Panicked
    then bootstrap_nodes gp checks loopback kpf base is ts st = Panicked
    else \<exists>us st'. bootstrap_nodes gp checks loopback kpf base is ts st = Done (Ok (ts @ us), st') \<and>
      map (\<lambda>t. tc_bind_addr (kt_config t)) us = map (\<lambda>i. loopback (base + of_nat i)) is \<and>
      (us \<noteq> [] \<longrightarrow> pr_global st' = Some (last us))"
proof (induction "is" arbitrary: ts st)
  case (Cons i "is")
  show ?case
  proof (cases "cluster_port checks base i")
    case Panicked
    then show ?thesis by simp
  next
    case (Done port)
    then have port: "port = base + of_nat i"
      by (auto simp: cluster_port_def Let_def split: if_splits)
    obtain tr st1 where boot: "bootstrap_with_keypair gp (loopback port) (kpf (of_nat i)) st = (Ok tr, st1)"
      by (rule keypair_bootstraps [OF assms])
    obtain g where "kt_handle tr = Some g" and addr: "tc_bind_addr (kt_config tr) = loopback port"
      and glob: "pr_global st1 = Some tr"
      and "pr_hooks st1 g = \<lparr>hk_message = True, hk_disconnect = True, hk_connect = True\<rparr>"
      by (rule keypair_booted [OF boot])
    have step: "bootstrap_nodes gp checks loopback kpf base (i # is) ts st =
        bootstrap_nodes gp checks loopback kpf base is (ts @ [tr]) st1"
      by (simp add: Done boot)
    show ?thesis
    proof (cases "\<exists>j \<in> set is. cluster_port checks base j = Panicked")
      case True
      then show ?thesis using Cons.IH [of "ts @ [tr]" st1] step by simp
    next
      case False
      obtain us st' where us: "bootstrap_nodes gp checks loopback kpf base is (ts @ [tr]) st1 = Done (Ok ((ts @ [tr]) @ us), st')"
        "map (\<lambda>t. tc_bind_addr (kt_config t)) us = map (\<lambda>i. loopback (base + of_nat i)) is"
        "us \<noteq> [] \<longrightarrow> pr_global st' = Some (last us)"
        using Cons.IH [of "ts @ [tr]" st1] unfolding if_not_P [OF False] by (elim exE conjE)
      have none: "\<not> (\<exists>j \<in> set (i # is). cluster_port checks base j = Panicked)" using False Done by auto
      have last: "pr_global st' = Some (last (tr # us))"
      proof (cases "us = []")
        case True
        then have "st' = st1"
          using us(1,2) by simp
        then show ?thesis using True glob by simp
      qed (use us(3) in simp)
      show ?thesis
        unfolding if_not_P [OF none] step
        using us(1,2) addr port last by (intro exI [of _ "tr # us"] exI [of _ st']) simp
    qed
  qed
qed simp

lemma cluster_port_panics: "cluster_port checks base i = Panicked \<longleftrightarrow> checks \<and> unat base + i mod 2 ^ 16 \<ge> 2 ^ 16"
  by (simp add: cluster_port_def Let_def unat_of_nat)

lemma cluster_overflows:
  "(\<exists>i \<in> set [0..<n]. unat (base :: u16) + i mod 2 ^ 16 \<ge> 2 ^ 16) \<longleftrightarrow> base \<noteq> 0 \<and> unat base + n > 2 ^ 16"
proof
  assume "\<exists>i \<in> set [0..<n]. unat base + i mod 2 ^ 16 \<ge> 2 ^ 16"
  then obtain i where i: "i < n" "unat base + i mod 2 ^ 16 \<ge> 2 ^ 16" by auto
  have "i mod 2 ^ 16 \<le> i" "i mod 2 ^ 16 < 2 ^ 16" by simp_all
  then have "unat base \<noteq> 0" "unat base + n > 2 ^ 16" using i by linarith+
  then show "base \<noteq> 0 \<and> unat base + n > 2 ^ 16" by (simp add: unat_eq_0)
next
  assume b: "base \<noteq> 0 \<and> unat base + n > 2 ^ 16"
  have "unat base < 2 ^ LENGTH(16)" by (rule unsigned_less)
  then have lt: "unat base < 2 ^ 16" by simp
  have "unat base \<noteq> 0" using b by (simp add: unat_eq_0)
  then have "2 ^ 16 - unat base \<in> set [0..<n]" "unat base + (2 ^ 16 - unat base) mod 2 ^ 16 \<ge> 2 ^ 16"
    using b lt by auto
  then show "\<exists>i \<in> set [0..<n]. unat base + i mod 2 ^ 16 \<ge> 2 ^ 16" by blast
qed

text \<open>
  A cluster whose registries all start has the ports from the base port on, in order, and the last
  node is the global transport. The port wraps around past 65535; with overflow checks the cluster
  unwinds instead, exactly when the ports would not fit, except that from port 0 on they always fit,
  as the index itself is cut to 16 bits.
\<close>

theorem cluster_ports:
  assumes "\<And>addr kp config w. \<exists>g. fst (gp_new_with_tls gp addr kp config w) = Ok g"
  shows "if checks \<and> base \<noteq> 0 \<and> unat base + n > 2 ^ 16
    then bootstrap_cluster gp checks loopback kpf n base st = Panicked
    else \<exists>ts st'. bootstrap_cluster gp checks loopback kpf n base st = Done (Ok ts, st') \<and>
      map (\<lambda>t. tc_bind_addr (kt_config t)) ts = map (\<lambda>i. loopback (base + of_nat i)) [0..<n] \<and>
      (n > 0 \<longrightarrow> pr_global st' = Some (last ts))"
proof -
  have overflow: "(\<exists>i \<in> set [0..<n]. cluster_port checks base i = Panicked) \<longleftrightarrow> checks \<and> base \<noteq> 0 \<and> unat base + n > 2 ^ 16"
    unfolding cluster_port_panics using cluster_overflows [of n base] by blast
  show ?thesis
  proof (cases "checks \<and> base \<noteq> 0 \<and> unat base + n > 2 ^ 16")
    case True
    then show ?thesis
      using bootstrap_nodes_run [OF assms, of "[0..<n]" checks base loopback kpf "[]" st]
      unfolding overflow if_P [OF True] bootstrap_cluster_def by simp
  next
    case False
    obtain us st' where us: "bootstrap_nodes gp checks loopback kpf base [0..<n] [] st = Done (Ok ([] @ us), st')"
      "map (\<lambda>t. tc_bind_addr (kt_config t)) us = map (\<lambda>i. loopback (base + of_nat i)) [0..<n]"
      "us \<noteq> [] \<longrightarrow> pr_global st' = Some (last us)"
      using bootstrap_nodes_run [OF assms, of "[0..<n]" checks base loopback kpf "[]" st]
      unfolding overflow if_not_P [OF False] by (elim exE conjE)
    have "length us = n" using arg_cong [OF us(2), of length] by simp
    then show ?thesis
      unfolding if_not_P [OF False] bootstrap_cluster_def
      using us by (intro exI [of _ us] exI [of _ st']) auto
  qed
qed

section \<open>Instances\<close>

type_synonym cache_log = "((nat \<times> actor_id \<times> nat stop_reason) \<times> (nat \<Rightarrow> bool)) list"

definition watching :: "(nat, nat, (nat, u8) handle_cache \<times> cache_log) signal_mailbox" where
  "watching = \<lparr>sm_link_died = (\<lambda>h i reason s. Some (Ok (), (fst s, snd s @ [((h, i, reason), hc_alive (fst s))]))),
     sm_link_established = (\<lambda>h i s. Some (Ok (), s))\<rparr>"

lemma watching_observes: "observes_cache watching (\<lambda>l. l)"
  by (simp add: observes_cache_def watching_def)

definition one_link :: "(nat, u8, nat) remote_links" where
  "one_link = remote_link_with_peer_id 9 7 (ActorId 1) (ActorId 2) 0 remote_links_new"

lemma one_link_reachable: "rl_reachable tb one_link"
  unfolding one_link_def by (intro rl_link_id rl_new)

theorem references_die_before_notices_witness:
  "\<exists>links' s' es. handle_peer_disconnect demo_gossip () [] watching 7 None one_link
      (snd (register_handle 4 (Some 9) handle_cache_new), []) = (links', Some s') \<and>
    snd s' = es \<and> map fst es = [(0, ActorId 1, PeerDisconnected)] \<and> (\<forall>e \<in> set es. \<not> snd e 0)"
proof -
  have r: "register_handle 4 (Some 9) (cache_run [] handle_cache_new) =
      (0, snd (register_handle 4 (Some 9) (handle_cache_new :: (nat, u8) handle_cache)))"
    by (simp add: prod_eq_iff cache_run_def hc_next_new)
  have p: "resolve_peer_id demo_gossip () [] 7 None = Some 9"
    by (simp add: resolve_peer_id_def) (simp add: demo_gossip_def)
  have addr: "notified_addr 7 (Some 9) one_link = Some 7"
    by (simp add: notified_addr_def one_link_def rl_simps)
  have at: "link_at one_link 7 x y = (if x = ActorId 1 \<and> y = ActorId 2 then Some 0 else None)" for x y
    by (simp add: one_link_def rl_simps) (simp add: link_at_def remote_links_new_def)
  have only: "ds = [(ActorId 1, ActorId 2, 0)]" if "lists_links ds one_link 7" for ds
  proof -
    have "(x, y, h) \<in> set ds \<longleftrightarrow> (x, y, h) = (ActorId 1, ActorId 2, 0)" for x y h
      using that at [of x y] by (auto simp: lists_links_def)
    then have "set ds = {(ActorId 1, ActorId 2, 0)}" by auto
    moreover have "distinct ds" using that by (simp add: lists_links_def distinct_map)
    ultimately show ?thesis by (cases ds) (auto simp: subset_singleton_iff)
  qed
  show ?thesis
    using references_die_before_notices [OF one_link_reachable [of "\<lambda>_. []"] watching_observes r, of "[]" 7 demo_gossip "()" "[]"
        None "[]"] only
    by (fastforce simp: p addr keys_of_def cache_run_def death_notices_def)
qed

definition demo_process :: "(unit, nat, u8, unit, demo_names) process" where
  "demo_process = \<lparr>pr_global = None, pr_hooks = (\<lambda>_. no_hooks), pr_v2_env = None, pr_world = []\<rparr>"

definition demo_config :: "(nat, u8, unit) transport_config" where
  "demo_config = (transport_config_default 7)\<lparr>tc_keypair := Some ()\<rparr>"

lemma demo_starts: "gp_new_with_tls demo_gossip a kp config w = (Ok (), w)"
  by (simp add: demo_gossip_def)

lemma demo_always_starts: "\<exists>g. fst (gp_new_with_tls demo_gossip a kp config w) = Ok g"
  by (simp add: demo_starts)

theorem config_bootstrap_is_deaf_to_peers_witness:
  "\<exists>tr st1. bootstrap_with_config demo_gossip demo_config demo_process = (Ok tr, st1) \<and>
    peer_disconnected demo_gossip st1 () watching 7 None one_link (handle_cache_new, []) =
      (one_link, Some (handle_cache_new, []))"
proof -
  obtain tr st1 where config: "bootstrap_with_config demo_gossip demo_config demo_process = (Ok tr, st1)"
    by (simp add: bootstrap_with_config_def kt_start_def Let_def demo_starts kameo_transport_new_def demo_config_def
        transport_config_default_def)
  obtain tr' st2 where keypair: "bootstrap_with_keypair demo_gossip 7 () demo_process = (Ok tr', st2)"
    by (rule keypair_bootstraps [OF demo_always_starts])
  have "pr_hooks demo_process g = no_hooks" for g by (simp add: demo_process_def)
  from config_bootstrap_is_deaf_to_peers [OF config this keypair, of watching 7 None one_link "(handle_cache_new, [])" "\<lambda>_. []"]
  show ?thesis using config by auto
qed

definition flaky_gossip :: "(unit, nat, u8, unit, nat, demo_names) gossip" where
  "flaky_gossip = demo_gossip\<lparr>gp_new_with_tls := (\<lambda>_ _ _ w. (Err GossipEperm, w))\<rparr>"

theorem start_registry_attempts_bounded_witness:
  "\<exists>r w'. start_registry flaky_gossip 7 () \<lparr>gc_key_pair = None, gc_interval = 0, gc_max_peers = 0, gc_schema_hash = None\<rparr> 0 [] = (r, w') \<and>
    r = Err GossipEperm"
proof -
  let ?c = "\<lparr>gc_key_pair = None, gc_interval = 0, gc_max_peers = 0, gc_schema_hash = None\<rparr> :: (unit, u8) gossip_config"
  obtain r w' where start: "start_registry flaky_gossip 7 () ?c 0 [] = (r, w')"
    by (cases "start_registry flaky_gossip 7 () ?c 0 []")
  have "gp_new_with_tls flaky_gossip a kp c w = (Err GossipEperm, w)" for a kp c w by (simp add: flaky_gossip_def)
  then have "r = Err GossipEperm"
    using start_registry_attempts_bounded [OF start] by auto
  then show ?thesis using start by blast
qed

theorem cluster_ports_witness:
  "bootstrap_cluster demo_gossip True unat (\<lambda>_. ()) 3 65534 demo_process = Panicked \<and>
   (\<exists>ts st'. bootstrap_cluster demo_gossip False unat (\<lambda>_. ()) 3 65534 demo_process = Done (Ok ts, st') \<and>
     map (\<lambda>t. tc_bind_addr (kt_config t)) ts = [65534, 65535, 0])"
proof -
  have ports: "map (\<lambda>i. unat ((65534 :: u16) + of_nat i)) [0..<3] = [65534, 65535, 0]"
    by (simp add: upt_rec)
  show ?thesis
    using cluster_ports [OF demo_always_starts, of True 65534 3 unat "\<lambda>_. ()" demo_process]
      cluster_ports [OF demo_always_starts, of False 65534 3 unat "\<lambda>_. ()" demo_process]
    unfolding ports by auto
qed

end
