(* ===== verification/Recipient.thy ===== *)
theory Recipient
  imports Actor_Ref
begin

text \<open>
  Requests as they are built (\<open>src/request.rs\<close>, the builders of \<open>src/request/tell.rs\<close> and
  \<open>src/request/ask.rs\<close>) and recipients, references that forget the type of the actor
  (\<open>src/actor/actor_ref.rs\<close>).
\<close>

section \<open>Timeouts of a request\<close>

text \<open>The two types that mark whether a timeout was set are the constructors of one.\<close>

datatype request_timeout = WithoutRequestTimeout | WithRequestTimeout "nat option"

datatype maybe_request_timeout = NoTimeout | RequestTimeout nat

fun timeout_option :: "request_timeout \<Rightarrow> nat option" where
  "timeout_option WithoutRequestTimeout = None"
| "timeout_option (WithRequestTimeout d) = d"

fun maybe_timeout_from_option :: "nat option \<Rightarrow> maybe_request_timeout" where
  "maybe_timeout_from_option (Some d) = RequestTimeout d"
| "maybe_timeout_from_option None = NoTimeout"

fun maybe_timeout_from :: "request_timeout \<Rightarrow> maybe_request_timeout" where
  "maybe_timeout_from WithoutRequestTimeout = NoTimeout"
| "maybe_timeout_from (WithRequestTimeout (Some d)) = RequestTimeout d"
| "maybe_timeout_from (WithRequestTimeout None) = NoTimeout"

fun maybe_timeout_option :: "maybe_request_timeout \<Rightarrow> nat option" where
  "maybe_timeout_option NoTimeout = None"
| "maybe_timeout_option (RequestTimeout d) = Some d"


section \<open>Tell requests\<close>

text \<open>\<open>tq_type\<close> is the type of the message. Blocking sends and awaiting a request send it too.\<close>

record ('h, 'v) tell_request =
  tq_ref :: "'h actor_ref"
  tq_type :: type_id
  tq_msg :: 'v
  tq_mailbox_timeout :: request_timeout

definition tell_request_new :: "'h actor_ref \<Rightarrow> type_id \<Rightarrow> 'v \<Rightarrow> ('h, 'v) tell_request" where
  "tell_request_new ar t msg = \<lparr>tq_ref = ar, tq_type = t, tq_msg = msg, tq_mailbox_timeout = WithoutRequestTimeout\<rparr>"

definition tell_mailbox_timeout_opt :: "nat option \<Rightarrow> ('h, 'v) tell_request \<Rightarrow> ('h, 'v) tell_request" where
  "tell_mailbox_timeout_opt d q =
    \<lparr>tq_ref = tq_ref q, tq_type = tq_type q, tq_msg = tq_msg q, tq_mailbox_timeout = WithRequestTimeout d\<rparr>"

definition tell_mailbox_timeout :: "nat \<Rightarrow> ('h, 'v) tell_request \<Rightarrow> ('h, 'v) tell_request" where
  "tell_mailbox_timeout d q = tell_mailbox_timeout_opt (Some d) q"

definition send_fut ::
  "('h, 'k, 'r, 'v signal, 'c) mpsc_send \<Rightarrow> bool \<Rightarrow> actor_id option \<Rightarrow> 'h actor_ref \<Rightarrow> type_id \<Rightarrow> 'v \<Rightarrow> nat option
    \<Rightarrow> 'c mailbox_state \<Rightarrow> ((unit, ('v, 'e) send_error) result outcome \<times> 'c mailbox_state) option" where
  "send_fut ops metrics current ar t msg mailbox_timeout st =
    put ops metrics t ar (MessageSignal (Any t msg) (ar_id ar) None (is_current current ar)) mailbox_timeout st"

definition tell_request_send ::
  "('h, 'k, 'r, 'v signal, 'c) mpsc_send \<Rightarrow> bool \<Rightarrow> actor_id option \<Rightarrow> ('h, 'v) tell_request
    \<Rightarrow> 'c mailbox_state \<Rightarrow> ((unit, ('v, 'e) send_error) result outcome \<times> 'c mailbox_state) option" where
  "tell_request_send ops metrics current q st =
    send_fut ops metrics current (tq_ref q) (tq_type q) (tq_msg q) (timeout_option (tq_mailbox_timeout q)) st"

definition tell_request_try_send ::
  "('h, 'k, 'r, 'v signal, 'c) mpsc_send \<Rightarrow> bool \<Rightarrow> actor_id option \<Rightarrow> ('h, 'v) tell_request
    \<Rightarrow> 'c mailbox_state \<Rightarrow> (unit, ('v, 'e) send_error) result outcome \<times> 'c mailbox_state" where
  "tell_request_try_send ops metrics current q st = tell_try_send ops metrics current (tq_ref q) (tq_type q) (tq_msg q) st"

text \<open>When a debug build warns of a possible deadlock.\<close>

definition tell_warns_deadlock :: "actor_id option \<Rightarrow> 'h actor_ref \<Rightarrow> bool" where
  "tell_warns_deadlock current ar = (mailbox_is_bounded (ar_mailbox ar) \<and> is_current current ar)"

definition ask_warns_deadlock :: "actor_id option \<Rightarrow> 'h actor_ref \<Rightarrow> bool" where
  "ask_warns_deadlock current ar = is_current current ar"


section \<open>Ask requests\<close>

record ('h, 'v) ask_request =
  aq_ref :: "'h actor_ref"
  aq_type :: type_id
  aq_msg :: 'v
  aq_mailbox_timeout :: request_timeout
  aq_reply_timeout :: request_timeout

definition ask_request_new :: "'h actor_ref \<Rightarrow> type_id \<Rightarrow> 'v \<Rightarrow> ('h, 'v) ask_request" where
  "ask_request_new ar t msg =
    \<lparr>aq_ref = ar, aq_type = t, aq_msg = msg, aq_mailbox_timeout = WithoutRequestTimeout, aq_reply_timeout = WithoutRequestTimeout\<rparr>"

definition ask_mailbox_timeout_opt :: "nat option \<Rightarrow> ('h, 'v) ask_request \<Rightarrow> ('h, 'v) ask_request" where
  "ask_mailbox_timeout_opt d q =
    \<lparr>aq_ref = aq_ref q, aq_type = aq_type q, aq_msg = aq_msg q, aq_mailbox_timeout = WithRequestTimeout d,
     aq_reply_timeout = aq_reply_timeout q\<rparr>"

definition ask_mailbox_timeout :: "nat \<Rightarrow> ('h, 'v) ask_request \<Rightarrow> ('h, 'v) ask_request" where
  "ask_mailbox_timeout d q = ask_mailbox_timeout_opt (Some d) q"

definition ask_reply_timeout_opt :: "nat option \<Rightarrow> ('h, 'v) ask_request \<Rightarrow> ('h, 'v) ask_request" where
  "ask_reply_timeout_opt d q =
    \<lparr>aq_ref = aq_ref q, aq_type = aq_type q, aq_msg = aq_msg q, aq_mailbox_timeout = aq_mailbox_timeout q,
     aq_reply_timeout = WithRequestTimeout d\<rparr>"

definition ask_reply_timeout :: "nat \<Rightarrow> ('h, 'v) ask_request \<Rightarrow> ('h, 'v) ask_request" where
  "ask_reply_timeout d q = ask_reply_timeout_opt (Some d) q"

definition ask_request_send ::
  "('h, 'k, 'r, 'v signal, 'c) mpsc_send \<Rightarrow> ('v, 'c) oneshot_ops \<Rightarrow> bool \<Rightarrow> 'v reply_downcast \<Rightarrow> actor_id option
    \<Rightarrow> ('h, 'v) ask_request \<Rightarrow> 'c mailbox_state
    \<Rightarrow> (('v, ('v, 'v) send_error) result outcome \<times> 'c mailbox_state) option" where
  "ask_request_send ops os metrics rd current q st =
    ask_send ops os metrics rd current (aq_ref q) (aq_type q) (aq_msg q) (timeout_option (aq_mailbox_timeout q))
      (timeout_option (aq_reply_timeout q)) st"


section \<open>Recipients\<close>

text \<open>
  The traits behind a recipient are private to the crate and only references implement them: a
  recipient is a reference with the type of message it takes, a reply recipient also knows how a
  reply of its type is taken apart. The waiters and \<open>kill\<close> are those of the reference.
\<close>

record 'h dyn_recipient =
  dr_ref :: "'h actor_ref"
  dr_type :: type_id

record ('h, 'v) reply_recipient =
  rr_ref :: "'h actor_ref"
  rr_type :: type_id
  rr_reply :: "'v reply_downcast"

record 'k weak_recipient =
  wp_ref :: "'k weak_actor_ref"
  wp_type :: type_id

record ('k, 'v) weak_reply_recipient =
  wq_ref :: "'k weak_actor_ref"
  wq_type :: type_id
  wq_reply :: "'v reply_downcast"

definition actor_recipient :: "type_id \<Rightarrow> 'h actor_ref \<Rightarrow> 'h dyn_recipient" where
  "actor_recipient t ar = \<lparr>dr_ref = ar, dr_type = t\<rparr>"

definition actor_reply_recipient :: "type_id \<Rightarrow> 'v reply_downcast \<Rightarrow> 'h actor_ref \<Rightarrow> ('h, 'v) reply_recipient" where
  "actor_reply_recipient t rd ar = \<lparr>rr_ref = ar, rr_type = t, rr_reply = rd\<rparr>"

definition erase_reply :: "('h, 'v) reply_recipient \<Rightarrow> 'h dyn_recipient" where
  "erase_reply r = \<lparr>dr_ref = rr_ref r, dr_type = rr_type r\<rparr>"

definition recipient_id :: "'h dyn_recipient \<Rightarrow> actor_id" where
  "recipient_id r = ar_id (dr_ref r)"

definition recipient_downgrade ::
  "('h, 'k, 'c) mpsc_handles \<Rightarrow> 'h dyn_recipient \<Rightarrow> 'c \<Rightarrow> 'k weak_recipient \<times> 'c" where
  "recipient_downgrade hs r c =
    (let (w, c) = actor_downgrade hs (dr_ref r) c in (\<lparr>wp_ref = w, wp_type = dr_type r\<rparr>, c))"

definition weak_recipient_upgrade ::
  "('h, 'k, 'r, 'v signal, 'c) mpsc_send \<Rightarrow> 'k weak_recipient \<Rightarrow> 'c \<Rightarrow> 'h dyn_recipient option \<times> 'c" where
  "weak_recipient_upgrade ops w c =
    (let (ar, c) = actor_upgrade ops (wp_ref w) c in (map_option (actor_recipient (wp_type w)) ar, c))"

definition reply_recipient_downgrade ::
  "('h, 'k, 'c) mpsc_handles \<Rightarrow> ('h, 'v) reply_recipient \<Rightarrow> 'c \<Rightarrow> ('k, 'v) weak_reply_recipient \<times> 'c" where
  "reply_recipient_downgrade hs r c =
    (let (w, c) = actor_downgrade hs (rr_ref r) c in (\<lparr>wq_ref = w, wq_type = rr_type r, wq_reply = rr_reply r\<rparr>, c))"

definition weak_reply_recipient_upgrade ::
  "('h, 'k, 'r, 'v signal, 'c) mpsc_send \<Rightarrow> ('k, 'v) weak_reply_recipient \<Rightarrow> 'c \<Rightarrow> ('h, 'v) reply_recipient option \<times> 'c" where
  "weak_reply_recipient_upgrade ops w c =
    (let (ar, c) = actor_upgrade ops (wq_ref w) c in (map_option (actor_reply_recipient (wq_type w) (wq_reply w)) ar, c))"

text \<open>What a recipient passes on to its reference; a weak one to its weak reference.\<close>

definition recipient_is_alive :: "('h, 'k, 'r, 'v signal, 'c) mpsc_send \<Rightarrow> 'h dyn_recipient \<Rightarrow> 'c \<Rightarrow> bool" where
  "recipient_is_alive ops r c = is_alive ops (dr_ref r) c"

definition recipient_strong_count :: "('h, 'k, 'c) mpsc_handles \<Rightarrow> 'h dyn_recipient \<Rightarrow> 'c \<Rightarrow> nat" where
  "recipient_strong_count hs r c = actor_strong_count hs (dr_ref r) c"

definition recipient_weak_count :: "('h, 'k, 'c) mpsc_handles \<Rightarrow> 'h dyn_recipient \<Rightarrow> 'c \<Rightarrow> nat" where
  "recipient_weak_count hs r c = actor_weak_count hs (dr_ref r) c"

definition recipient_is_current :: "actor_id option \<Rightarrow> 'h dyn_recipient \<Rightarrow> bool" where
  "recipient_is_current current r = is_current current (dr_ref r)"

definition recipient_stop_gracefully ::
  "('h, 'k, 'r, 'v signal, 'c) mpsc_send \<Rightarrow> bool \<Rightarrow> 'h dyn_recipient \<Rightarrow> 'c mailbox_state
    \<Rightarrow> ((unit, (unit, unit) send_error) result \<times> 'c mailbox_state) option" where
  "recipient_stop_gracefully ops metrics r st = stop_gracefully ops metrics (dr_ref r) st"

definition weak_actor_strong_count :: "('h, 'k, 'c) mpsc_handles \<Rightarrow> 'k weak_actor_ref \<Rightarrow> 'c \<Rightarrow> nat" where
  "weak_actor_strong_count hs wr c = weak_strong_count hs (wr_mailbox wr) c"

definition weak_actor_weak_count :: "('h, 'k, 'c) mpsc_handles \<Rightarrow> 'k weak_actor_ref \<Rightarrow> 'c \<Rightarrow> nat" where
  "weak_actor_weak_count hs wr c = weak_weak_count hs (wr_mailbox wr) c"

definition weak_recipient_id :: "'k weak_recipient \<Rightarrow> actor_id" where
  "weak_recipient_id w = wr_id (wp_ref w)"

definition weak_recipient_strong_count :: "('h, 'k, 'c) mpsc_handles \<Rightarrow> 'k weak_recipient \<Rightarrow> 'c \<Rightarrow> nat" where
  "weak_recipient_strong_count hs w c = weak_actor_strong_count hs (wp_ref w) c"

definition weak_recipient_weak_count :: "('h, 'k, 'c) mpsc_handles \<Rightarrow> 'k weak_recipient \<Rightarrow> 'c \<Rightarrow> nat" where
  "weak_recipient_weak_count hs w c = weak_actor_weak_count hs (wp_ref w) c"

text \<open>References and recipients are compared, ordered and hashed by their identifier.\<close>

definition actor_ref_eq :: "'h actor_ref \<Rightarrow> 'h actor_ref \<Rightarrow> bool" where
  "actor_ref_eq a b = (ar_id a = ar_id b)"

definition actor_ref_less :: "'h actor_ref \<Rightarrow> 'h actor_ref \<Rightarrow> bool" where
  "actor_ref_less a b = (ar_id a < ar_id b)"

definition recipient_eq :: "'h dyn_recipient \<Rightarrow> 'h dyn_recipient \<Rightarrow> bool" where
  "recipient_eq a b = (recipient_id a = recipient_id b)"

text \<open>The messages through a recipient.\<close>

definition handler_tell ::
  "('h, 'k, 'r, 'v signal, 'c) mpsc_send \<Rightarrow> bool \<Rightarrow> actor_id option \<Rightarrow> 'h dyn_recipient \<Rightarrow> 'v \<Rightarrow> nat option
    \<Rightarrow> 'c mailbox_state \<Rightarrow> ((unit, ('v, 'e) send_error) result outcome \<times> 'c mailbox_state) option" where
  "handler_tell ops metrics current r msg mailbox_timeout st =
    send_fut ops metrics current (dr_ref r) (dr_type r) msg mailbox_timeout st"

definition handler_try_tell ::
  "('h, 'k, 'r, 'v signal, 'c) mpsc_send \<Rightarrow> bool \<Rightarrow> actor_id option \<Rightarrow> 'h dyn_recipient \<Rightarrow> 'v
    \<Rightarrow> 'c mailbox_state \<Rightarrow> (unit, ('v, 'e) send_error) result outcome \<times> 'c mailbox_state" where
  "handler_try_tell ops metrics current r msg st = tell_try_send ops metrics current (dr_ref r) (dr_type r) msg st"

record ('h, 'v) recipient_tell_request =
  rq_recipient :: "'h dyn_recipient"
  rq_msg :: 'v
  rq_mailbox_timeout :: request_timeout

definition recipient_tell :: "'h dyn_recipient \<Rightarrow> 'v \<Rightarrow> ('h, 'v) recipient_tell_request" where
  "recipient_tell r msg = \<lparr>rq_recipient = r, rq_msg = msg, rq_mailbox_timeout = WithoutRequestTimeout\<rparr>"

definition recipient_mailbox_timeout_opt ::
  "nat option \<Rightarrow> ('h, 'v) recipient_tell_request \<Rightarrow> ('h, 'v) recipient_tell_request" where
  "recipient_mailbox_timeout_opt d q =
    \<lparr>rq_recipient = rq_recipient q, rq_msg = rq_msg q, rq_mailbox_timeout = WithRequestTimeout d\<rparr>"

definition recipient_mailbox_timeout :: "nat \<Rightarrow> ('h, 'v) recipient_tell_request \<Rightarrow> ('h, 'v) recipient_tell_request" where
  "recipient_mailbox_timeout d q = recipient_mailbox_timeout_opt (Some d) q"

definition recipient_tell_send ::
  "('h, 'k, 'r, 'v signal, 'c) mpsc_send \<Rightarrow> bool \<Rightarrow> actor_id option \<Rightarrow> ('h, 'v) recipient_tell_request
    \<Rightarrow> 'c mailbox_state \<Rightarrow> ((unit, ('v, 'e) send_error) result outcome \<times> 'c mailbox_state) option" where
  "recipient_tell_send ops metrics current q st =
    handler_tell ops metrics current (rq_recipient q) (rq_msg q) (timeout_option (rq_mailbox_timeout q)) st"

definition recipient_tell_try_send ::
  "('h, 'k, 'r, 'v signal, 'c) mpsc_send \<Rightarrow> bool \<Rightarrow> actor_id option \<Rightarrow> ('h, 'v) recipient_tell_request
    \<Rightarrow> 'c mailbox_state \<Rightarrow> (unit, ('v, 'e) send_error) result outcome \<times> 'c mailbox_state" where
  "recipient_tell_try_send ops metrics current q st = handler_try_tell ops metrics current (rq_recipient q) (rq_msg q) st"

text \<open>A reply recipient tells without a timeout and hides why it failed.\<close>

definition reply_recipient_tell ::
  "('h, 'k, 'r, 'v signal, 'c) mpsc_send \<Rightarrow> bool \<Rightarrow> actor_id option \<Rightarrow> ('h, 'v) reply_recipient \<Rightarrow> 'v
    \<Rightarrow> 'c mailbox_state \<Rightarrow> ((unit, (unit, unit) send_error) result outcome \<times> 'c mailbox_state) option" where
  "reply_recipient_tell ops metrics current r msg st =
    map_option (map_prod (map_outcome (map_err (\<lambda>_ :: ('v, unit) send_error. ActorStopped))) id)
      (handler_tell ops metrics current (erase_reply r) msg None st)"

record ('h, 'v) recipient_ask_request =
  kq_recipient :: "('h, 'v) reply_recipient"
  kq_msg :: 'v
  kq_mailbox_timeout :: request_timeout

definition reply_recipient_ask :: "('h, 'v) reply_recipient \<Rightarrow> 'v \<Rightarrow> ('h, 'v) recipient_ask_request" where
  "reply_recipient_ask r msg = \<lparr>kq_recipient = r, kq_msg = msg, kq_mailbox_timeout = WithoutRequestTimeout\<rparr>"

definition recipient_ask_mailbox_timeout_opt ::
  "nat option \<Rightarrow> ('h, 'v) recipient_ask_request \<Rightarrow> ('h, 'v) recipient_ask_request" where
  "recipient_ask_mailbox_timeout_opt d q =
    \<lparr>kq_recipient = kq_recipient q, kq_msg = kq_msg q, kq_mailbox_timeout = WithRequestTimeout d\<rparr>"

definition recipient_ask_mailbox_timeout :: "nat \<Rightarrow> ('h, 'v) recipient_ask_request \<Rightarrow> ('h, 'v) recipient_ask_request" where
  "recipient_ask_mailbox_timeout d q = recipient_ask_mailbox_timeout_opt (Some d) q"

text \<open>The reference's request is built anew: it never has a timeout for the reply.\<close>

definition handler_ask ::
  "('h, 'k, 'r, 'v signal, 'c) mpsc_send \<Rightarrow> ('v, 'c) oneshot_ops \<Rightarrow> bool \<Rightarrow> actor_id option
    \<Rightarrow> ('h, 'v) reply_recipient \<Rightarrow> 'v \<Rightarrow> nat option \<Rightarrow> 'c mailbox_state
    \<Rightarrow> (('v, ('v, 'v) send_error) result outcome \<times> 'c mailbox_state) option" where
  "handler_ask ops os metrics current r msg mailbox_timeout st =
    ask_request_send ops os metrics (rr_reply r) current
      (ask_mailbox_timeout_opt mailbox_timeout (ask_request_new (rr_ref r) (rr_type r) msg)) st"

definition recipient_ask_send ::
  "('h, 'k, 'r, 'v signal, 'c) mpsc_send \<Rightarrow> ('v, 'c) oneshot_ops \<Rightarrow> bool \<Rightarrow> actor_id option
    \<Rightarrow> ('h, 'v) recipient_ask_request \<Rightarrow> 'c mailbox_state
    \<Rightarrow> (('v, ('v, 'v) send_error) result outcome \<times> 'c mailbox_state) option" where
  "recipient_ask_send ops os metrics current q st =
    handler_ask ops os metrics current (kq_recipient q) (kq_msg q) (timeout_option (kq_mailbox_timeout q)) st"

definition recipient_ask_try_send ::
  "('h, 'k, 'r, 'v signal, 'c) mpsc_send \<Rightarrow> ('v, 'c) oneshot_ops \<Rightarrow> bool \<Rightarrow> actor_id option
    \<Rightarrow> ('h, 'v) recipient_ask_request \<Rightarrow> 'c mailbox_state
    \<Rightarrow> (('v, ('v, 'v) send_error) result outcome \<times> 'c mailbox_state) option" where
  "recipient_ask_try_send ops os metrics current q st =
    ask_try_send ops os metrics (rr_reply (kq_recipient q)) current (rr_ref (kq_recipient q)) (rr_type (kq_recipient q))
      (kq_msg q) None st"

definition recipient_ask_blocking_send ::
  "('h, 'k, 'r, 'v signal, 'c) mpsc_send \<Rightarrow> ('v, 'c) oneshot_ops \<Rightarrow> bool \<Rightarrow> actor_id option
    \<Rightarrow> ('h, 'v) recipient_ask_request \<Rightarrow> 'c mailbox_state
    \<Rightarrow> (('v, ('v, 'v) send_error) result outcome \<times> 'c mailbox_state) option" where
  "recipient_ask_blocking_send ops os metrics current q st =
    ask_blocking_send ops os metrics (rr_reply (kq_recipient q)) current (rr_ref (kq_recipient q)) (rr_type (kq_recipient q))
      (kq_msg q) st"

section \<open>Properties\<close>

lemma send_fut_tell_send: "send_fut ops metrics current ar t msg d st = tell_send ops metrics current ar t msg d st"
  by (simp add: send_fut_def tell_send_def request_signal_def)

datatype ask_setting = SetMailboxTimeout nat | SetReplyTimeout nat

fun apply_setting :: "ask_setting \<Rightarrow> ('h, 'v) ask_request \<Rightarrow> ('h, 'v) ask_request" where
  "apply_setting (SetMailboxTimeout d) q = ask_mailbox_timeout d q"
| "apply_setting (SetReplyTimeout d) q = ask_reply_timeout d q"

fun last_setting :: "(ask_setting \<Rightarrow> nat option) \<Rightarrow> ask_setting list \<Rightarrow> nat option" where
  "last_setting f [] = None"
| "last_setting f (s # ss) = (case last_setting f ss of Some d \<Rightarrow> Some d | None \<Rightarrow> f s)"

definition mailbox_setting :: "ask_setting \<Rightarrow> nat option" where
  "mailbox_setting s = (case s of SetMailboxTimeout d \<Rightarrow> Some d | SetReplyTimeout _ \<Rightarrow> None)"

definition reply_setting :: "ask_setting \<Rightarrow> nat option" where
  "reply_setting s = (case s of SetReplyTimeout d \<Rightarrow> Some d | SetMailboxTimeout _ \<Rightarrow> None)"

lemma apply_settings:
  "aq_ref (fold apply_setting ss q) = aq_ref q \<and> aq_type (fold apply_setting ss q) = aq_type q \<and>
   aq_msg (fold apply_setting ss q) = aq_msg q \<and>
   timeout_option (aq_mailbox_timeout (fold apply_setting ss q)) =
     (case last_setting mailbox_setting ss of Some d \<Rightarrow> Some d | None \<Rightarrow> timeout_option (aq_mailbox_timeout q)) \<and>
   timeout_option (aq_reply_timeout (fold apply_setting ss q)) =
     (case last_setting reply_setting ss of Some d \<Rightarrow> Some d | None \<Rightarrow> timeout_option (aq_reply_timeout q))"
proof (induction ss arbitrary: q)
  case (Cons s ss)
  then show ?case
    by (cases s) (auto simp: Cons ask_mailbox_timeout_def ask_mailbox_timeout_opt_def ask_reply_timeout_def
        ask_reply_timeout_opt_def mailbox_setting_def reply_setting_def split: option.splits)
qed simp

text \<open>
  A tell through a reply recipient does to the mailbox what a tell through the reference does, but
  where that one gives the message back, it only says that the actor stopped, and the message is gone.
\<close>

theorem reply_recipient_loses_message:
  assumes "gives_back ops"
    and "tell_send ops metrics current ar t msg None st = Some (r :: (unit, ('v, unit) send_error) result outcome, st')"
  shows "\<exists>r'. reply_recipient_tell ops metrics current (actor_reply_recipient t rd ar) (msg :: 'v) st = Some (Done r', st') \<and>
    (r = Done (Ok ()) \<and> r' = Ok () \<or>
     r \<in> {Done (Err (ActorNotRunning msg)), Done (Err (MailboxFull msg)), Done (Err (Timeout (Some msg)))} \<and> r' = Err ActorStopped)"
proof -
  have "put_result t t msg r"
    using put_cases [OF assms(1) assms(2) [unfolded tell_send_def]] .
  then show ?thesis
    using assms(2) by (auto simp: reply_recipient_tell_def handler_tell_def send_fut_tell_send erase_reply_def
        actor_reply_recipient_def put_result_def)
qed

theorem reply_recipient_loses_message_witness:
  "\<exists>r'. reply_recipient_tell one_channel False None
      (actor_reply_recipient TyUnit (default_downcast TyUnit TyUnit TyUnit) \<lparr>ar_id = ActorId 1, ar_mailbox = Bounded ()\<rparr>)
      (5 :: nat) closed_mailbox = Some (Done r', closed_mailbox) \<and> r' = Err ActorStopped"
proof -
  have tell: "tell_send one_channel False None \<lparr>ar_id = ActorId 1, ar_mailbox = Bounded ()\<rparr> TyUnit (5 :: nat) None closed_mailbox =
      Some (Done (Err (ActorNotRunning 5)) :: (unit, (nat, unit) send_error) result outcome, closed_mailbox)"
    by (simp add: tell_send_def closed_mailbox_simps request_signal_def from_mpsc_send_error_def)
  from reply_recipient_loses_message [OF gives_back_one_channel tell] show ?thesis by auto
qed

text \<open>
  Tokio's contract for weak senders: as long as a sender lives, the weak one it was downgraded to
  upgrades to a sender of the same channel.
\<close>

definition weak_senders_upgrade :: "('h, 'k, 'c) mpsc_handles \<Rightarrow> ('h, 'k, 'r, 'v signal, 'c) mpsc_send \<Rightarrow> bool" where
  "weak_senders_upgrade hs ops \<longleftrightarrow>
    (\<forall>h c k c'. mp_downgrade hs h c = (k, c') \<longrightarrow> (\<exists>c''. mp_upgrade ops k c' = (Some h, c'')))"

lemma upgrade_downgraded:
  assumes "weak_senders_upgrade hs ops"
  shows "\<exists>c''. actor_upgrade ops (fst (actor_downgrade hs ar c)) (snd (actor_downgrade hs ar c)) = (Some ar, c'')"
proof (cases "ar_mailbox ar")
  case (Bounded h)
  obtain k c' where k: "mp_downgrade hs h c = (k, c')" by (rule prod.exhaust)
  then obtain c'' where "mp_upgrade ops k c' = (Some h, c'')"
    using assms unfolding weak_senders_upgrade_def by blast
  then show ?thesis
    using Bounded k by (cases ar) (simp add: actor_downgrade_def actor_upgrade_def mailbox_downgrade_def weak_upgrade_def)
next
  case (Unbounded h)
  obtain k c' where k: "mp_downgrade hs h c = (k, c')" by (rule prod.exhaust)
  then obtain c'' where "mp_upgrade ops k c' = (Some h, c'')"
    using assms unfolding weak_senders_upgrade_def by blast
  then show ?thesis
    using Unbounded k by (cases ar) (simp add: actor_downgrade_def actor_upgrade_def mailbox_downgrade_def weak_upgrade_def)
qed

lemma recipient_survives_downgrade:
  assumes "weak_senders_upgrade hs ops"
  shows "\<exists>c''. weak_recipient_upgrade ops (fst (recipient_downgrade hs r c)) (snd (recipient_downgrade hs r c)) = (Some r, c'')"
  using upgrade_downgraded [OF assms, of "dr_ref r" c]
  by (auto simp: recipient_downgrade_def weak_recipient_upgrade_def actor_recipient_def split_beta)

lemma reply_recipient_survives_downgrade:
  assumes "weak_senders_upgrade hs ops"
  shows "\<exists>c''. weak_reply_recipient_upgrade ops (fst (reply_recipient_downgrade hs r c)) (snd (reply_recipient_downgrade hs r c)) =
    (Some r, c'')"
  using upgrade_downgraded [OF assms, of "rr_ref r" c]
  by (auto simp: reply_recipient_downgrade_def weak_reply_recipient_upgrade_def actor_reply_recipient_def split_beta)

text \<open>The timeouts of requests through a recipient.\<close>

definition last_timeout :: "nat list \<Rightarrow> nat option" where
  "last_timeout ds = (if ds = [] then None else Some (last ds))"

lemma recipient_asks:
  "kq_recipient (fold recipient_ask_mailbox_timeout ds q) = kq_recipient q \<and>
   kq_msg (fold recipient_ask_mailbox_timeout ds q) = kq_msg q \<and>
   timeout_option (kq_mailbox_timeout (fold recipient_ask_mailbox_timeout ds q)) =
     (if ds = [] then timeout_option (kq_mailbox_timeout q) else last_timeout ds)"
  by (induction ds arbitrary: q)
    (auto simp: last_timeout_def recipient_ask_mailbox_timeout_def recipient_ask_mailbox_timeout_opt_def)

lemma recipient_tells:
  "rq_recipient (fold recipient_mailbox_timeout ds q) = rq_recipient q \<and>
   rq_msg (fold recipient_mailbox_timeout ds q) = rq_msg q \<and>
   timeout_option (rq_mailbox_timeout (fold recipient_mailbox_timeout ds q)) =
     (if ds = [] then timeout_option (rq_mailbox_timeout q) else last_timeout ds)"
  by (induction ds arbitrary: q)
    (auto simp: last_timeout_def recipient_mailbox_timeout_def recipient_mailbox_timeout_opt_def)


text \<open>
  A mailbox with no room: an ask through a recipient with a timeout gives the message back, and one
  without waits for ever.
\<close>

definition crowded_mailbox :: "'v signal chan mailbox_state" where
  "crowded_mailbox = closed_mailbox\<lparr>mb_chan := \<lparr>ch_open = True, ch_capacity = 0, ch_queue = []\<rparr>\<rparr>"

definition unit_handles :: "(unit, unit, 's chan) mpsc_handles" where
  "unit_handles = \<lparr>mp_same_channel = (\<lambda>_ _. True), mp_capacity = (\<lambda>_ c. ch_capacity c), mp_downgrade = (\<lambda>_ c. ((), c)),
     mp_clone = (\<lambda>_ c. ((), c)), mp_strong_count = (\<lambda>_ _. 1), mp_weak_count = (\<lambda>_ _. 1), mp_clone_weak = (\<lambda>_ c. ((), c)),
     mp_weak_strong_count = (\<lambda>_ _. 1), mp_weak_weak_count = (\<lambda>_ _. 1)\<rparr>"


lemma actor_ref_order:
  "actor_ref_eq a b \<longleftrightarrow> \<not> actor_ref_less a b \<and> \<not> actor_ref_less b a"
  "actor_ref_less a b \<Longrightarrow> actor_ref_less b c \<Longrightarrow> actor_ref_less a c"
  "recipient_eq (erase_reply r) (erase_reply s) = actor_ref_eq (rr_ref r) (rr_ref s)"
  by (auto simp: actor_ref_eq_def actor_ref_less_def recipient_eq_def recipient_id_def erase_reply_def)

end
