(* ===== verification/Spawning.thy ===== *)
theory Spawning
  imports Actor_Ref Wire_Protocol
begin

text \<open>
  How actors come to run: prepared actors (\<open>src/actor/spawn.rs\<close>) and the trait \<open>Spawn\<close> and the message
  hook's default (\<open>src/actor.rs\<close>). A task that was spawned is an entry of \<open>sp_tasks\<close>; what it then does is
  \<open>run_actor_lifecycle\<close>. The abort handle is the reason \<open>Killed\<close> of that life, and the two cells for the
  results are fields of its world.
\<close>

section \<open>State\<close>

text \<open>
  A spawned life: its actor and arguments, where it runs, and the identifier its task carries as the
  current actor (\<open>CURRENT_ACTOR_ID\<close>).
\<close>

datatype task_place = TokioTask | OwnThread string

record ('h, 'r) prepared_actor =
  pa_ref :: "'h actor_ref"
  pa_rx :: "'r mailbox_receiver"

record ('h, 'r, 'a) spawned_life =
  sw_actor :: "('h, 'r) prepared_actor"
  sw_args :: 'a
  sw_place :: task_place
  sw_current :: "actor_id option"

record ('h, 'r, 'a, 'c) spawn_state =
  sp_counter :: u64
  sp_links :: link_tables
  sp_mailbox :: "'c mailbox_state"
  sp_tasks :: "('h, 'r, 'a) spawned_life list"

datatype runtime_flavor = CurrentThread | MultiThread

definition DEFAULT_MAILBOX_CAPACITY :: nat where
  "DEFAULT_MAILBOX_CAPACITY = 64"


section \<open>Prepared actors\<close>

definition prepared_actor_new ::
  "'h mailbox_sender \<times> 'r mailbox_receiver \<Rightarrow> ('h, 'r, 'a, 'c) spawn_state
    \<Rightarrow> ('h, 'r) prepared_actor \<times> ('h, 'r, 'a, 'c) spawn_state" where
  "prepared_actor_new mailbox s =
    (let (tx, rx) = mailbox; (i, counter) = generate_actor_id (sp_counter s)
     in (\<lparr>pa_ref = \<lparr>ar_id = i, ar_mailbox = tx\<rparr>, pa_rx = rx\<rparr>,
         s\<lparr>sp_counter := counter, sp_links := (sp_links s)(i := [])\<rparr>))"

text \<open>\<open>run\<close> is the life itself, in the task of the caller: the current actor is the caller's.\<close>

definition prepared_run ::
  "('b, 'v, 'e) actor_impl \<Rightarrow> ('v, 'e) runtime \<Rightarrow> bool \<Rightarrow> ('h, 'r) prepared_actor \<Rightarrow> ('v, 'e) world
    \<Rightarrow> (('b, 'v) life_result task \<times> ('v, 'e) world) option" where
  "prepared_run impl rt remote p w = run_actor_lifecycle impl rt remote (ar_id (pa_ref p)) w"

definition run_current :: "actor_id option \<Rightarrow> ('h, 'r) prepared_actor \<Rightarrow> actor_id option" where
  "run_current ambient p = ambient"

text \<open>\<open>tokio::spawn\<close> and \<open>Handle::current\<close> unwind outside of a runtime.\<close>

definition prepared_spawn ::
  "runtime_flavor option \<Rightarrow> 'a \<Rightarrow> ('h, 'r) prepared_actor \<Rightarrow> ('h, 'r, 'a, 'c) spawn_state
    \<Rightarrow> ('h, 'r, 'a, 'c) spawn_state outcome" where
  "prepared_spawn flavor args p s =
    (if flavor = None then Panicked
     else Done (s\<lparr>sp_tasks := sp_tasks s @
       [\<lparr>sw_actor = p, sw_args = args, sw_place = TokioTask, sw_current = Some (ar_id (pa_ref p))\<rparr>]\<rparr>))"

text \<open>\<open>thread_ok\<close>: the operating system gives the thread.\<close>

definition prepared_spawn_in_thread ::
  "runtime_flavor option \<Rightarrow> bool \<Rightarrow> string \<Rightarrow> 'a \<Rightarrow> ('h, 'r) prepared_actor \<Rightarrow> ('h, 'r, 'a, 'c) spawn_state
    \<Rightarrow> ('h, 'r, 'a, 'c) spawn_state outcome" where
  "prepared_spawn_in_thread flavor thread_ok name args p s =
    (case flavor of
       None \<Rightarrow> Panicked
     | Some CurrentThread \<Rightarrow> Panicked
     | Some MultiThread \<Rightarrow>
         if thread_ok
         then Done (s\<lparr>sp_tasks := sp_tasks s @
           [\<lparr>sw_actor = p, sw_args = args, sw_place = OwnThread name, sw_current = Some (ar_id (pa_ref p))\<rparr>]\<rparr>)
         else Panicked)"


section \<open>The trait \<open>Spawn\<close>\<close>

definition with_default_mailbox ::
  "('h, 'k, 'r, 'v signal, 'c) mpsc_send \<Rightarrow> ('h, 'r, 'a, 'c) spawn_state
    \<Rightarrow> ('h mailbox_sender \<times> 'r mailbox_receiver \<Rightarrow> ('h, 'r, 'a, 'c) spawn_state \<Rightarrow> 'b outcome) \<Rightarrow> 'b outcome" where
  "with_default_mailbox ops s f =
    (case mailbox_bounded ops DEFAULT_MAILBOX_CAPACITY (sp_mailbox s) of
       Panicked \<Rightarrow> Panicked
     | Done (mailbox, st) \<Rightarrow> f mailbox (s\<lparr>sp_mailbox := st\<rparr>))"

definition spawn_with_mailbox ::
  "runtime_flavor option \<Rightarrow> 'a \<Rightarrow> 'h mailbox_sender \<times> 'r mailbox_receiver \<Rightarrow> ('h, 'r, 'a, 'c) spawn_state
    \<Rightarrow> ('h actor_ref \<times> ('h, 'r, 'a, 'c) spawn_state) outcome" where
  "spawn_with_mailbox flavor args mailbox s =
    (let (p, s) = prepared_actor_new mailbox s
     in map_outcome (Pair (pa_ref p)) (prepared_spawn flavor args p s))"

definition spawn_actor ::
  "('h, 'k, 'r, 'v signal, 'c) mpsc_send \<Rightarrow> runtime_flavor option \<Rightarrow> 'a \<Rightarrow> ('h, 'r, 'a, 'c) spawn_state
    \<Rightarrow> ('h actor_ref \<times> ('h, 'r, 'a, 'c) spawn_state) outcome" where
  "spawn_actor ops flavor args s = with_default_mailbox ops s (spawn_with_mailbox flavor args)"

definition spawn_default ::
  "('h, 'k, 'r, 'v signal, 'c) mpsc_send \<Rightarrow> runtime_flavor option \<Rightarrow> 'a \<Rightarrow> ('h, 'r, 'a, 'c) spawn_state
    \<Rightarrow> ('h actor_ref \<times> ('h, 'r, 'a, 'c) spawn_state) outcome" where
  "spawn_default ops flavor default_args s = spawn_actor ops flavor default_args s"

definition spawn_link_with_mailbox ::
  "runtime_flavor option \<Rightarrow> 'g actor_ref \<Rightarrow> 'a \<Rightarrow> 'h mailbox_sender \<times> 'r mailbox_receiver \<Rightarrow> ('h, 'r, 'a, 'c) spawn_state
    \<Rightarrow> ('h actor_ref \<times> ('h, 'r, 'a, 'c) spawn_state) outcome" where
  "spawn_link_with_mailbox flavor link_ref args mailbox s =
    (let (p, s) = prepared_actor_new mailbox s;
         s = s\<lparr>sp_links := link_actors (ar_id (pa_ref p)) (ar_id link_ref) (sp_links s)\<rparr>
     in map_outcome (Pair (pa_ref p)) (prepared_spawn flavor args p s))"

definition spawn_link ::
  "('h, 'k, 'r, 'v signal, 'c) mpsc_send \<Rightarrow> runtime_flavor option \<Rightarrow> 'g actor_ref \<Rightarrow> 'a \<Rightarrow> ('h, 'r, 'a, 'c) spawn_state
    \<Rightarrow> ('h actor_ref \<times> ('h, 'r, 'a, 'c) spawn_state) outcome" where
  "spawn_link ops flavor link_ref args s = with_default_mailbox ops s (spawn_link_with_mailbox flavor link_ref args)"

definition spawn_in_thread_with_mailbox ::
  "runtime_flavor option \<Rightarrow> bool \<Rightarrow> string \<Rightarrow> 'a \<Rightarrow> 'h mailbox_sender \<times> 'r mailbox_receiver
    \<Rightarrow> ('h, 'r, 'a, 'c) spawn_state \<Rightarrow> ('h actor_ref \<times> ('h, 'r, 'a, 'c) spawn_state) outcome" where
  "spawn_in_thread_with_mailbox flavor thread_ok name args mailbox s =
    (let (p, s) = prepared_actor_new mailbox s
     in map_outcome (Pair (pa_ref p)) (prepared_spawn_in_thread flavor thread_ok name args p s))"

definition spawn_in_thread ::
  "('h, 'k, 'r, 'v signal, 'c) mpsc_send \<Rightarrow> runtime_flavor option \<Rightarrow> bool \<Rightarrow> string \<Rightarrow> 'a \<Rightarrow> ('h, 'r, 'a, 'c) spawn_state
    \<Rightarrow> ('h actor_ref \<times> ('h, 'r, 'a, 'c) spawn_state) outcome" where
  "spawn_in_thread ops flavor thread_ok name args s =
    with_default_mailbox ops s (spawn_in_thread_with_mailbox flavor thread_ok name args)"

definition prepare_with_mailbox ::
  "'h mailbox_sender \<times> 'r mailbox_receiver \<Rightarrow> ('h, 'r, 'a, 'c) spawn_state
    \<Rightarrow> (('h, 'r) prepared_actor \<times> ('h, 'r, 'a, 'c) spawn_state) outcome" where
  "prepare_with_mailbox mailbox s = Done (prepared_actor_new mailbox s)"

definition prepare_actor ::
  "('h, 'k, 'r, 'v signal, 'c) mpsc_send \<Rightarrow> ('h, 'r, 'a, 'c) spawn_state
    \<Rightarrow> (('h, 'r) prepared_actor \<times> ('h, 'r, 'a, 'c) spawn_state) outcome" where
  "prepare_actor ops s = with_default_mailbox ops s prepare_with_mailbox"


section \<open>Properties\<close>

text \<open>
  C15. An actor spawned with a link is linked before it runs, both ways and with nobody else; but if its
  \<open>on_start\<close> then fails, the actor it is linked to is not told, and keeps its link to a dead actor.
\<close>

theorem spawn_link_failed_start_unnoticed:
  assumes "spawn_link ops flavor link_ref args s = Done (ar, s')" and "ar_id ar \<noteq> ar_id link_ref"
    and "w_links w = sp_links s' (ar_id ar)"
    and "ai_on_start impl w = (started, w1)" and "start_result started = Ran (Err err)"
    and "w_links w1 = w_links w" and "w_startup_result w1 = None" and "\<And>v. snd (rt_signal_startup rt v) = v"
  shows "(\<exists>l. last (sp_tasks s') = l \<and> sw_actor l = \<lparr>pa_ref = ar, pa_rx = pa_rx (sw_actor l)\<rparr> \<and> sw_args l = args) \<and>
    sp_links s' (ar_id ar) = [(ar_id link_ref, LocalLink (ar_id link_ref))] \<and>
    hm_get (sp_links s' (ar_id link_ref)) (ar_id ar) = Some (LocalLink (ar_id ar)) \<and>
    (\<exists>w'. run_actor_lifecycle impl rt remote (ar_id ar) w = Some (Ran (Err err), w') \<and>
      w_notices w' = w_notices w1 \<and> w_links w' = [(ar_id link_ref, LocalLink (ar_id link_ref))])"
proof -
  obtain mailbox st where mb: "mailbox_bounded ops DEFAULT_MAILBOX_CAPACITY (sp_mailbox s) = Done (mailbox, st)"
    and spawned: "spawn_link_with_mailbox flavor link_ref args mailbox (s\<lparr>sp_mailbox := st\<rparr>) = Done (ar, s')"
    using assms(1) by (auto simp: spawn_link_def with_default_mailbox_def split: outcome.splits)
  obtain tx rx where mailbox: "mailbox = (tx, rx)" by (rule prod.exhaust)
  obtain i counter where i: "generate_actor_id (sp_counter s) = (i, counter)" by (rule prod.exhaust)
  have ar: "ar = \<lparr>ar_id = i, ar_mailbox = tx\<rparr>"
    and links: "sp_links s' = link_actors i (ar_id link_ref) ((sp_links s)(i := []))"
    and tasks: "sp_tasks s' = sp_tasks s @
      [\<lparr>sw_actor = \<lparr>pa_ref = ar, pa_rx = rx\<rparr>, sw_args = args, sw_place = TokioTask, sw_current = Some i\<rparr>]"
    using spawned
    by (auto simp: spawn_link_with_mailbox_def prepared_actor_new_def mailbox i prepared_spawn_def Let_def split: if_splits)
  have neq: "i \<noteq> ar_id link_ref" using assms(2) by (simp add: ar)
  have own: "sp_links s' (ar_id ar) = [(ar_id link_ref, LocalLink (ar_id link_ref))]"
    and other: "hm_get (sp_links s' (ar_id link_ref)) (ar_id ar) = Some (LocalLink (ar_id ar))"
    using neq by (auto simp: links link_actors_def Let_def ar hm_insert_def) (simp add: hm_get_def update_conv')
  show ?thesis
    using start_failure [OF assms(4,5,7,8), of remote "ar_id ar"] own other assms(3,6)
    by (auto simp: tasks)
qed

definition spawn_state0 :: "(unit, unit, nat, nat signal chan) spawn_state" where
  "spawn_state0 = \<lparr>sp_counter = 5, sp_links = (\<lambda>_. []), sp_mailbox = closed_mailbox, sp_tasks = []\<rparr>"

theorem spawn_link_failed_start_unnoticed_witness:
  "\<exists>s' w'. spawn_link one_channel (Some MultiThread) \<lparr>ar_id = ActorId 2, ar_mailbox = Bounded ()\<rparr> (0 :: nat) spawn_state0 =
      Done (\<lparr>ar_id = ActorId 5, ar_mailbox = Bounded ()\<rparr>, s') \<and>
    run_actor_lifecycle (adder\<lparr>ai_on_start := (\<lambda>w. (Unwound (Any TyUnit 0), w))\<rparr>) quiet_runtime False (ActorId 5)
      ((adder_world [])\<lparr>w_links := sp_links s' (ActorId 5)\<rparr>) =
      Some (Ran (Err (panic_error_new (AnyBox (Any TyUnit 0)) OnStart)), w') \<and>
    w_notices w' = [] \<and> w_links w' = [(ActorId 2, LocalLink (ActorId 2))]"
proof -
  obtain s' where s': "spawn_link one_channel (Some MultiThread) \<lparr>ar_id = ActorId 2, ar_mailbox = Bounded ()\<rparr> (0 :: nat) spawn_state0 =
      Done (\<lparr>ar_id = ActorId 5, ar_mailbox = Bounded ()\<rparr>, s')"
    by (simp add: spawn_link_def with_default_mailbox_def mailbox_bounded_def one_channel_def spawn_state0_def
        spawn_link_with_mailbox_def prepared_actor_new_def generate_actor_id_def prepared_spawn_def Let_def new_actor_id_def)
  show ?thesis
    using s' spawn_link_failed_start_unnoticed [OF s', of
        "(adder_world [])\<lparr>w_links := sp_links s' (ActorId 5)\<rparr>"
        "adder\<lparr>ai_on_start := (\<lambda>w. (Unwound (Any TyUnit 0), w))\<rparr>" "Unwound (Any TyUnit 0)" _
        "panic_error_new (AnyBox (Any TyUnit 0)) OnStart" quiet_runtime False]
    by (auto simp: quiet_runtime_def new_from_panic_any_def adder_world_def)
qed

text \<open>
  What an actor tells itself while it starts depends on how it was started: as a spawned task it
  handles the message at once, although its startup is not finished; run in place by a caller that is
  no actor or another one, it buffers the message like everybody else's.
\<close>

theorem self_tell_depends_on_start:
  assumes "prepared_spawn flavor args p s = Done s'" and "ambient \<noteq> Some (ar_id (pa_ref p))"
    and "\<not> ab_finished_startup b"
  shows "request_signal (sw_current (last (sp_tasks s'))) (pa_ref p) t msg None =
      MessageSignal (Any t msg) (ar_id (pa_ref p)) None True \<and>
    request_signal (run_current ambient p) (pa_ref p) t msg None = MessageSignal (Any t msg) (ar_id (pa_ref p)) None False \<and>
    dispatch impl (Some (request_signal (run_current ambient p) (pa_ref p) t msg None)) b w =
      (Ran Continue, b\<lparr>ab_startup_buffer := ab_startup_buffer b @
         [MessageSignal (Any t msg) (ar_id (pa_ref p)) None False]\<rparr>, w) \<and>
    ab_startup_buffer (fst (snd (dispatch impl (Some (request_signal (sw_current (last (sp_tasks s'))) (pa_ref p) t msg None)) b w))) =
      ab_startup_buffer b"
proof -
  have current: "sw_current (last (sp_tasks s')) = Some (ar_id (pa_ref p))"
    using assms(1) by (auto simp: prepared_spawn_def split: if_splits)
  show ?thesis
    using assms(2,3)
    by (auto simp: current run_current_def request_signal_def is_current_def handle_message_def Let_def
        split: hook.splits result.splits prod.splits)
qed

theorem self_tell_depends_on_start_witness:
  "ab_startup_buffer (fst (snd (dispatch adder (Some (request_signal None \<lparr>ar_id = ActorId 1, ar_mailbox = Bounded ()\<rparr> (TyNamed 0) 5 None))
      (new_from_actor 0 (ActorId 1)) (adder_world [])))) = [MessageSignal (Any (TyNamed 0) 5) (ActorId 1) None False]"
proof -
  define p :: "(unit, unit) prepared_actor" where
    "p = \<lparr>pa_ref = \<lparr>ar_id = ActorId 1, ar_mailbox = Bounded ()\<rparr>, pa_rx = BoundedRx ()\<rparr>"
  have "prepared_spawn (Some MultiThread) (0 :: nat) p spawn_state0 =
      Done (spawn_state0\<lparr>sp_tasks := [\<lparr>sw_actor = p, sw_args = 0, sw_place = TokioTask, sw_current = Some (ActorId 1)\<rparr>]\<rparr>)"
    by (simp add: prepared_spawn_def spawn_state0_def p_def)
  note told = self_tell_depends_on_start [OF this, of None "new_from_actor 0 (ActorId 1)" "TyNamed 0" 5 adder "adder_world []"]
  from told [THEN conjunct2, THEN conjunct2, THEN conjunct1]
  show ?thesis by (simp add: p_def run_current_def new_from_actor_def del: dispatch.simps)
qed
end
