(* ===== verification/Message_Macro.thy ===== *)
theory Message_Macro
  imports Kameo_Prelude
begin

text \<open>
  The attribute macro \<open>#[messages]\<close> (\<open>macros/src/messages.rs\<close>): from the marked methods of an \<open>impl\<close>
  block it makes a struct and an \<open>impl Message\<close> each. What \<open>syn\<close> gives the macro is a datatype with the
  variants the code matches on; tokens and the parser of \<open>syn\<close> are parameters. What the macro emits
  is kept as the parts of the declarations it quotes.
\<close>

section \<open>Syntax trees\<close>

text \<open>
  A segment of a path has arguments or not; \<open>T\<close> stands for itself and \<open>Vec<T>\<close> for a segment with the
  argument \<open>T\<close>. Types the code does not match on are \<open>TyOther\<close>.
\<close>

datatype syn_type =
    TyArray syn_type
  | TyBareFn "syn_type list" "syn_type option"
  | TyGroup syn_type
  | TyImplTrait
  | TyInfer
  | TyMacro
  | TyNever
  | TyParen syn_type
  | TyPath bool "(string \<times> syn_type list option) list"
  | TyPtr syn_type
  | TyReference "string option" syn_type
  | TySlice syn_type
  | TyTraitObject "bound list"
  | TyTuple "syn_type list"
  | TyVerbatim
  | TyOther
and bound =
    BoundTrait bool "(string \<times> syn_type list option) list"
  | BoundLifetime string
  | BoundVerbatim

text \<open>A generic parameter with its name and its bounds or type, as text.\<close>

datatype syn_generic = GpLifetime string "string list" | GpType string "string list" | GpConst string "string list"

text \<open>\<open>Path::get_ident\<close>: a single segment without arguments, and without a leading colon.\<close>

fun get_ident :: "bool \<Rightarrow> (string \<times> 'a option) list \<Rightarrow> string option" where
  "get_ident False [(x, None)] = Some x"
| "get_ident _ _ = None"

definition is_type_param :: "syn_generic list \<Rightarrow> string \<Rightarrow> bool" where
  "is_type_param generics x = list_ex (\<lambda>g. case g of GpType y _ \<Rightarrow> y = x | _ \<Rightarrow> False) generics"

definition is_lifetime_param :: "syn_generic list \<Rightarrow> string \<Rightarrow> bool" where
  "is_lifetime_param generics x = list_ex (\<lambda>g. case g of GpLifetime y _ \<Rightarrow> y = x | _ \<Rightarrow> False) generics"


section \<open>Types of parameters\<close>

text \<open>Errors: the texts of the macro, and those of \<open>syn\<close>.\<close>

datatype 'e macro_error = MacroError string | SynError 'e

fun validate_param :: "syn_type \<Rightarrow> (unit, 'e macro_error) result" where
  "validate_param TyImplTrait = Err (MacroError ''impl trait types are not supported in actor messages'')"
| "validate_param TyInfer = Err (MacroError ''type cannot be inferred in actor messages'')"
| "validate_param (TyReference _ _) = Err (MacroError ''references cannot be used in messages'')"
| "validate_param (TyGroup ty) = validate_param ty"
| "validate_param (TyParen ty) = validate_param ty"
| "validate_param _ = Ok ()"

definition ident_generic :: "syn_generic list \<Rightarrow> string option \<Rightarrow> syn_generic list" where
  "ident_generic generics ident =
    (case ident of Some x \<Rightarrow> if is_type_param generics x then [GpType x []] else [] | None \<Rightarrow> [])"

definition lifetime_generic :: "syn_generic list \<Rightarrow> string \<Rightarrow> syn_generic list" where
  "lifetime_generic generics x = (if is_lifetime_param generics x then [GpLifetime x []] else [])"

fun bound_generic :: "syn_generic list \<Rightarrow> bound \<Rightarrow> syn_generic list" where
  "bound_generic generics (BoundTrait colon segs) = ident_generic generics (get_ident colon segs)"
| "bound_generic generics (BoundLifetime x) = lifetime_generic generics x"
| "bound_generic generics BoundVerbatim = []"

fun contains_generic_in_param :: "syn_generic list \<Rightarrow> syn_type \<Rightarrow> syn_generic list" where
  "contains_generic_in_param gs (TyArray ty) = contains_generic_in_param gs ty"
| "contains_generic_in_param gs (TyBareFn inputs output) =
    concat (map (contains_generic_in_param gs) inputs)
      @ (case output of Some ty \<Rightarrow> contains_generic_in_param gs ty | None \<Rightarrow> [])"
| "contains_generic_in_param gs (TyGroup ty) = contains_generic_in_param gs ty"
| "contains_generic_in_param gs (TyParen ty) = contains_generic_in_param gs ty"
| "contains_generic_in_param gs (TyPath colon segs) = ident_generic gs (get_ident colon segs)"
| "contains_generic_in_param gs (TyPtr ty) = contains_generic_in_param gs ty"
| "contains_generic_in_param gs (TyReference lifetime ty) =
    (case lifetime of Some x \<Rightarrow> lifetime_generic gs x | None \<Rightarrow> []) @ contains_generic_in_param gs ty"
| "contains_generic_in_param gs (TySlice ty) = contains_generic_in_param gs ty"
| "contains_generic_in_param gs (TyTraitObject bounds) = concat (map (bound_generic gs) bounds)"
| "contains_generic_in_param gs (TyTuple elems) = concat (map (contains_generic_in_param gs) elems)"
| "contains_generic_in_param gs _ = []"


section \<open>Attributes\<close>

datatype 't syn_expr = ExprPath bool "(string \<times> syn_type list option) list" | ExprOther 't

datatype 't syn_meta =
    MetaPath bool "(string \<times> syn_type list option) list"
  | MetaList bool "(string \<times> syn_type list option) list" 't
  | MetaNameValue bool "(string \<times> syn_type list option) list" "'t syn_expr"

text \<open>The first segment of a path, and a path of one segment with that name.\<close>

fun first_is :: "string \<Rightarrow> (string \<times> 'a) list \<Rightarrow> bool" where
  "first_is x [] = False"
| "first_is x ((y, _) # _) = (y = x)"

definition one_segment :: "string \<Rightarrow> (string \<times> 'a) list \<Rightarrow> bool" where
  "one_segment x segs = (length segs = 1 \<and> first_is x segs)"

fun is_doc :: "'t syn_meta \<Rightarrow> bool" where
  "is_doc (MetaNameValue _ segs _) = first_is ''doc'' segs"
| "is_doc _ = False"

text \<open>
  What \<open>syn\<close> does with tokens: the comma-separated list of the arguments of \<open>#[message(..)]\<close>, and the
  error of \<open>require_ident\<close> for a path that is no identifier. \<open>sy_is_ident\<close> are the strings that
  \<open>Ident::new\<close> takes; it unwinds on others, as on the empty string and on one that begins with a digit.
\<close>

record ('t, 'e) syn_ops =
  sy_parse_metas :: "'t \<Rightarrow> ('t syn_meta list, 'e) result"
  sy_require_ident_error :: "bool \<Rightarrow> (string \<times> syn_type list option) list \<Rightarrow> 'e"
  sy_is_ident :: "string \<Rightarrow> bool"

text \<open>The closures of the extraction share these variables.\<close>

record ('t, 'e) attr_state =
  as_is_message :: bool
  as_ctx :: "string option"
  as_attrs :: "'t syn_meta list"
  as_errors :: "'e macro_error list"

text \<open>One argument of \<open>#[message(..)]\<close>: kept as an attribute of the struct, or taken as \<open>ctx\<close>.\<close>

fun message_arg :: "('t, 'e) syn_ops \<Rightarrow> 't syn_meta \<Rightarrow> ('t, 'e) attr_state \<Rightarrow> ('t, 'e) attr_state" where
  "message_arg sy (MetaPath colon segs) st =
    (if as_ctx st = None \<and> get_ident colon segs = Some ''ctx'' then st\<lparr>as_ctx := Some ''ctx''\<rparr>
     else st\<lparr>as_attrs := as_attrs st @ [MetaPath colon segs]\<rparr>)"
| "message_arg sy (MetaNameValue colon segs val) st =
    (if as_ctx st = None \<and> get_ident colon segs = Some ''ctx''
     then (case val of
             ExprPath c ss \<Rightarrow>
               (case get_ident c ss of
                  Some ident \<Rightarrow> st\<lparr>as_ctx := Some ident\<rparr>
                | None \<Rightarrow> st\<lparr>as_errors := as_errors st @ [SynError (sy_require_ident_error sy c ss)]\<rparr>)
           | ExprOther _ \<Rightarrow> st\<lparr>as_errors := as_errors st @ [MacroError ''expected ctx attr to be an ident'']\<rparr>)
     else st\<lparr>as_attrs := as_attrs st @ [MetaNameValue colon segs val]\<rparr>)"
| "message_arg sy (MetaList colon segs toks) st = st\<lparr>as_attrs := as_attrs st @ [MetaList colon segs toks]\<rparr>"

text \<open>The closure of \<open>retain\<close>: whether the attribute stays on the method.\<close>

fun retain_attr :: "('t, 'e) syn_ops \<Rightarrow> 't syn_meta \<Rightarrow> ('t, 'e) attr_state \<Rightarrow> bool \<times> ('t, 'e) attr_state" where
  "retain_attr sy m st =
    (if as_is_message st then (True, st)
     else case m of
       MetaPath _ segs \<Rightarrow> if one_segment ''message'' segs then (False, st\<lparr>as_is_message := True\<rparr>) else (True, st)
     | MetaList _ segs toks \<Rightarrow>
         if one_segment ''message'' segs
         then let st = st\<lparr>as_is_message := True\<rparr>
              in case sy_parse_metas sy toks of
                   Ok items \<Rightarrow> (False, fold (message_arg sy) items st)
                 | Err err \<Rightarrow> (False, st\<lparr>as_errors := as_errors st @ [SynError err]\<rparr>)
         else (True, st)
     | MetaNameValue _ _ _ \<Rightarrow> (True, st))"

fun retain_attrs ::
  "('t, 'e) syn_ops \<Rightarrow> 't syn_meta list \<Rightarrow> ('t, 'e) attr_state \<Rightarrow> 't syn_meta list \<times> ('t, 'e) attr_state" where
  "retain_attrs sy [] st = ([], st)"
| "retain_attrs sy (m # ms) st =
    (let (keep, st) = retain_attr sy m st; (rest, st) = retain_attrs sy ms st
     in (if keep then m # rest else rest, st))"

section \<open>Methods and messages\<close>

datatype syn_pat = PatIdent string | PatOther

text \<open>A parameter of a method: the receiver, or a pattern with its attributes and its type.\<close>

datatype 't fn_arg = Receiver | Typed "'t syn_meta list" syn_pat syn_type

record 't signature =
  sg_ident :: string
  sg_async :: bool
  sg_generics :: "syn_generic list"
  sg_inputs :: "'t fn_arg list"
  sg_output :: "syn_type option"

record 't impl_fn =
  fn_attrs :: "'t syn_meta list"
  fn_vis :: string
  fn_sig :: "'t signature"

text \<open>An item of the block that is no method is only passed on.\<close>

datatype ('t, 'o) impl_item = ImplFn "'t impl_fn" | ImplOther 'o

record ('t, 'o) item_impl =
  ii_self_ty :: syn_type
  ii_generics :: "syn_generic list"
  ii_items :: "('t, 'o) impl_item list"

record 't field =
  fd_docs :: "'t syn_meta list"
  fd_ident :: string
  fd_type :: syn_type

record 't macro_message =
  me_vis :: string
  me_sig :: "'t signature"
  me_ident :: string
  me_fields :: "'t field list"
  me_attrs :: "'t syn_meta list"
  me_generics :: "syn_generic list"
  me_ctx :: "(string \<times> nat) option"

text \<open>
  \<open>Message::try_from\<close> goes over the parameters with their index: the receiver is skipped, the context
  gives its position, and the others become fields in order. The first parameter without a name is an
  error. \<open>heck\<close> makes the name of the struct, \<open>format_ident!\<close> its identifier, before all that.
\<close>

fun ctx_position :: "string option \<Rightarrow> nat \<Rightarrow> 't fn_arg list \<Rightarrow> nat option \<Rightarrow> nat option" where
  "ctx_position ctx i [] pos = pos"
| "ctx_position ctx i (Receiver # args) pos = ctx_position ctx (Suc i) args pos"
| "ctx_position ctx i (Typed _ pat _ # args) pos =
    (case (ctx, pat) of
       (Some c, PatIdent x) \<Rightarrow> ctx_position ctx (Suc i) args (if x = c then Some (i - 1) else pos)
     | _ \<Rightarrow> ctx_position ctx (Suc i) args pos)"

definition is_ctx :: "string option \<Rightarrow> syn_pat \<Rightarrow> bool" where
  "is_ctx ctx pat = (case (ctx, pat) of (Some c, PatIdent x) \<Rightarrow> x = c | _ \<Rightarrow> False)"

fun message_fields ::
  "string option \<Rightarrow> ('t fn_arg \<times> 't syn_meta list) list \<Rightarrow> ('t field list, 'e macro_error) result" where
  "message_fields ctx [] = Ok []"
| "message_fields ctx ((Receiver, _) # args) = message_fields ctx args"
| "message_fields ctx ((Typed _ pat ty, docs) # args) =
    (if is_ctx ctx pat then message_fields ctx args
     else case pat of
       PatIdent x \<Rightarrow> map_ok (\<lambda>fs. \<lparr>fd_docs = docs, fd_ident = x, fd_type = ty\<rparr> # fs) (message_fields ctx args)
     | PatOther \<Rightarrow> Err (MacroError ''unsupported pattern - argments must be named when used with the actor macro''))"

definition format_ident :: "('t, 'e) syn_ops \<Rightarrow> string \<Rightarrow> string outcome" where
  "format_ident sy s = (if sy_is_ident sy s then Done s else Panicked)"

definition message_try_from ::
  "('t, 'e) syn_ops \<Rightarrow> (string \<Rightarrow> string) \<Rightarrow> string \<Rightarrow> 't signature \<Rightarrow> 't syn_meta list \<Rightarrow> 't syn_meta list list
    \<Rightarrow> syn_generic list \<Rightarrow> string option \<Rightarrow> ('t macro_message, 'e macro_error) result outcome" where
  "message_try_from sy camel vis sg attrs field_doc_attrs generics ctx =
    map_outcome (\<lambda>ident.
      map_ok (\<lambda>fields.
        \<lparr>me_vis = vis, me_sig = sg, me_ident = ident, me_fields = fields, me_attrs = attrs,
         me_generics = generics,
         me_ctx = (case (ctx, ctx_position ctx 0 (sg_inputs sg) None) of (Some c, Some i) \<Rightarrow> Some (c, i) | _ \<Rightarrow> None)\<rparr>)
        (message_fields ctx (zip (sg_inputs sg) field_doc_attrs)))
      (format_ident sy (camel (sg_ident sg)))"


section \<open>Generics of a message\<close>

definition gp_lifetimes :: "syn_generic list \<Rightarrow> syn_generic list" where
  "gp_lifetimes = filter (\<lambda>g. case g of GpLifetime _ _ \<Rightarrow> True | _ \<Rightarrow> False)"

definition gp_types :: "syn_generic list \<Rightarrow> syn_generic list" where
  "gp_types = filter (\<lambda>g. case g of GpType _ _ \<Rightarrow> True | _ \<Rightarrow> False)"

text \<open>The parameters of the block that the method does not declare itself.\<close>

definition impl_item_generics :: "syn_generic list \<Rightarrow> syn_generic list \<Rightarrow> syn_generic list" where
  "impl_item_generics impl own =
    filter (\<lambda>g. g \<notin> set (gp_lifetimes own)) (gp_lifetimes impl) @ filter (\<lambda>g. g \<notin> set (gp_types own)) (gp_types impl)"

text \<open>What the types of the parameters and of the result use of them, in order.\<close>

fun arg_generics :: "string option \<Rightarrow> syn_generic list \<Rightarrow> 't fn_arg \<Rightarrow> syn_generic list" where
  "arg_generics ctx gs Receiver = []"
| "arg_generics ctx gs (Typed _ pat ty) = (if is_ctx ctx pat then [] else contains_generic_in_param gs ty)"

fun arg_errors :: "string option \<Rightarrow> 't fn_arg \<Rightarrow> 'e macro_error list" where
  "arg_errors ctx Receiver = []"
| "arg_errors ctx (Typed _ pat ty) =
    (if is_ctx ctx pat then [] else case validate_param ty of Ok _ \<Rightarrow> [] | Err err \<Rightarrow> [err])"

definition used_generics :: "string option \<Rightarrow> syn_generic list \<Rightarrow> 't signature \<Rightarrow> syn_generic list" where
  "used_generics ctx gs sg =
    concat (map (arg_generics ctx gs) (sg_inputs sg))
      @ (case sg_output sg of Some ty \<Rightarrow> contains_generic_in_param gs ty | None \<Rightarrow> [])"

text \<open>
  \<open>parse_quote!\<close> of \<open><#( #lifetimes ),* #( #types, )*>\<close>: there is no comma between the two groups, so
  unless one of them is empty the tokens are no generics and the macro unwinds. \<open>dedup\<close> drops equal
  neighbours.
\<close>

definition quote_generics :: "syn_generic list \<Rightarrow> syn_generic list \<Rightarrow> syn_generic list outcome" where
  "quote_generics lifetimes types = (if lifetimes \<noteq> [] \<and> types \<noteq> [] then Panicked else Done (lifetimes @ types))"

definition message_generics ::
  "string option \<Rightarrow> syn_generic list \<Rightarrow> 't signature \<Rightarrow> syn_generic list outcome" where
  "message_generics ctx impl sg =
    (let generics = remdups_adj (used_generics ctx (impl_item_generics impl (sg_generics sg)) sg)
     in if generics = [] then Done (sg_generics sg)
        else quote_generics (gp_lifetimes generics @ gp_lifetimes (sg_generics sg)) (gp_types generics @ gp_types (sg_generics sg)))"


section \<open>Extracting the messages\<close>

text \<open>The doc attributes of a parameter go to the field and leave the method.\<close>

fun take_docs :: "'t fn_arg \<Rightarrow> 't fn_arg \<times> 't syn_meta list" where
  "take_docs Receiver = (Receiver, [])"
| "take_docs (Typed attrs pat ty) = (Typed (filter (\<lambda>m. \<not> is_doc m) attrs) pat ty, filter is_doc attrs)"

definition strip_docs :: "'t impl_fn \<Rightarrow> 't impl_fn" where
  "strip_docs f = f\<lparr>fn_sig := (fn_sig f)\<lparr>sg_inputs := map (fst \<circ> take_docs) (sg_inputs (fn_sig f))\<rparr>\<rparr>"

fun has_receiver :: "'t fn_arg list \<Rightarrow> bool" where
  "has_receiver (Receiver # _) = True"
| "has_receiver _ = False"

text \<open>
  One method: the method as it stays in the block, its message if it is marked and made no error, and
  the errors it adds.
\<close>

type_synonym ('t, 'e) extraction = "'t impl_fn \<times> 't macro_message option \<times> 'e macro_error list"

definition extract_method ::
  "('t, 'e) syn_ops \<Rightarrow> (string \<Rightarrow> string) \<Rightarrow> syn_generic list \<Rightarrow> 't impl_fn \<Rightarrow> ('t, 'e) extraction outcome" where
  "extract_method sy camel impl f =
    (let (kept, st) = retain_attrs sy (fn_attrs f)
           \<lparr>as_is_message = False, as_ctx = None, as_attrs = filter is_doc (fn_attrs f), as_errors = []\<rparr>;
         f = f\<lparr>fn_attrs := kept\<rparr>;
         sg = fn_sig f;
         errors = as_errors st @ concat (map (arg_errors (as_ctx st)) (sg_inputs sg))
     in if \<not> as_is_message st then Done (f, None, as_errors st)
        else case message_generics (as_ctx st) impl sg of
          Panicked \<Rightarrow> Panicked
        | Done generics \<Rightarrow>
            (if \<not> has_receiver (sg_inputs sg)
             then Done (f, None, errors @ [MacroError ''messages must take &mut self or &self''])
             else
               let docs = map (snd \<circ> take_docs) (sg_inputs sg); f = strip_docs f
               in case message_try_from sy camel (fn_vis f) (fn_sig f) (as_attrs st) docs generics (as_ctx st) of
                    Panicked \<Rightarrow> Panicked
                  | Done (Ok m) \<Rightarrow> Done (f, if errors = [] then Some m else None, errors)
                  | Done (Err err) \<Rightarrow> Done (f, None, errors @ [err])))"

fun extract_items ::
  "('t, 'e) syn_ops \<Rightarrow> (string \<Rightarrow> string) \<Rightarrow> syn_generic list \<Rightarrow> ('t, 'o) impl_item list
    \<Rightarrow> (('t, 'o) impl_item list \<times> 't macro_message list \<times> 'e macro_error list) outcome" where
  "extract_items sy camel impl [] = Done ([], [], [])"
| "extract_items sy camel impl (ImplOther x # items) =
    map_outcome (\<lambda>(is, ms, es). (ImplOther x # is, ms, es)) (extract_items sy camel impl items)"
| "extract_items sy camel impl (ImplFn f # items) =
    (case extract_method sy camel impl f of
       Panicked \<Rightarrow> Panicked
     | Done (f, m, errors) \<Rightarrow>
         map_outcome (\<lambda>(is, ms, es). (ImplFn f # is, (case m of Some m \<Rightarrow> m # ms | None \<Rightarrow> ms), errors @ es))
           (extract_items sy camel impl items))"

text \<open>The errors are combined into one, each in front of those before it.\<close>

definition combined_error :: "'e macro_error list \<Rightarrow> 'e macro_error list option" where
  "combined_error errors =
    (case errors of [] \<Rightarrow> None | first # rest \<Rightarrow> Some (fold (\<lambda>errors err. [errors] @ err) rest [first]))"

definition extract_messages ::
  "('t, 'e) syn_ops \<Rightarrow> (string \<Rightarrow> string) \<Rightarrow> ('t, 'o) item_impl
    \<Rightarrow> (('t, 'o) item_impl \<times> 't macro_message list \<times> 'e macro_error list option) outcome" where
  "extract_messages sy camel impl =
    map_outcome (\<lambda>(items, ms, errors). (impl\<lparr>ii_items := items\<rparr>, ms, combined_error errors))
      (extract_items sy camel (ii_generics impl) (ii_items impl))"


section \<open>What is emitted\<close>

text \<open>
  \<open>expand_msgs\<close> declares a struct; one without fields is declared without generics. \<open>expand_msg_impls\<close>
  implements \<open>Message\<close> for it; the handler's body calls the method.
\<close>

record 't struct_decl =
  st_attrs :: "'t syn_meta list"
  st_vis :: string
  st_ident :: string
  st_generics :: "syn_generic list"
  st_fields :: "'t field list"

definition expand_msg :: "'t macro_message \<Rightarrow> 't struct_decl" where
  "expand_msg m =
    \<lparr>st_attrs = me_attrs m, st_vis = me_vis m, st_ident = me_ident m,
     st_generics = (if me_fields m = [] then [] else me_generics m), st_fields = me_fields m\<rparr>"

text \<open>An argument of the call: a field of the message, or the context.\<close>

datatype call_arg = MsgField string | CtxArg string

record msg_impl =
  mi_actor :: "string \<times> syn_generic list"
  mi_generics :: "syn_generic list"
  mi_msg :: string
  mi_msg_generics :: "syn_generic list"
  mi_reply :: "syn_type option"
  mi_ctx :: string
  mi_method :: string
  mi_params :: "call_arg list"
  mi_await :: bool

text \<open>\<open>Vec::insert\<close> unwinds beyond the end.\<close>

definition vec_insert :: "nat \<Rightarrow> 'a \<Rightarrow> 'a list \<Rightarrow> 'a list outcome" where
  "vec_insert i x xs = (if i \<le> length xs then Done (take i xs @ x # drop i xs) else Panicked)"

definition expand_msg_impl :: "string \<Rightarrow> syn_generic list \<Rightarrow> 't macro_message \<Rightarrow> msg_impl outcome" where
  "expand_msg_impl actor impl m =
    (let params = map (MsgField \<circ> fd_ident) (me_fields m)
     in map_outcome (\<lambda>params.
          \<lparr>mi_actor = (actor, impl), mi_generics = impl @ sg_generics (me_sig m), mi_msg = me_ident m, mi_msg_generics = me_generics m,
           mi_reply = sg_output (me_sig m), mi_ctx = (case me_ctx m of Some (c, _) \<Rightarrow> c | None \<Rightarrow> ''_ctx''),
           mi_method = sg_ident (me_sig m), mi_params = params, mi_await = sg_async (me_sig m)\<rparr>)
        (case me_ctx m of Some (c, i) \<Rightarrow> vec_insert i (CtxArg c) params | None \<Rightarrow> Done params))"

fun expand_msg_impls :: "string \<Rightarrow> syn_generic list \<Rightarrow> 't macro_message list \<Rightarrow> msg_impl list outcome" where
  "expand_msg_impls actor impl [] = Done []"
| "expand_msg_impls actor impl (m # ms) =
    (case (expand_msg_impl actor impl m, expand_msg_impls actor impl ms) of
       (Done i, Done is) \<Rightarrow> Done (i # is)
     | _ \<Rightarrow> Panicked)"

text \<open>\<open>Messages::parse\<close> takes the last segment of the block's type as the name of the actor.\<close>

record ('t, 'o, 'e) messages =
  ms_item_impl :: "('t, 'o) item_impl"
  ms_ident :: string
  ms_messages :: "'t macro_message list"
  ms_errors :: "'e macro_error list option"

definition self_ident :: "syn_type \<Rightarrow> (string, 'e macro_error) result" where
  "self_ident ty =
    (case ty of
       TyPath _ segs \<Rightarrow> if segs = [] then Err (MacroError ''missing ident from path'') else Ok (fst (last segs))
     | _ \<Rightarrow> Err (MacroError ''expected a path or ident''))"

definition messages_parse ::
  "('t, 'e) syn_ops \<Rightarrow> (string \<Rightarrow> string) \<Rightarrow> ('t, 'o) item_impl \<Rightarrow> (('t, 'o, 'e) messages, 'e macro_error) result outcome" where
  "messages_parse sy camel impl =
    (case self_ident (ii_self_ty impl) of
       Err err \<Rightarrow> Done (Err err)
     | Ok ident \<Rightarrow>
         map_outcome (\<lambda>(impl, ms, errors). Ok \<lparr>ms_item_impl = impl, ms_ident = ident, ms_messages = ms, ms_errors = errors\<rparr>)
           (extract_messages sy camel impl))"

text \<open>\<open>to_tokens\<close>: the block, the structs, the implementations and the compile errors, in this order.\<close>

definition messages_tokens ::
  "('t, 'o, 'e) messages \<Rightarrow> (('t, 'o) item_impl \<times> 't struct_decl list \<times> msg_impl list \<times> 'e macro_error list option) outcome" where
  "messages_tokens ms =
    map_outcome (\<lambda>impls. (ms_item_impl ms, map expand_msg (ms_messages ms), impls, ms_errors ms))
      (expand_msg_impls (ms_ident ms) (ii_generics (ms_item_impl ms)) (ms_messages ms))"


section \<open>Lemmas\<close>

lemma remdups_adj_eq_Nil [simp]: "remdups_adj xs = [] \<longleftrightarrow> xs = []"
  by (induction xs rule: remdups_adj.induct) auto

lemma is_type_param_iff: "is_type_param gs T \<longleftrightarrow> (\<exists>b. GpType T b \<in> set gs)"
proof (induction gs)
  case (Cons g gs)
  then show ?case by (cases g) (auto simp: is_type_param_def)
qed (simp add: is_type_param_def)

lemma message_try_from_Ok:
  fixes sy :: "('t, 'e) syn_ops"
  shows "message_try_from sy camel vis sg attrs docs generics ctx = Done (Ok m) \<longleftrightarrow> sy_is_ident sy (camel (sg_ident sg)) \<and>
    (\<exists>fields. message_fields ctx (zip (sg_inputs sg) docs) = (Ok fields :: ('t field list, 'e macro_error) result) \<and>
      m = \<lparr>me_vis = vis, me_sig = sg, me_ident = camel (sg_ident sg), me_fields = fields, me_attrs = attrs,
         me_generics = generics,
         me_ctx = (case (ctx, ctx_position ctx 0 (sg_inputs sg) None) of (Some c, Some i) \<Rightarrow> Some (c, i) | _ \<Rightarrow> None)\<rparr>)"
proof (cases "message_fields ctx (zip (sg_inputs sg) docs) :: ('t field list, 'e macro_error) result")
  case (Ok fields)
  then show ?thesis by (auto simp: message_try_from_def format_ident_def)
qed (simp add: message_try_from_def format_ident_def)

lemma message_try_from_Panicked:
  "message_try_from sy camel vis sg attrs docs generics ctx = Panicked \<longleftrightarrow> \<not> sy_is_ident sy (camel (sg_ident sg))"
  by (simp add: message_try_from_def format_ident_def)

lemma case_result_Panicked:
  "(case r of Panicked \<Rightarrow> Panicked | Done (Ok m) \<Rightarrow> Done (f m) | Done (Err e) \<Rightarrow> Done (g e)) = Panicked \<longleftrightarrow> r = Panicked"
  by (simp split: outcome.split result.split)

lemma strip_docs_ident [simp]: "sg_ident (fn_sig (strip_docs f)) = sg_ident (fn_sig f)"
  by (simp add: strip_docs_def)

lemma extract_method_Panicked:
  fixes sy :: "('t, 'e) syn_ops"
  assumes "retain_attrs sy (fn_attrs f) \<lparr>as_is_message = False, as_ctx = None, as_attrs = filter is_doc (fn_attrs f), as_errors = []\<rparr> = (kept, st)"
  shows "extract_method sy camel impl f = Panicked \<longleftrightarrow> as_is_message st \<and>
    (message_generics (as_ctx st) impl (fn_sig f) = Panicked \<or>
     has_receiver (sg_inputs (fn_sig f)) \<and> \<not> sy_is_ident sy (camel (sg_ident (fn_sig f))))"
  unfolding extract_method_def assms Let_def prod.case
  by (cases "message_generics (as_ctx st) impl (fn_sig f)") (simp_all add: case_result_Panicked message_try_from_Panicked)

text \<open>A message that was extracted comes from a marked method without errors.\<close>

lemma extract_method_Some:
  fixes sy :: "('t, 'e) syn_ops"
  assumes "extract_method sy camel impl f = Done (f', Some m, errors)"
  obtains st kept generics where
    "retain_attrs sy (fn_attrs f) \<lparr>as_is_message = False, as_ctx = None, as_attrs = filter is_doc (fn_attrs f), as_errors = []\<rparr> = (kept, st)"
    "as_is_message st" "message_generics (as_ctx st) impl (fn_sig f) = Done generics" "has_receiver (sg_inputs (fn_sig f))"
    "message_try_from sy camel (fn_vis f) (fn_sig (strip_docs f)) (as_attrs st) (map (snd \<circ> take_docs) (sg_inputs (fn_sig f)))
      generics (as_ctx st) = Done (Ok m)"
    "errors = []" "f' = strip_docs (f\<lparr>fn_attrs := kept\<rparr>)"
    "\<forall>arg \<in> set (sg_inputs (fn_sig f)). arg_errors (as_ctx st) arg = ([] :: 'e macro_error list)"
proof -
  obtain kept st where st: "retain_attrs sy (fn_attrs f)
      \<lparr>as_is_message = False, as_ctx = None, as_attrs = filter is_doc (fn_attrs f), as_errors = []\<rparr> = (kept, st)"
    by (rule prod.exhaust)
  have strip: "fn_sig (strip_docs (f\<lparr>fn_attrs := kept\<rparr>)) = fn_sig (strip_docs f)"
    "fn_vis (strip_docs (f\<lparr>fn_attrs := kept\<rparr>)) = fn_vis f"
    by (simp_all add: strip_docs_def)
  show ?thesis
    using assms that [OF st]
    by (auto simp: extract_method_def st Let_def strip split: if_splits outcome.splits result.splits)
qed

text \<open>The parameters after the receiver: their names, the fields, and the place of the context.\<close>

fun arg_ident :: "'t fn_arg \<Rightarrow> string option" where
  "arg_ident Receiver = None"
| "arg_ident (Typed _ (PatIdent x) _) = Some x"
| "arg_ident (Typed _ PatOther _) = None"

definition arg_idents :: "'t fn_arg list \<Rightarrow> string list" where
  "arg_idents args = List.map_filter arg_ident args"

lemma arg_idents_simps [simp]:
  "arg_idents [] = []"
  "arg_idents (Receiver # args) = arg_idents args"
  "arg_idents (Typed attrs (PatIdent x) ty # args) = x # arg_idents args"
  "arg_idents (Typed attrs PatOther ty # args) = arg_idents args"
  by (simp_all add: arg_idents_def List.map_filter_simps)

lemma arg_idents_strip [simp]: "arg_idents (map (fst \<circ> take_docs) args) = arg_idents args"
proof (induction args)
  case (Cons arg args)
  then show ?case by (cases arg rule: arg_ident.cases) simp_all
qed simp

lemma message_fields_idents:
  "message_fields ctx (zip args docs) = Ok fs \<Longrightarrow> length docs = length args \<Longrightarrow> Receiver \<notin> set args \<Longrightarrow>
    map fd_ident fs = filter (\<lambda>x. ctx \<noteq> Some x) (arg_idents args) \<and> length (arg_idents args) = length args"
proof (induction args arbitrary: docs fs)
  case (Cons arg args)
  then obtain d ds where docs: "docs = d # ds" by (cases docs) auto
  show ?case
  proof (cases arg rule: arg_ident.cases)
    case (2 attrs x ty)
    then show ?thesis using Cons.prems Cons.IH [of ds] by (auto simp: docs is_ctx_def split: if_splits option.splits)
  next
    case (3 attrs ty)
    then show ?thesis using Cons.prems by (auto simp: docs is_ctx_def split: option.splits)
  qed (use Cons.prems in auto)
qed simp

lemma ctx_position_absent:
  "c \<notin> set (arg_idents args) \<Longrightarrow> ctx_position (Some c) i args pos = pos"
proof (induction args arbitrary: i)
  case (Cons arg args)
  then show ?case by (cases arg rule: arg_ident.cases) auto
qed simp

lemma ctx_position_None: "ctx_position None i args pos = pos"
proof (induction args arbitrary: i)
  case (Cons arg args)
  then show ?case by (cases arg rule: arg_ident.cases) auto
qed simp

lemma ctx_position_append:
  "c \<notin> set (arg_idents pre) \<Longrightarrow> ctx_position (Some c) i (pre @ args) pos = ctx_position (Some c) (i + length pre) args pos"
proof (induction pre arbitrary: i)
  case (Cons arg pre)
  then show ?case by (cases arg rule: arg_ident.cases) auto
qed simp

lemma arg_idents_append [simp]: "arg_idents (xs @ ys) = arg_idents xs @ arg_idents ys"
  by (simp add: arg_idents_def List.map_filter_def)

lemma split_arg:
  assumes "c \<in> set (arg_idents args)"
  obtains pre attrs ty post where "args = pre @ Typed attrs (PatIdent c) ty # post" "c \<notin> set (arg_idents pre)"
  using assms
proof (induction args arbitrary: thesis)
  case (Cons arg args)
  show ?case
  proof (cases "arg_ident arg = Some c")
    case True
    then obtain attrs ty where "arg = Typed attrs (PatIdent c) ty" by (cases arg rule: arg_ident.cases) auto
    then show ?thesis using Cons.prems(1) [of "[]"] by simp
  next
    case False
    then have c: "c \<in> set (arg_idents args)" "\<And>pre. c \<notin> set (arg_idents pre) \<Longrightarrow> c \<notin> set (arg_idents (arg # pre))"
      using Cons.prems(2) by (cases arg rule: arg_ident.cases; auto)+
    show ?thesis
    proof (rule Cons.IH [OF _ c(1)])
      fix pre attrs ty post
      assume "args = pre @ Typed attrs (PatIdent c) ty # post" "c \<notin> set (arg_idents pre)"
      then show thesis using Cons.prems(1) [of "arg # pre"] c(2) by simp
    qed
  qed
qed simp

text \<open>Leaving the context out and inserting it at its place again gives the parameters back.\<close>

lemma insert_ctx:
  assumes "distinct (arg_idents args)" "c \<in> set (arg_idents args)" "length (arg_idents args) = length args"
  shows "\<exists>i. ctx_position (Some c) (Suc 0) args None = Some i \<and>
    vec_insert i (CtxArg c) (map MsgField (filter (\<lambda>x. c \<noteq> x) (arg_idents args))) =
      Done (map (\<lambda>x. if c = x then CtxArg x else MsgField x) (arg_idents args))"
proof -
  obtain pre attrs ty post where args: "args = pre @ Typed attrs (PatIdent c) ty # post" and pre: "c \<notin> set (arg_idents pre)"
    using assms(2) by (rule split_arg)
  have post: "c \<notin> set (arg_idents post)"
    using assms(1) by (auto simp: args)
  have "length (arg_idents xs) \<le> length xs" for xs :: "'a fn_arg list"
    by (simp add: arg_idents_def List.map_filter_def)
  from this [of pre] this [of post] have len: "length (arg_idents pre) = length pre"
    using assms(3) by (simp add: args)
  have keep: "filter (\<lambda>x. c \<noteq> x) (arg_idents pre) = arg_idents pre" "filter (\<lambda>x. c \<noteq> x) (arg_idents post) = arg_idents post"
    using pre post by (auto simp: filter_id_conv)
  have fields: "map (\<lambda>x. if c = x then CtxArg x else MsgField x) (arg_idents xs) = map MsgField (arg_idents xs)"
    if "c \<notin> set (arg_idents xs)" for xs :: "'a fn_arg list"
    using that by auto
  have "ctx_position (Some c) (Suc 0) args None = Some (length pre)"
    by (simp add: args ctx_position_append [OF pre] ctx_position_absent [OF post])
  moreover have "vec_insert (length pre) (CtxArg c) (map MsgField (arg_idents pre @ arg_idents post)) =
      Done (map MsgField (arg_idents pre) @ CtxArg c # map MsgField (arg_idents post))"
    using len by (simp add: vec_insert_def)
  ultimately show ?thesis
    by (simp add: args keep fields [OF pre] fields [OF post])
qed


text \<open>The fields and the call of a message whose parameters follow the receiver.\<close>

lemma message_try_from_call:
  fixes sy :: "('t, 'e) syn_ops"
  assumes "message_try_from sy camel vis sg attrs docs generics ctx = Done (Ok m)"
    and "sg_inputs sg = Receiver # args" and "length docs = Suc (length args)"
    and "Receiver \<notin> set args" and "distinct (arg_idents args)"
  shows "\<exists>i. expand_msg_impl actor impl m = Done i \<and> mi_method i = sg_ident sg \<and>
    mi_params i = map (\<lambda>x. if map_option fst (me_ctx m) = Some x then CtxArg x else MsgField x) (arg_idents args) \<and>
    map fd_ident (me_fields m) = filter (\<lambda>x. map_option fst (me_ctx m) \<noteq> Some x) (arg_idents args)"
proof -
  obtain d ds where docs: "docs = d # ds" "length ds = length args"
    using assms(3) by (cases docs) auto
  have "message_fields ctx (zip args ds) = (Ok (me_fields m) :: ('t field list, 'e macro_error) result)"
    using assms(1) by (auto simp: message_try_from_Ok assms(2) docs)
  from message_fields_idents [OF this docs(2) assms(4)]
  have fields: "map fd_ident (me_fields m) = filter (\<lambda>x. ctx \<noteq> Some x) (arg_idents args)"
    and len: "length (arg_idents args) = length args" by blast+
  have m: "me_ctx m = (case (ctx, ctx_position ctx (Suc 0) args None) of (Some c, Some i) \<Rightarrow> Some (c, i) | _ \<Rightarrow> None)"
    "sg_ident (me_sig m) = sg_ident sg"
    using assms(1) by (auto simp: message_try_from_Ok assms(2))
  have params: "map (MsgField \<circ> fd_ident) (me_fields m) = map MsgField (filter (\<lambda>x. ctx \<noteq> Some x) (arg_idents args))"
    using fields by (simp flip: map_map)
  show ?thesis
  proof (cases "\<exists>c. ctx = Some c \<and> c \<in> set (arg_idents args)")
    case True
    then obtain c where c: "ctx = Some c" "c \<in> set (arg_idents args)" by blast
    obtain i where i: "ctx_position (Some c) (Suc 0) args None = Some i"
      "vec_insert i (CtxArg c) (map MsgField (filter (\<lambda>x. c \<noteq> x) (arg_idents args))) =
        Done (map (\<lambda>x. if c = x then CtxArg x else MsgField x) (arg_idents args))"
      using insert_ctx [OF assms(5) c(2) len] by blast
    have "me_ctx m = Some (c, i)"
      by (simp add: m c(1) i(1))
    then show ?thesis
      unfolding expand_msg_impl_def Let_def params fields by (simp add: c(1) i(2) m(2))
  next
    case False
    then have "me_ctx m = None"
      unfolding m by (cases ctx) (auto simp: ctx_position_None ctx_position_absent)
    moreover have "filter (\<lambda>x. ctx \<noteq> Some x) (arg_idents args) = arg_idents args"
      using False by (auto simp: filter_id_conv)
    ultimately show ?thesis
      unfolding expand_msg_impl_def Let_def params fields by (simp add: m(2))
  qed
qed


section \<open>Properties\<close>

text \<open>
  C14. The handler that \<open>#[messages]\<close> makes calls the method with its parameters in the order the
  method declares them: each is taken from the message's field of its name, and the context goes to
  the place where the method has it.
\<close>

theorem handler_calls_method_in_order:
  fixes sy :: "('t, 'e) syn_ops"
  assumes "extract_method sy camel impl f = Done (f', Some m, errors)"
    and "sg_inputs (fn_sig f) = Receiver # args" and "Receiver \<notin> set args" and "distinct (arg_idents args)"
  shows "\<exists>i. expand_msg_impl actor impl m = Done i \<and> mi_method i = sg_ident (fn_sig f) \<and>
    mi_params i = map (\<lambda>x. if map_option fst (me_ctx m) = Some x then CtxArg x else MsgField x) (arg_idents args) \<and>
    map fd_ident (me_fields m) = filter (\<lambda>x. map_option fst (me_ctx m) \<noteq> Some x) (arg_idents args)"
proof (rule extract_method_Some [OF assms(1)])
  fix st :: "('t, 'e) attr_state" and generics
  let ?args = "map (fst \<circ> take_docs) args"
  assume m: "message_try_from sy camel (fn_vis f) (fn_sig (strip_docs f)) (as_attrs st)
      (map (snd \<circ> take_docs) (sg_inputs (fn_sig f))) generics (as_ctx st) = Done (Ok m)"
  have sg: "sg_inputs (fn_sig (strip_docs f)) = Receiver # ?args" "sg_ident (fn_sig (strip_docs f)) = sg_ident (fn_sig f)"
    by (simp_all add: strip_docs_def assms(2))
  have "Receiver \<notin> set ?args"
  proof
    assume "Receiver \<in> set ?args"
    then obtain a where "a \<in> set args" "fst (take_docs a) = Receiver" by auto
    then show False using assms(3) by (cases a rule: take_docs.cases) auto
  qed
  from message_try_from_call [OF m sg(1) _ this, of actor impl] assms(4)
  show ?thesis by (simp add: sg(2) assms(2))
qed

text \<open>A method \<open>fn add(&mut self, a: T, ctx: &mut C, b: Vec<T>)\<close> marked \<open>#[message(ctx)]\<close>.\<close>

definition plain_syn :: "(unit, unit) syn_ops" where
  "plain_syn = \<lparr>sy_parse_metas = (\<lambda>_. Ok [MetaPath False [(''ctx'', None)]]), sy_require_ident_error = (\<lambda>_ _. ()),
     sy_is_ident = (\<lambda>s. s \<noteq> [] \<and> hd s \<notin> set ''0123456789'')\<rparr>"

definition add_method :: "unit impl_fn" where
  "add_method = \<lparr>fn_attrs = [MetaList False [(''message'', None)] ()], fn_vis = '''',
     fn_sig = \<lparr>sg_ident = ''add'', sg_async = True, sg_generics = [],
       sg_inputs = [Receiver, Typed [] (PatIdent ''a'') (TyPath False [(''T'', None)]),
         Typed [] (PatIdent ''ctx'') (TyReference None TyOther),
         Typed [] (PatIdent ''b'') (TyPath False [(''Vec'', Some [TyPath False [(''T'', None)]])])],
       sg_output = None\<rparr>\<rparr>"

definition add_extracted :: "unit macro_message" where
  "add_extracted = \<lparr>me_vis = '''', me_sig = fn_sig add_method, me_ident = ''add'',
     me_fields = [\<lparr>fd_docs = [], fd_ident = ''a'', fd_type = TyPath False [(''T'', None)]\<rparr>,
       \<lparr>fd_docs = [], fd_ident = ''b'', fd_type = TyPath False [(''Vec'', Some [TyPath False [(''T'', None)]])]\<rparr>],
     me_attrs = [], me_generics = [GpType ''T'' []], me_ctx = Some (''ctx'', 1)\<rparr>"

lemma extract_add: "extract_method plain_syn (\<lambda>x. x) [GpType ''T'' []] add_method =
    Done (add_method\<lparr>fn_attrs := []\<rparr>, Some add_extracted, [])"
  by code_simp

theorem handler_calls_method_in_order_witness:
  "\<exists>i. expand_msg_impl ''A'' [GpType ''T'' []] add_extracted = Done i \<and> mi_method i = ''add'' \<and>
    mi_params i = [MsgField ''a'', CtxArg ''ctx'', MsgField ''b'']"
  using handler_calls_method_in_order [OF extract_add, of "tl (sg_inputs (fn_sig add_method))" "''A''"]
  by (auto simp: add_method_def add_extracted_def)


text \<open>\<open>impl<'a, T> A<'a, T> { #[message] fn put(&mut self, x: T) -> &'a str }\<close>.\<close>

definition put_method :: "unit impl_fn" where
  "put_method = \<lparr>fn_attrs = [MetaPath False [(''message'', None)]], fn_vis = '''',
     fn_sig = \<lparr>sg_ident = ''put'', sg_async = False, sg_generics = [],
       sg_inputs = [Receiver, Typed [] (PatIdent ''x'') (TyPath False [(''T'', None)])],
       sg_output = Some (TyReference (Some ''a'') (TyPath False [(''str'', None)]))\<rparr>\<rparr>"

text \<open>\<open>#[message] fn _1(&mut self)\<close>, whose name without the underscore is a number.\<close>

definition number_method :: "unit impl_fn" where
  "number_method = \<lparr>fn_attrs = [MetaPath False [(''message'', None)]], fn_vis = '''',
     fn_sig = \<lparr>sg_ident = ''_1'', sg_async = False, sg_generics = [], sg_inputs = [Receiver], sg_output = None\<rparr>\<rparr>"


text \<open>
  What a declaration has to declare: the type parameters a type mentions anywhere, the arguments of
  its paths included. \<open>plain_type\<close> is a type none of whose paths has arguments or further segments.
\<close>

fun mentions :: "string \<Rightarrow> syn_type \<Rightarrow> bool" and bound_mentions :: "string \<Rightarrow> bound \<Rightarrow> bool" where
  "mentions T (TyArray ty) = mentions T ty"
| "mentions T (TyBareFn inputs output) = (list_ex (mentions T) inputs \<or> (case output of Some ty \<Rightarrow> mentions T ty | None \<Rightarrow> False))"
| "mentions T (TyGroup ty) = mentions T ty"
| "mentions T (TyParen ty) = mentions T ty"
| "mentions T (TyPath colon segs) =
    (\<not> colon \<and> first_is T segs \<or> list_ex (\<lambda>(_, args). case args of Some tys \<Rightarrow> list_ex (mentions T) tys | None \<Rightarrow> False) segs)"
| "mentions T (TyPtr ty) = mentions T ty"
| "mentions T (TyReference _ ty) = mentions T ty"
| "mentions T (TySlice ty) = mentions T ty"
| "mentions T (TyTraitObject bounds) = list_ex (bound_mentions T) bounds"
| "mentions T (TyTuple elems) = list_ex (mentions T) elems"
| "mentions T _ = False"
| "bound_mentions T (BoundTrait colon segs) =
    (\<not> colon \<and> first_is T segs \<or> list_ex (\<lambda>(_, args). case args of Some tys \<Rightarrow> list_ex (mentions T) tys | None \<Rightarrow> False) segs)"
| "bound_mentions T _ = False"

fun plain_path :: "(string \<times> 'a option) list \<Rightarrow> bool" where
  "plain_path [(_, None)] = True"
| "plain_path _ = False"

fun plain_type :: "syn_type \<Rightarrow> bool" where
  "plain_type (TyArray ty) = plain_type ty"
| "plain_type (TyBareFn inputs output) = (list_all plain_type inputs \<and> (case output of Some ty \<Rightarrow> plain_type ty | None \<Rightarrow> True))"
| "plain_type (TyGroup ty) = plain_type ty"
| "plain_type (TyParen ty) = plain_type ty"
| "plain_type (TyPath colon segs) = plain_path segs"
| "plain_type (TyPtr ty) = plain_type ty"
| "plain_type (TyReference _ ty) = plain_type ty"
| "plain_type (TySlice ty) = plain_type ty"
| "plain_type (TyTraitObject bounds) = list_all (\<lambda>b. case b of BoundTrait _ segs \<Rightarrow> plain_path segs | _ \<Rightarrow> True) bounds"
| "plain_type (TyTuple elems) = list_all plain_type elems"
| "plain_type _ = True"

lemma plain_path_cases: "plain_path segs \<longleftrightarrow> (\<exists>x. segs = [(x, None)])"
  by (cases segs rule: plain_path.cases) auto

lemma ident_generic_iff:
  "plain_path segs \<Longrightarrow> is_type_param gs T \<Longrightarrow>
    GpType T [] \<in> set (ident_generic gs (get_ident colon segs)) \<longleftrightarrow> \<not> colon \<and> first_is T segs"
  by (cases colon) (auto simp: plain_path_cases ident_generic_def)

lemma lifetime_generic_no_type [simp]: "GpType T b \<notin> set (lifetime_generic gs x)"
  by (simp add: lifetime_generic_def)

lemma plain_contains:
  "plain_type ty \<Longrightarrow> is_type_param gs T \<Longrightarrow> GpType T [] \<in> set (contains_generic_in_param gs ty) \<longleftrightarrow> mentions T ty"
proof (induction gs ty rule: contains_generic_in_param.induct)
  case (2 gs inputs result)
  then show ?case by (cases result) (auto simp: list_all_iff list_ex_iff)
next
  case (5 gs colon segs)
  then show ?case by (auto simp: ident_generic_iff) (auto simp: plain_path_cases)
next
  case (7 gs lifetime ty)
  then show ?case by (cases lifetime) auto
next
  case (9 gs bounds)
  have "GpType T [] \<in> set (bound_generic gs b) \<longleftrightarrow> bound_mentions T b" if "b \<in> set bounds" for b
  proof (cases b)
    case (BoundTrait colon segs)
    then have "plain_path segs" using that 9 by (auto simp: list_all_iff)
    then show ?thesis
      using 9 by (auto simp: BoundTrait ident_generic_iff) (auto simp: plain_path_cases)
  qed simp_all
  then show ?case by (simp add: list_ex_iff)
next
  case (10 gs elems)
  then show ?case by (auto simp: list_all_iff list_ex_iff)
qed simp_all

text \<open>
  Of a type whose paths are single names the macro finds exactly the type parameters the type
  mentions. A parameter that occurs only as an argument, as in \<open>Vec<T>\<close>, it never finds, so a message
  with such a field is declared without a parameter it needs.
\<close>

theorem generics_found_iff_plain:
  assumes "is_type_param gs T"
  shows "(plain_type ty \<longrightarrow> (GpType T [] \<in> set (contains_generic_in_param gs ty)) = mentions T ty) \<and>
    mentions T (TyPath colon [(v, Some [TyPath False [(T, None)]])]) \<and>
    contains_generic_in_param gs (TyPath colon [(v, Some [TyPath False [(T, None)]])]) = []"
  using assms by (cases colon) (simp_all add: plain_contains ident_generic_def)

theorem generics_found_iff_plain_witness:
  "GpType ''T'' [] \<in> set (contains_generic_in_param [GpType ''T'' []] (TyTuple [TyOther, TyPath False [(''T'', None)]])) \<and>
   contains_generic_in_param [GpType ''T'' []] (TyPath False [(''Vec'', Some [TyPath False [(''T'', None)]])]) = []"
  using generics_found_iff_plain [of "[GpType ''T'' []]" "''T''" "TyTuple [TyOther, TyPath False [(''T'', None)]]" False "''Vec''"]
  by (simp add: is_type_param_def)

text \<open>
  A method without parameters whose result is the block's type parameter gives a broken message:
  the struct is declared without generics, and the implementation names it with that parameter.
\<close>

theorem generic_reply_breaks_message:
  fixes sy :: "('t, 'e) syn_ops"
  assumes "extract_method sy camel impl f = Done (f', Some m, errors)"
    and "sg_inputs (fn_sig f) = [Receiver]" and "sg_generics (fn_sig f) = []"
    and "sg_output (fn_sig f) = Some ty" and "plain_type ty" and "mentions T ty" and "is_type_param impl T"
  shows "st_generics (expand_msg m) = [] \<and> (\<exists>i. expand_msg_impl actor impl m = Done i \<and> GpType T [] \<in> set (mi_msg_generics i))"
proof (rule extract_method_Some [OF assms(1)])
  fix st :: "('t, 'e) attr_state" and generics
  assume generics: "message_generics (as_ctx st) impl (fn_sig f) = Done generics"
    and m: "message_try_from sy camel (fn_vis f) (fn_sig (strip_docs f)) (as_attrs st)
      (map (snd \<circ> take_docs) (sg_inputs (fn_sig f))) generics (as_ctx st) = Done (Ok m)"
  have inputs: "sg_inputs (fn_sig (strip_docs f)) = [Receiver]"
    by (simp add: strip_docs_def assms(2))
  have fields: "me_fields m = []" "me_ctx m = None" "me_generics m = generics"
    using m by (auto simp: message_try_from_Ok inputs assms(2) split: option.splits)
  have "is_type_param (impl_item_generics impl []) T"
    using assms(7) by (auto simp: is_type_param_iff impl_item_generics_def gp_types_def gp_lifetimes_def)
  then have "GpType T [] \<in> set (contains_generic_in_param (impl_item_generics impl []) ty)"
    using assms(5,6) by (simp add: plain_contains)
  then have types: "GpType T [] \<in> set (gp_types (remdups_adj (contains_generic_in_param (impl_item_generics impl []) ty)))"
    by (simp add: gp_types_def)
  then have "gp_types (remdups_adj (contains_generic_in_param (impl_item_generics impl []) ty)) \<noteq> []" by auto
  then have "GpType T [] \<in> set generics"
    using generics types
    by (auto simp: message_generics_def used_generics_def assms(2-4) Let_def quote_generics_def gp_types_def split: if_splits)
  then show ?thesis
    by (simp add: expand_msg_def expand_msg_impl_def fields)
qed

definition get_method :: "unit impl_fn" where
  "get_method = \<lparr>fn_attrs = [MetaPath False [(''message'', None)]], fn_vis = '''',
     fn_sig = \<lparr>sg_ident = ''get'', sg_async = False, sg_generics = [], sg_inputs = [Receiver],
       sg_output = Some (TyPath False [(''T'', None)])\<rparr>\<rparr>"

lemma extract_get: "extract_method plain_syn (\<lambda>x. x) [GpType ''T'' []] get_method =
    Done (get_method\<lparr>fn_attrs := []\<rparr>, Some \<lparr>me_vis = '''', me_sig = fn_sig get_method, me_ident = ''get'', me_fields = [],
      me_attrs = [], me_generics = [GpType ''T'' []], me_ctx = None\<rparr>, [])"
  by code_simp

theorem generic_reply_breaks_message_witness:
  "st_generics (expand_msg \<lparr>me_vis = '''', me_sig = fn_sig get_method, me_ident = ''get'', me_fields = [],
      me_attrs = [], me_generics = [GpType ''T'' []], me_ctx = None\<rparr>) = []"
  using generic_reply_breaks_message [OF extract_get, of "TyPath False [(''T'', None)]" "''T''" "''A''"]
  by (simp add: get_method_def is_type_param_def)

text \<open>The methods of a block, and an unmarked one.\<close>

fun impl_methods :: "('t, 'o) impl_item list \<Rightarrow> 't impl_fn list" where
  "impl_methods [] = []"
| "impl_methods (ImplFn f # items) = f # impl_methods items"
| "impl_methods (ImplOther _ # items) = impl_methods items"

fun names_message :: "'t syn_meta \<Rightarrow> bool" where
  "names_message (MetaPath _ segs) = one_segment ''message'' segs"
| "names_message (MetaList _ segs _) = one_segment ''message'' segs"
| "names_message (MetaNameValue _ _ _) = False"

lemma retain_unmarked:
  "list_all (\<lambda>m. \<not> names_message m) ms \<Longrightarrow> retain_attrs sy ms st = (ms, st)"
proof (induction ms arbitrary: st)
  case (Cons m ms)
  then have "retain_attr sy m st = (True, st)" by (cases m) auto
  then show ?case using Cons by (simp add: Let_def)
qed simp

lemma unmarked_method:
  "list_all (\<lambda>m. \<not> names_message m) (fn_attrs f) \<Longrightarrow> extract_method sy camel impl f = Done (f, None, [])"
  by (simp add: extract_method_def retain_unmarked)

lemma combined_error_rev: "combined_error errors = (if errors = [] then None else Some (rev errors))"
proof -
  have fold_rev: "fold (\<lambda>errors err. [errors] @ err) es acc = rev es @ acc" for es acc :: "'a macro_error list"
    by (induction es arbitrary: acc) auto
  show ?thesis
    unfolding combined_error_def fold_rev by (cases errors) simp_all
qed

lemma extract_items_methods:
  assumes "extract_items sy camel impl items = Done (items', ms, errors)"
  shows "\<exists>xs. map (extract_method sy camel impl) (impl_methods items) = map Done xs \<and>
    impl_methods items' = map fst xs \<and> ms = List.map_filter (fst \<circ> snd) xs \<and> errors = concat (map (snd \<circ> snd) xs)"
  using assms
proof (induction items arbitrary: items' ms errors)
  case (Cons item items)
  show ?case
  proof (cases item)
    case (ImplOther x)
    then show ?thesis using Cons by auto
  next
    case (ImplFn f)
    then obtain f1 m e is1 ms1 es1 where f: "extract_method sy camel impl f = Done (f1, m, e)"
      and rest: "extract_items sy camel impl items = Done (is1, ms1, es1)"
      and r: "items' = ImplFn f1 # is1" "ms = (case m of Some m \<Rightarrow> m # ms1 | None \<Rightarrow> ms1)" "errors = e @ es1"
      using Cons.prems by (auto split: outcome.splits prod.splits)
    obtain xs where "map (extract_method sy camel impl) (impl_methods items) = map Done xs"
      "impl_methods is1 = map fst xs" "ms1 = List.map_filter (fst \<circ> snd) xs" "es1 = concat (map (snd \<circ> snd) xs)"
      using Cons.IH [OF rest] by blast
    then show ?thesis
      by (intro exI [of _ "(f1, m, e) # xs"]) (simp add: ImplFn f r List.map_filter_simps comp_def split: option.split)
  qed
qed (simp add: List.map_filter_simps)

text \<open>
  If the macro does not unwind, it treats every method of the block on its own: the block keeps
  each method in its place, the messages are those of the marked methods without an error, in order,
  and the errors of all methods are reported together, the last first. A method without the attribute
  stays as it is.
\<close>

theorem messages_are_extracted_one_by_one:
  assumes "extract_messages sy camel impl = Done (impl', ms, err)"
  shows "\<exists>xs. map (extract_method sy camel (ii_generics impl)) (impl_methods (ii_items impl)) = map Done xs \<and>
    impl_methods (ii_items impl') = map fst xs \<and> ms = List.map_filter (fst \<circ> snd) xs \<and>
    err = (if concat (map (snd \<circ> snd) xs) = [] then None else Some (rev (concat (map (snd \<circ> snd) xs)))) \<and>
    (\<forall>(f, x) \<in> set (zip (impl_methods (ii_items impl)) xs).
      list_all (\<lambda>m. \<not> names_message m) (fn_attrs f) \<longrightarrow> x = (f, None, []))"
proof -
  obtain items errors where items: "extract_items sy camel (ii_generics impl) (ii_items impl) = Done (items, ms, errors)"
    and r: "impl' = impl\<lparr>ii_items := items\<rparr>" "err = combined_error errors"
    using assms by (auto simp: extract_messages_def)
  obtain xs where xs: "map (extract_method sy camel (ii_generics impl)) (impl_methods (ii_items impl)) = map Done xs"
    "impl_methods items = map fst xs" "ms = List.map_filter (fst \<circ> snd) xs" "errors = concat (map (snd \<circ> snd) xs)"
    using extract_items_methods [OF items] by blast
  have "x = (f, None, [])"
    if zip: "(f, x) \<in> set (zip (impl_methods (ii_items impl)) xs)" and f: "list_all (\<lambda>m. \<not> names_message m) (fn_attrs f)" for f x
  proof -
    have len: "length (impl_methods (ii_items impl)) = length xs"
      using xs(1) by (metis length_map)
    obtain n where n: "n < length xs" "impl_methods (ii_items impl) ! n = f" "xs ! n = x"
      using zip unfolding in_set_zip by auto
    have "extract_method sy camel (ii_generics impl) f = Done x"
      using xs(1) n len by (metis nth_map)
    then show ?thesis using unmarked_method [OF f, of sy camel "ii_generics impl"] by simp
  qed
  then show ?thesis
    using xs by (intro exI [of _ xs]) (auto simp: r combined_error_rev)
qed

theorem messages_are_extracted_one_by_one_witness:
  "\<exists>xs. map (extract_method plain_syn (\<lambda>x. x) [GpType ''T'' []]) [get_method] = map Done xs \<and>
     length (List.map_filter (fst \<circ> snd) xs) = 1"
proof -
  have "extract_messages plain_syn (\<lambda>x. x) \<lparr>ii_self_ty = TyOther, ii_generics = [GpType ''T'' []],
      ii_items = [ImplOther (), ImplFn get_method]\<rparr> =
    Done (\<lparr>ii_self_ty = TyOther, ii_generics = [GpType ''T'' []], ii_items = [ImplOther (), ImplFn (get_method\<lparr>fn_attrs := []\<rparr>)]\<rparr>,
      [\<lparr>me_vis = '''', me_sig = fn_sig get_method, me_ident = ''get'', me_fields = [], me_attrs = [],
        me_generics = [GpType ''T'' []], me_ctx = None\<rparr>], None)"
    by (simp add: extract_messages_def extract_get combined_error_def)
  from messages_are_extracted_one_by_one [OF this] show ?thesis
    by (elim exE conjE) (rule exI, auto dest: sym)
qed

end
