(* ===== verification/Derive_Macros.thy ===== *)
theory Derive_Macros
  imports Message_Macro Remote_Handlers
begin

text \<open>
  The derive macros \<open>Actor\<close>, \<open>Reply\<close> and \<open>RemoteMessage\<close> (\<open>macros/src/derive_actor.rs\<close>,
  \<open>macros/src/derive_reply.rs\<close>, \<open>macros/src/derive_remote_message.rs\<close>) and what a derived remote message
  becomes at the registry of handlers. The parts of the emitted implementations that depend on the
  input are kept; \<open>stringify!\<close> is the compiler's and a parameter.
\<close>

section \<open>Input\<close>

datatype item_data = StructData | EnumData | UnionData

record 't derive_input =
  di_attrs :: "'t syn_meta list"
  di_ident :: string
  di_generics :: "syn_generic list"
  di_data :: item_data

fun meta_path_ident :: "'t syn_meta \<Rightarrow> string option" where
  "meta_path_ident (MetaPath colon segs) = get_ident colon segs"
| "meta_path_ident (MetaList colon segs _) = get_ident colon segs"
| "meta_path_ident (MetaNameValue colon segs _) = get_ident colon segs"

section \<open>\<open>#[derive(Actor)]\<close>\<close>

text \<open>
  \<open>parse_args\<close> is \<open>syn\<close>'s parser with the closure for \<open>name = "..."\<close>: the names given, or its error,
  among others for an attribute without arguments.
\<close>

fun actor_attrs :: "string list \<Rightarrow> string option \<Rightarrow> (string option, 'e macro_error) result" where
  "actor_attrs [] name = Ok name"
| "actor_attrs (s # ss) name = (if name = None then actor_attrs ss (Some s) else Err (MacroError ''name already set''))"

fun parse_actor_attrs ::
  "('t syn_meta \<Rightarrow> (string list, 'e) result) \<Rightarrow> 't syn_meta list \<Rightarrow> string option option
    \<Rightarrow> (string option option, 'e macro_error) result" where
  "parse_actor_attrs parse_args [] attrs = Ok attrs"
| "parse_actor_attrs parse_args (m # ms) attrs =
    (if meta_path_ident m = Some ''actor''
     then if attrs \<noteq> None then Err (MacroError ''actor attribute already specified'')
          else and_then (map_err SynError (parse_args m)) (\<lambda>names.
            and_then (actor_attrs names None) (\<lambda>name. parse_actor_attrs parse_args ms (Some name)))
     else parse_actor_attrs parse_args ms attrs)"

text \<open>The implementation: \<open>name\<close> returns \<open>da_name\<close>, \<open>on_start\<close> returns its argument.\<close>

record derived_actor =
  da_ident :: string
  da_generics :: "syn_generic list"
  da_name :: string

definition derive_actor ::
  "('t syn_meta \<Rightarrow> (string list, 'e) result) \<Rightarrow> 't derive_input \<Rightarrow> (derived_actor, 'e macro_error) result" where
  "derive_actor parse_args input =
    map_ok (\<lambda>attrs.
      \<lparr>da_ident = di_ident input, da_generics = di_generics input,
       da_name = (case attrs of Some (Some s) \<Rightarrow> s | _ \<Rightarrow> di_ident input)\<rparr>)
      (parse_actor_attrs parse_args (di_attrs input) None)"

definition derived_on_start :: "'a \<Rightarrow> ('a, 'e) result" where
  "derived_on_start state = Ok state"


section \<open>\<open>#[derive(Reply)]\<close>\<close>

definition derived_to_result :: "'a \<Rightarrow> ('a, 'e) result" where
  "derived_to_result self = Ok self"

definition derived_into_any_err :: "'a \<Rightarrow> 'e option" where
  "derived_into_any_err self = None"

definition derived_into_value :: "'a \<Rightarrow> 'a" where
  "derived_into_value self = self"


section \<open>\<open>#[derive(RemoteMessage)]\<close>\<close>

text \<open>
  \<open>lit_str\<close> gives the string of an expression that is a string literal.
\<close>

fun extract_remote_name :: "('t syn_expr \<Rightarrow> string option) \<Rightarrow> 't syn_meta list \<Rightarrow> string option" where
  "extract_remote_name lit_str [] = None"
| "extract_remote_name lit_str (m # ms) =
    (if meta_path_ident m = Some ''remote_name''
     then case m of
            MetaNameValue _ _ val \<Rightarrow>
              (case lit_str val of Some s \<Rightarrow> Some s | None \<Rightarrow> extract_remote_name lit_str ms)
          | _ \<Rightarrow> extract_remote_name lit_str ms
     else extract_remote_name lit_str ms)"

text \<open>
  The name of the type: \<open>stringify\<close> of the identifier and, if there are any, the names of the generic
  parameters, which the compiler does not replace by the arguments of an instance.
\<close>

fun syn_generic_name :: "syn_generic \<Rightarrow> string" where
  "syn_generic_name (GpLifetime x _) = x"
| "syn_generic_name (GpType x _) = x"
| "syn_generic_name (GpConst x _) = x"

definition remote_type_name ::
  "(string \<Rightarrow> string list \<Rightarrow> string) \<Rightarrow> ('t syn_expr \<Rightarrow> string option) \<Rightarrow> 't derive_input \<Rightarrow> string" where
  "remote_type_name stringify lit_str input =
    (case extract_remote_name lit_str (di_attrs input) of
       Some remote_name \<Rightarrow> remote_name
     | None \<Rightarrow> stringify (di_ident input) (map syn_generic_name (di_generics input)))"

text \<open>
  The emitted implementations, generic in the parameters of the struct, with the constants they hold.
\<close>

record derived_remote_message =
  dm_ident :: string
  dm_generics :: "syn_generic list"
  dm_type_name :: string
  dm_type_hash :: type_hash

definition derive_remote_message ::
  "(string \<Rightarrow> bytes) \<Rightarrow> (string \<Rightarrow> string list \<Rightarrow> string) \<Rightarrow> ('t syn_expr \<Rightarrow> string option) \<Rightarrow> 't derive_input
    \<Rightarrow> (derived_remote_message, 'e macro_error) result" where
  "derive_remote_message utf8 stringify lit_str input =
    (case di_data input of
       StructData \<Rightarrow>
         (let name = remote_type_name stringify lit_str input
          in Ok \<lparr>dm_ident = di_ident input, dm_generics = di_generics input, dm_type_name = name, dm_type_hash = from_bytes_hash (utf8 name)\<rparr>)
     | EnumData \<Rightarrow> Err (MacroError ''RemoteMessage can only be derived for structs'')
     | UnionData \<Rightarrow> Err (MacroError ''RemoteMessage can only be derived for structs''))"

text \<open>\<open>remote_message_derive\<close> adds one more derive attribute, of the four names, to the item.\<close>

definition remote_message_derives :: "string list" where
  "remote_message_derives =
    [''::kameo_macros::RemoteMessage'', ''::rkyv::Archive'', ''::rkyv::Serialize'', ''::rkyv::Deserialize'']"

definition remote_message_derive :: "(string list \<Rightarrow> 't) \<Rightarrow> 't derive_input \<Rightarrow> 't derive_input" where
  "remote_message_derive derive_tokens input =
    input\<lparr>di_attrs := di_attrs input @ [MetaList False [(''derive'', None)] (derive_tokens remote_message_derives)]\<rparr>"


section \<open>Properties\<close>

lemma actor_attrs_Ok: "actor_attrs names acc = Ok r \<longleftrightarrow>
    (if acc = None then (names = [] \<and> r = None) \<or> (\<exists>s. names = [s] \<and> r = Some s) else names = [] \<and> r = acc)"
proof (cases names)
  case (Cons s ss)
  then show ?thesis by (cases ss) auto
qed auto

text \<open>
  The name an actor is registered under is the one in its only \<open>#[actor(name = ..)]\<close> or that of
  its type; a second attribute and a second name are errors.
\<close>

lemma parse_actor_attrs_Ok:
  fixes r :: "string option option" and parse_args :: "'t syn_meta \<Rightarrow> (string list, 'e) result"
  shows "parse_actor_attrs parse_args ms acc = (Ok r :: (_, 'e macro_error) result) \<Longrightarrow> length (filter (\<lambda>m. meta_path_ident m = Some ''actor'') ms) \<le> 1 \<and>
    (acc \<noteq> None \<longrightarrow> filter (\<lambda>m. meta_path_ident m = Some ''actor'') ms = [] \<and> r = acc) \<and>
    (\<forall>m \<in> set ms. meta_path_ident m = Some ''actor'' \<longrightarrow>
      (\<exists>names. parse_args m = Ok names \<and> length names \<le> 1 \<and> r = Some (case names of [] \<Rightarrow> None | s # _ \<Rightarrow> Some s)))"
proof (induction ms arbitrary: acc)
  case (Cons m ms)
  show ?case
  proof (cases "meta_path_ident m = Some ''actor''")
    case True
    then obtain names name where n: "acc = None" "parse_args m = Ok names" "actor_attrs names None = (Ok name :: (_, 'e macro_error) result)"
      "parse_actor_attrs parse_args ms (Some name) = Ok r"
      using Cons.prems by (auto simp: and_then_eq_Ok split: if_splits)
    have none: "filter (\<lambda>m. meta_path_ident m = Some ''actor'') ms = []" "r = Some name"
      using Cons.IH [OF n(4)] by auto
    then have "meta_path_ident m' \<noteq> Some ''actor''" if "m' \<in> set ms" for m'
      using that by (auto simp: filter_empty_conv)
    then show ?thesis
      using n none True by (auto simp: actor_attrs_Ok)
  next
    case False
    then show ?thesis using Cons.IH [of acc] Cons.prems by auto
  qed
qed auto

theorem derived_actor_name:
  assumes "derive_actor parse_args input = Ok d"
  shows "(\<exists>m names s. filter (\<lambda>m. meta_path_ident m = Some ''actor'') (di_attrs input) = [m] \<and>
      parse_args m = Ok names \<and> names = [s] \<and> da_name d = s) \<or>
    da_name d = di_ident input \<and> (\<forall>m \<in> set (di_attrs input). meta_path_ident m = Some ''actor'' \<longrightarrow> parse_args m = Ok [])"
proof -
  obtain attrs where p: "parse_actor_attrs parse_args (di_attrs input) None = Ok attrs"
    and name: "da_name d = (case attrs of Some (Some s) \<Rightarrow> s | _ \<Rightarrow> di_ident input)"
    using assms by (auto simp: derive_actor_def)
  note ok = parse_actor_attrs_Ok [OF p]
  have none: "parse_actor_attrs parse_args ms None = Ok r \<Longrightarrow> filter (\<lambda>m. meta_path_ident m = Some ''actor'') ms = [] \<Longrightarrow> r = None" for ms r
    by (induction ms) (auto split: if_splits)
  show ?thesis
  proof (cases "filter (\<lambda>m. meta_path_ident m = Some ''actor'') (di_attrs input)")
    case Nil
    then show ?thesis using none [OF p] name by (auto simp: filter_empty_conv)
  next
    case (Cons m ms)
    then have m: "filter (\<lambda>m. meta_path_ident m = Some ''actor'') (di_attrs input) = [m]" using ok by simp
    have "set (filter (\<lambda>m. meta_path_ident m = Some ''actor'') (di_attrs input)) = {m}" unfolding m by simp
    then have only: "m' \<in> set (di_attrs input) \<and> meta_path_ident m' = Some ''actor'' \<longleftrightarrow> m' = m" for m'
      unfolding set_filter set_eq_iff by simp
    then obtain names where names: "parse_args m = Ok names" "length names \<le> 1" "attrs = Some (case names of [] \<Rightarrow> None | s # _ \<Rightarrow> Some s)"
      using ok by blast
    moreover have "parse_args m' = Ok names" if "m' \<in> set (di_attrs input)" "meta_path_ident m' = Some ''actor''" for m'
      using only [of m'] that names(1) by simp
    ultimately show ?thesis
      using m name by (cases names) auto
  qed
qed

lemma register_listed_last:
  "hm_get (fst (register_listed ops os metrics current ar (ms @ [m]) regs)) (msg_key m) =
    Some (list_fns ops os metrics current ar m)"
proof (induction ms arbitrary: regs)
  case Nil
  obtain hs ts where "regs = (hs, ts)" by (cases regs)
  then show ?case by (simp add: msg_key_def)
next
  case (Cons a ms)
  obtain hs ts where "regs = (hs, ts)" by (cases regs)
  then show ?case using Cons by simp
qed

text \<open>
  An instance of a derived message: what its type arguments give it (its type, how it is decoded and
  answered) is its own, its hash the constant of the one generic implementation.
\<close>

definition derived_instance :: "derived_remote_message \<Rightarrow> 'v remote_msg \<Rightarrow> 'v remote_msg" where
  "derived_instance d own = own\<lparr>rm_hash := dm_type_hash d\<rparr>"

text \<open>
  C31. The key of a derived message is the hash of the name it is given, or of its identifier with the
  names of its parameters, whatever the arguments of the instance: an actor that lists two instances of
  a generic message registers one handler for both, the last one's, so a message of the first is
  decoded as one of the second, or refused without having been read as one of the first.
\<close>

theorem generic_instances_share_handler:
  fixes own1 own2 :: "'v remote_msg"
  assumes "derive_remote_message utf8 stringify lit_str input = (Ok d :: (_, 'e macro_error) result)"
    and "m1 = derived_instance d own1" and "m2 = derived_instance d own2"
    and "register_list_handlers True ops os metrics current ar (m1 # ms @ [m2]) regs = Done (handlers, types)"
  shows "dm_generics d = di_generics input \<and>
    msg_key m1 = as_u32 (from_bytes_hash (utf8 (case extract_remote_name lit_str (di_attrs input) of
        Some name \<Rightarrow> name | None \<Rightarrow> stringify (di_ident input) (map syn_generic_name (di_generics input))))) \<and>
    handle_tell_typed dbg handlers aid (msg_key m1) payload st =
      map_call (remote_error_text dbg) (list_tell ops metrics current ar m2 aid payload (Some (from_secs 30)) st) \<and>
    (rm_decode own2 payload = None \<longrightarrow> aid = ar_id ar \<longrightarrow>
      handle_tell_typed dbg handlers aid (msg_key m1) payload st = Some (Done (Err (remote_error_text dbg RActorStopped)), st))"
proof -
  have d: "dm_generics d = di_generics input"
    "dm_type_hash d = from_bytes_hash (utf8 (remote_type_name stringify lit_str input))"
    using assms(1) by (auto simp: derive_remote_message_def Let_def split: item_data.splits)
  have key: "msg_key m1 = msg_key m2"
    by (simp add: assms(2,3) msg_key_def derived_instance_def)
  have "hm_get handlers (msg_key m1) = Some (list_fns ops os metrics current ar m2)"
    using assms(4) register_listed_last [of ops os metrics current ar "m1 # ms" m2 regs]
    by (simp add: key register_list_handlers_def)
  then have tell: "handle_tell_typed dbg handlers aid (msg_key m1) payload st =
      map_call (remote_error_text dbg) (list_tell ops metrics current ar m2 aid payload (Some (from_secs 30)) st)"
    by (simp add: handle_tell_typed_def list_fns_def)
  moreover have "list_tell ops metrics current ar m2 aid payload (Some (from_secs 30)) st = Some (Done (Err RActorStopped), st)"
    if "rm_decode own2 payload = None" "aid = ar_id ar"
    using that by (simp add: list_tell_def with_message_def assms(3) derived_instance_def)
  ultimately show ?thesis
    using d by (auto simp: map_call_def assms(2) msg_key_def derived_instance_def remote_type_name_def)
qed

text \<open>\<open>struct Put<T>\<close>, told once with a byte and once with a word of two bytes.\<close>

definition put_input :: "unit derive_input" where
  "put_input = \<lparr>di_attrs = [], di_ident = ''Put'', di_generics = [GpType ''T'' []], di_data = StructData\<rparr>"

definition put_name :: bytes where
  "put_name = [80, 117, 116, 32, 60, 32, 84, 32, 62]"

definition put_derived :: derived_remote_message where
  "put_derived = \<lparr>dm_ident = ''Put'', dm_generics = [GpType ''T'' []], dm_type_name = ''Put < T >'',
     dm_type_hash = from_bytes_hash put_name\<rparr>"

definition put_of :: "nat \<Rightarrow> nat remote_msg" where
  "put_of n = demo_remote_msg\<lparr>rm_type := TyNamed n, rm_decode := (\<lambda>bs. if length bs = n then Some n else None)\<rparr>"

theorem generic_instances_share_handler_witness:
  "handle_tell_typed (\<lambda>_. ''x'') (fst (register_listed demo_ops demo_oneshot False None (demo_ref 3)
        [derived_instance put_derived (put_of 1), derived_instance put_derived (put_of 2)] ([], [])))
      (ActorId 3) (msg_key (derived_instance put_derived (put_of 1))) [5] empty_mailbox =
    Some (Done (Err ''Remote send error: x''), empty_mailbox)"
proof -
  let ?m1 = "derived_instance put_derived (put_of 1)" and ?m2 = "derived_instance put_derived (put_of 2)"
  have derived: "derive_remote_message (\<lambda>_. put_name) (\<lambda>i gs. ''Put < T >'') (\<lambda>_. None) put_input =
      (Ok put_derived :: (_, unit macro_error) result)"
    by (simp add: derive_remote_message_def put_input_def put_derived_def remote_type_name_def Let_def)
  have registers: "register_list_handlers True demo_ops demo_oneshot False None (demo_ref 3) (?m1 # [] @ [?m2]) ([], []) =
      Done (fst (register_listed demo_ops demo_oneshot False None (demo_ref 3) [?m1, ?m2] ([], [])),
        snd (register_listed demo_ops demo_oneshot False None (demo_ref 3) [?m1, ?m2] ([], [])))"
    by (simp add: register_list_handlers_def)
  have decode: "rm_decode (put_of 2) [5] = None"
    by (simp add: put_of_def)
  show ?thesis
    using generic_instances_share_handler [OF derived refl refl registers, of "\<lambda>_. ''x''" "ActorId 3" "[5]" empty_mailbox]
    by (elim conjE impE) (simp_all add: decode demo_ref_id)
qed

end
