(* ===== verification/Actor_System.thy ===== *)
theory Actor_System
  imports Lifecycle Reply
begin

text \<open>
  The parts of a local actor put together: a handler for each type of message (\<open>Reply\<close>), the default
  \<open>on_message\<close> that runs it on a boxed message (\<open>src/actor.rs\<close>), the loop that takes the messages from
  the mailbox (\<open>Lifecycle\<close>), and the clients that put them there and open the replies (\<open>Request\<close>). The
  reference it is compared with handles the messages one after the other.
\<close>

section \<open>An actor with its messages\<close>

text \<open>
  What is outside the actor: the signals left in its mailbox, the replies sent on oneshot channels in
  their order, and the state its handlers share with others.
\<close>

record ('v, 'u) actor_env =
  en_inbox :: "'v signal list"
  en_replies :: "(nat \<times> 'v boxed_reply) list"
  en_user :: 'u

type_synonym ('a, 'v, 'u) handler =
  "'a \<Rightarrow> 'v \<Rightarrow> msg_context \<Rightarrow> 'u \<Rightarrow> ('v reply, 'v) hook \<times> 'a \<times> msg_context \<times> 'u"

text \<open>
  A boxed message knows the handler for its type and the type of its reply: that is the table of
  \<open>Box<dyn DynMessage<A>>\<close>.
\<close>

type_synonym ('a, 'v, 'u) vtable = "'v any \<Rightarrow> reply_type \<times> ('a, 'v, 'u) handler \<times> 'v"

definition default_on_message ::
  "('v, 'u) reply_env \<Rightarrow> ('a, 'v, 'u) vtable \<Rightarrow> 'a \<Rightarrow> 'v any \<Rightarrow> actor_id \<Rightarrow> nat option \<Rightarrow> bool \<Rightarrow> 'u
    \<Rightarrow> ((unit, 'v any) result, 'v) hook \<times> 'a \<times> bool \<times> 'u" where
  "default_on_message re vtable a m actor_ref tx stop u =
    (let (t, handle, message) = vtable m in handle_dyn re t handle a message tx stop u)"

text \<open>The same in the world: handlers see their shared state, and a reply goes to its channel.\<close>

type_synonym ('v, 'u) actor_world = "('v, ('v, 'u) actor_env) world"

definition world_replies :: "('v, 'u) reply_env \<Rightarrow> ('v, ('v, 'u) actor_world) reply_env" where
  "world_replies re =
    \<lparr>re_error_value = re_error_value re, re_unpair = re_unpair re,
     re_send = (\<lambda>tx reply w. w\<lparr>w_env := (w_env w)\<lparr>en_replies := en_replies (w_env w) @ [(tx, reply)]\<rparr>\<rparr>),
     re_panic = re_panic re\<rparr>"

definition world_vtable :: "('a, 'v, 'u) vtable \<Rightarrow> ('a, 'v, ('v, 'u) actor_world) vtable" where
  "world_vtable vtable m =
    (let (t, handle, message) = vtable m
     in (t, \<lambda>a v cx w.
          let (r, a, cx, u) = handle a v cx (en_user (w_env w))
          in (r, a, cx, w\<lparr>w_env := (w_env w)\<lparr>en_user := u\<rparr>\<rparr>), message))"

text \<open>Receiving from the mailbox, which ends when its senders are gone.\<close>

definition inbox_recv :: "('v, 'u) actor_world \<Rightarrow> ('v signal option, 'v) hook \<times> ('v, 'u) actor_world" where
  "inbox_recv w =
    (case en_inbox (w_env w) of
       [] \<Rightarrow> (Returned None, w)
     | s # ss \<Rightarrow> (Returned (Some s), w\<lparr>w_env := (w_env w)\<lparr>en_inbox := ss\<rparr>\<rparr>))"

text \<open>An actor that starts in a given state and leaves the hooks at their defaults.\<close>

definition actor_of ::
  "string \<Rightarrow> ('v, 'u) reply_env \<Rightarrow> ('a, 'v, 'u) vtable \<Rightarrow> 'a \<Rightarrow> ('a, 'v, ('v, 'u) actor_env) actor_impl" where
  "actor_of name re vtable a =
    \<lparr>ai_name = name, ai_on_start = (\<lambda>w. (Returned (Ok a), w)),
     ai_on_message = default_on_message (world_replies re) (world_vtable vtable),
     ai_on_panic = default_on_panic, ai_on_link_died = default_on_link_died,
     ai_on_link_established = default_on_link_established, ai_on_stop = default_on_stop,
     ai_next = default_next inbox_recv\<rparr>"


section \<open>The reference: one message after the other\<close>

text \<open>
  One message with its reply sender: the handler runs, and its reply is sent or, for a tell, an error
  ends the actor.
\<close>

definition serve_one ::
  "('v, 'u) reply_env \<Rightarrow> ('a, 'v, 'u) vtable \<Rightarrow> 'v any \<times> nat option \<Rightarrow> 'a \<Rightarrow> 'u
    \<Rightarrow> 'v flow task \<times> 'a \<times> 'u \<times> (nat \<times> 'v boxed_reply) list" where
  "serve_one re vtable request a u =
    (let (m, tx) = request; (t, handle, v) = vtable m; (res, a, cx, u) = handle a v (ctx_new tx False) u;
         go_on = (if cx_stop cx then Break Normal else Continue)
     in case res of
          Returned reply \<Rightarrow>
            (case cx_reply cx of
               Some tx \<Rightarrow>
                 (case to_result re reply of
                    Done r \<Rightarrow> (Ran go_on, a, u, [(tx, boxed_result t r)])
                  | Panicked \<Rightarrow> (Ran (Break (PanickedWith (new_from_panic_any (re_panic re) HandlerPanic))), a, u, []))
             | None \<Rightarrow>
                 (case into_any_err re t reply of
                    Some err \<Rightarrow> (Ran (Break (PanickedWith (panic_error_new err OnMessage))), a, u, [])
                  | None \<Rightarrow> (Ran go_on, a, u, [])))
        | Unwound p \<Rightarrow> (Ran (Break (PanickedWith (new_from_panic_any p HandlerPanic))), a, u, [])
        | Dropped \<Rightarrow> (TaskDropped, a, u, []))"

fun serve_all ::
  "('v, 'u) reply_env \<Rightarrow> ('a, 'v, 'u) vtable \<Rightarrow> ('v any \<times> nat option) list \<Rightarrow> 'a \<Rightarrow> 'u
    \<Rightarrow> 'v flow task \<times> 'a \<times> 'u \<times> (nat \<times> 'v boxed_reply) list" where
  "serve_all re vtable [] a u = (Ran Continue, a, u, [])"
| "serve_all re vtable (x # xs) a u =
    (case serve_one re vtable x a u of
       (Ran Continue, a, u, rs) \<Rightarrow> (let (t, a, u, rs') = serve_all re vtable xs a u in (t, a, u, rs @ rs'))
     | res \<Rightarrow> res)"

text \<open>What the actor stops with: the end of the mailbox is a normal stop.\<close>

fun stopped_with :: "'v flow task \<Rightarrow> 'v stop_reason task" where
  "stopped_with (Ran Continue) = Ran Normal"
| "stopped_with (Ran (Break reason)) = Ran reason"
| "stopped_with TaskPanicked = TaskPanicked"
| "stopped_with TaskDropped = TaskDropped"

section \<open>The actor serves its messages\<close>

definition served :: "(nat \<times> 'v boxed_reply) list \<Rightarrow> 'u \<Rightarrow> ('v, 'u) actor_world \<Rightarrow> ('v, 'u) actor_world" where
  "served rs u w = w\<lparr>w_env := (w_env w)\<lparr>en_replies := en_replies (w_env w) @ rs, en_user := u\<rparr>\<rparr>"

definition with_inbox :: "'v signal list \<Rightarrow> ('v, 'u) actor_world \<Rightarrow> ('v, 'u) actor_world" where
  "with_inbox ss w = w\<lparr>w_env := (w_env w)\<lparr>en_inbox := ss\<rparr>\<rparr>"

lemma served_simps [simp]:
  "en_user (w_env (served rs u w)) = u"
  "en_replies (w_env (served rs u w)) = en_replies (w_env w) @ rs"
  "en_inbox (w_env (served rs u w)) = en_inbox (w_env w)"
  "served rs' u' (served rs u w) = served (rs @ rs') u' w"
  "served [] (en_user (w_env w)) w = w"
  by (simp_all add: served_def)

lemma with_inbox_simps [simp]:
  "en_inbox (w_env (with_inbox ss w)) = ss"
  "en_user (w_env (with_inbox ss w)) = en_user (w_env w)"
  "with_inbox ss (with_inbox ss' w) = with_inbox ss w"
  "served rs u (with_inbox ss w) = with_inbox ss (served rs u w)"
  by (simp_all add: with_inbox_def served_def)

lemma with_inbox_id: "en_inbox (w_env w) = ss \<Longrightarrow> with_inbox ss w = w"
  by (auto simp: with_inbox_def)

lemma world_replies_simps [simp]:
  "to_result (world_replies re) r = to_result re r"
  "into_any_err (world_replies re) t r = into_any_err re t r"
  "into_value (world_replies re) r = into_value re r"
  "re_panic (world_replies re) = re_panic re"
proof -
  show "to_result (world_replies re) r = to_result re r"
    by (cases "(re, r)" rule: to_result.cases) (simp_all add: world_replies_def)
  show "into_any_err (world_replies re) t r = into_any_err re t r"
    by (cases "(re, t, r)" rule: into_any_err.cases) (simp_all add: world_replies_def)
  show "into_value (world_replies re) r = into_value re r"
    by (cases "(re, r)" rule: into_value.cases) (simp_all add: world_replies_def)
qed (simp add: world_replies_def)

lemma world_vtable_eq:
  "vtable m = (t, handle, v) \<Longrightarrow> world_vtable vtable m = (t, \<lambda>a v cx w.
      let (r, a, cx, u) = handle a v cx (en_user (w_env w)) in (r, a, cx, served [] u w), v)"
  by (simp add: world_vtable_def served_def)

lemma world_send: "re_send (world_replies re) tx reply (served [] u w) = served [(tx, reply)] u w"
  by (simp add: world_replies_def served_def)

lemma on_message_serves:
  assumes "serve_one re vtable (m, tx) a (en_user (w_env w)) = (t, a', u, rs)"
  shows "\<exists>res stop. default_on_message (world_replies re) (world_vtable vtable) a m i tx False w = (res, a', stop, served rs u w) \<and>
    t = (case res of
           Returned (Ok _) \<Rightarrow> Ran (if stop then Break Normal else Continue)
         | Returned (Err err) \<Rightarrow> Ran (Break (PanickedWith (panic_error_new err OnMessage)))
         | Unwound p \<Rightarrow> Ran (Break (PanickedWith (new_from_panic_any p HandlerPanic)))
         | Dropped \<Rightarrow> TaskDropped)"
proof -
  obtain ty handle v where vt: "vtable m = (ty, handle, v)" by (cases "vtable m")
  obtain res a1 cx u1 where h: "handle a v (ctx_new tx False) (en_user (w_env w)) = (res, a1, cx, u1)"
    by (cases "handle a v (ctx_new tx False) (en_user (w_env w))")
  note defs = default_on_message_def world_vtable_eq [where vtable = vtable and m = m, OF vt] handle_dyn_def h serve_one_def vt Let_def
  show ?thesis
  proof (cases res)
    case (Returned reply)
    show ?thesis
    proof (cases "cx_reply cx")
      case None
      show ?thesis
        using assms
        by (cases "into_any_err re ty reply")
           (simp_all add: defs Returned None)
    next
      case (Some tx')
      show ?thesis
      proof (cases "to_result re reply")
        case (Done r)
        then obtain val where val: "into_value re reply = Done val" "to_result re val = Done r"
          using into_value_result by blast
        show ?thesis
          using assms
          by (simp add: defs Returned Some reply_sender_send_def val Done world_send)
      next
        case Panicked
        then have "into_value re reply = Panicked" by (simp add: into_value_Panicked)
        then show ?thesis
          using assms
          by (simp add: defs Returned Some Panicked)
      qed
    qed
  qed (use assms in \<open>auto simp add: defs\<close>)
qed

lemma handle_message_serves:
  assumes "serve_one re vtable (m, tx) (ab_state b) (en_user (w_env w)) = (t, a', u, rs)"
    and "ab_finished_startup b"
  shows "handle_message (actor_of name re vtable a0) m i tx within b w = (t, b\<lparr>ab_state := a'\<rparr>, served rs u w)"
proof -
  obtain res stop where "default_on_message (world_replies re) (world_vtable vtable) (ab_state b) m i tx False w =
      (res, a', stop, served rs u w)"
    "t = (case res of
           Returned (Ok _) \<Rightarrow> Ran (if stop then Break Normal else Continue)
         | Returned (Err err) \<Rightarrow> Ran (Break (PanickedWith (panic_error_new err OnMessage)))
         | Unwound p \<Rightarrow> Ran (Break (PanickedWith (new_from_panic_any p HandlerPanic)))
         | Dropped \<Rightarrow> TaskDropped)"
    using on_message_serves [OF assms(1), of i] by blast
  then show ?thesis
    using assms(2) by (simp add: handle_message_def actor_of_def)
qed

definition request_of :: "'v message \<Rightarrow> 'v any \<times> nat option" where
  "request_of m = (case m of (msg, _, tx, _) \<Rightarrow> (msg, tx))"

lemma request_of_simp [simp]: "request_of (m, i, tx, within) = (m, tx)"
  by (simp add: request_of_def)

lemma handle_messages_serve:
  "serve_all re vtable (map request_of ms) (ab_state b) (en_user (w_env w)) = (t, a, u, rs) \<Longrightarrow> ab_finished_startup b \<Longrightarrow>
    handle_messages (actor_of name re vtable a0) ms b w = (t, b\<lparr>ab_state := a\<rparr>, served rs u w)"
proof (induction ms arbitrary: b w t a u rs)
  case (Cons x ms)
  obtain m i tx within where x: "x = (m, i, tx, within)" by (cases x)
  obtain t1 a1 u1 rs1 where one: "serve_one re vtable (m, tx) (ab_state b) (en_user (w_env w)) = (t1, a1, u1, rs1)"
    by (cases "serve_one re vtable (m, tx) (ab_state b) (en_user (w_env w))")
  note step = handle_message_serves [OF one Cons.prems(2), of name a0 i within]
  show ?case
  proof (cases "t1 = Ran Continue")
    case True
    obtain t2 a2 u2 rs2 where rest: "serve_all re vtable (map request_of ms) a1 u1 = (t2, a2, u2, rs2)"
      by (cases "serve_all re vtable (map request_of ms) a1 u1")
    have "handle_messages (actor_of name re vtable a0) ms (b\<lparr>ab_state := a1\<rparr>) (served rs1 u1 w) =
        (t2, (b\<lparr>ab_state := a1\<rparr>)\<lparr>ab_state := a2\<rparr>, served rs2 u2 (served rs1 u1 w))"
      by (rule Cons.IH) (simp_all add: rest Cons.prems(2))
    then show ?thesis
      using Cons.prems(1) by (simp add: x step True one rest)
  next
    case False
    then show ?thesis
      using Cons.prems(1) by (auto simp: x step one split: task.splits flow.splits)
  qed
qed auto

lemma turn_takes:
  assumes "en_inbox (w_env w) = s # ss"
  shows "loop_turn (actor_of name re vtable a0) b w = dispatch (actor_of name re vtable a0) (Some s) b (with_inbox ss w)"
  using assms by (simp add: loop_turn_def behaviour_next_def actor_of_def default_next_def inbox_recv_def with_inbox_def)

lemma turn_ends:
  assumes "en_inbox (w_env w) = []" "ab_startup_buffer b = []"
  shows "loop_turn (actor_of name re vtable a0) b w = (Ran (Break Normal), b\<lparr>ab_finished_startup := True\<rparr>, w)"
  using assms by (simp add: loop_turn_def behaviour_next_def actor_of_def default_next_def inbox_recv_def
      handle_stop_def handle_startup_finished_def)

lemma recv_loop_turn:
  assumes "loop_turn impl b w = (t, b', w')"
  shows "recv_mailbox_loop impl b w = (if t = Ran Continue then recv_mailbox_loop impl b' w' else Some (stopped_with t, b', w'))"
  by (subst recv_mailbox_loop.simps) (auto simp: assms split: task.splits flow.splits)

lemma turn_serves:
  assumes "serve_one re vtable (m, tx) (ab_state b) (en_user (w_env w)) = (t, a, u, rs)"
    and "ab_finished_startup b" and "en_inbox (w_env w) = MessageSignal m i tx within # ss"
  shows "loop_turn (actor_of name re vtable a0) b w = (t, b\<lparr>ab_state := a\<rparr>, served rs u (with_inbox ss w))"
  using turn_takes [OF assms(3), of name re vtable a0 b]
    handle_message_serves [of re vtable m tx b "with_inbox ss w" t a u rs name a0 i within] assms(1,2)
  by simp

lemma recv_loop_serves:
  assumes "serve_all re vtable (map request_of ms) (ab_state b) (en_user (w_env w)) = (t, a, u, rs)"
    and "ab_finished_startup b" and "ab_startup_buffer b = []" and "en_inbox (w_env w) = map message_signal ms"
  shows "\<exists>left. recv_mailbox_loop (actor_of name re vtable a0) b w =
    Some (stopped_with t, b\<lparr>ab_state := a\<rparr>, with_inbox left (served rs u w))"
  using assms
proof (induction ms arbitrary: b w t a u rs)
  case Nil
  have "b\<lparr>ab_finished_startup := True, ab_state := ab_state b\<rparr> = b" using Nil.prems(2) by simp
  then show ?case
    using Nil.prems recv_loop_turn [OF turn_ends [of w b name re vtable a0]]
    by (intro exI [of _ "[]"]) (auto simp: with_inbox_id)
next
  case (Cons x ms)
  obtain m i tx within where x: "x = (m, i, tx, within)" by (cases x)
  obtain t1 a1 u1 rs1 where one: "serve_one re vtable (m, tx) (ab_state b) (en_user (w_env w)) = (t1, a1, u1, rs1)"
    by (cases "serve_one re vtable (m, tx) (ab_state b) (en_user (w_env w))")
  have turn: "loop_turn (actor_of name re vtable a0) b w =
      (t1, b\<lparr>ab_state := a1\<rparr>, served rs1 u1 (with_inbox (map message_signal ms) w))"
    using Cons.prems(4) by (intro turn_serves [OF one Cons.prems(2)]) (simp add: x message_signal_def)
  show ?case
  proof (cases "t1 = Ran Continue")
    case True
    obtain t2 a2 u2 rs2 where rest: "serve_all re vtable (map request_of ms) a1 u1 = (t2, a2, u2, rs2)"
      by (cases "serve_all re vtable (map request_of ms) a1 u1")
    have "\<exists>left. recv_mailbox_loop (actor_of name re vtable a0) (b\<lparr>ab_state := a1\<rparr>)
        (served rs1 u1 (with_inbox (map message_signal ms) w)) =
      Some (stopped_with t2, (b\<lparr>ab_state := a1\<rparr>)\<lparr>ab_state := a2\<rparr>,
        with_inbox left (served rs2 u2 (served rs1 u1 (with_inbox (map message_signal ms) w))))"
      by (rule Cons.IH) (simp_all add: rest Cons.prems(2,3))
    moreover have "t = t2 \<and> a = a2 \<and> u = u2 \<and> rs = rs1 @ rs2"
      using Cons.prems(1) by (auto simp: x one True rest)
    ultimately show ?thesis
      using recv_loop_turn [OF turn] True by simp
  next
    case False
    moreover have "t = t1 \<and> a = a1 \<and> u = u1 \<and> rs = rs1"
      using Cons.prems(1) False by (auto simp: x one split: task.splits flow.splits)
    ultimately show ?thesis
      using recv_loop_turn [OF turn] by auto
  qed
qed

lemma serve_all_append:
  "serve_all re vtable (xs @ ys) a u =
    (case serve_all re vtable xs a u of
       (Ran Continue, a, u, rs) \<Rightarrow> (let (t, a, u, rs') = serve_all re vtable ys a u in (t, a, u, rs @ rs'))
     | res \<Rightarrow> res)"
proof (induction xs arbitrary: a u)
  case Nil
  then show ?case by (simp split: prod.split)
next
  case (Cons x xs)
  obtain t1 a1 u1 rs1 where one: "serve_one re vtable x a u = (t1, a1, u1, rs1)"
    by (cases "serve_one re vtable x a u")
  obtain t2 a2 u2 rs2 where rest: "serve_all re vtable xs a1 u1 = (t2, a2, u2, rs2)"
    by (cases "serve_all re vtable xs a1 u1")
  show ?case
  proof (cases "t1 = Ran Continue")
    case True
    then show ?thesis
      using Cons.IH [of a1 u1]
      by (cases "serve_all re vtable ys a2 u2") (auto simp: one rest split: task.splits flow.splits)
  next
    case False
    then show ?thesis by (auto simp: one split: task.splits flow.splits)
  qed
qed

text \<open>A message before the startup signal is put into the buffer; the signal has the buffer served.\<close>

lemma turn_buffers:
  assumes "\<not> within" and "\<not> ab_finished_startup b" and "en_inbox (w_env w) = MessageSignal m i tx within # ss"
  shows "loop_turn (actor_of name re vtable a0) b w =
    (Ran Continue, b\<lparr>ab_startup_buffer := ab_startup_buffer b @ [MessageSignal m i tx within]\<rparr>, with_inbox ss w)"
  unfolding turn_takes [OF assms(3)]
  using handle_message_buffers [OF assms(1,2), of "actor_of name re vtable a0" m i tx "with_inbox ss w"] assms(1) by simp

lemma turn_finishes_startup:
  assumes "serve_all re vtable (map request_of ms) (ab_state b) (en_user (w_env w)) = (t, a, u, rs)"
    and "ab_startup_buffer b = map message_signal ms" and "en_inbox (w_env w) = StartupFinished # ss"
  shows "loop_turn (actor_of name re vtable a0) b w =
    (t, b\<lparr>ab_finished_startup := True, ab_startup_buffer := [], ab_state := a\<rparr>, served rs u (with_inbox ss w))"
proof -
  let ?b = "b\<lparr>ab_finished_startup := True, ab_startup_buffer := []\<rparr>"
  have "serve_all re vtable (map request_of ms) (ab_state ?b) (en_user (w_env (with_inbox ss w))) = (t, a, u, rs)"
    using assms(1) by simp
  from handle_messages_serve [OF this, of name a0] show ?thesis
    unfolding turn_takes [OF assms(3)]
    using startup_finished_run [OF assms(2), of "actor_of name re vtable a0" "with_inbox ss w"] by simp
qed

lemma recv_loop_buffered:
  assumes "serve_all re vtable (map request_of (ms0 @ ms)) (ab_state b) (en_user (w_env w)) = (t, a, u, rs)"
    and "ab_startup_buffer b = map message_signal ms0" and "en_inbox (w_env w) = StartupFinished # map message_signal ms"
  shows "\<exists>left. recv_mailbox_loop (actor_of name re vtable a0) b w =
    Some (stopped_with t, b\<lparr>ab_state := a, ab_finished_startup := True, ab_startup_buffer := []\<rparr>, with_inbox left (served rs u w))"
proof -
  let ?b = "b\<lparr>ab_finished_startup := True, ab_startup_buffer := []\<rparr>" and ?w = "with_inbox (map message_signal ms) w"
  obtain t1 a1 u1 rs1 where first: "serve_all re vtable (map request_of ms0) (ab_state b) (en_user (w_env w)) = (t1, a1, u1, rs1)"
    by (cases "serve_all re vtable (map request_of ms0) (ab_state b) (en_user (w_env w))")
  note loop = recv_loop_turn [OF turn_finishes_startup [OF first assms(2,3)]]
  have all: "(case (t1, a1, u1, rs1) of
       (Ran Continue, a, u, rs) \<Rightarrow> (let (t, a, u, rs') = serve_all re vtable (map request_of ms) a u in (t, a, u, rs @ rs'))
     | res \<Rightarrow> res) = (t, a, u, rs)"
    using assms(1) first by (simp add: serve_all_append)
  show ?thesis
  proof (cases "t1 = Ran Continue")
    case True
    obtain t2 a2 u2 rs2 where rest: "serve_all re vtable (map request_of ms) a1 u1 = (t2, a2, u2, rs2)"
      by (cases "serve_all re vtable (map request_of ms) a1 u1")
    have "\<exists>left. recv_mailbox_loop (actor_of name re vtable a0) (?b\<lparr>ab_state := a1\<rparr>) (served rs1 u1 ?w) =
      Some (stopped_with t2, (?b\<lparr>ab_state := a1\<rparr>)\<lparr>ab_state := a2\<rparr>, with_inbox left (served rs2 u2 (served rs1 u1 ?w)))"
      by (rule recv_loop_serves) (simp_all add: rest)
    then show ?thesis using loop True all by (auto simp: rest)
  next
    case False
    then have "t1 = t \<and> a1 = a \<and> u1 = u \<and> rs1 = rs" using all by (auto split: task.splits flow.splits)
    then show ?thesis using loop False by auto
  qed
qed

lemma recv_loop_startup:
  assumes "serve_all re vtable (map request_of (ms0 @ ms1 @ ms2)) (ab_state b) (en_user (w_env w)) = (t, a, u, rs)"
    and "\<not> ab_finished_startup b" and "ab_startup_buffer b = map message_signal ms0" and "\<forall>m \<in> set ms1. external m"
    and "en_inbox (w_env w) = map message_signal ms1 @ StartupFinished # map message_signal ms2"
  shows "\<exists>left. recv_mailbox_loop (actor_of name re vtable a0) b w =
    Some (stopped_with t, b\<lparr>ab_state := a, ab_finished_startup := True, ab_startup_buffer := []\<rparr>, with_inbox left (served rs u w))"
  using assms
proof (induction ms1 arbitrary: ms0 b w)
  case Nil
  then show ?case by (intro recv_loop_buffered) simp_all
next
  case (Cons x ms1)
  obtain m i tx within where x: "x = (m, i, tx, within)" by (cases x)
  let ?b = "b\<lparr>ab_startup_buffer := map message_signal (ms0 @ [x])\<rparr>"
  let ?w = "with_inbox (map message_signal ms1 @ StartupFinished # map message_signal ms2) w"
  have "\<not> within" using Cons.prems(4) by (simp add: x external_def)
  then have turn: "loop_turn (actor_of name re vtable a0) b w = (Ran Continue, ?b, ?w)"
    using turn_buffers [of within b w m i tx "map message_signal ms1 @ StartupFinished # map message_signal ms2"] Cons.prems(2,3,5)
    by (simp add: x message_signal_def)
  have "\<exists>left. recv_mailbox_loop (actor_of name re vtable a0) ?b ?w =
    Some (stopped_with t, ?b\<lparr>ab_state := a, ab_finished_startup := True, ab_startup_buffer := []\<rparr>, with_inbox left (served rs u ?w))"
    by (rule Cons.IH [of "ms0 @ [x]"]) (use Cons.prems in simp_all)
  then show ?case
    using recv_loop_turn [OF turn] by simp
qed

lemma shutdown_loop_default:
  assumes "ai_on_panic impl = default_on_panic" and "recv_mailbox_loop impl b w = Some (t, b', w')"
  shows "shutdown_loop impl b w = Some (t, b', w')"
proof (cases t)
  case (Ran reason)
  have "on_shutdown impl reason b' w' = (Ran (Break reason), b', w')"
    by (cases reason) (simp_all add: on_shutdown_def assms(1) default_on_panic_def)
  then show ?thesis by (subst shutdown_loop.simps) (simp add: assms(2) Ran)
qed (subst shutdown_loop.simps; simp add: assms(2))+

lemma actor_serves:
  assumes "serve_all re vtable (map request_of (ms1 @ ms2)) a0 (en_user (w_env w)) = (t, a, u, rs)"
    and "\<forall>m \<in> set ms1. external m"
    and "en_inbox (w_env w) = map message_signal ms1 @ StartupFinished # map message_signal ms2"
  shows "\<exists>b left. abortable_actor_loop (actor_of name re vtable a0) False (new_from_actor a0 i) w =
    Some (stopped_with t, b, with_inbox left (served rs u w)) \<and> ab_state b = a \<and> ab_actor_id b = i"
proof -
  have "\<exists>left. recv_mailbox_loop (actor_of name re vtable a0) (new_from_actor a0 i) w =
      Some (stopped_with t, (new_from_actor a0 i)\<lparr>ab_state := a, ab_finished_startup := True, ab_startup_buffer := []\<rparr>,
        with_inbox left (served rs u w))"
    by (rule recv_loop_startup [of _ _ "[]"]) (use assms in \<open>simp_all add: new_from_actor_def\<close>)
  then obtain left where "recv_mailbox_loop (actor_of name re vtable a0) (new_from_actor a0 i) w =
      Some (stopped_with t, (new_from_actor a0 i)\<lparr>ab_state := a, ab_finished_startup := True, ab_startup_buffer := []\<rparr>,
        with_inbox left (served rs u w))" ..
  from shutdown_loop_default [OF _ this] have "shutdown_loop (actor_of name re vtable a0) (new_from_actor a0 i) w =
      Some (stopped_with t, (new_from_actor a0 i)\<lparr>ab_state := a, ab_finished_startup := True, ab_startup_buffer := []\<rparr>,
        with_inbox left (served rs u w))"
    by (simp add: actor_of_def)
  then show ?thesis
    by (intro exI [of _ "(new_from_actor a0 i)\<lparr>ab_state := a, ab_finished_startup := True, ab_startup_buffer := []\<rparr>"] exI [of _ left])
       (simp add: abortable_actor_loop_def new_from_actor_def)
qed

section \<open>Clients\<close>

text \<open>
  Requests from outside of any actor, each sent and, for an ask, its reply left pending. A client that
  does not get its request through gives up.
\<close>

datatype 'v client_request = TellOf type_id 'v | AskOf type_id 'v

fun request_message :: "'v client_request \<Rightarrow> 'v any" where
  "request_message (TellOf t v) = Any t v"
| "request_message (AskOf t v) = Any t v"

fun issue ::
  "('h, 'k, 'r, 'v signal, 'c) mpsc_send \<Rightarrow> ('v, 'c) oneshot_ops \<Rightarrow> bool \<Rightarrow> 'h actor_ref \<Rightarrow> 'v client_request
    \<Rightarrow> 'c mailbox_state \<Rightarrow> (pending_reply option \<times> 'c mailbox_state) option" where
  "issue ops os metrics ar (TellOf t v) st =
    (case tell_send ops metrics None ar t v None st of
       Some (Done (Ok _ :: (unit, ('v, unit) send_error) result), st) \<Rightarrow> Some (None, st)
     | _ \<Rightarrow> None)"
| "issue ops os metrics ar (AskOf t v) st =
    (case ask_enqueue ops os metrics None ar t v None None st of
       Some (Done (Ok p :: (pending_reply, ('v, unit) send_error) result), st) \<Rightarrow> Some (Some p, st)
     | _ \<Rightarrow> None)"

fun issue_all ::
  "('h, 'k, 'r, 'v signal, 'c) mpsc_send \<Rightarrow> ('v, 'c) oneshot_ops \<Rightarrow> bool \<Rightarrow> 'h actor_ref \<Rightarrow> 'v client_request list
    \<Rightarrow> 'c mailbox_state \<Rightarrow> (pending_reply option list \<times> 'c mailbox_state) option" where
  "issue_all ops os metrics ar [] st = Some ([], st)"
| "issue_all ops os metrics ar (r # rs) st =
    Option.bind (issue ops os metrics ar r st) (\<lambda>(p, st).
      map_option (\<lambda>(ps, st). (p # ps, st)) (issue_all ops os metrics ar rs st))"

text \<open>
  Tokio's contract for an unbounded channel whose receiver lives, and for oneshot channels: \<open>q\<close> is
  what is queued, \<open>used\<close> are the oneshots in existence.
\<close>

definition fifo_channels ::
  "('h, 'k, 'r, 'v signal, 'c) mpsc_send \<Rightarrow> ('v, 'c) oneshot_ops \<Rightarrow> 'h \<Rightarrow> ('c \<Rightarrow> 'v signal list) \<Rightarrow> ('c \<Rightarrow> nat set) \<Rightarrow> bool" where
  "fifo_channels ops os h q used \<longleftrightarrow>
    (\<forall>s c. \<exists>c'. mp_usend ops h s c = (Ok (), c') \<and> q c' = q c @ [s] \<and> used c' = used c) \<and>
    (\<forall>c. \<exists>x c'. os_channel os c = (x, c') \<and> x \<notin> used c \<and> used c' = insert x (used c) \<and> q c' = q c)"

fun pending_id :: "pending_reply \<Rightarrow> nat" where
  "pending_id (PendingReply rx _) = rx"

definition client_message :: "'h actor_ref \<Rightarrow> 'v client_request \<Rightarrow> pending_reply option \<Rightarrow> 'v message" where
  "client_message ar r p = (request_message r, ar_id ar, map_option pending_id p, False)"

lemma usend_fifo:
  assumes "fifo_channels ops os h q used" and "ar_mailbox ar = Unbounded h"
  shows "\<exists>st'. mailbox_send ops metrics (ar_mailbox ar) s st = Some (Ok (), st') \<and>
    q (mb_chan st') = q (mb_chan st) @ [s] \<and> used (mb_chan st') = used (mb_chan st)"
proof -
  obtain c' where "mp_usend ops h s (mb_chan st) = (Ok (), c')" "q c' = q (mb_chan st) @ [s]" "used c' = used (mb_chan st)"
    using assms(1) unfolding fifo_channels_def by metis
  then show ?thesis by (simp add: mailbox_send_def assms(2) after_send_def Let_def apply_metric_def)
qed

lemma issue_fifo:
  assumes "fifo_channels ops os h q used" and "ar_mailbox ar = Unbounded h"
  shows "\<exists>p st'. issue ops os metrics ar r st = Some (p, st') \<and>
    q (mb_chan st') = q (mb_chan st) @ [message_signal (client_message ar r p)] \<and>
    (case r of TellOf _ _ \<Rightarrow> p = None \<and> used (mb_chan st') = used (mb_chan st)
     | AskOf _ _ \<Rightarrow> \<exists>x. p = Some (PendingReply x None) \<and> x \<notin> used (mb_chan st) \<and> used (mb_chan st') = insert x (used (mb_chan st)))"
proof (cases r)
  case (TellOf t v)
  show ?thesis
    using usend_fifo [OF assms, of metrics "request_signal None ar t v None" st]
    by (auto simp: TellOf tell_send_def put_def client_message_def message_signal_def request_signal_def is_current_def)
next
  case (AskOf t v)
  obtain x c' where c': "os_channel os (mb_chan st) = (x, c')" "x \<notin> used (mb_chan st)" "used c' = insert x (used (mb_chan st))"
    "q c' = q (mb_chan st)"
    using assms(1) unfolding fifo_channels_def by metis
  show ?thesis
    using usend_fifo [OF assms, of metrics "request_signal None ar t v (Some x)" "st\<lparr>mb_chan := c'\<rparr>"] c'
    by (auto simp: AskOf ask_enqueue_def oneshot_channel_def put_def client_message_def message_signal_def
        request_signal_def is_current_def)
qed

definition pending_ids :: "pending_reply option list \<Rightarrow> nat list" where
  "pending_ids ps = List.map_filter (map_option pending_id) ps"

lemma pending_ids_simps [simp]:
  "pending_ids [] = []"
  "pending_ids (None # ps) = pending_ids ps"
  "pending_ids (Some p # ps) = pending_id p # pending_ids ps"
  by (simp_all add: pending_ids_def List.map_filter_simps)

fun pends :: "'v client_request \<Rightarrow> pending_reply option \<Rightarrow> bool" where
  "pends (TellOf _ _) p = (p = None)"
| "pends (AskOf _ _) p = (\<exists>x. p = Some (PendingReply x None))"

lemma issue_all_fifo:
  assumes "fifo_channels ops os h q used" and "ar_mailbox ar = Unbounded h"
  shows "\<exists>ps st'. issue_all ops os metrics ar rs st = Some (ps, st') \<and> list_all2 pends rs ps \<and>
    q (mb_chan st') = q (mb_chan st) @ map message_signal (map2 (client_message ar) rs ps) \<and>
    distinct (pending_ids ps) \<and> set (pending_ids ps) \<inter> used (mb_chan st) = {}"
proof (induction rs arbitrary: st)
  case (Cons r rs)
  obtain p st1 where one: "issue ops os metrics ar r st = Some (p, st1)"
    "q (mb_chan st1) = q (mb_chan st) @ [message_signal (client_message ar r p)]"
    "case r of TellOf _ _ \<Rightarrow> p = None \<and> used (mb_chan st1) = used (mb_chan st)
     | AskOf _ _ \<Rightarrow> \<exists>x. p = Some (PendingReply x None) \<and> x \<notin> used (mb_chan st) \<and> used (mb_chan st1) = insert x (used (mb_chan st))"
    using issue_fifo [OF assms, of metrics r st] by blast
  obtain ps st2 where rest: "issue_all ops os metrics ar rs st1 = Some (ps, st2)" "list_all2 pends rs ps"
    "q (mb_chan st2) = q (mb_chan st1) @ map message_signal (map2 (client_message ar) rs ps)"
    "distinct (pending_ids ps)" "set (pending_ids ps) \<inter> used (mb_chan st1) = {}"
    using Cons.IH [of st1] by blast
  show ?case
    using one rest by (cases r) auto
qed simp

text \<open>
  The handlers as a function: what it answers, the actor's next state and that of the others. Replies
  go to the sender of the request and are no markers.
\<close>

definition handles_with ::
  "('v, 'u) reply_env \<Rightarrow> ('a, 'v, 'u) vtable \<Rightarrow> ('a \<Rightarrow> 'v any \<Rightarrow> 'u \<Rightarrow> ('v, 'v) result \<times> 'a \<times> 'u) \<Rightarrow> bool" where
  "handles_with re vtable f \<longleftrightarrow> (\<forall>m a tx u.
    let (t, handle, v) = vtable m; (r, a', u') = f a m u
    in \<exists>reply cx. handle a v (ctx_new tx False) u = (Returned reply, a', cx, u') \<and>
         cx_reply cx = tx \<and> \<not> cx_stop cx \<and> to_result re reply = Done r)"

fun answers ::
  "('a \<Rightarrow> 'v any \<Rightarrow> 'u \<Rightarrow> ('v, 'v) result \<times> 'a \<times> 'u) \<Rightarrow> 'v any list \<Rightarrow> 'a \<Rightarrow> 'u \<Rightarrow> ('v, 'v) result list \<times> 'a \<times> 'u" where
  "answers f [] a u = ([], a, u)"
| "answers f (m # ms) a u = (let (r, a, u) = f a m u; (rs, a, u) = answers f ms a u in (r # rs, a, u))"

fun answerable :: "'v client_request \<Rightarrow> ('v, 'v) result \<Rightarrow> bool" where
  "answerable (TellOf _ _) r = is_ok r"
| "answerable (AskOf _ _) r = True"

fun sent_replies ::
  "('a, 'v, 'u) vtable \<Rightarrow> 'v client_request list \<Rightarrow> pending_reply option list \<Rightarrow> ('v, 'v) result list
    \<Rightarrow> (nat \<times> 'v boxed_reply) list" where
  "sent_replies vtable (AskOf t v # rs) (Some p # ps) (x # xs) =
    (pending_id p, boxed_result (fst (vtable (Any t v))) x) # sent_replies vtable rs ps xs"
| "sent_replies vtable (_ # rs) (_ # ps) (_ # xs) = sent_replies vtable rs ps xs"
| "sent_replies vtable _ _ _ = []"

lemma ok_no_error: "to_result re reply = Done (Ok v) \<Longrightarrow> into_any_err re t reply = None"
  by (cases "(re, t, reply)" rule: into_any_err.cases) auto

lemma serve_one_with:
  assumes "handles_with re vtable f" and "pends r p" and "f a (request_message r) u = (x, a', u')" and "answerable r x"
  shows "serve_one re vtable (request_of (client_message ar r p)) a u = (Ran Continue, a', u', sent_replies vtable [r] [p] [x])"
proof -
  obtain t handle v where vt: "vtable (request_message r) = (t, handle, v)" by (cases "vtable (request_message r)")
  obtain reply cx where h: "handle a v (ctx_new (map_option pending_id p) False) u = (Returned reply, a', cx, u')"
    "cx_reply cx = map_option pending_id p" "\<not> cx_stop cx" "to_result re reply = Done x"
    using assms(1) [unfolded handles_with_def, THEN spec [of _ "request_message r"], THEN spec [of _ a],
        THEN spec [of _ "map_option pending_id p"], THEN spec [of _ u]]
    by (auto simp: vt assms(3))
  show ?thesis
  proof (cases r)
    case (TellOf tm m)
    then obtain ok where "x = Ok ok" using assms(4) by (cases x) auto
    then show ?thesis
      using ok_no_error [of re reply ok t] assms(2) h vt
      by (simp add: TellOf serve_one_def client_message_def)
  next
    case (AskOf tm m)
    then show ?thesis
      using assms(2) h vt by (auto simp: serve_one_def client_message_def)
  qed
qed

lemma serve_all_with:
  assumes "handles_with re vtable f"
  shows "list_all2 pends rs ps \<Longrightarrow> answers f (map request_message rs) a u = (xs, a', u') \<Longrightarrow> list_all2 answerable rs xs \<Longrightarrow>
    serve_all re vtable (map request_of (map2 (client_message ar) rs ps)) a u = (Ran Continue, a', u', sent_replies vtable rs ps xs)"
proof (induction rs arbitrary: ps xs a u)
  case (Cons r rs)
  obtain p ps' where ps: "ps = p # ps'" "pends r p" "list_all2 pends rs ps'"
    using Cons.prems(1) by (auto simp: list_all2_Cons1)
  obtain x a1 u1 where one: "f a (request_message r) u = (x, a1, u1)" by (cases "f a (request_message r) u")
  obtain xs' where xs: "xs = x # xs'" "answers f (map request_message rs) a1 u1 = (xs', a', u')"
    using Cons.prems(2) by (auto simp: one split: prod.splits)
  have ans: "answerable r x" "list_all2 answerable rs xs'" using Cons.prems(3) by (simp_all add: xs)
  have "sent_replies vtable (r # rs) (p # ps') (x # xs') = sent_replies vtable [r] [p] [x] @ sent_replies vtable rs ps' xs'"
    using ps(2) by (cases r) auto
  then show ?case
    using serve_one_with [OF assms ps(2) one ans(1), of ar] Cons.IH [OF ps(3) xs(2) ans(2)]
    by (simp add: ps(1) xs(1))
qed simp

lemma sent_replies_ids:
  "list_all2 pends rs ps \<Longrightarrow> length xs = length rs \<Longrightarrow> map fst (sent_replies vtable rs ps xs) = pending_ids ps"
proof (induction rs arbitrary: ps xs)
  case (Cons r rs)
  then obtain p ps' x xs' where "ps = p # ps'" "xs = x # xs'" "pends r p" "list_all2 pends rs ps'" "length xs' = length rs"
    by (auto simp: list_all2_Cons1 length_Suc_conv)
  then show ?case using Cons.IH by (cases r) auto
qed simp

lemma sent_reply_unique:
  "list_all2 pends rs ps \<Longrightarrow> length xs = length rs \<Longrightarrow> distinct (pending_ids ps) \<Longrightarrow> k < length rs \<Longrightarrow> rs ! k = AskOf t v \<Longrightarrow>
    \<exists>x. ps ! k = Some (PendingReply x None) \<and>
      filter (\<lambda>e. fst e = x) (sent_replies vtable rs ps xs) = [(x, boxed_result (fst (vtable (Any t v))) (xs ! k))]"
proof (induction rs arbitrary: ps xs k)
  case (Cons r rs)
  then obtain p ps' y xs' where l: "ps = p # ps'" "xs = y # xs'" "pends r p" "list_all2 pends rs ps'" "length xs' = length rs"
    by (auto simp: list_all2_Cons1 length_Suc_conv)
  have ids: "map fst (sent_replies vtable rs ps' xs') = pending_ids ps'"
    using sent_replies_ids [OF l(4,5)] .
  have distinct: "distinct (pending_ids ps')"
    using Cons.prems(3) by (cases p) (simp_all add: l(1))
  show ?case
  proof (cases k)
    case 0
    then have r: "r = AskOf t v" using Cons.prems(5) by simp
    then obtain x where x: "p = Some (PendingReply x None)" using l(3) by auto
    have "x \<notin> set (map fst (sent_replies vtable rs ps' xs'))"
      using Cons.prems(3) by (simp add: ids l(1) x)
    then have "filter (\<lambda>e. fst e = x) (sent_replies vtable rs ps' xs') = []"
      by (auto simp: filter_empty_conv)
    then show ?thesis by (simp add: 0 l r x)
  next
    case (Suc j)
    then obtain x where x: "ps' ! j = Some (PendingReply x None)"
      "filter (\<lambda>e. fst e = x) (sent_replies vtable rs ps' xs') = [(x, boxed_result (fst (vtable (Any t v))) (xs' ! j))]"
      using Cons.IH [OF l(4,5) distinct, of j] Cons.prems(4,5) by auto
    have "(x, boxed_result (fst (vtable (Any t v))) (xs' ! j)) \<in> set (filter (\<lambda>e. fst e = x) (sent_replies vtable rs ps' xs'))"
      unfolding x(2) by simp
    then have "(x, boxed_result (fst (vtable (Any t v))) (xs' ! j)) \<in> set (sent_replies vtable rs ps' xs')" by auto
    then have "x \<in> set (pending_ids ps')"
      unfolding ids [symmetric] by force
    then have "pending_id (the p) \<noteq> x" if "p \<noteq> None"
      using Cons.prems(3) that by (auto simp: l(1))
    then show ?thesis
      using l(3) x by (cases r) (auto simp: Suc l(1,2))
  qed
qed simp


section \<open>Properties\<close>

text \<open>
  C3. An actor with default hooks does to its state, to what it shares with others and to its askers
  exactly what handling its messages one after the other does, in the order of its mailbox; wherever
  in the mailbox the startup signal falls, and whatever a handler does: stop, fail, unwind or be
  dropped. The loop ends with the reason of the first handler that does, and normally otherwise.
\<close>

theorem actor_is_sequential:
  assumes "en_inbox (w_env w) = map message_signal ms1 @ StartupFinished # map message_signal ms2"
    and "\<forall>m \<in> set ms1. external m"
    and "serve_all re vtable (map request_of (ms1 @ ms2)) a0 (en_user (w_env w)) = (t, a, u, rs)"
  shows "\<exists>b w'. abortable_actor_loop (actor_of name re vtable a0) False (new_from_actor a0 i) w = Some (stopped_with t, b, w') \<and>
    ab_state b = a \<and> en_user (w_env w') = u \<and> en_replies (w_env w') = en_replies (w_env w) @ rs \<and>
    w_links w' = w_links w \<and> w_notices w' = w_notices w \<and> w_error_hook_calls w' = w_error_hook_calls w"
proof -
  obtain b left where "abortable_actor_loop (actor_of name re vtable a0) False (new_from_actor a0 i) w =
      Some (stopped_with t, b, with_inbox left (served rs u w))" "ab_state b = a"
    using actor_serves [OF assms(3,2,1)] by blast
  then show ?thesis
    by (intro exI [of _ b] exI [of _ "with_inbox left (served rs u w)"]) (simp add: with_inbox_def served_def)
qed

text \<open>An actor that counts in steps: it adds the numbers it gets and answers its sum, or fails above 9.\<close>

definition stepper_handler :: "(nat, nat, nat) handler" where
  "stepper_handler a v cx u =
    (Returned (ResultReply (if 9 < a + v then Err a else Ok (a + v))), a + v, cx, u + 1)"

definition stepper_vtable :: "(nat, nat, nat) vtable" where
  "stepper_vtable m = (case m of Any t v \<Rightarrow> (ResultType TyUnit TyString, stepper_handler, v)
    | AnyBox _ \<Rightarrow> (ResultType TyUnit TyString, stepper_handler, 0))"

definition stepper_replies :: "(nat, nat) reply_env" where
  "stepper_replies = \<lparr>re_error_value = (\<lambda>_. 99), re_unpair = (\<lambda>v. (v, 0)), re_send = (\<lambda>_ _ u. u), re_panic = Any TyStr 0\<rparr>"

definition stepper_world :: "nat signal list \<Rightarrow> (nat, nat) actor_world" where
  "stepper_world ss = \<lparr>w_links = [], w_startup_result = None, w_shutdown_result = None, w_error_hook_calls = [],
    w_registry = registry_new, w_notices = [], w_env = \<lparr>en_inbox = ss, en_replies = [], en_user = 0\<rparr>\<rparr>"

theorem actor_is_sequential_witness:
  "\<exists>b w'. abortable_actor_loop (actor_of ''stepper'' stepper_replies stepper_vtable 0) False (new_from_actor 0 (ActorId 1))
      (stepper_world [MessageSignal (Any TyUnit 4) (ActorId 1) None False, StartupFinished,
        MessageSignal (Any TyUnit 3) (ActorId 1) (Some 7) False]) = Some (Ran Normal, b, w') \<and>
    ab_state b = 7 \<and> en_replies (w_env w') = [(7, Ok (Any TyUnit 7))]"
proof -
  have inbox: "en_inbox (w_env (stepper_world [MessageSignal (Any TyUnit 4) (ActorId 1) None False, StartupFinished,
        MessageSignal (Any TyUnit 3) (ActorId 1) (Some 7) False])) =
      map message_signal [(Any TyUnit 4, ActorId 1, None, False)] @ StartupFinished #
      map message_signal [(Any TyUnit 3, ActorId 1, Some 7, False)]"
    by (simp add: stepper_world_def message_signal_def)
  have serves: "serve_all stepper_replies stepper_vtable
      (map request_of ([(Any TyUnit 4, ActorId 1, None, False)] @ [(Any TyUnit 3, ActorId 1, Some 7, False)])) 0
      (en_user (w_env (stepper_world [MessageSignal (Any TyUnit 4) (ActorId 1) None False, StartupFinished,
        MessageSignal (Any TyUnit 3) (ActorId 1) (Some 7) False]))) =
    (Ran Continue, 7, 2, [(7, Ok (Any TyUnit 7))])"
    by (simp add: serve_one_def stepper_vtable_def stepper_handler_def ctx_new_def stepper_world_def boxed_result_def)
  show ?thesis
    using actor_is_sequential [OF inbox _ serves, of "''stepper''" "ActorId 1"]
    by (auto simp: external_def stepper_world_def)
qed

text \<open>
  C2. Requests that clients send one after the other are answered as if the actor had been there alone
  with them in that order: each ask gets exactly one reply, which opens to what the handler answers in
  the state that all requests before it have left, an error as a handler error; and that is the state
  the actor ends with. It does not matter where between the requests the actor's startup finishes.
\<close>

theorem requests_answered_in_order:
  assumes channels: "fifo_channels ops os h q used" "ar_mailbox ar = Unbounded h"
    and issued: "issue_all ops os metrics ar rs st = Some (ps, st')" "q (mb_chan st) = []"
    and inbox: "q (mb_chan st') = ss1 @ ss2" "en_inbox (w_env w) = ss1 @ StartupFinished # ss2" "en_replies (w_env w) = []"
    and handlers: "handles_with re vtable f" "answers f (map request_message rs) a0 (en_user (w_env w)) = (xs, a, u)"
      "list_all2 answerable rs xs"
  shows "\<exists>b w'. abortable_actor_loop (actor_of name re vtable a0) False (new_from_actor a0 i) w = Some (Ran Normal, b, w') \<and>
    ab_state b = a \<and> en_user (w_env w') = u \<and>
    (\<forall>k < length rs. \<forall>t v. rs ! k = AskOf t v \<longrightarrow> (\<exists>x reply. ps ! k = Some (PendingReply x None) \<and>
      filter (\<lambda>e. fst e = x) (en_replies (w_env w')) = [(x, reply)] \<and>
      open_reply (default_downcast t (ok_type (fst (vtable (Any t v)))) (error_type (fst (vtable (Any t v))))) reply =
        Done (map_err HandlerError (xs ! k))))"
proof -
  have ps: "list_all2 pends rs ps" "distinct (pending_ids ps)"
    and queue: "ss1 @ ss2 = map message_signal (map2 (client_message ar) rs ps)"
    using issue_all_fifo [OF channels, of metrics rs st] issued inbox(1) by auto
  obtain ms1 ms2 where ms: "map2 (client_message ar) rs ps = ms1 @ ms2" "ss1 = map message_signal ms1" "ss2 = map message_signal ms2"
    using sym [OF queue] unfolding map_eq_append_conv by blast
  have "external m" if "m \<in> set (map2 (client_message ar) rs ps)" for m
    using that by (auto simp: client_message_def external_def)
  then have outside: "\<forall>m \<in> set ms1. external m" by (simp add: ms(1))
  have serves: "serve_all re vtable (map request_of (ms1 @ ms2)) a0 (en_user (w_env w)) = (Ran Continue, a, u, sent_replies vtable rs ps xs)"
    unfolding ms(1) [symmetric] using serve_all_with [OF handlers(1) ps(1) handlers(2,3)] .
  obtain b left where run: "abortable_actor_loop (actor_of name re vtable a0) False (new_from_actor a0 i) w =
      Some (Ran Normal, b, with_inbox left (served (sent_replies vtable rs ps xs) u w))" "ab_state b = a"
    using actor_serves [OF serves outside, of name i] inbox(2) ms by auto
  have len: "length xs = length rs" using handlers(3) by (simp add: list_all2_lengthD)
  have replies: "en_replies (w_env (with_inbox left (served (sent_replies vtable rs ps xs) u w))) = sent_replies vtable rs ps xs"
    by (simp add: with_inbox_def inbox(3))
  have "\<exists>x reply. ps ! k = Some (PendingReply x None) \<and>
      filter (\<lambda>e. fst e = x) (sent_replies vtable rs ps xs) = [(x, reply)] \<and>
      open_reply (default_downcast t (ok_type (fst (vtable (Any t v)))) (error_type (fst (vtable (Any t v))))) reply =
        Done (map_err HandlerError (xs ! k))" if "k < length rs" "rs ! k = AskOf t v" for k t v
    using sent_reply_unique [OF ps(1) len ps(2) that, of vtable] open_boxed by blast
  note answered = this
  show ?thesis
  proof (intro exI conjI)
    show "abortable_actor_loop (actor_of name re vtable a0) False (new_from_actor a0 i) w =
      Some (Ran Normal, b, with_inbox left (served (sent_replies vtable rs ps xs) u w))" by (rule run(1))
    show "ab_state b = a" by (rule run(2))
    show "en_user (w_env (with_inbox left (served (sent_replies vtable rs ps xs) u w))) = u" by simp
  qed (unfold replies, use answered in blast)
qed

text \<open>One unbounded channel and a supply of oneshots, as an instance of tokio's contract.\<close>

definition queue_ops :: "(unit, unit, unit, 's, nat \<times> 's list) mpsc_send" where
  "queue_ops =
    \<lparr>mp_channel = (\<lambda>n c. Done (((), ()), c)), mp_unbounded_channel = (\<lambda>c. (((), ()), c)),
     mp_send = (\<lambda>h s (n, ss). Some (Ok (), (n, ss @ [s]))), mp_try_send = (\<lambda>h s (n, ss). (Ok (), (n, ss @ [s]))),
     mp_send_timeout = (\<lambda>h s d (n, ss). (Ok (), (n, ss @ [s]))),
     mp_blocking_send = (\<lambda>h s (n, ss). Some (Ok (), (n, ss @ [s]))), mp_usend = (\<lambda>h s (n, ss). (Ok (), (n, ss @ [s]))),
     mp_closed = (\<lambda>h c. None), mp_is_closed = (\<lambda>h c. False), mp_upgrade = (\<lambda>k c. (Some (), c))\<rparr>"

definition queue_oneshot :: "('v, nat \<times> 's list) oneshot_ops" where
  "queue_oneshot =
    \<lparr>os_channel = (\<lambda>(n, ss). (n, (Suc n, ss))), os_recv = (\<lambda>_ _. None), os_recv_timeout = (\<lambda>_ _ c. (Err (), c)),
     os_blocking_recv = (\<lambda>_ _. None)\<rparr>"

lemma fifo_queue: "fifo_channels queue_ops queue_oneshot () snd (\<lambda>c. {..<fst c})"
  by (auto simp: fifo_channels_def queue_ops_def queue_oneshot_def)

definition queue_mailbox :: "(nat \<times> nat signal list) mailbox_state" where
  "queue_mailbox = \<lparr>mb_chan = (5, []), mb_sent = \<lparr>c_messages = 0, c_lifecycle = 0, c_link_died = 0\<rparr>,
     mb_received = \<lparr>c_messages = 0, c_lifecycle = 0, c_link_died = 0\<rparr>\<rparr>"

definition stepper_step :: "nat \<Rightarrow> nat any \<Rightarrow> nat \<Rightarrow> (nat, nat) result \<times> nat \<times> nat" where
  "stepper_step a m u = (case m of Any t v \<Rightarrow> (if 9 < a + v then Err a else Ok (a + v), a + v, u + 1)
    | AnyBox _ \<Rightarrow> (if 9 < a then Err a else Ok a, a, u + 1))"

lemma stepper_handles: "handles_with stepper_replies stepper_vtable stepper_step"
  unfolding handles_with_def
proof (intro allI)
  fix m :: "nat any" and a :: nat and tx :: "nat option" and u :: nat
  show "let (t, handle, v) = stepper_vtable m; (r, a', u') = stepper_step a m u
    in \<exists>reply cx. handle a v (ctx_new tx False) u = (Returned reply, a', cx, u') \<and>
      cx_reply cx = tx \<and> \<not> cx_stop cx \<and> to_result stepper_replies reply = Done r"
    by (cases m) (simp_all add: stepper_vtable_def stepper_step_def stepper_handler_def ctx_new_def)
qed

theorem requests_answered_in_order_witness:
  "\<exists>b w'. abortable_actor_loop (actor_of ''stepper'' stepper_replies stepper_vtable 0) False (new_from_actor 0 (ActorId 1))
      (stepper_world [MessageSignal (Any TyUnit 4) (ActorId 1) (Some 5) False, StartupFinished,
        MessageSignal (Any TyUnit 3) (ActorId 1) None False, MessageSignal (Any TyUnit 5) (ActorId 1) (Some 6) False]) =
      Some (Ran Normal, b, w') \<and>
    ab_state b = 12 \<and> (\<exists>reply. filter (\<lambda>e. fst e = 6) (en_replies (w_env w')) = [(6, reply)] \<and>
      open_reply (default_downcast TyUnit TyUnit TyString) reply = Done (Err (HandlerError 7)))"
proof -
  let ?requests = "[AskOf TyUnit 4, TellOf TyUnit 3, AskOf TyUnit 5] :: nat client_request list"
  have issued: "\<exists>st'. issue_all queue_ops queue_oneshot False \<lparr>ar_id = ActorId 1, ar_mailbox = Unbounded ()\<rparr> ?requests queue_mailbox =
      Some ([Some (PendingReply 5 None), None, Some (PendingReply 6 None)], st') \<and>
    snd (mb_chan st') = [MessageSignal (Any TyUnit 4) (ActorId 1) (Some 5) False] @
      [MessageSignal (Any TyUnit 3) (ActorId 1) None False, MessageSignal (Any TyUnit 5) (ActorId 1) (Some 6) False]"
    by (simp add: ask_enqueue_def tell_send_def oneshot_channel_def put_def mailbox_send_def after_send_def queue_ops_def
        queue_oneshot_def queue_mailbox_def request_signal_def is_current_def)
  then obtain st' where st': "issue_all queue_ops queue_oneshot False \<lparr>ar_id = ActorId 1, ar_mailbox = Unbounded ()\<rparr> ?requests queue_mailbox =
      Some ([Some (PendingReply 5 None), None, Some (PendingReply 6 None)], st')"
    "snd (mb_chan st') = [MessageSignal (Any TyUnit 4) (ActorId 1) (Some 5) False] @
      [MessageSignal (Any TyUnit 3) (ActorId 1) None False, MessageSignal (Any TyUnit 5) (ActorId 1) (Some 6) False]"
    by blast
  have empty: "snd (mb_chan queue_mailbox) = []" by (simp add: queue_mailbox_def)
  have inbox: "en_inbox (w_env (stepper_world ([MessageSignal (Any TyUnit 4) (ActorId 1) (Some 5) False] @ StartupFinished #
      [MessageSignal (Any TyUnit 3) (ActorId 1) None False, MessageSignal (Any TyUnit 5) (ActorId 1) (Some 6) False]))) =
    [MessageSignal (Any TyUnit 4) (ActorId 1) (Some 5) False] @ StartupFinished #
      [MessageSignal (Any TyUnit 3) (ActorId 1) None False, MessageSignal (Any TyUnit 5) (ActorId 1) (Some 6) False]"
    by (simp add: stepper_world_def)
  have mailbox: "ar_mailbox \<lparr>ar_id = ActorId 1, ar_mailbox = Unbounded ()\<rparr> = Unbounded ()" by simp
  have "\<exists>b w'. abortable_actor_loop (actor_of ''stepper'' stepper_replies stepper_vtable 0) False (new_from_actor 0 (ActorId 1))
      (stepper_world ([MessageSignal (Any TyUnit 4) (ActorId 1) (Some 5) False] @ StartupFinished #
        [MessageSignal (Any TyUnit 3) (ActorId 1) None False, MessageSignal (Any TyUnit 5) (ActorId 1) (Some 6) False])) =
      Some (Ran Normal, b, w') \<and> ab_state b = 12 \<and> en_user (w_env w') = 3 \<and>
    (\<forall>k < length ?requests. \<forall>t v. ?requests ! k = AskOf t v \<longrightarrow> (\<exists>x reply.
      [Some (PendingReply 5 None), None, Some (PendingReply 6 None)] ! k = Some (PendingReply x None) \<and>
      filter (\<lambda>e. fst e = x) (en_replies (w_env w')) = [(x, reply)] \<and>
      open_reply (default_downcast t (ok_type (fst (stepper_vtable (Any t v)))) (error_type (fst (stepper_vtable (Any t v))))) reply =
        Done (map_err HandlerError ([Ok 4, Ok 7, Err 7] ! k))))"
    by (rule requests_answered_in_order [OF fifo_queue mailbox st'(1) empty st'(2) inbox _ stepper_handles])
       (simp_all add: stepper_step_def stepper_world_def)
  then show ?thesis
    by (elim exE conjE) (drule spec [of _ 2], auto simp: stepper_vtable_def)
qed

end
