(* ===== verification/Error_Text.thy ===== *)
theory Error_Text
  imports Errors
begin

text \<open>
  What the errors say of themselves: the \<open>Display\<close> texts of \<open>src/error.rs\<close> and \<open>src/actor/id.rs\<close>. The text
  of an error that is carried is a parameter, like that of a value, and so is what \<open>Debug\<close> prints of a
  payload.
\<close>

section \<open>Numbers\<close>

text \<open>Decimal, as \<open>{}\<close> prints an unsigned integer.\<close>

fun decimal :: "nat \<Rightarrow> string" where
  "decimal n = (if n < 10 then [char_of (48 + n)] else decimal (n div 10) @ [char_of (48 + n mod 10)])"

declare decimal.simps [simp del]

definition decimal_value :: "string \<Rightarrow> nat" where
  "decimal_value s = foldl (\<lambda>n c. 10 * n + (of_char c - 48)) 0 s"

lemma decimal_roundtrip: "decimal_value (decimal n) = n"
proof (induction n rule: decimal.induct)
  case (1 n)
  have digit: "of_char (char_of (48 + d) :: char) - 48 = (d :: nat)" if "d < 10" for d :: nat
    using that by simp
  show ?case
  proof (cases "n < 10")
    case True
    then show ?thesis using digit [of n] by (simp add: decimal.simps [of n] decimal_value_def)
  next
    case False
    then have "foldl (\<lambda>n c. 10 * n + (of_char c - 48)) 0 (decimal (n div 10)) = n div 10"
      using 1 by (simp add: decimal_value_def)
    then show ?thesis
      using False digit [of "n mod 10"] by (simp add: decimal.simps [of n] decimal_value_def)
  qed
qed

lemma decimal_inject [simp]: "decimal m = decimal n \<longleftrightarrow> m = n"
  by (metis decimal_roundtrip)

fun actor_id_text :: "actor_id \<Rightarrow> string" where
  "actor_id_text (ActorId i) = ''ActorId('' @ decimal (unat i) @ '')''"

fun actor_id_error_text :: "actor_id_error \<Rightarrow> string" where
  "actor_id_error_text MissingSequenceID = ''missing instance ID''"


section \<open>Errors of sends\<close>

fun send_error_text :: "('e \<Rightarrow> string) \<Rightarrow> ('m, 'e) send_error \<Rightarrow> string" where
  "send_error_text f (ActorNotRunning _) = ''actor not running''"
| "send_error_text f ActorStopped = ''actor stopped''"
| "send_error_text f MissingConnection = ''missing cached connection''"
| "send_error_text f ConnectionClosed = ''connection closed''"
| "send_error_text f (MailboxFull _) = ''mailbox full''"
| "send_error_text f (HandlerError err) = f err"
| "send_error_text f (Timeout _) = ''timeout''"

fun send_error_debug :: "('e \<Rightarrow> string) \<Rightarrow> ('m, 'e) send_error \<Rightarrow> string" where
  "send_error_debug f (ActorNotRunning _) = ''ActorNotRunning''"
| "send_error_debug f ActorStopped = ''ActorStopped''"
| "send_error_debug f MissingConnection = ''MissingConnection''"
| "send_error_debug f ConnectionClosed = ''ConnectionClosed''"
| "send_error_debug f (MailboxFull _) = ''MailboxFull''"
| "send_error_debug f (HandlerError err) = f err"
| "send_error_debug f (Timeout _) = ''Timeout''"

fun remote_error_display :: "('e \<Rightarrow> string) \<Rightarrow> 'e remote_send_error \<Rightarrow> string" where
  "remote_error_display f RActorNotRunning = ''actor not running''"
| "remote_error_display f RActorStopped = ''actor stopped''"
| "remote_error_display f RMissingConnection = ''missing cached connection''"
| "remote_error_display f (RUnknownActor a) = ''unknown actor '' @ [CHR 0x27] @ a @ [CHR 0x27]"
| "remote_error_display f (RUnknownMessage a m) =
    ''unknown message '' @ [CHR 0x27] @ m @ [CHR 0x27] @ '' for actor '' @ [CHR 0x27] @ a @ [CHR 0x27]"
| "remote_error_display f RBadActorType = ''bad actor type''"
| "remote_error_display f RMailboxFull = ''mailbox full''"
| "remote_error_display f RReplyTimeout = ''timeout''"
| "remote_error_display f (RHandlerError err) = f err"
| "remote_error_display f (RSerializeMessage err) = ''failed to serialize message: '' @ err"
| "remote_error_display f (RDeserializeMessage err) = ''failed to deserialize message: '' @ err"
| "remote_error_display f (RSerializeReply err) = ''failed to serialize reply: '' @ err"
| "remote_error_display f (RSerializeHandlerError err) = ''failed to serialize handler error: '' @ err"
| "remote_error_display f (RDeserializeHandlerError err) = ''failed to deserialize handler error: '' @ err"
| "remote_error_display f RTransportNotBootstrapped = ''transport not available - use external transport/registry''"
| "remote_error_display f RDialFailure = ''dial failure''"
| "remote_error_display f RNetworkTimeout = ''network timeout''"
| "remote_error_display f RConnectionClosed = ''connection closed''"
| "remote_error_display f RUnsupportedProtocols = ''unsupported protocols''"
| "remote_error_display f (RIo (Some err)) = err"
| "remote_error_display f (RIo None) = ''io error''"

fun registry_error_text :: "registry_error \<Rightarrow> string" where
  "registry_error_text NameAlreadyRegistered = ''name already registered''"
| "registry_error_text BadActorType = ''bad actor type''"
| "registry_error_text (QuorumFailed quorum) = ''the quorum failed; needed '' @ decimal quorum @ '' peers''"
| "registry_error_text TransportNotBootstrapped = ''transport not bootstrapped''"
| "registry_error_text RegistryTimeout = ''the request timed out''"


section \<open>Panics and stop reasons\<close>

fun panic_reason_text :: "panic_reason \<Rightarrow> string" where
  "panic_reason_text HandlerPanic = ''message handler panicked''"
| "panic_reason_text OnMessage = ''on_message returned error''"
| "panic_reason_text OnStart = ''on_start returned error''"
| "panic_reason_text OnPanic = ''on_panic returned error''"
| "panic_reason_text OnLinkDied = ''on_link_died returned error''"
| "panic_reason_text OnLinkEstablished = ''on_link_established returned error''"
| "panic_reason_text OnStop = ''on_stop returned error''"

text \<open>\<open>str\<close> reads a value that is a string.\<close>

definition panic_error_text :: "('v \<Rightarrow> string) \<Rightarrow> 'v panic_error \<Rightarrow> string" where
  "panic_error_text str p =
    (case pe_with_str p (\<lambda>s. panic_reason_text (pe_reason p) @ '': '' @ str s) of
       Some text \<Rightarrow> text
     | None \<Rightarrow> panic_reason_text (pe_reason p))"

text \<open>
  \<open>with_debug_inner\<close>: a string is printed by the \<open>Debug\<close> of strings, and otherwise a boxed reply error or
  the payload itself by its own.
\<close>

definition debug_inner :: "('v \<Rightarrow> string) \<Rightarrow> ('v any \<Rightarrow> string) \<Rightarrow> 'v panic_error \<Rightarrow> string" where
  "debug_inner dbg_str dbg p =
    (case pe_with_str p dbg_str of Some text \<Rightarrow> text | None \<Rightarrow> pe_with p dbg)"

fun stop_reason_text :: "('v \<Rightarrow> string) \<Rightarrow> 'v stop_reason \<Rightarrow> string" where
  "stop_reason_text str Normal = ''actor stopped normally''"
| "stop_reason_text str Killed = ''actor was killed''"
| "stop_reason_text str (PanickedWith err) = panic_error_text str err"
| "stop_reason_text str (LinkDiedReason i _) = ''link '' @ actor_id_text i @ '' died''"
| "stop_reason_text str PeerDisconnected = ''peer disconnected''"

fun hook_error_text :: "('v \<Rightarrow> string) \<Rightarrow> ('e \<Rightarrow> string) \<Rightarrow> ('v, 'e) hook_error \<Rightarrow> string" where
  "hook_error_text str f (HookPanicked err) = panic_error_text str err"
| "hook_error_text str f (HookError err) = f err"

section \<open>What the texts tell\<close>

text \<open>
  An error says the same before and after a conversion: flattening, boxing, mapping what it carries and
  turning a local error into a remote one.
\<close>

lemma remote_flatten_text: "remote_error_display f (remote_flatten r) = remote_error_display (remote_error_display f) r"
proof (cases r rule: remote_flatten.cases)
  case (38 x)
  then show ?thesis by (cases x) simp_all
next
  case (39 x)
  then show ?thesis by (cases x) simp_all
qed simp_all

lemma flatten_text: "send_error_text f (send_error_flatten e) = send_error_text (send_error_text f) e"
  by (cases e rule: send_error_flatten.cases) simp_all

lemma map_msg_text: "send_error_text f (map_msg g e) = send_error_text f e"
  by (cases e) simp_all

lemma map_send_err_text: "send_error_text f (map_send_err h e) = send_error_text (\<lambda>x. f (h x)) e"
  by (cases e) simp_all

lemma boxed_text: "send_error_text f (send_error_boxed tm te e) = send_error_text (\<lambda>x. f (Any te x)) e"
  by (cases e) simp_all

lemma remote_from_text: "remote_error_display f (remote_from_send_error e) = send_error_text f e"
  by (cases e) simp_all

lemma remote_map_text: "remote_error_display f (remote_map_err g r) = remote_error_display (\<lambda>e. f (g e)) r"
proof (cases "(g, r)" rule: remote_map_err.cases)
  case (20 g x)
  then show ?thesis by (cases x) simp_all
qed simp_all

theorem error_texts_survive_conversions:
  "send_error_text f (send_error_flatten e) = send_error_text (send_error_text f) e \<and>
   send_error_text f (map_msg g e1) = send_error_text f e1 \<and>
   send_error_text f (map_send_err h e2) = send_error_text (\<lambda>x. f (h x)) e2 \<and>
   send_error_text f2 (send_error_boxed tm te e3) = send_error_text (\<lambda>x. f2 (Any te x)) e3 \<and>
   remote_error_display f (remote_from_send_error e1) = send_error_text f e1 \<and>
   remote_error_display f (remote_flatten r) = remote_error_display (remote_error_display f) r \<and>
   remote_error_display f (remote_map_err h r2) = remote_error_display (\<lambda>x. f (h x)) r2"
  by (intro conjI flatten_text map_msg_text map_send_err_text boxed_text remote_from_text remote_flatten_text remote_map_text)

lemma reason_text: "takeWhile (\<lambda>c. c \<noteq> CHR '':'') (panic_reason_text r @ s) =
    panic_reason_text r @ takeWhile (\<lambda>c. c \<noteq> CHR '':'') s"
  by (rule takeWhile_append2) (cases r; auto)

lemma reason_of_text: "takeWhile (\<lambda>c. c \<noteq> CHR '':'') (panic_error_text str p) = panic_reason_text (pe_reason p)"
  using reason_text [of "pe_reason p" "[]"]
  by (auto simp: panic_error_text_def pe_with_str_def pe_with_def reason_text split: option.splits)

lemma reason_text_inject: "panic_reason_text r = panic_reason_text r' \<longleftrightarrow> r = r'"
  by (cases r; cases r') simp_all

text \<open>The text of a panic tells its reason, and that of a dead link the actor, but not why it died.\<close>

lemma panic_text_tells_reason: "panic_error_text str p = panic_error_text str p' \<Longrightarrow> pe_reason p = pe_reason p'"
  using reason_of_text [of str p] reason_of_text [of str p'] by (simp add: reason_text_inject)

lemma actor_id_text_inject: "actor_id_text i = actor_id_text j \<longleftrightarrow> i = j"
  by (cases i; cases j) (simp add: word_unat_eq_iff)

lemma link_died_text: "stop_reason_text str (LinkDiedReason i r) = stop_reason_text str (LinkDiedReason j r') \<longleftrightarrow> i = j"
  by (simp add: actor_id_text_inject)

end
