(* ===== verification/Remote_Request.thy ===== *)
theory Remote_Request
  imports Distributed_Ref
begin

text \<open>
  The requests of references to remote actors as they are built (\<open>src/remote/distributed_actor_ref.rs\<close>,
  \<open>src/remote/dynamic_distributed_actor_ref.rs\<close>), and the rest of the references' operations.
\<close>

section \<open>References\<close>

definition dist_clone :: "('g, 'a, 'p, 'kp, 'k) distributed_ref \<Rightarrow> ('g, 'a, 'p, 'kp, 'k) distributed_ref" where
  "dist_clone r =
    \<lparr>dr_actor_id = dr_actor_id r, dr_location = dr_location r, dr_name = dr_name r, dr_transport = dr_transport r,
     dr_connection = dr_connection r, dr_alive = dr_alive r\<rparr>"

definition new_without_connection ::
  "actor_id \<Rightarrow> 'a remote_location \<Rightarrow> ('g, 'a, 'p, 'kp) kameo_transport \<Rightarrow> ('g, 'a, 'p, 'kp, 'k) distributed_ref" where
  "new_without_connection actor_id location tr =
    \<lparr>dr_actor_id = actor_id, dr_location = location, dr_name = None, dr_transport = tr,
     dr_connection = None, dr_alive = None\<rparr>"

text \<open>The blocking variants have bodies of their own.\<close>

definition dist_blocking_link ::
  "('p, 'x, 'y) metadata_codec \<Rightarrow> ('g, 'a, 'p, 'kp, 'k) distributed_ref \<Rightarrow> actor_id \<Rightarrow> 'h
    \<Rightarrow> ('a, 'p, 'h) remote_links \<Rightarrow> ('a, 'p, 'h) remote_links" where
  "dist_blocking_link mc r local_id mailbox links =
    (let location = dr_location r
     in case decode_v1 mc (rm_metadata location) of
          Ok meta \<Rightarrow> remote_link_with_peer_id (lm_peer_id meta) (rm_peer_addr location) (rm_actor_id location) local_id mailbox links
        | Err _ \<Rightarrow> remote_link (rm_peer_addr location) (rm_actor_id location) local_id mailbox links)"

definition dist_blocking_unlink ::
  "('g, 'a, 'p, 'kp, 'k) distributed_ref \<Rightarrow> actor_id \<Rightarrow> ('a, 'p, 'h) remote_links \<Rightarrow> ('a, 'p, 'h) remote_links" where
  "dist_blocking_unlink r local_id links =
    registry_unlink (rm_peer_addr (dr_location r)) (rm_actor_id (dr_location r)) local_id links"

definition dynamic_blocking_link ::
  "('p, 'x, 'y) metadata_codec \<Rightarrow> ('g, 'a, 'p, 'kp, 'k) dynamic_ref \<Rightarrow> actor_id \<Rightarrow> 'h
    \<Rightarrow> ('a, 'p, 'h) remote_links \<Rightarrow> ('a, 'p, 'h) remote_links" where
  "dynamic_blocking_link mc r local_id mailbox links =
    (let location = dy_location r
     in case decode_v1 mc (rm_metadata location) of
          Ok meta \<Rightarrow> remote_link_with_peer_id (lm_peer_id meta) (rm_peer_addr location) (rm_actor_id location) local_id mailbox links
        | Err _ \<Rightarrow> remote_link (rm_peer_addr location) (rm_actor_id location) local_id mailbox links)"

definition dynamic_blocking_unlink ::
  "('g, 'a, 'p, 'kp, 'k) dynamic_ref \<Rightarrow> actor_id \<Rightarrow> ('a, 'p, 'h) remote_links \<Rightarrow> ('a, 'p, 'h) remote_links" where
  "dynamic_blocking_unlink r local_id links =
    registry_unlink (rm_peer_addr (dy_location r)) (rm_actor_id (dy_location r)) local_id links"


section \<open>Requests\<close>

text \<open>A message knows its type hash and how it is encoded.\<close>

record ('r, 'm) remote_tell_request =
  tr_ref :: 'r
  tr_message :: 'm
  tr_timeout :: "nat option"

record ('r, 'm) remote_ask_request =
  kr_ref :: 'r
  kr_message :: 'm
  kr_timeout :: "nat option"

definition dist_tell ::
  "('g, 'a, 'p, 'kp, 'k) distributed_ref \<Rightarrow> 'm \<Rightarrow> (('g, 'a, 'p, 'kp, 'k) distributed_ref, 'm) remote_tell_request" where
  "dist_tell r message = \<lparr>tr_ref = r, tr_message = message, tr_timeout = None\<rparr>"

definition dist_ask ::
  "('g, 'a, 'p, 'kp, 'k) distributed_ref \<Rightarrow> 'm \<Rightarrow> (('g, 'a, 'p, 'kp, 'k) distributed_ref, 'm) remote_ask_request" where
  "dist_ask r message = \<lparr>kr_ref = r, kr_message = message, kr_timeout = None\<rparr>"

definition dynamic_tell ::
  "('g, 'a, 'p, 'kp, 'k) dynamic_ref \<Rightarrow> 'm \<Rightarrow> (('g, 'a, 'p, 'kp, 'k) dynamic_ref, 'm) remote_tell_request" where
  "dynamic_tell r message = \<lparr>tr_ref = r, tr_message = message, tr_timeout = None\<rparr>"

definition dynamic_ask ::
  "('g, 'a, 'p, 'kp, 'k) dynamic_ref \<Rightarrow> 'm \<Rightarrow> (('g, 'a, 'p, 'kp, 'k) dynamic_ref, 'm) remote_ask_request" where
  "dynamic_ask r message = \<lparr>kr_ref = r, kr_message = message, kr_timeout = None\<rparr>"

definition remote_tell_timeout :: "nat \<Rightarrow> ('r, 'm) remote_tell_request \<Rightarrow> ('r, 'm) remote_tell_request" where
  "remote_tell_timeout duration q = q\<lparr>tr_timeout := Some duration\<rparr>"

definition remote_ask_timeout :: "nat \<Rightarrow> ('r, 'm) remote_ask_request \<Rightarrow> ('r, 'm) remote_ask_request" where
  "remote_ask_timeout duration q = q\<lparr>kr_timeout := Some duration\<rparr>"

definition dist_tell_request_send ::
  "('g, 'a, 'p, 'kp, 'k, 'w) gossip \<Rightarrow> ('a, 'p) handle_cache \<Rightarrow> type_hash \<Rightarrow> ('m \<Rightarrow> (bytes, string) result)
    \<Rightarrow> (('g, 'a, 'p, 'kp, 'k) distributed_ref, 'm) remote_tell_request \<Rightarrow> 'w
    \<Rightarrow> (unit, (unit, unit) send_error) result \<times> 'w" where
  "dist_tell_request_send gp c h to_bytes q w = dist_tell_send gp c (tr_ref q) h to_bytes (tr_message q) (tr_timeout q) w"

definition dist_ask_request_send ::
  "('g, 'a, 'p, 'kp, 'k, 'w) gossip \<Rightarrow> ('a, 'p) handle_cache \<Rightarrow> type_hash \<Rightarrow> ('m \<Rightarrow> (bytes, string) result)
    \<Rightarrow> (bytes \<Rightarrow> ('v, string) result) \<Rightarrow> (('g, 'a, 'p, 'kp, 'k) distributed_ref, 'm) remote_ask_request \<Rightarrow> 'w
    \<Rightarrow> ('v, (unit, unit) send_error) result \<times> 'w" where
  "dist_ask_request_send gp c h to_bytes from_bytes q w =
    dist_ask_send gp c (kr_ref q) h to_bytes from_bytes (kr_message q) (kr_timeout q) w"


section \<open>What they do\<close>

lemma blocking_links_agree:
  "dist_blocking_link mc r = dist_link mc r" "dist_blocking_unlink r = dist_unlink r"
  "dynamic_blocking_link mc d = dynamic_link mc d" "dynamic_blocking_unlink d = dynamic_unlink d"
  by (intro ext; simp add: dist_blocking_link_def dist_link_def dist_blocking_unlink_def dist_unlink_def
      dynamic_blocking_link_def dynamic_link_def dynamic_blocking_unlink_def dynamic_unlink_def Let_def)+

text \<open>A clone shares the connection and the liveness token: it dies with the reference it is made from.\<close>

lemma clone_shares_liveness: "ref_alive c (dist_clone r) = ref_alive c r" "dr_connection (dist_clone r) = dr_connection r"
  by (simp_all add: ref_alive_def dist_clone_def)

text \<open>
  The timeout of a remote tell changes nothing: it waits as long as the connection does. The timeout of
  an ask replaces both defaults, the one of small and the one of streamed payloads.
\<close>

theorem remote_tell_timeout_unused:
  "dist_tell_request_send gp c h to_bytes (remote_tell_timeout d (dist_tell r m)) w =
     dist_tell_request_send gp c h to_bytes (dist_tell r m) w \<and>
   dist_ask_request_send gp c h to_bytes from_bytes (remote_ask_timeout d (dist_ask r m)) w =
     dist_ask_send gp c r h to_bytes from_bytes m (Some d) w"
  by (simp add: dist_tell_request_send_def remote_tell_timeout_def dist_tell_def dist_tell_send_def
      dist_ask_request_send_def remote_ask_timeout_def dist_ask_def)

end
