(* ===== verification/Event_System.thy ===== *)
theory Event_System
  imports Broker Message_Bus Message_Queue Recipient Actor_System
begin

text \<open>
  The routing actors over the mailboxes of the actors they deliver to. The theories of the broker, the
  bus and the message queue prove what they deliver to a post office; here the tells of a recipient
  (\<open>Recipient\<close>, \<open>Request\<close>, \<open>Mailbox\<close>) are shown to implement that post office, and what is published is
  followed through the mailbox and the loop of a subscriber (\<open>Actor_System\<close>) to its handlers.
\<close>

section \<open>Implementations of the post office\<close>

text \<open>
  The contract of tells that implement the post office of \<open>Delivery\<close>: in related worlds every
  operation answers the same and leads to related worlds.
\<close>

locale post_refinement =
  fixes ops :: "('h, 'm, unit, 'u, 'w) tell_ops"
    and rel :: "'w \<Rightarrow> ('h, 'm, 'u) post \<Rightarrow> bool"
  assumes send: "rel w p \<Longrightarrow> fst (tl_send ops h m w) = fst (tl_send post_ops h m p) \<and>
      rel (snd (tl_send ops h m w)) (snd (tl_send post_ops h m p))"
    and try_send: "rel w p \<Longrightarrow> fst (tl_try_send ops h m w) = fst (tl_try_send post_ops h m p) \<and>
      rel (snd (tl_try_send ops h m w)) (snd (tl_try_send post_ops h m p))"
    and send_timeout: "rel w p \<Longrightarrow> fst (tl_send_timeout ops h d m w) = fst (tl_send_timeout post_ops h d m p) \<and>
      rel (snd (tl_send_timeout ops h d m w)) (snd (tl_send_timeout post_ops h d m p))"
    and spawns: "rel w p \<Longrightarrow> rel (tl_spawn ops t w) (tl_spawn post_ops t p)"
begin

lemma deliver_to_refines:
  "rel w p \<Longrightarrow> fst (deliver_to s ops r m u w) = fst (deliver_to s post_ops r m u p) \<and>
    rel (snd (deliver_to s ops r m u w)) (snd (deliver_to s post_ops r m u p))"
  using send [of w p "rp_handle r" m] try_send [of w p "rp_handle r" m] send_timeout [of w p "rp_handle r" _ m]
  by (cases s) (auto simp: Let_def split_beta spawns)

lemma delivers_alike:
  assumes "rel w p"
  obtains gone w1 p1 where "deliver_to s ops r m u w = (gone, w1)" "deliver_to s post_ops r m u p = (gone, p1)" "rel w1 p1"
  using deliver_to_refines [OF assms, of s r m u]
  by (cases "deliver_to s ops r m u w"; cases "deliver_to s post_ops r m u p") auto

lemma deliver_all_refines:
  "rel w p \<Longrightarrow> fst (deliver_all s ops u m rs w) = fst (deliver_all s post_ops u m rs p) \<and>
    rel (snd (deliver_all s ops u m rs w)) (snd (deliver_all s post_ops u m rs p))"
proof (induction rs arbitrary: w p)
  case (Cons r rs)
  from deliver_to_refines [OF Cons.prems, of s r m "u r"]
    Cons.IH [OF deliver_to_refines [OF Cons.prems, of s r m "u r", THEN conjunct2]]
  show ?case by (simp add: Let_def split_beta)
qed simp

end

text \<open>The three routing actors over such tells. A publish that may unwind does so in both worlds.\<close>

fun alike :: "('w \<Rightarrow> 'p \<Rightarrow> bool) \<Rightarrow> ('a \<times> 'w) outcome \<Rightarrow> ('a \<times> 'p) outcome \<Rightarrow> bool" where
  "alike rel (Done (a, w)) (Done (b, p)) = (a = b \<and> rel w p)"
| "alike rel Panicked Panicked = True"
| "alike rel _ _ = False"

lemma alike_Done: "alike rel x (Done (b, p)) \<longleftrightarrow> (\<exists>w. x = Done (b, w) \<and> rel w p)"
  by (cases "(rel, x, Done (b, p))" rule: alike.cases) auto

lemma alike_map:
  "alike rel x y \<Longrightarrow> alike rel (map_outcome (\<lambda>(a, w). (f a, w)) x) (map_outcome (\<lambda>(a, p). (f a, p)) y)"
  by (cases "(rel, x, y)" rule: alike.cases) auto

locale broker_refinement = post_refinement ops rel
  for ops :: "('h, 'm, unit, 'k unsubscribe_msg, 'w) tell_ops" and rel
begin

lemma broker_deliver_refines:
  "rel w p \<Longrightarrow> fst (broker_deliver matches s ops topic m subs w) = fst (broker_deliver matches s post_ops topic m subs p) \<and>
    rel (snd (broker_deliver matches s ops topic m subs w)) (snd (broker_deliver matches s post_ops topic m subs p))"
proof (induction subs arbitrary: w p)
  case (Cons e subs)
  obtain k rs where e: "e = (k, rs)" by (cases e)
  from deliver_all_refines [OF Cons.prems, of s "\<lambda>r. (k, rp_id r)" m rs] Cons.IH [OF Cons.prems]
    Cons.IH [OF deliver_all_refines [OF Cons.prems, of s "\<lambda>r. (k, rp_id r)" m rs, THEN conjunct2]]
  show ?case by (simp add: e Let_def split_beta)
qed simp

lemma broker_publish_refines:
  "rel w p \<Longrightarrow> fst (broker_publish matches ops topic m br w) = fst (broker_publish matches post_ops topic m br p) \<and>
    rel (snd (broker_publish matches ops topic m br w)) (snd (broker_publish matches post_ops topic m br p))"
  using broker_deliver_refines [of w p matches "br_delivery_strategy br" topic m "br_subscriptions br"]
  by (simp add: broker_publish_def Let_def split_beta)

end

locale bus_refinement = post_refinement ops rel
  for ops :: "('h, 'm, unit, actor_id, 'w) tell_ops" and rel
begin

lemma bus_deliver_refines: "rel w p \<Longrightarrow> alike rel (bus_deliver s ops t m gs w) (bus_deliver s post_ops t m gs p)"
proof (induction gs arbitrary: w p)
  case (Cons g gs)
  show ?case
  proof (cases "any_downcast (TyRecipient t) (bu_recipient g)")
    case (Some r)
    obtain gone w1 p1 where d: "deliver_to s ops r m (bu_actor_id g) w = (gone, w1)"
      "deliver_to s post_ops r m (bu_actor_id g) p = (gone, p1)" "rel w1 p1"
      by (rule delivers_alike [OF Cons.prems])
    show ?thesis
      using alike_map [OF Cons.IH [OF d(3)], of "\<lambda>to_remove. if gone then bu_actor_id g # to_remove else to_remove"]
      by (simp add: Some d)
  qed simp
qed simp

lemma bus_publish_refines: "rel w p \<Longrightarrow> alike rel (bus_publish ops t m mb w) (bus_publish post_ops t m mb p)"
  by (auto simp: bus_publish_def intro!: bus_deliver_refines alike_map split: option.split)

end

locale queue_refinement = post_refinement ops rel
  for ops :: "('h, 'm, unit, 'h basic_cancel_msg, 'w) tell_ops" and rel
begin

lemma deliver_registrations_refines:
  "rel w p \<Longrightarrow> alike rel (deliver_registrations s ops t n m gs w) (deliver_registrations s post_ops t n m gs p)"
proof (induction gs arbitrary: w p)
  case (Cons g gs)
  show ?case
  proof (cases "any_downcast (TyRecipient t) (rg_recipient g)")
    case (Some r)
    obtain gone w1 p1 where d: "deliver_to s ops r m (BasicCancel n r) w = (gone, w1)"
      "deliver_to s post_ops r m (BasicCancel n r) p = (gone, p1)" "rel w1 p1"
      by (rule delivers_alike [OF Cons.prems])
    show ?thesis
      using alike_map [OF Cons.IH [OF d(3)], of "\<lambda>to_cancel. if gone then r # to_cancel else to_cancel"]
      by (simp add: Some d)
  qed simp
qed simp

lemma delivery_message_refines:
  "rel w p \<Longrightarrow> alike rel (delivery_message ops t n m flt mq w) (delivery_message post_ops t n m flt mq p)"
  unfolding delivery_message_def by (intro alike_map deliver_registrations_refines)

lemma deliver_queues_refines:
  "rel w p \<Longrightarrow> alike rel (deliver_queues ops t m flt qs mq w) (deliver_queues post_ops t m flt qs mq p)"
proof (induction qs arbitrary: mq w p)
  case (Cons q qs)
  from delivery_message_refines [OF Cons.prems, of t q m flt mq] Cons.IH show ?case
    by (cases "(rel, delivery_message ops t q m flt mq w, delivery_message post_ops t q m flt mq p)" rule: alike.cases) auto
qed simp

end

interpretation post_broker: broker_refinement post_ops "(=)" by unfold_locales simp_all
interpretation post_bus: bus_refinement post_ops "(=)" by unfold_locales simp_all
interpretation post_queue: queue_refinement post_ops "(=)" by unfold_locales simp_all

section \<open>Tells into mailboxes\<close>

text \<open>
  An actor with an unbounded mailbox, by its identifier and its sender, and the recipient made of it.
  The routing actor runs on the task of the actor \<open>current\<close>. A tell that waited for ever or unwound
  would have no result.
\<close>

definition unbounded_recipient :: "type_id \<Rightarrow> actor_id \<times> 'h \<Rightarrow> 'h dyn_recipient" where
  "unbounded_recipient t x = actor_recipient t \<lparr>ar_id = fst x, ar_mailbox = Unbounded (snd x)\<rparr>"

fun settled :: "('a outcome \<times> 's) option \<Rightarrow> 'a \<times> 's" where
  "settled (Some (Done a, st)) = (a, st)"
| "settled _ = undefined"

definition mailbox_tells ::
  "('h, 'k, 'r, 'v signal, 'c) mpsc_send \<Rightarrow> bool \<Rightarrow> actor_id option \<Rightarrow> type_id
    \<Rightarrow> (actor_id \<times> 'h, 'v, unit, 'u, 'c mailbox_state \<times> (actor_id \<times> 'h, 'v, 'u) delivery_task list) tell_ops" where
  "mailbox_tells ops metrics current t =
    \<lparr>tl_send = (\<lambda>x m (st, ts).
       apsnd (\<lambda>st. (st, ts)) (settled (recipient_tell_send ops metrics current (recipient_tell (unbounded_recipient t x) m) st))),
     tl_try_send = (\<lambda>x m (st, ts).
       apsnd (\<lambda>st. (st, ts))
         (settled (Some (recipient_tell_try_send ops metrics current (recipient_tell (unbounded_recipient t x) m) st)))),
     tl_send_timeout = (\<lambda>x d m (st, ts).
       apsnd (\<lambda>st. (st, ts)) (settled (recipient_tell_send ops metrics current
         (recipient_mailbox_timeout d (recipient_tell (unbounded_recipient t x) m)) st))),
     tl_spawn = (\<lambda>task (st, ts). (st, ts @ [task]))\<rparr>"

text \<open>
  Tokio's contract for a set of unbounded channels: \<open>live\<close> are those whose receiver is still there,
  \<open>q\<close> is what is queued in each.
\<close>

definition open_mailboxes ::
  "('h, 'k, 'r, 's, 'c) mpsc_send \<Rightarrow> ('h \<Rightarrow> bool) \<Rightarrow> ('c \<Rightarrow> 'h \<Rightarrow> 's list) \<Rightarrow> bool" where
  "open_mailboxes ops live q \<longleftrightarrow> (\<forall>h s c. \<exists>c'.
    if live h then mp_usend ops h s c = (Ok (), c') \<and> q c' = (q c)(h := q c h @ [s])
    else mp_usend ops h s c = (Err s, c') \<and> q c' = q c)"

definition event_signal :: "actor_id option \<Rightarrow> type_id \<Rightarrow> (actor_id \<times> 'h) \<times> 'v \<Rightarrow> 'v signal" where
  "event_signal current t e = MessageSignal (Any t (snd e)) (fst (fst e)) None (current = Some (fst (fst e)))"

text \<open>The mailboxes hold what the post office has logged, each in the order of the log.\<close>

definition logged_in ::
  "actor_id option \<Rightarrow> type_id \<Rightarrow> ('h \<Rightarrow> bool) \<Rightarrow> ('c \<Rightarrow> 'h \<Rightarrow> 'v signal list) \<Rightarrow> ('h \<Rightarrow> 'v signal list)
    \<Rightarrow> 'c mailbox_state \<times> (actor_id \<times> 'h, 'v, 'u) delivery_task list \<Rightarrow> (actor_id \<times> 'h, 'v, 'u) post \<Rightarrow> bool" where
  "logged_in current t live q q0 w p \<longleftrightarrow> po_tasks p = snd w \<and> po_running p = live \<circ> snd \<and> po_full p = (\<lambda>_. False) \<and>
    q (mb_chan (fst w)) = (\<lambda>h. q0 h @ map (event_signal current t) (filter (\<lambda>e. snd (fst e) = h) (po_log p)))"

lemma put_unbounded:
  fixes st :: "'c mailbox_state" and m :: 'v
  assumes "open_mailboxes ops live q" and "ar_mailbox ar = Unbounded h"
  obtains st' where "q (mb_chan st') = (if live h then (q (mb_chan st))(h := q (mb_chan st) h @ [request_signal current ar t m None])
      else q (mb_chan st))"
    "\<forall>d. put ops metrics t ar (request_signal current ar t m None) d st =
      Some (Done (if live h then Ok () else Err (ActorNotRunning m) :: (unit, ('v, unit) send_error) result), st')"
    "try_put ops metrics t ar (request_signal current ar t m None) st =
      (Done (if live h then Ok () else Err (ActorNotRunning m) :: (unit, ('v, unit) send_error) result), st')"
proof -
  let ?s = "request_signal current ar t m None"
  obtain c' where c': "if live h then mp_usend ops h ?s (mb_chan st) = (Ok (), c') \<and> q c' = (q (mb_chan st))(h := q (mb_chan st) h @ [?s])
    else mp_usend ops h ?s (mb_chan st) = (Err ?s, c') \<and> q c' = q (mb_chan st)"
    using assms(1) unfolding open_mailboxes_def by blast
  show ?thesis
  proof (cases "live h")
    case True
    let ?st = "snd (after_send metrics (kind_of_signal ?s) st (Ok () :: (unit, unit) result, c'))"
    have "\<forall>d. put ops metrics t ar ?s d st = Some (Done (Ok ()), ?st)"
      using c' True by (simp add: put_def mailbox_send_def mailbox_send_timeout_def assms(2) after_send_def Let_def split: option.split)
    then show ?thesis
      using c' True that [of ?st]
      by (cases metrics) (simp_all add: try_put_def mailbox_try_send_def assms(2) after_send_def Let_def apply_metric_def)
  next
    case False
    have "\<forall>d. put ops metrics t ar ?s d st = Some (Done (Err (ActorNotRunning m)), st\<lparr>mb_chan := c'\<rparr>)"
      using c' False by (simp add: put_def mailbox_send_def mailbox_send_timeout_def assms(2) after_send_def
          Let_def from_mpsc_send_error_def request_signal_def split: option.split)
    then show ?thesis
      using c' False that [of "st\<lparr>mb_chan := c'\<rparr>"]
      by (simp add: try_put_def mailbox_try_send_def assms(2) after_send_def Let_def request_signal_def)
  qed
qed

lemmas mailbox_tells_ops = mailbox_tells_def recipient_tell_send_def recipient_tell_try_send_def handler_tell_def
  handler_try_tell_def recipient_tell_def recipient_mailbox_timeout_def recipient_mailbox_timeout_opt_def
  unbounded_recipient_def actor_recipient_def send_fut_tell_send tell_send_def tell_try_send_def

lemma mailbox_tell_step:
  fixes m :: 'v
  assumes "open_mailboxes ops live q" and "logged_in current t live q q0 w p"
  obtains w' where "logged_in current t live q q0 w' (if live (snd x) then p\<lparr>po_log := po_log p @ [(x, m)]\<rparr> else p)"
    "tl_send (mailbox_tells ops metrics current t) x m w = (if live (snd x) then Ok () else Err (ActorNotRunning m), w')"
    "tl_try_send (mailbox_tells ops metrics current t) x m w = (if live (snd x) then Ok () else Err (ActorNotRunning m), w')"
    "\<forall>d. tl_send_timeout (mailbox_tells ops metrics current t) x d m w = (if live (snd x) then Ok () else Err (ActorNotRunning m), w')"
proof -
  obtain st ts where w: "w = (st, ts)" by (cases w)
  let ?ar = "\<lparr>ar_id = fst x, ar_mailbox = Unbounded (snd x)\<rparr>"
  have ar: "ar_mailbox ?ar = Unbounded (snd x)" by simp
  obtain st' where st': "q (mb_chan st') = (if live (snd x)
      then (q (mb_chan st))(snd x := q (mb_chan st) (snd x) @ [request_signal current ?ar t m None]) else q (mb_chan st))"
    "\<forall>d. put ops metrics t ?ar (request_signal current ?ar t m None) d st =
      Some (Done (if live (snd x) then Ok () else Err (ActorNotRunning m) :: (unit, ('v, unit) send_error) result), st')"
    "try_put ops metrics t ?ar (request_signal current ?ar t m None) st =
      (Done (if live (snd x) then Ok () else Err (ActorNotRunning m) :: (unit, ('v, unit) send_error) result), st')"
    using put_unbounded [OF assms(1) ar, of st current t m metrics] by metis
  have "request_signal current ?ar t m None = event_signal current t (x, m)"
    by (simp add: request_signal_def event_signal_def is_current_def)
  then have logged: "logged_in current t live q q0 (st', ts) (if live (snd x) then p\<lparr>po_log := po_log p @ [(x, m)]\<rparr> else p)"
    using assms(2) st'(1) by (auto simp: logged_in_def w fun_eq_iff)
  show ?thesis
    using that [OF logged] st'(2,3) by (simp add: w mailbox_tells_ops)
qed

lemma mailbox_tells_refine:
  assumes "open_mailboxes ops live q"
  shows "post_refinement (mailbox_tells ops metrics current t) (logged_in current t live q q0)"
proof unfold_locales
  fix w p x d m
  assume rel: "logged_in current t live q q0 w p"
  then have world: "po_running p = live \<circ> snd" "po_full p = (\<lambda>_. False)" by (simp_all add: logged_in_def)
  obtain w' where w': "logged_in current t live q q0 w' (if live (snd x) then p\<lparr>po_log := po_log p @ [(x, m)]\<rparr> else p)"
    "tl_send (mailbox_tells ops metrics current t) x m w = (if live (snd x) then Ok () else Err (ActorNotRunning m), w')"
    "tl_try_send (mailbox_tells ops metrics current t) x m w = (if live (snd x) then Ok () else Err (ActorNotRunning m), w')"
    "\<forall>d. tl_send_timeout (mailbox_tells ops metrics current t) x d m w = (if live (snd x) then Ok () else Err (ActorNotRunning m), w')"
    by (rule mailbox_tell_step [OF assms rel, where x = x and m = m and metrics = metrics])
  show "fst (tl_send (mailbox_tells ops metrics current t) x m w) = fst (tl_send post_ops x m p) \<and>
      logged_in current t live q q0 (snd (tl_send (mailbox_tells ops metrics current t) x m w)) (snd (tl_send post_ops x m p))"
    "fst (tl_try_send (mailbox_tells ops metrics current t) x m w) = fst (tl_try_send post_ops x m p) \<and>
      logged_in current t live q q0 (snd (tl_try_send (mailbox_tells ops metrics current t) x m w)) (snd (tl_try_send post_ops x m p))"
    "fst (tl_send_timeout (mailbox_tells ops metrics current t) x d m w) = fst (tl_send_timeout post_ops x d m p) \<and>
      logged_in current t live q q0 (snd (tl_send_timeout (mailbox_tells ops metrics current t) x d m w))
        (snd (tl_send_timeout post_ops x d m p))"
    using w'(1) by (auto simp: w'(2-4) post_ops_def world)
next
  fix w p task
  assume "logged_in current t live q q0 w p"
  then show "logged_in current t live q q0 (tl_spawn (mailbox_tells ops metrics current t) task w) (tl_spawn post_ops task p)"
    by (cases w) (simp add: mailbox_tells_def post_ops_def logged_in_def)
qed

section \<open>A subscriber's events\<close>

text \<open>Messages published one after the other.\<close>

fun publish_events ::
  "('p \<Rightarrow> string \<Rightarrow> bool) \<Rightarrow> ('h, 'm, 'e, 'p unsubscribe_msg, 'w) tell_ops \<Rightarrow> (string \<times> 'm) list \<Rightarrow> ('p, 'h) broker \<Rightarrow> 'w
    \<Rightarrow> ('p, 'h) broker \<times> 'w" where
  "publish_events matches ops [] br w = (br, w)"
| "publish_events matches ops ((topic, m) # es) br w =
    (let (br, w) = broker_publish matches ops topic m br w in publish_events matches ops es br w)"

context broker_refinement begin

lemma publish_events_refines:
  "rel w p \<Longrightarrow> fst (publish_events matches ops es br w) = fst (publish_events matches post_ops es br p) \<and>
    rel (snd (publish_events matches ops es br w)) (snd (publish_events matches post_ops es br p))"
proof (induction es arbitrary: br w p)
  case (Cons e es)
  obtain topic m where e: "e = (topic, m)" by (cases e)
  note one = broker_publish_refines [OF Cons.prems, of matches topic m br]
  from one Cons.IH [OF one [THEN conjunct2]] show ?case by (simp add: e Let_def split_beta)
qed simp

end

text \<open>
  How often an actor is among the recipients of a topic, and what it is sent of a list of events: a
  message once for each subscription of its that matches.
\<close>

definition copies :: "('p \<Rightarrow> string \<Rightarrow> bool) \<Rightarrow> ('p, 'h recipient list) hash_map \<Rightarrow> 'h \<Rightarrow> string \<Rightarrow> nat" where
  "copies matches subs x topic = length (filter (\<lambda>(p, r). rp_handle r = x) (addressed matches topic subs))"

definition events_for ::
  "('p \<Rightarrow> string \<Rightarrow> bool) \<Rightarrow> ('p, 'h recipient list) hash_map \<Rightarrow> 'h \<Rightarrow> (string \<times> 'm) list \<Rightarrow> 'm list" where
  "events_for matches subs x es = concat (map (\<lambda>(topic, m). replicate (copies matches subs x topic) m) es)"

text \<open>
  Recipients answer the identifier of their reference, and nobody else has the identifier or the
  mailbox of the actor \<open>x\<close>.
\<close>

definition one_actor :: "actor_id \<times> 'h \<Rightarrow> (actor_id \<times> 'h) recipient \<Rightarrow> bool" where
  "one_actor x r \<longleftrightarrow> rp_id r = fst (rp_handle r) \<and> (rp_id r = fst x \<or> snd (rp_handle r) = snd x \<longrightarrow> rp_handle r = x)"

definition only_ref :: "actor_id \<times> 'h \<Rightarrow> ('p, (actor_id \<times> 'h) recipient list) hash_map \<Rightarrow> bool" where
  "only_ref x subs \<longleftrightarrow> list_all (\<lambda>(k, rs). list_all (one_actor x) rs) subs"

text \<open>Unsubscribing as a change of every entry in place.\<close>

lemma hm_remove_filter: "hm_remove k m = filter (\<lambda>e. fst e \<noteq> k) m"
  by (auto simp: hm_remove_def AList.delete_eq case_prod_beta' intro: filter_cong)

lemma hm_insert_in_place:
  "hm_wf m \<Longrightarrow> k \<in> set (hm_keys m) \<Longrightarrow> hm_insert k v m = map (\<lambda>(k', w). (k', if k' = k then v else w)) m"
proof (induction m)
  case (Cons e m)
  obtain k' w where e: "e = (k', w)" by (cases e)
  have rest: "hm_wf m" "k' \<notin> set (hm_keys m)" using Cons.prems(1) by (auto simp: e hm_wf_def)
  have "map (\<lambda>(k'', w). (k'', if k'' = k then v else w)) m = m" if "k \<notin> set (hm_keys m)"
    using that by (intro map_idI) (auto simp: hm_keys_def image_iff)
  then show ?case
    using Cons.IH [OF rest(1)] Cons.prems(2) rest(2) by (auto simp: e hm_insert_def)
qed simp

lemma broker_unsubscribe_table:
  assumes "broker_wf br"
  shows "br_subscriptions (broker_unsubscribe p i br) = filter (\<lambda>(k, rs). rs \<noteq> [])
    (map (\<lambda>(k, rs). (k, if k = p then filter (\<lambda>r. rp_id r \<noteq> i) rs else rs)) (br_subscriptions br))"
proof -
  let ?subs = "br_subscriptions br"
  let ?f = "\<lambda>(k, rs). (k, if k = p then filter (\<lambda>r. rp_id r \<noteq> i) rs else rs)"
  have wf: "hm_wf ?subs" and full: "\<And>k rs. (k, rs) \<in> set ?subs \<Longrightarrow> rs \<noteq> []"
    using assms by (auto simp: broker_wf_def hm_all_def hm_get_eq_Some_iff)
  show ?thesis
  proof (cases "hm_get ?subs p")
    case None
    then have "map ?f ?subs = ?subs" by (intro map_idI) (force simp: hm_get_None_iff hm_keys_def)
    moreover have "filter (\<lambda>(k, rs). rs \<noteq> []) ?subs = ?subs" using full by (auto simp: filter_id_conv)
    ultimately show ?thesis using None by (simp add: broker_unsubscribe_def)
  next
    case (Some rs)
    have at_p: "rs' = rs" if "(p, rs') \<in> set ?subs" for rs'
      using that Some hm_get_eq_Some_iff [OF wf, of p rs'] by simp
    show ?thesis
    proof (cases "filter (\<lambda>r. rp_id r \<noteq> i) rs = []")
      case True
      have "filter (\<lambda>(k, rs). rs \<noteq> []) (map ?f ?subs) = map ?f (filter (\<lambda>e. fst e \<noteq> p) ?subs)"
        unfolding filter_map using True full by (intro arg_cong [of _ _ "map ?f"] filter_cong) (auto dest: at_p)
      also have "\<dots> = filter (\<lambda>e. fst e \<noteq> p) ?subs" by (intro map_idI) auto
      finally show ?thesis using True Some by (simp add: broker_unsubscribe_def hm_remove_filter)
    next
      case False
      have "snd (?f e) \<noteq> []" if "e \<in> set ?subs" for e
      proof (cases e)
        case (Pair k rs')
        show ?thesis using False full [of k rs'] at_p [of rs'] that by (simp add: Pair) blast
      qed
      then have "filter (\<lambda>(k, rs). rs \<noteq> []) (map ?f ?subs) = map ?f ?subs"
        unfolding filter_map by (auto simp: filter_id_conv split_beta)
      also have "\<dots> = map (\<lambda>(k', w). (k', if k' = p then filter (\<lambda>r. rp_id r \<noteq> i) rs else w)) ?subs"
        by (auto dest: at_p)
      also have "\<dots> = hm_insert p (filter (\<lambda>r. rp_id r \<noteq> i) rs) ?subs"
        using hm_insert_in_place [OF wf, of p] Some by (simp add: set_hm_keys domI)
      finally show ?thesis using False Some by (simp add: broker_unsubscribe_def)
    qed
  qed
qed

text \<open>What is dropped of others does not touch the recipients of \<open>x\<close>.\<close>

lemma addressed_of_in_place:
  assumes "\<And>k rs. (k, rs) \<in> set subs \<Longrightarrow> filter (\<lambda>r. rp_handle r = x) (g k rs) = filter (\<lambda>r. rp_handle r = x) rs"
  shows "filter (\<lambda>(p, r). rp_handle r = x) (addressed matches topic (filter (\<lambda>(k, rs). rs \<noteq> []) (map (\<lambda>(k, rs). (k, g k rs)) subs))) =
    filter (\<lambda>(p, r). rp_handle r = x) (addressed matches topic subs)"
  using assms
proof (induction subs)
  case (Cons e subs)
  obtain k rs where e: "e = (k, rs)" by (cases e)
  have "filter (\<lambda>(p, r). rp_handle r = x) (map (Pair k) rs) = filter (\<lambda>(p, r). rp_handle r = x) (map (Pair k) (g k rs))"
    using Cons.prems [of k rs] by (simp add: e filter_map comp_def)
  then show ?case
    using Cons.IH Cons.prems by (auto simp: e addressed_def)
qed simp

lemma unsubscribe_others:
  assumes "broker_wf br" and "only_ref x (br_subscriptions br)" and "i \<noteq> fst x"
  shows "only_ref x (br_subscriptions (broker_unsubscribe p i br)) \<and>
    copies matches (br_subscriptions (broker_unsubscribe p i br)) x topic = copies matches (br_subscriptions br) x topic"
proof
  show "only_ref x (br_subscriptions (broker_unsubscribe p i br))"
    unfolding broker_unsubscribe_table [OF assms(1)] using assms(2) by (auto simp: only_ref_def list_all_iff split: if_splits)
  have "filter (\<lambda>r. rp_handle r = x) (filter (\<lambda>r. rp_id r \<noteq> i) rs) = filter (\<lambda>r. rp_handle r = x) rs"
    if "(k, rs) \<in> set (br_subscriptions br)" for k rs
    using assms(2,3) that by (auto simp: only_ref_def one_actor_def list_all_iff intro!: filter_cong)
  then show "copies matches (br_subscriptions (broker_unsubscribe p i br)) x topic = copies matches (br_subscriptions br) x topic"
    unfolding broker_unsubscribe_table [OF assms(1)] copies_def
    by (subst addressed_of_in_place) auto
qed

lemma unsubscribes_others:
  "broker_wf br \<Longrightarrow> only_ref x (br_subscriptions br) \<Longrightarrow> \<forall>(p, i) \<in> set ps. i \<noteq> fst x \<Longrightarrow>
    broker_wf (fold (\<lambda>(p, i) br. broker_unsubscribe p i br) ps br) \<and>
    only_ref x (br_subscriptions (fold (\<lambda>(p, i) br. broker_unsubscribe p i br) ps br)) \<and>
    br_delivery_strategy (fold (\<lambda>(p, i) br. broker_unsubscribe p i br) ps br) = br_delivery_strategy br \<and>
    copies matches (br_subscriptions (fold (\<lambda>(p, i) br. broker_unsubscribe p i br) ps br)) x = copies matches (br_subscriptions br) x"
proof (induction ps arbitrary: br)
  case (Cons e ps)
  obtain p i where e: "e = (p, i)" by (cases e)
  have i: "i \<noteq> fst x" using Cons.prems(3) by (simp add: e)
  have "copies matches (br_subscriptions (broker_unsubscribe p i br)) x = copies matches (br_subscriptions br) x"
    using unsubscribe_others [OF Cons.prems(1,2) i] by (intro ext) blast
  moreover have "br_delivery_strategy (broker_unsubscribe p i br) = br_delivery_strategy br"
    by (simp add: broker_unsubscribe_def Let_def split: option.split)
  ultimately show ?case
    using Cons.IH [of "broker_unsubscribe p i br"] Cons.prems(3) unsubscribe_others [OF Cons.prems(1,2) i]
      broker_wf_unsubscribe [OF Cons.prems(1)] by (simp add: e)
qed simp

text \<open>One publish, and a list of them, as the actor \<open>x\<close> sees it in the log of the post office.\<close>

definition seen_by :: "actor_id \<times> 'h \<Rightarrow> (actor_id \<times> 'h, 'm, 'u) post \<Rightarrow> ((actor_id \<times> 'h) \<times> 'm) list" where
  "seen_by x p = filter (\<lambda>e. snd (fst e) = snd x) (po_log p)"

lemma publish_seen:
  assumes "broker_wf br" "only_ref x (br_subscriptions br)" "awaited (br_delivery_strategy br)"
    and "po_running p x" "po_full p = (\<lambda>_. False)"
    and "broker_publish matches post_ops topic m br p = (br', p')"
  shows "seen_by x p' = seen_by x p @ replicate (copies matches (br_subscriptions br) x topic) (x, m) \<and>
    broker_wf br' \<and> only_ref x (br_subscriptions br') \<and> br_delivery_strategy br' = br_delivery_strategy br \<and>
    copies matches (br_subscriptions br') x = copies matches (br_subscriptions br) x \<and>
    po_running p' = po_running p \<and> po_full p' = po_full p"
proof -
  let ?s = "br_delivery_strategy br" and ?all = "addressed matches topic (br_subscriptions br)"
  have one: "one_actor x r" if "(k, r) \<in> set ?all" for k r
    using that assms(2) by (auto simp: addressed_def only_ref_def list_all_iff)
  have br': "br' = fold (\<lambda>(p, i) br. broker_unsubscribe p i br)
      (map (\<lambda>(k, r). (k, rp_id r)) (filter (\<lambda>(k, r). awaited ?s \<and> \<not> po_running p (rp_handle r)) ?all)) br"
    and p': "po_log p' = po_log p @ map (\<lambda>(k, r). (rp_handle r, m)) (filter (\<lambda>(k, r). takes ?s p r) ?all)"
      "po_running p' = po_running p" "po_full p' = po_full p"
    using assms(6) unfolding broker_publish_def broker_deliver_post Let_def by auto
  have "takes ?s p r" if "rp_handle r = x" for r
    using assms(3,4,5) that by (cases ?s) simp_all
  then have mine: "takes ?s p r \<and> snd (rp_handle r) = snd x \<longleftrightarrow> rp_handle r = x" if "(k, r) \<in> set ?all" for k r
    using one [OF that] unfolding one_actor_def by blast
  have "filter (\<lambda>e. snd (fst e) = snd x) (map (\<lambda>(k, r). (rp_handle r, m)) (filter (\<lambda>(k, r). takes ?s p r) ?all)) =
      map (\<lambda>(k, r). (rp_handle r, m)) (filter (\<lambda>(k, r). rp_handle r = x) ?all)"
    unfolding filter_map filter_filter
    by (intro arg_cong [of _ _ "map _"] filter_cong refl) (clarsimp simp: mine)
  also have "\<dots> = map (\<lambda>_. (x, m)) (filter (\<lambda>(k, r). rp_handle r = x) ?all)" by (intro map_cong) auto
  finally have seen: "seen_by x p' = seen_by x p @ replicate (copies matches (br_subscriptions br) x topic) (x, m)"
    by (simp add: seen_by_def p'(1) copies_def map_replicate_const)
  have "\<forall>(k, i) \<in> set (map (\<lambda>(k, r). (k, rp_id r)) (filter (\<lambda>(k, r). awaited ?s \<and> \<not> po_running p (rp_handle r)) ?all)). i \<noteq> fst x"
    using one assms(4) by (auto simp: one_actor_def)
  from unsubscribes_others [OF assms(1,2) this] show ?thesis
    unfolding br' by (intro conjI seen p'(2,3)) blast+
qed

lemma publishes_seen:
  "broker_wf br \<Longrightarrow> only_ref x (br_subscriptions br) \<Longrightarrow> awaited (br_delivery_strategy br) \<Longrightarrow> po_running p x \<Longrightarrow>
    po_full p = (\<lambda>_. False) \<Longrightarrow>
    seen_by x (snd (publish_events matches post_ops es br p)) =
      seen_by x p @ map (Pair x) (events_for matches (br_subscriptions br) x es)"
proof (induction es arbitrary: br p)
  case (Cons e es)
  obtain topic m where e: "e = (topic, m)" by (cases e)
  obtain br' p' where one: "broker_publish matches post_ops topic m br p = (br', p')"
    by (cases "broker_publish matches post_ops topic m br p")
  note seen = publish_seen [OF Cons.prems one]
  then have "events_for matches (br_subscriptions br') x es = events_for matches (br_subscriptions br) x es"
    by (simp add: events_for_def)
  moreover have "seen_by x (snd (publish_events matches post_ops es br' p')) =
      seen_by x p' @ map (Pair x) (events_for matches (br_subscriptions br') x es)"
    using seen Cons.prems by (intro Cons.IH) simp_all
  ultimately show ?case
    using seen by (simp add: e one events_for_def)
qed (simp add: events_for_def)

text \<open>The same in the mailbox of \<open>x\<close>.\<close>

lemma publishes_queued:
  assumes "open_mailboxes ops live q" and "live (snd x)"
    and "broker_wf br" "only_ref x (br_subscriptions br)" "awaited (br_delivery_strategy br)"
    and "publish_events matches (mailbox_tells ops metrics current t) es br w = (br', w')"
  shows "q (mb_chan (fst w')) (snd x) = q (mb_chan (fst w)) (snd x) @
    map (\<lambda>m. event_signal current t (x, m)) (events_for matches (br_subscriptions br) x es)"
proof -
  let ?p = "\<lparr>po_running = live \<circ> snd, po_full = (\<lambda>_. False), po_log = [], po_tasks = snd w\<rparr> :: (actor_id \<times> _, _, _) post"
  let ?rel = "logged_in current t live q (q (mb_chan (fst w)))"
  have rel: "?rel w ?p" by (simp add: logged_in_def)
  have "broker_refinement (mailbox_tells ops metrics current t) ?rel"
    unfolding broker_refinement_def by (rule mailbox_tells_refine [OF assms(1)])
  from broker_refinement.publish_events_refines [OF this rel, of matches es br]
  have "?rel w' (snd (publish_events matches post_ops es br ?p))" by (simp add: assms(6))
  moreover have "seen_by x (snd (publish_events matches post_ops es br ?p)) =
      seen_by x ?p @ map (Pair x) (events_for matches (br_subscriptions br) x es)"
    using assms(2) by (intro publishes_seen [OF assms(3-5)]) simp_all
  ultimately show ?thesis
    by (simp add: logged_in_def seen_by_def comp_def)
qed

section \<open>Properties\<close>

lemma answers_length: "answers f ms a u = (xs, a', u') \<Longrightarrow> length xs = length ms"
  by (induction ms arbitrary: xs a u) (auto simp: Let_def split: prod.splits)

text \<open>Messages that are told to an actor: what its mailbox holds of them, and what serving them does.\<close>

definition told :: "actor_id \<Rightarrow> type_id \<Rightarrow> 'v \<Rightarrow> 'v message" where
  "told i t m = (Any t m, i, None, False)"

lemma told_messages:
  "map2 (client_message \<lparr>ar_id = i, ar_mailbox = tx\<rparr>) (map (TellOf t) ms) (replicate (length ms) None) = map (told i t) ms"
  "sent_replies vtable (map (TellOf t) ms) (replicate (length ms) None) xs = []"
  "list_all2 pends (map (TellOf t) ms) (replicate (length ms) None)"
proof -
  show "list_all2 pends (map (TellOf t) ms) (replicate (length ms) None)" by (induction ms) simp_all
  show "sent_replies vtable (map (TellOf t) ms) (replicate (length ms) None) xs = []"
  proof (induction ms arbitrary: xs)
    case (Cons m ms)
    then show ?case by (cases xs) simp_all
  qed simp
qed (induction ms, simp_all add: client_message_def told_def)

lemma told_served:
  assumes "handles_with re vtable f" and "answers f (map (Any t) ms) a0 u0 = (xs, a, u)" and "list_all is_ok xs"
  shows "serve_all re vtable (map request_of (map (told i t) ms)) a0 u0 = (Ran Continue, a, u, [])"
proof -
  have "list_all2 answerable (map (TellOf t) ms) xs"
    using answers_length [OF assms(2)] assms(3) by (simp add: list_all2_conv_all_nth list_all_length)
  then show ?thesis
    using serve_all_with [OF assms(1) told_messages(3), of t ms a0 u0 xs a u "\<lparr>ar_id = i, ar_mailbox = Unbounded ()\<rparr>"] assms(2)
    unfolding told_messages by (simp add: comp_def)
qed

lemma told_signal: "current \<noteq> Some (fst x) \<Longrightarrow> event_signal current t (x, m) = message_signal (told (fst x) t m)"
  by (simp add: event_signal_def message_signal_def told_def)

text \<open>
  C4. What is published through a broker is handled by its subscribers: an actor gets each event once for
  each subscription of its that matches the topic, in the order of publication, whatever else the
  broker delivers and whomever it drops meanwhile. Its loop ends in the state that handling exactly
  these messages one after the other gives, and sends no reply.
\<close>

theorem published_events_are_handled:
  assumes channels: "open_mailboxes ops live q" "live (snd x)" "q (mb_chan (fst s)) (snd x) = []" "current \<noteq> Some (fst x)"
    and broker: "broker_wf br" "only_ref x (br_subscriptions br)" "awaited (br_delivery_strategy br)"
    and published: "publish_events matches (mailbox_tells ops metrics current t) es br s = (br', s')"
    and inbox: "q (mb_chan (fst s')) (snd x) = ss1 @ ss2" "en_inbox (w_env w) = ss1 @ StartupFinished # ss2"
    and handlers: "handles_with re vtable f"
      "answers f (map (Any t) (events_for matches (br_subscriptions br) x es)) a0 (en_user (w_env w)) = (xs, a, u)" "list_all is_ok xs"
  shows "\<exists>b w'. abortable_actor_loop (actor_of name re vtable a0) False (new_from_actor a0 (fst x)) w = Some (Ran Normal, b, w') \<and>
    ab_state b = a \<and> en_user (w_env w') = u \<and> en_replies (w_env w') = en_replies (w_env w)"
proof -
  let ?ms = "events_for matches (br_subscriptions br) x es"
  have "ss1 @ ss2 = map message_signal (map (told (fst x) t) ?ms)"
    using publishes_queued [OF channels(1,2) broker published] channels(3) inbox(1) by (simp add: told_signal [OF channels(4)])
  from sym [OF this] obtain ms1 ms2 where
    ms: "map (told (fst x) t) ?ms = ms1 @ ms2" "ss1 = map message_signal ms1" "ss2 = map message_signal ms2"
    unfolding map_eq_append_conv by blast
  have "\<forall>m \<in> set (map (told (fst x) t) ?ms). external m" by (simp add: told_def external_def)
  then have outside: "\<forall>m \<in> set ms1. external m" unfolding ms(1) by simp
  have serves: "serve_all re vtable (map request_of (ms1 @ ms2)) a0 (en_user (w_env w)) = (Ran Continue, a, u, [])"
    unfolding ms(1) [symmetric] by (rule told_served [OF handlers])
  obtain b left where "abortable_actor_loop (actor_of name re vtable a0) False (new_from_actor a0 (fst x)) w =
      Some (Ran Normal, b, with_inbox left (served [] u w))" "ab_state b = a"
    using actor_serves [OF serves outside, of name "fst x"] inbox(2) ms(2,3) by auto
  then show ?thesis
    by (intro exI [of _ b] exI [of _ "with_inbox left (served [] u w)"]) (simp add: with_inbox_def served_def)
qed

text \<open>Channels by number, of which only the first still has its receiver, as an instance of tokio's contract.\<close>

definition numbered_ops :: "(nat, unit, unit, 's, nat \<Rightarrow> 's list) mpsc_send" where
  "numbered_ops =
    \<lparr>mp_channel = (\<lambda>n c. Done ((0, ()), c)), mp_unbounded_channel = (\<lambda>c. ((0, ()), c)),
     mp_send = (\<lambda>h s c. if h = 0 then Some (Ok (), c(h := c h @ [s])) else Some (Err s, c)),
     mp_try_send = (\<lambda>h s c. if h = 0 then (Ok (), c(h := c h @ [s])) else (Err (TryClosed s), c)),
     mp_send_timeout = (\<lambda>h s d c. if h = 0 then (Ok (), c(h := c h @ [s])) else (Err (SendTimeoutClosed s), c)),
     mp_blocking_send = (\<lambda>h s c. if h = 0 then Some (Ok (), c(h := c h @ [s])) else Some (Err s, c)),
     mp_usend = (\<lambda>h s c. if h = 0 then (Ok (), c(h := c h @ [s])) else (Err s, c)),
     mp_closed = (\<lambda>h c. if h = 0 then None else Some ((), c)), mp_is_closed = (\<lambda>h c. h \<noteq> 0), mp_upgrade = (\<lambda>k c. (None, c))\<rparr>"

lemma numbered_open: "open_mailboxes numbered_ops (\<lambda>h. h = 0) (\<lambda>c. c)"
  unfolding open_mailboxes_def by (simp add: numbered_ops_def) blast

definition no_events :: "(nat \<Rightarrow> nat signal list) mailbox_state" where
  "no_events = \<lparr>mb_chan = (\<lambda>_. []), mb_sent = \<lparr>c_messages = 0, c_lifecycle = 0, c_link_died = 0\<rparr>,
     mb_received = \<lparr>c_messages = 0, c_lifecycle = 0, c_link_died = 0\<rparr>\<rparr>"

interpretation numbered_broker: broker_refinement "mailbox_tells numbered_ops metrics current t"
  "logged_in current t (\<lambda>h. h = 0) (\<lambda>c. c) q0" for metrics current t q0
  by (intro broker_refinement.intro mailbox_tells_refine numbered_open)

interpretation numbered_bus: bus_refinement "mailbox_tells numbered_ops metrics current t"
  "logged_in current t (\<lambda>h. h = 0) (\<lambda>c. c) q0" for metrics current t q0
  by (intro bus_refinement.intro mailbox_tells_refine numbered_open)

interpretation numbered_queue: queue_refinement "mailbox_tells numbered_ops metrics current t"
  "logged_in current t (\<lambda>h. h = 0) (\<lambda>c. c) q0" for metrics current t q0
  by (intro queue_refinement.intro mailbox_tells_refine numbered_open)

text \<open>A broker with a subscriber that runs and one that has stopped, both subscribed to the same topic.\<close>

definition topics_broker :: "(string, (actor_id \<times> nat) recipient list) hash_map" where
  "topics_broker = [(''a'', [Recipient (ActorId 2) (ActorId 2, 1), Recipient (ActorId 1) (ActorId 1, 0)]),
    (''b'', [Recipient (ActorId 2) (ActorId 2, 1)])]"

theorem published_events_are_handled_witness:
  "\<exists>w b w'. en_inbox (w_env w) = [MessageSignal (Any TyUnit 4) (ActorId 1) None False, StartupFinished,
      MessageSignal (Any TyUnit 3) (ActorId 1) None False] \<and>
    abortable_actor_loop (actor_of ''stepper'' stepper_replies stepper_vtable 0) False (new_from_actor 0 (ActorId 1)) w =
      Some (Ran Normal, b, w') \<and> ab_state b = 7"
proof -
  let ?br = "\<lparr>br_subscriptions = topics_broker, br_delivery_strategy = BestEffort\<rparr>" and ?x = "(ActorId 1, 0 :: nat)"
  let ?es = "[(''a'', 4 :: nat), (''b'', 7), (''a'', 3)]"
  let ?tells = "mailbox_tells numbered_ops True (Some (ActorId 9)) TyUnit"
  obtain br' s' where published: "publish_events (\<lambda>p topic. p = topic) ?tells ?es ?br (no_events, []) = (br', s')"
    by (cases "publish_events (\<lambda>p topic. p = topic) ?tells ?es ?br (no_events, [])")
  have br: "broker_wf ?br" "only_ref ?x (br_subscriptions ?br)" "awaited (br_delivery_strategy ?br)"
    by (auto simp: broker_wf_def topics_broker_def hm_wf_def hm_all_def only_ref_def one_actor_def split: if_splits)
  have events: "events_for (\<lambda>p topic. p = topic) (br_subscriptions ?br) ?x ?es = [4, 3]"
    by (simp add: events_for_def copies_def addressed_def topics_broker_def)
  let ?ss1 = "[MessageSignal (Any TyUnit 4) (ActorId 1) None False]" and ?ss2 = "[MessageSignal (Any TyUnit 3) (ActorId 1) None False]"
  have queue: "mb_chan (fst s') (snd ?x) = ?ss1 @ ?ss2"
    using publishes_queued [OF numbered_open _ br published] unfolding events by (simp add: no_events_def event_signal_def)
  have "\<exists>b w'. abortable_actor_loop (actor_of ''stepper'' stepper_replies stepper_vtable 0) False (new_from_actor 0 (fst ?x))
      (stepper_world (?ss1 @ StartupFinished # ?ss2)) = Some (Ran Normal, b, w') \<and> ab_state b = 7 \<and>
    en_user (w_env w') = 2 \<and> en_replies (w_env w') = en_replies (w_env (stepper_world (?ss1 @ StartupFinished # ?ss2)))"
    by (rule published_events_are_handled [where q = "\<lambda>c. c" and live = "\<lambda>h. h = 0" and xs = "[Ok 4, Ok 7]" and x = ?x,
        OF numbered_open _ _ _ br published queue _ stepper_handles, unfolded events])
       (simp_all add: no_events_def stepper_world_def stepper_step_def)
  then show ?thesis
    by (intro exI [of _ "stepper_world (?ss1 @ StartupFinished # ?ss2)"]) (auto simp: stepper_world_def)
qed

lemma events_at:
  "filter (\<lambda>e. snd (fst e) = h) (map (\<lambda>r. (rp_handle r, m)) (filter (\<lambda>r. live (snd (rp_handle r))) rs)) =
    (if live h then map (\<lambda>r. (rp_handle r, m)) (filter (\<lambda>r. snd (rp_handle r) = h) rs) else [])"
  by (induction rs) auto

text \<open>
  A publish on the message bus, in the mailboxes: it never unwinds, and under a strategy that awaits
  the delivery the mailbox of every running actor grows by the message once for each registration of
  its for the type, while no other mailbox changes.
\<close>

theorem bus_publish_reaches_mailboxes:
  assumes "open_mailboxes ops live q" and "bus_wf mb" and "awaited (mb_delivery_strategy mb)"
  shows "\<exists>mb' w'. bus_publish (mailbox_tells ops metrics current t) t m mb w = Done (mb', w') \<and> bus_wf mb' \<and>
    (\<forall>h. q (mb_chan (fst w')) h = q (mb_chan (fst w)) h @
      (if live h then map (\<lambda>r. event_signal current t (rp_handle r, m))
         (filter (\<lambda>r. snd (rp_handle r) = h) (map bus_recipient_of (bus_registrations mb t))) else []))"
proof -
  let ?p = "\<lparr>po_running = live \<circ> snd, po_full = (\<lambda>_. False), po_log = [], po_tasks = snd w\<rparr> :: (actor_id \<times> _, _, actor_id) post"
  let ?rel = "logged_in current t live q (q (mb_chan (fst w)))" and ?rs = "map bus_recipient_of (bus_registrations mb t)"
  have rel: "?rel w ?p" by (simp add: logged_in_def)
  have "bus_refinement (mailbox_tells ops metrics current t) ?rel"
    by (intro bus_refinement.intro mailbox_tells_refine assms(1))
  from bus_refinement.bus_publish_refines [OF this rel, of t m mb]
  have alike: "alike ?rel (bus_publish (mailbox_tells ops metrics current t) t m mb w) (bus_publish post_ops t m mb ?p)" .
  obtain mb' p' where post: "bus_publish post_ops t m mb ?p = Done (mb', p')" "bus_wf mb'"
    "po_log p' = map (\<lambda>r. (rp_handle r, m)) (filter (takes (mb_delivery_strategy mb) ?p) ?rs)"
    using bus_publish_delivers [OF assms(2), of t m ?p] by auto
  from alike post(1) obtain w' where run: "bus_publish (mailbox_tells ops metrics current t) t m mb w = Done (mb', w')" "?rel w' p'"
    by (auto simp: alike_Done)
  have takes: "takes (mb_delivery_strategy mb) ?p r \<longleftrightarrow> live (snd (rp_handle r))" for r
    using assms(3) by (cases "mb_delivery_strategy mb") simp_all
  have "filter (\<lambda>e. snd (fst e) = h) (po_log p') =
      (if live h then map (\<lambda>r. (rp_handle r, m)) (filter (\<lambda>r. snd (rp_handle r) = h) ?rs) else [])" for h
    unfolding post(3) takes by (rule events_at)
  then show ?thesis
    using run post(2) by (auto simp: logged_in_def comp_def)
qed

theorem bus_publish_reaches_mailboxes_witness:
  "\<exists>mb' w'. bus_publish (mailbox_tells numbered_ops True None TyUnit) TyUnit 5
      (bus_register TyUnit (Recipient (ActorId 1) (ActorId 1, 0)) (message_bus_new Guaranteed)) (no_events, []) = Done (mb', w') \<and>
    mb_chan (fst w') 0 = [MessageSignal (Any TyUnit 5) (ActorId 1) None False] \<and> mb_chan (fst w') 1 = []"
proof -
  let ?mb = "bus_register TyUnit (Recipient (ActorId 1) (ActorId 1, 0)) (message_bus_new Guaranteed)"
  have strategy: "awaited (mb_delivery_strategy ?mb)" by (simp add: bus_register_def message_bus_new_def Let_def)
  have registered: "bus_registrations ?mb TyUnit = [bus_registration_new TyUnit (Recipient (ActorId 1) (ActorId 1, 0))]"
    by (simp add: bus_registrations_def bus_register_def message_bus_new_def)
  show ?thesis
    using bus_publish_reaches_mailboxes [OF numbered_open bus_wf_register [OF bus_wf_new] strategy, of True None TyUnit 5 "(no_events, [])"]
    unfolding registered by (auto simp: no_events_def event_signal_def bus_registration_new_def)
qed

end
