(* ===== verification/Local_Examples.thy ===== *)
theory Local_Examples
  imports Actor_System Actor_Ref Error_Text
begin

text \<open>
  The programs of \<open>examples/local\<close> and \<open>examples/hello_world.rs\<close> as clients of the library: their actors
  are handlers on the model of \<open>Actor_System\<close>, and what they print and answer follows from what is
  proved there. A program is built with overflow checks (\<open>checks\<close>) or without; what it prints is a
  list of lines. Other values than the messages of an actor do not reach its handlers, so the handler
  given for them does not matter.
\<close>

section \<open>Signed arithmetic\<close>

definition signed_add :: "bool \<Rightarrow> 'l::len word \<Rightarrow> 'l word \<Rightarrow> 'l word outcome" where
  "signed_add checks x y = (if checks \<and> sint (x + y) \<noteq> sint x + sint y then Panicked else Done (x + y))"

definition signed_mult :: "bool \<Rightarrow> 'l::len word \<Rightarrow> 'l word \<Rightarrow> 'l word outcome" where
  "signed_mult checks x y = (if checks \<and> sint (x * y) \<noteq> sint x * sint y then Panicked else Done (x * y))"

definition signed_text :: "'l::len word \<Rightarrow> string" where
  "signed_text x = (if sint x < 0 then CHR ''-'' # decimal (nat (- sint x)) else decimal (nat (sint x)))"

section \<open>Hello world\<close>

datatype hello_value = Greet string | HelloUnit

definition hello_handler :: "string \<Rightarrow> (unit, hello_value, string list) handler" where
  "hello_handler greeting a _ cx out = (Returned (PlainReply HelloUnit), a, cx, out @ [greeting])"

fun hello_vtable :: "(unit, hello_value, string list) vtable" where
  "hello_vtable (Any _ (Greet greeting)) = (PlainType TyUnit, hello_handler greeting, Greet greeting)"
| "hello_vtable m = (PlainType TyUnit, hello_handler [], HelloUnit)"

definition hello_replies :: "(hello_value, string list) reply_env" where
  "hello_replies = \<lparr>re_error_value = (\<lambda>_. HelloUnit), re_unpair = (\<lambda>v. (v, 0)), re_send = (\<lambda>_ _ u. u),
     re_panic = Any TyStr HelloUnit\<rparr>"

section \<open>A counter: \<open>basic.rs\<close>\<close>

datatype basic_value = Inc u32 | ForceErr | I64 u64 | I32 u32 | PanicText

definition TyI64 :: type_id where "TyI64 = TyNamed 64"
definition TyI32 :: type_id where "TyI32 = TyNamed 32"
definition TyInc :: type_id where "TyInc = TyNamed 1"
definition TyForceErr :: type_id where "TyForceErr = TyNamed 2"

definition inc_handler :: "bool \<Rightarrow> u32 \<Rightarrow> (u64, basic_value, string list) handler" where
  "inc_handler checks amount c _ cx out =
    (let out = out @ [''Incrementing count by '' @ decimal (unat amount)]
     in case signed_add checks c (ucast amount) of
          Done c \<Rightarrow> (Returned (PlainReply (I64 c)), c, cx, out)
        | Panicked \<Rightarrow> (Unwound (Any TyStr PanicText), c, cx, out))"

definition force_err_handler :: "(u64, basic_value, string list) handler" where
  "force_err_handler c _ cx out = (Returned (ResultReply (Err (I32 3))), c, cx, out)"

fun my_actor_vtable :: "bool \<Rightarrow> (u64, basic_value, string list) vtable" where
  "my_actor_vtable checks (Any _ (Inc amount)) = (PlainType TyI64, inc_handler checks amount, Inc amount)"
| "my_actor_vtable checks m = (ResultType TyUnit TyI32, force_err_handler, ForceErr)"

definition basic_replies :: "(basic_value, string list) reply_env" where
  "basic_replies = \<lparr>re_error_value = (\<lambda>_. PanicText), re_unpair = (\<lambda>v. (v, 0)), re_send = (\<lambda>_ _ u. u),
     re_panic = Any TyStr PanicText\<rparr>"

text \<open>The requests \<open>main\<close> makes, one after the other.\<close>

definition basic_main :: "basic_value client_request list" where
  "basic_main = [AskOf TyInc (Inc 3), TellOf TyInc (Inc 50), AskOf TyInc (Inc 2), TellOf TyForceErr ForceErr,
     AskOf TyInc (Inc 2)]"

section \<open>A gateway: \<open>forward_with_fallback.rs\<close>\<close>

datatype 'h gateway_value =
    ComputeRequest u32
  | SetPrimaryActor "'h actor_ref option"
  | Computed u32
  | ComputeError string
  | GatewayUnit
  | GatewayPanic
  | GatewayError "('h gateway_value, 'h gateway_value) send_error"

definition TyComputeRequest :: type_id where "TyComputeRequest = TyNamed 3"
definition TyComputeError :: type_id where "TyComputeError = TyNamed 4"
definition TySetPrimary :: type_id where "TySetPrimary = TyNamed 5"

definition compute_reply :: reply_type where "compute_reply = ResultType TyI32 TyComputeError"

definition request_text :: "u32 \<Rightarrow> string" where
  "request_text v = ''ComputeRequest { value: '' @ signed_text v @ '' }''"

definition overflow_panic :: "('h gateway_value reply, 'h gateway_value) hook" where
  "overflow_panic = Unwound (Any TyStr GatewayPanic)"

definition primary_handler :: "bool \<Rightarrow> u32 \<Rightarrow> (unit, 'h gateway_value, 'u) handler" where
  "primary_handler checks v a _ cx u =
    (if 0 < sint v
     then (case signed_mult checks v 2 of
             Done r \<Rightarrow> (Returned (ResultReply (Ok (Computed r))), a, cx, u)
           | Panicked \<Rightarrow> (overflow_panic, a, cx, u))
     else (Returned (ResultReply (Err (ComputeError ''Cannot compute with negative or zero values''))), a, cx, u))"

fun primary_vtable :: "bool \<Rightarrow> (unit, 'h gateway_value, 'u) vtable" where
  "primary_vtable checks (Any _ (ComputeRequest v)) = (compute_reply, primary_handler checks v, ComputeRequest v)"
| "primary_vtable checks m = (compute_reply, primary_handler checks 0, GatewayUnit)"

definition gateway_replies :: "('h gateway_value, 'u) reply_env" where
  "gateway_replies = \<lparr>re_error_value = GatewayError, re_unpair = (\<lambda>v. (v, 0)), re_send = (\<lambda>_ _ u. u),
     re_panic = Any TyStr GatewayPanic\<rparr>"

text \<open>
  The gateway's state is its primary actor; it shares the mailboxes with others and prints. A forward
  that waits for room for ever ends only when the gateway is killed and the future dropped.
\<close>

type_synonym 'c gateway_env = "'c mailbox_state \<times> string list"

definition fallback_reply :: "bool \<Rightarrow> u32 \<Rightarrow> ('h gateway_value reply, 'h gateway_value) hook" where
  "fallback_reply checks v =
    (if 0 < sint v
     then (case signed_mult checks v 3 of Done r \<Rightarrow> Returned (from_ok (Computed r)) | Panicked \<Rightarrow> overflow_panic)
     else if v = 0 then Returned (from_ok (Computed 1))
     else Returned (from_err (ComputeError ''Fallback computation: negative values not supported'')))"

definition gateway_compute ::
  "('h, 'k, 'r, 'h gateway_value signal, 'c) mpsc_send \<Rightarrow> bool \<Rightarrow> actor_id option \<Rightarrow> bool \<Rightarrow> u32
    \<Rightarrow> ('h actor_ref option, 'h gateway_value, 'c gateway_env) handler" where
  "gateway_compute ops metrics current checks v primary _ cx u =
    (let (st, out) = u
     in case primary of
          Some ar \<Rightarrow>
            (let out = out @ [''Forwarding request to primary compute actor: '' @ request_text v]
             in case ctx_forward (gateway_replies :: ('h gateway_value, unit) reply_env) ops metrics TyI32 current ar
                  TyComputeRequest (ComputeRequest v) cx st of
                  None \<Rightarrow> (Dropped, primary, cx\<lparr>cx_reply := None\<rparr>, st, out)
                | Some (Panicked, st) \<Rightarrow> (Unwound (re_panic (gateway_replies :: ('h gateway_value, unit) reply_env)),
                    primary, cx\<lparr>cx_reply := None\<rparr>, st, out)
                | Some (Done (reply, cx), st) \<Rightarrow> (Returned reply, primary, cx, st, out))
        | None \<Rightarrow> (fallback_reply checks v, primary, cx, st,
            out @ [''Primary actor not available, using fallback computation: '' @ request_text v]))"

definition gateway_set ::
  "'h actor_ref option \<Rightarrow> ('h actor_ref option, 'h gateway_value, 'c gateway_env) handler" where
  "gateway_set new primary _ cx u =
    (Returned (PlainReply GatewayUnit), new, cx, fst u,
     snd u @ [''Gateway configured with primary actor: '' @ (if new = None then ''false'' else ''true'')])"

fun gateway_vtable ::
  "('h, 'k, 'r, 'h gateway_value signal, 'c) mpsc_send \<Rightarrow> bool \<Rightarrow> actor_id option \<Rightarrow> bool
    \<Rightarrow> ('h actor_ref option, 'h gateway_value, 'c gateway_env) vtable" where
  "gateway_vtable ops metrics current checks (Any _ (ComputeRequest v)) =
    (ForwardedType TyComputeRequest compute_reply, gateway_compute ops metrics current checks v, ComputeRequest v)"
| "gateway_vtable ops metrics current checks (Any _ (SetPrimaryActor p)) =
    (PlainType TyUnit, gateway_set p, SetPrimaryActor p)"
| "gateway_vtable ops metrics current checks m = (PlainType TyUnit, gateway_set None, GatewayUnit)"

section \<open>Two attached streams: \<open>stream.rs\<close>\<close>

datatype stream_value = StreamMsg "(u64, string, string) stream_message" | StreamUnit | StreamPanic

record stream_actor =
  st_count :: u64
  st_complete :: u8

definition stream_handler ::
  "('h, 'k, 'r, stream_value signal, 'c) mpsc_send \<Rightarrow> bool \<Rightarrow> bool \<Rightarrow> 'h actor_ref
    \<Rightarrow> (u64, string, string) stream_message \<Rightarrow> (stream_actor, stream_value, 'c gateway_env) handler" where
  "stream_handler ops metrics checks ar msg a _ cx u =
    (let (st, out) = u
     in case msg of
          StreamNext amount \<Rightarrow>
            (case signed_add checks (st_count a) amount of
               Done c \<Rightarrow> (Returned (PlainReply StreamUnit), a\<lparr>st_count := c\<rparr>, cx, st, out @ [''Count is '' @ signed_text c])
             | Panicked \<Rightarrow> (Unwound (Any TyStr StreamPanic), a, cx, st, out))
        | StreamStarted s \<Rightarrow> (Returned (PlainReply StreamUnit), a, cx, st, out @ [''Started '' @ s])
        | StreamFinished s \<Rightarrow>
            (let out = out @ [''Finished '' @ s]
             in if checks \<and> st_complete a = 255 then (Unwound (Any TyStr StreamPanic), a, cx, st, out)
                else
                  let a = a\<lparr>st_complete := st_complete a + 1\<rparr>
                  in if st_complete a = 2
                     then (case stop_gracefully ops metrics ar st of
                             None \<Rightarrow> (Dropped, a, cx, st, out)
                           | Some (Ok _, st) \<Rightarrow> (Returned (PlainReply StreamUnit), a, cx, st, out)
                           | Some (Err _, st) \<Rightarrow> (Unwound (Any TyString StreamPanic), a, cx, st, out))
                     else (Returned (PlainReply StreamUnit), a, cx, st, out)))"

fun stream_vtable ::
  "('h, 'k, 'r, stream_value signal, 'c) mpsc_send \<Rightarrow> bool \<Rightarrow> bool \<Rightarrow> 'h actor_ref
    \<Rightarrow> (stream_actor, stream_value, 'c gateway_env) vtable" where
  "stream_vtable ops metrics checks ar (Any _ (StreamMsg msg)) =
    (PlainType TyUnit, stream_handler ops metrics checks ar msg, StreamMsg msg)"
| "stream_vtable ops metrics checks ar m = (PlainType TyUnit, stream_handler ops metrics checks ar (StreamStarted []), StreamUnit)"

definition stream_replies :: "(stream_value, 'u) reply_env" where
  "stream_replies = \<lparr>re_error_value = (\<lambda>_. StreamPanic), re_unpair = (\<lambda>v. (v, 0)), re_send = (\<lambda>_ _ u. u),
     re_panic = Any TyStr StreamPanic\<rparr>"

text \<open>What \<open>on_start\<close> attaches: twice five ones.\<close>

definition first_stream :: "(u64, string, string) stream_message list" where
  "first_stream = attach_script ''1st stream'' ''1st stream'' (replicate 5 1)"

definition second_stream :: "(u64, string, string) stream_message list" where
  "second_stream = attach_script ''2nd stream'' ''2nd stream'' (replicate 5 1)"

section \<open>Lemmas\<close>

lemma signed_add_exact:
  fixes x y :: "'l::len word"
  assumes "- (2 ^ (LENGTH('l) - 1)) \<le> sint x + sint y" and "sint x + sint y < 2 ^ (LENGTH('l) - 1)"
  shows "signed_add checks x y = Done (x + y)" "sint (x + y) = sint x + sint y"
proof -
  show "sint (x + y) = sint x + sint y"
    using assms by (simp add: sint_word_add signed_take_bit_int_eq_self)
  then show "signed_add checks x y = Done (x + y)"
    by (simp add: signed_add_def)
qed

lemma sint_small:
  fixes x :: "'l::len word"
  assumes "uint x < 2 ^ (LENGTH('l) - 1)"
  shows "sint x = uint x"
proof -
  have "- (2 ^ (LENGTH('l) - 1)) \<le> uint x" by (rule order_trans [of _ 0]) simp_all
  then show ?thesis
    using assms by (simp add: sint_uint signed_take_bit_int_eq_self)
qed

subsection \<open>Actors that are given requests\<close>

text \<open>The mailbox holds these requests from outside, and the startup signal somewhere among them.\<close>

definition mailbox_holds :: "('v, 'u) actor_world \<Rightarrow> ('v any \<times> nat option) list \<Rightarrow> bool" where
  "mailbox_holds w rs \<longleftrightarrow> (\<exists>ms1 ms2. en_inbox (w_env w) = map message_signal ms1 @ StartupFinished # map message_signal ms2 \<and>
    (\<forall>m \<in> set ms1. external m) \<and> map request_of (ms1 @ ms2) = rs)"

lemma mailbox_serves:
  assumes "mailbox_holds w rs" and "serve_all re vtable rs a0 (en_user (w_env w)) = (t, a, u, replies)"
  obtains b w' where "abortable_actor_loop (actor_of name re vtable a0) False (new_from_actor a0 i) w = Some (stopped_with t, b, w')"
    "ab_state b = a" "en_user (w_env w') = u" "en_replies (w_env w') = en_replies (w_env w) @ replies"
proof -
  obtain ms1 ms2 where ms: "en_inbox (w_env w) = map message_signal ms1 @ StartupFinished # map message_signal ms2"
    "\<forall>m \<in> set ms1. external m" "map request_of (ms1 @ ms2) = rs"
    using assms(1) unfolding mailbox_holds_def by blast
  from actor_serves [OF assms(2) [folded ms(3)] ms(2,1), of name i] obtain b left where
    "abortable_actor_loop (actor_of name re vtable a0) False (new_from_actor a0 i) w =
      Some (stopped_with t, b, with_inbox left (served replies u w))" "ab_state b = a"
    by blast
  then show ?thesis
    by (rule that) (simp_all add: with_inbox_def)
qed

text \<open>Requests given by the types of their messages, their messages and the channels of their askers.\<close>

definition signals_of :: "actor_id \<Rightarrow> ('v any \<times> nat option) list \<Rightarrow> 'v signal list" where
  "signals_of i rs = map (\<lambda>(m, tx). MessageSignal m i tx False) rs"

lemma mailbox_holds_signals:
  assumes "en_inbox (w_env w) = signals_of i rs1 @ StartupFinished # signals_of i rs2"
  shows "mailbox_holds w (rs1 @ rs2)"
proof -
  let ?ms = "map (\<lambda>(m, tx). (m, i, tx, False))"
  have sent: "signals_of i rs = map message_signal (?ms rs)" "map request_of (?ms rs) = rs" for rs
    by (induction rs) (auto simp: signals_of_def message_signal_def request_of_simp)
  have "en_inbox (w_env w) = map message_signal (?ms rs1) @ StartupFinished # map message_signal (?ms rs2) \<and>
      (\<forall>m \<in> set (?ms rs1). external m) \<and> map request_of (?ms rs1 @ ?ms rs2) = rs1 @ rs2"
    unfolding map_append sent(1) [symmetric] sent(2) using assms by (auto simp: external_def)
  then show ?thesis unfolding mailbox_holds_def by blast
qed

subsection \<open>The counter\<close>

definition inc_line :: "u32 \<Rightarrow> string" where
  "inc_line n = ''Incrementing count by '' @ decimal (unat n)"

definition inc_request :: "u32 \<times> nat option \<Rightarrow> basic_value any \<times> nat option" where
  "inc_request x = (Any TyInc (Inc (fst x)), snd x)"

text \<open>The count after some increments, and the answers to those that were asked for.\<close>

fun inc_answers :: "u64 \<Rightarrow> (u32 \<times> nat option) list \<Rightarrow> u64 \<times> (nat \<times> basic_value boxed_reply) list" where
  "inc_answers c [] = (c, [])"
| "inc_answers c ((n, tx) # xs) =
    (let (c', rs) = inc_answers (c + ucast n) xs
     in (c', (case tx of Some x \<Rightarrow> [(x, Ok (Any TyI64 (I64 (c + ucast n))))] | None \<Rightarrow> []) @ rs))"

lemma inc_step:
  fixes n :: u32 and c :: u64
  assumes "0 \<le> sint c" and "sint c + uint n < 2 ^ 63"
  shows "signed_add checks c (ucast n) = Done (c + ucast n)" "sint (c + ucast n) = sint c + uint n"
proof -
  have u: "uint (ucast n :: u64) = uint n" by transfer simp
  have "uint n < 2 ^ 63" using assms by simp
  then have n: "sint (ucast n :: u64) = uint n"
    by (subst sint_small) (simp_all add: u)
  have "- 9223372036854775808 \<le> sint c + uint n"
    by (rule order_trans [of _ 0]) (use assms(1) in simp_all)
  then show "signed_add checks c (ucast n) = Done (c + ucast n)" "sint (c + ucast n) = sint c + uint n"
    using signed_add_exact(1) [of c "ucast n" checks] signed_add_exact(2) [of c "ucast n"] assms by (simp_all add: n)
qed

lemma serve_incs:
  assumes "0 \<le> sint c" and "sint c + (\<Sum>x\<leftarrow>xs. uint (fst x)) < 2 ^ 63" and "inc_answers c xs = (c', rs)"
  shows "serve_all basic_replies (my_actor_vtable checks) (map inc_request xs) c out =
      (Ran Continue, c', out @ map (inc_line \<circ> fst) xs, rs) \<and> sint c' = sint c + (\<Sum>x\<leftarrow>xs. uint (fst x))"
  using assms
proof (induction xs arbitrary: c c' rs out)
  case (Cons x xs)
  obtain n tx where x: "x = (n, tx)" by (cases x)
  obtain rs1 where rest: "inc_answers (c + ucast n) xs = (c', rs1)"
    and rs: "rs = (case tx of Some x \<Rightarrow> [(x, Ok (Any TyI64 (I64 (c + ucast n))))] | None \<Rightarrow> []) @ rs1"
    using Cons.prems(3) by (auto simp: x split: prod.splits)
  have sum: "0 \<le> (\<Sum>x\<leftarrow>xs. uint (fst x))" by (rule sum_list_nonneg) auto
  then have small: "sint c + uint n < 2 ^ 63" using Cons.prems(2) by (simp add: x)
  note step = inc_step [OF Cons.prems(1) small]
  have "serve_one basic_replies (my_actor_vtable checks) (inc_request x) c out =
      (Ran Continue, c + ucast n, out @ [inc_line n],
        case tx of Some x \<Rightarrow> [(x, Ok (Any TyI64 (I64 (c + ucast n))))] | None \<Rightarrow> [])"
    by (simp add: serve_one_def inc_request_def x inc_handler_def Let_def step ctx_new_def inc_line_def boxed_result_def split: option.split)
  then show ?case
    using Cons.IH [OF _ _ rest, of "out @ [inc_line n]"] Cons.prems(1,2) by (simp add: x step rs algebra_simps)
qed simp

subsection \<open>The gateway\<close>

definition compute_request :: "u32 \<times> nat \<Rightarrow> 'h gateway_value any \<times> nat option" where
  "compute_request x = (Any TyComputeRequest (ComputeRequest (fst x)), Some (snd x))"

text \<open>Tokio's contract for a bounded channel whose receiver lives: below its capacity a send returns at once.\<close>

definition bounded_room :: "('h, 'k, 'r, 's, 'c) mpsc_send \<Rightarrow> 'h \<Rightarrow> nat \<Rightarrow> ('c \<Rightarrow> 's list) \<Rightarrow> bool" where
  "bounded_room ops h capacity q \<longleftrightarrow>
    (\<forall>s c. length (q c) < capacity \<longrightarrow> (\<exists>c'. mp_send ops h s c = Some (Ok (), c') \<and> q c' = q c @ [s]))"

text \<open>A closed channel gives the signal back.\<close>

definition channel_closed :: "('h, 'k, 'r, 's, 'c) mpsc_send \<Rightarrow> 'h \<Rightarrow> bool" where
  "channel_closed ops h \<longleftrightarrow> (\<forall>s c. \<exists>c'. mp_send ops h s c = Some (Err s, c'))"

lemma mailbox_send_room:
  assumes "bounded_room ops h capacity q" and "length (q (mb_chan st)) < capacity"
  obtains st' where "mailbox_send ops metrics (Bounded h) s st = Some (Ok (), st')" "q (mb_chan st') = q (mb_chan st) @ [s]"
proof -
  obtain c' where "mp_send ops h s (mb_chan st) = Some (Ok (), c')" "q c' = q (mb_chan st) @ [s]"
    using assms unfolding bounded_room_def by blast
  then show ?thesis
    by (intro that [of "snd (after_send metrics (kind_of_signal s) st (Ok () :: (unit, unit) result, c'))"])
       (simp_all add: mailbox_send_def after_send_def Let_def apply_metric_def)
qed

lemma mailbox_send_closed:
  assumes "channel_closed ops h"
  obtains st' where "mailbox_send ops metrics (Bounded h) s st = Some (Err s, st')"
proof -
  obtain c' where "mp_send ops h s (mb_chan st) = Some (Err s, c')"
    using assms unfolding channel_closed_def by blast
  then show ?thesis
    by (intro that [of "st\<lparr>mb_chan := c'\<rparr>"]) (simp add: mailbox_send_def after_send_def Let_def)
qed

text \<open>What the two actors answer when nothing overflows.\<close>

definition primary_answer :: "u32 \<Rightarrow> ('h gateway_value, 'h gateway_value) result" where
  "primary_answer v =
    (if 0 < sint v then Ok (Computed (v * 2)) else Err (ComputeError ''Cannot compute with negative or zero values''))"

definition fallback_answer :: "u32 \<Rightarrow> ('h gateway_value, 'h gateway_value) result" where
  "fallback_answer v =
    (if 0 < sint v then Ok (Computed (v * 3)) else if v = 0 then Ok (Computed 1)
     else Err (ComputeError ''Fallback computation: negative values not supported''))"

definition fits :: "bool \<Rightarrow> u32 \<Rightarrow> u32 \<Rightarrow> bool" where
  "fits checks v k \<longleftrightarrow> \<not> checks \<or> sint (v * k) = sint v * sint k"

lemma signed_mult_fits: "fits checks v k \<Longrightarrow> signed_mult checks v k = Done (v * k)"
  by (auto simp: signed_mult_def fits_def)

definition primary_reply :: "u32 \<times> nat \<Rightarrow> nat \<times> 'h gateway_value boxed_reply" where
  "primary_reply x = (snd x, boxed_result compute_reply (primary_answer (fst x)))"

definition gateway_reply :: "u32 \<times> nat \<Rightarrow> nat \<times> 'h gateway_value boxed_reply" where
  "gateway_reply x = (snd x, boxed_result (ForwardedType TyComputeRequest compute_reply)
     (map_err (\<lambda>e. GatewayError (HandlerError e)) (fallback_answer (fst x))))"

lemma primary_serves:
  assumes "\<forall>x \<in> set xs. fits checks (fst x) 2"
  shows "serve_all (gateway_replies :: ('h gateway_value, 'u) reply_env) (primary_vtable checks) (map compute_request xs) () u =
    (Ran Continue, (), u, map primary_reply xs)"
  using assms
proof (induction xs)
  case (Cons x xs)
  have "serve_one (gateway_replies :: ('h gateway_value, 'u) reply_env) (primary_vtable checks) (compute_request x) () u =
      (Ran Continue, (), u, [primary_reply x])"
    using Cons.prems by (simp add: serve_one_def compute_request_def primary_handler_def signed_mult_fits ctx_new_def
        primary_reply_def primary_answer_def)
  then show ?case using Cons by simp
qed simp

lemma gateway_falls_back:
  assumes "\<forall>x \<in> set xs. fits checks (fst x) 3"
  shows "\<exists>out'. serve_all gateway_replies (gateway_vtable ops metrics current checks) (map compute_request xs) None (st, out) =
    (Ran Continue, None, (st, out'), map gateway_reply xs)"
  using assms
proof (induction xs arbitrary: out)
  case (Cons x xs)
  let ?out = "out @ [''Primary actor not available, using fallback computation: '' @ request_text (fst x)]"
  have "serve_one gateway_replies (gateway_vtable ops metrics current checks) (compute_request x) None (st, out) =
      (Ran Continue, None, (st, ?out), [gateway_reply x])"
    using Cons.prems by (simp add: serve_one_def compute_request_def gateway_compute_def fallback_reply_def signed_mult_fits
        ctx_new_def gateway_reply_def fallback_answer_def from_ok_def from_err_def gateway_replies_def)
  then show ?case using Cons.IH [of ?out] Cons.prems by auto
qed simp

text \<open>A forward puts the request, with the asker's reply sender, in the primary's mailbox, and answers nothing itself.\<close>

definition forwarded_signal :: "actor_id option \<Rightarrow> 'h actor_ref \<Rightarrow> u32 \<times> nat \<Rightarrow> 'h gateway_value signal" where
  "forwarded_signal current ar x = request_signal current ar TyComputeRequest (ComputeRequest (fst x)) (Some (snd x))"

lemma gateway_forwards_one:
  assumes "bounded_room ops h capacity q" and "ar_mailbox ar = Bounded h" and "length (q (mb_chan st)) < capacity"
  obtains st' out' where "serve_one gateway_replies (gateway_vtable ops metrics current checks) (compute_request x) (Some ar) (st, out) =
      (Ran Continue, Some ar, (st', out'), [])"
    "q (mb_chan st') = q (mb_chan st) @ [forwarded_signal current ar x]"
proof -
  obtain st' where "mailbox_send ops metrics (Bounded h) (forwarded_signal current ar x) st = Some (Ok (), st')"
    "q (mb_chan st') = q (mb_chan st) @ [forwarded_signal current ar x]"
    by (rule mailbox_send_room [OF assms(1,3)])
  then show ?thesis
    by (intro that [of st' "out @ [''Forwarding request to primary compute actor: '' @ request_text (fst x)]"])
       (simp_all add: serve_one_def compute_request_def gateway_compute_def ctx_forward_def ctx_new_def ask_forward_def put_def
          assms(2) forwarded_signal_def forwarded_ask_def Let_def)
qed

lemma gateway_forwards:
  assumes "bounded_room ops h capacity q" and "ar_mailbox ar = Bounded h" and "length (q (mb_chan st)) + length xs \<le> capacity"
  shows "\<exists>st' out'. serve_all gateway_replies (gateway_vtable ops metrics current checks) (map compute_request xs) (Some ar) (st, out) =
      (Ran Continue, Some ar, (st', out'), []) \<and> q (mb_chan st') = q (mb_chan st) @ map (forwarded_signal current ar) xs"
  using assms(3)
proof (induction xs arbitrary: st out)
  case (Cons x xs)
  then have room: "length (q (mb_chan st)) < capacity" by simp
  obtain st1 out1 where one: "serve_one gateway_replies (gateway_vtable ops metrics current checks) (compute_request x) (Some ar) (st, out) =
      (Ran Continue, Some ar, (st1, out1), [])" "q (mb_chan st1) = q (mb_chan st) @ [forwarded_signal current ar x]"
    by (rule gateway_forwards_one [OF assms(1,2) room])
  then show ?case using Cons.IH [of st1 out1] Cons.prems by auto
qed simp

lemma gateway_serves_dead_primary:
  assumes "channel_closed ops h" and "ar_mailbox ar = Bounded h"
  shows "\<exists>e u. serve_one gateway_replies (gateway_vtable ops metrics current checks)
    (Any TyComputeRequest (ComputeRequest v), tx) (Some ar) (st, out) = (Ran (Break (PanickedWith e)), Some ar, u, [])"
proof -
  let ?s = "request_signal current ar TyComputeRequest (ComputeRequest v) tx"
  obtain st' where "mailbox_send ops metrics (Bounded h) ?s st = Some (Err ?s, st')"
    by (rule mailbox_send_closed [OF assms(1)])
  then show ?thesis
    by (cases tx) (simp_all add: serve_one_def gateway_compute_def ctx_forward_def ctx_new_def ask_forward_def tell_send_def put_def
        assms(2) from_mpsc_send_error_def request_signal_def forwarded_ask_def forwarded_tell_def Let_def)
qed

text \<open>What an asker of the gateway opens: either actor's answer, an error wrapped in the same way.\<close>

lemma gateway_answers_alike:
  "open_reply (forwarded_downcast gateway_replies TyComputeRequest TyComputeRequest compute_reply) (snd (primary_reply x)) =
    Done (map_err (\<lambda>e. HandlerError (GatewayError (HandlerError e))) (primary_answer (fst x)))"
  "open_reply (forwarded_downcast gateway_replies TyComputeRequest TyComputeRequest compute_reply) (snd (gateway_reply x)) =
    Done (map_err (\<lambda>e. HandlerError (GatewayError (HandlerError e))) (fallback_answer (fst x)))"
  by (simp_all add: primary_reply_def gateway_reply_def open_forwarded_origin open_forwarded_boxed)
     (simp_all add: gateway_replies_def fallback_answer_def)

subsection \<open>The streams\<close>

definition stream_request :: "(u64, string, string) stream_message \<Rightarrow> stream_value any \<times> nat option" where
  "stream_request m = (Any (TyNamed 6) (StreamMsg m), None)"

fun stream_amount :: "(u64, string, string) stream_message \<Rightarrow> int" where
  "stream_amount (StreamNext n) = uint n"
| "stream_amount _ = 0"

fun stream_end :: "(u64, string, string) stream_message \<Rightarrow> nat" where
  "stream_end (StreamFinished _) = 1"
| "stream_end _ = 0"

lemma stream_amount_nonneg [simp]: "0 \<le> stream_amount m"
  by (cases m) simp_all

lemma amounts_nonneg: "0 \<le> sum_list (map stream_amount ms)"
  by (rule sum_list_nonneg) auto

lemma u64_add_step:
  fixes n c :: u64
  assumes "0 \<le> sint c" and "sint c + uint n < 2 ^ 63"
  shows "signed_add checks c n = Done (c + n)" "sint (c + n) = sint c + uint n"
proof -
  have "uint n < 2 ^ 63" using assms by simp
  then have n: "sint n = uint n" by (subst sint_small) simp_all
  have "- 9223372036854775808 \<le> sint c + uint n"
    by (rule order_trans [of _ 0]) (use assms(1) in simp_all)
  then show "signed_add checks c n = Done (c + n)" "sint (c + n) = sint c + uint n"
    using signed_add_exact(1) [of c n checks] signed_add_exact(2) [of c n] assms by (simp_all add: n)
qed

text \<open>One message: it is counted, and the second end of a stream puts a stop signal in the actor's own mailbox.\<close>

lemma stream_serves_one:
  assumes room: "bounded_room ops h capacity q" "ar_mailbox ar = Bounded h" "length (q (mb_chan st)) < capacity"
    and a: "0 \<le> sint (st_count a)" "sint (st_count a) + stream_amount m < 2 ^ 63" "unat (st_complete a) + stream_end m \<le> 2"
  obtains a' st' out' where "serve_one stream_replies (stream_vtable ops metrics checks ar) (stream_request m) a (st, out) =
      (Ran Continue, a', (st', out'), [])"
    "sint (st_count a') = sint (st_count a) + stream_amount m" "unat (st_complete a') = unat (st_complete a) + stream_end m"
    "q (mb_chan st') = q (mb_chan st) @ (if stream_end m = 1 \<and> unat (st_complete a) = 1 then [Stop] else [])"
proof (cases m)
  case (StreamStarted s)
  then show ?thesis
    by (intro that [of a st "out @ [''Started '' @ s]"])
       (simp_all add: serve_one_def stream_request_def stream_handler_def ctx_new_def)
next
  case (StreamNext n)
  have step: "signed_add checks (st_count a) n = Done (st_count a + n)" "sint (st_count a + n) = sint (st_count a) + uint n"
    using u64_add_step a(1,2) by (simp_all add: StreamNext)
  then show ?thesis
    by (intro that [of "a\<lparr>st_count := st_count a + n\<rparr>" st "out @ [''Count is '' @ signed_text (st_count a + n)]"])
       (simp_all add: serve_one_def stream_request_def stream_handler_def ctx_new_def StreamNext)
next
  case (StreamFinished s)
  have less: "unat (st_complete a) < 2" using a(3) by (simp add: StreamFinished)
  then have ne: "st_complete a \<noteq> 255" by auto
  have suc: "unat (st_complete a + 1) = unat (st_complete a) + 1"
    using less by (simp add: unat_word_ariths)
  have two: "st_complete a + 1 = 2 \<longleftrightarrow> unat (st_complete a) = 1"
    using suc by (simp add: word_unat_eq_iff)
  obtain st1 where sent: "mailbox_send ops metrics (Bounded h) (Stop :: stream_value signal) st = Some (Ok (), st1)"
    "q (mb_chan st1) = q (mb_chan st) @ [Stop]"
    by (rule mailbox_send_room [OF room(1,3)])
  show ?thesis
  proof (cases "unat (st_complete a) = 1")
    case True
    then show ?thesis
      by (intro that [of "a\<lparr>st_complete := st_complete a + 1\<rparr>" st1 "out @ [''Finished '' @ s]"])
         (simp_all add: serve_one_def stream_request_def stream_handler_def ctx_new_def StreamFinished ne two suc sent
           stop_gracefully_def room(2) Let_def)
  next
    case False
    then show ?thesis
      by (intro that [of "a\<lparr>st_complete := st_complete a + 1\<rparr>" st "out @ [''Finished '' @ s]"])
         (simp_all add: serve_one_def stream_request_def stream_handler_def ctx_new_def StreamFinished ne two suc Let_def)
  qed
qed

lemma stream_serves:
  assumes room: "bounded_room ops h capacity q" "ar_mailbox ar = Bounded h"
    and "length (q (mb_chan st)) + (2 - unat (st_complete a)) < capacity" "0 \<le> sint (st_count a)"
      "unat (st_complete a) + sum_list (map stream_end ms) \<le> 2" "sint (st_count a) + sum_list (map stream_amount ms) < 2 ^ 63"
  shows "\<exists>a' st' out'. serve_all stream_replies (stream_vtable ops metrics checks ar) (map stream_request ms) a (st, out) =
      (Ran Continue, a', (st', out'), []) \<and>
    sint (st_count a') = sint (st_count a) + sum_list (map stream_amount ms) \<and>
    unat (st_complete a') = unat (st_complete a) + sum_list (map stream_end ms) \<and>
    q (mb_chan st') = q (mb_chan st) @ (if unat (st_complete a) < 2 \<and> unat (st_complete a') = 2 then [Stop] else [])"
  using assms(3-)
proof (induction ms arbitrary: a st out)
  case Nil
  then show ?case by auto
next
  case (Cons m ms)
  have small: "sint (st_count a) + stream_amount m < 2 ^ 63" "unat (st_complete a) + stream_end m \<le> 2"
    "length (q (mb_chan st)) < capacity"
    using Cons.prems amounts_nonneg [of ms] by simp_all
  obtain a1 st1 out1 where one: "serve_one stream_replies (stream_vtable ops metrics checks ar) (stream_request m) a (st, out) =
      (Ran Continue, a1, (st1, out1), [])"
    "sint (st_count a1) = sint (st_count a) + stream_amount m" "unat (st_complete a1) = unat (st_complete a) + stream_end m"
    "q (mb_chan st1) = q (mb_chan st) @ (if stream_end m = 1 \<and> unat (st_complete a) = 1 then [Stop] else [])"
    by (rule stream_serves_one [OF room small(3) Cons.prems(2) small(1,2)])
  have pre: "length (q (mb_chan st1)) + (2 - unat (st_complete a1)) < capacity" "0 \<le> sint (st_count a1)"
    "unat (st_complete a1) + sum_list (map stream_end ms) \<le> 2" "sint (st_count a1) + sum_list (map stream_amount ms) < 2 ^ 63"
    using Cons.prems one(2-4) by auto
  have "stream_end m \<le> 1" by (cases m) simp_all
  then consider "stream_end m = 0" | "stream_end m = 1" by linarith
  then have ends: "(if stream_end m = 1 \<and> unat (st_complete a) = 1 then [Stop] else []) @
      (if unat (st_complete a1) < 2 \<and> unat (st_complete a1) + sum_list (map stream_end ms) = 2 then [Stop] else []) =
    (if unat (st_complete a) < 2 \<and> unat (st_complete a) + sum_list (map stream_end (m # ms)) = 2 then [Stop] else [])"
    using one(3) Cons.prems(3) by cases auto
  obtain a2 st2 out2 where rest: "serve_all stream_replies (stream_vtable ops metrics checks ar) (map stream_request ms) a1 (st1, out1) =
      (Ran Continue, a2, (st2, out2), [])"
    "sint (st_count a2) = sint (st_count a1) + sum_list (map stream_amount ms)"
    "unat (st_complete a2) = unat (st_complete a1) + sum_list (map stream_end ms)"
    "q (mb_chan st2) = q (mb_chan st1) @ (if unat (st_complete a1) < 2 \<and> unat (st_complete a2) = 2 then [Stop] else [])"
    using Cons.IH [OF pre, of out1] by blast
  have "q (mb_chan st2) = q (mb_chan st) @
      (if unat (st_complete a) < 2 \<and> unat (st_complete a) + sum_list (map stream_end (m # ms)) = 2 then [Stop] else [])"
    unfolding ends [symmetric] rest(4) one(4) rest(3) by simp
  with one(1-3) rest(1-3) show ?case
    by (intro exI [of _ a2] exI [of _ st2] exI [of _ out2]) simp
qed

text \<open>Any interleaving of what two attached streams send ends with the end of one of them.\<close>

lemma last_shuffles:
  "zs \<in> shuffles xs ys \<Longrightarrow> zs \<noteq> [] \<Longrightarrow> xs \<noteq> [] \<and> last zs = last xs \<or> ys \<noteq> [] \<and> last zs = last ys"
  by (induction xs ys arbitrary: zs rule: shuffles.induct) (fastforce split: if_splits)+

lemma sum_shuffles:
  fixes f :: "'a \<Rightarrow> 'b::comm_monoid_add"
  assumes "zs \<in> shuffles xs ys"
  shows "sum_list (map f zs) = sum_list (map f xs) + sum_list (map f ys)"
proof -
  have "mset (map f zs) = mset (map f xs @ map f ys)"
    using mset_shuffles [OF assms] by simp
  then have "sum_mset (mset (map f zs)) = sum_mset (mset (map f xs @ map f ys))" by simp
  then show ?thesis by (simp only: sum_mset_sum_list sum_list_append)
qed

lemma attach_script_sums:
  "sum_list (map stream_amount (attach_script s f ns)) = (\<Sum>n\<leftarrow>ns. uint n)"
  "sum_list (map stream_end (attach_script s f ns)) = 1"
  by (simp_all add: attach_script_def comp_def)

lemma shuffled_sums:
  assumes "ms \<in> shuffles (attach_script s1 f1 ns1) (attach_script s2 f2 ns2)"
  shows "sum_list (map stream_amount ms) = (\<Sum>n\<leftarrow>ns1 @ ns2. uint n)" "sum_list (map stream_end ms) = 2"
  by (simp_all add: sum_shuffles [OF assms] attach_script_sums)

section \<open>Properties\<close>

text \<open>The greetings are printed in the order in which they were sent.\<close>

lemma hello_world_greets:
  assumes "mailbox_holds w (map (\<lambda>g. (Any TyUnit (Greet g), None)) gs)"
  shows "\<exists>b w'. abortable_actor_loop (actor_of ''HelloWorldActor'' hello_replies hello_vtable ()) False (new_from_actor () i) w =
    Some (Ran Normal, b, w') \<and> en_user (w_env w') = en_user (w_env w) @ gs"
proof -
  have "serve_all hello_replies hello_vtable (map (\<lambda>g. (Any TyUnit (Greet g), None)) gs) () out = (Ran Continue, (), out @ gs, [])" for out
    by (induction gs arbitrary: out) (simp_all add: serve_one_def hello_handler_def ctx_new_def)
  from mailbox_serves [OF assms this] show ?thesis by (metis stopped_with.simps(1))
qed

text \<open>
  The counter of \<open>basic.rs\<close>: whatever increments it is sent, it answers those that are asked for with
  the count so far and prints each of them, as long as the count fits; the message that fails ends it
  with that error, and nothing sent after it is answered.
\<close>

theorem counter_stops_at_its_error:
  assumes "mailbox_holds w (map inc_request xs @ (Any TyForceErr ForceErr, None) # rest)"
    and "(\<Sum>x\<leftarrow>xs. uint (fst x)) < 2 ^ 63" and "inc_answers 0 xs = (c, replies)"
  shows "\<exists>b w'. abortable_actor_loop (actor_of ''MyActor'' basic_replies (my_actor_vtable checks) 0) False (new_from_actor 0 i) w =
      Some (Ran (PanickedWith (panic_error_new (Any TyI32 (I32 3)) OnMessage)), b, w') \<and>
    ab_state b = c \<and> sint c = (\<Sum>x\<leftarrow>xs. uint (fst x)) \<and> en_replies (w_env w') = en_replies (w_env w) @ replies \<and>
    en_user (w_env w') = en_user (w_env w) @ map (inc_line \<circ> fst) xs"
proof -
  let ?out = "en_user (w_env w) @ map (inc_line \<circ> fst) xs"
  have incs: "serve_all basic_replies (my_actor_vtable checks) (map inc_request xs) 0 (en_user (w_env w)) = (Ran Continue, c, ?out, replies)"
    "sint c = (\<Sum>x\<leftarrow>xs. uint (fst x))"
    using serve_incs [of 0 xs c replies checks] assms(2,3) by simp_all
  have "serve_one basic_replies (my_actor_vtable checks) (Any TyForceErr ForceErr, None) c ?out =
      (Ran (Break (PanickedWith (panic_error_new (Any TyI32 (I32 3)) OnMessage))), c, ?out, [])"
    by (simp add: serve_one_def force_err_handler_def ctx_new_def)
  then have "serve_all basic_replies (my_actor_vtable checks) (map inc_request xs @ (Any TyForceErr ForceErr, None) # rest) 0 (en_user (w_env w)) =
      (Ran (Break (PanickedWith (panic_error_new (Any TyI32 (I32 3)) OnMessage))), c, ?out, replies)"
    by (simp add: serve_all_append incs(1))
  from mailbox_serves [OF assms(1) this] show ?thesis
    unfolding stopped_with.simps incs(2) by (metis incs(2))
qed

text \<open>What an asker of the gateway gets of a reply on its channel.\<close>

definition gateway_opens :: "'h gateway_value boxed_reply \<Rightarrow> ('h gateway_value, ('h gateway_value, 'h gateway_value) send_error) result outcome" where
  "gateway_opens reply =
    open_reply (forwarded_downcast (gateway_replies :: ('h gateway_value, unit) reply_env) TyComputeRequest TyComputeRequest compute_reply) reply"

lemma forwarded_signals:
  "current \<noteq> Some (ar_id ar) \<Longrightarrow> map (forwarded_signal current ar) xs = signals_of (ar_id ar) (map compute_request xs)"
  by (auto simp: forwarded_signal_def request_signal_def is_current_def signals_of_def compute_request_def)

lemma primary_answers_forwarded:
  assumes "ss1 @ ss2 = map (forwarded_signal current ar) xs" and "en_inbox (w_env w) = ss1 @ StartupFinished # ss2"
    and "current \<noteq> Some (ar_id ar)" and "\<forall>x \<in> set xs. fits checks (fst x) 2"
  shows "\<exists>b w'. abortable_actor_loop (actor_of ''PrimaryComputeActor'' gateway_replies (primary_vtable checks) ()) False
      (new_from_actor () (ar_id ar)) w = Some (Ran Normal, b, w') \<and> en_replies (w_env w') = en_replies (w_env w) @ map primary_reply xs"
proof -
  obtain xs1 xs2 where xs: "xs = xs1 @ xs2" "ss1 = map (forwarded_signal current ar) xs1" "ss2 = map (forwarded_signal current ar) xs2"
    using assms(1) [symmetric] unfolding map_eq_append_conv by blast
  have "mailbox_holds w (map compute_request xs1 @ map compute_request xs2)"
    using assms(2) unfolding xs(2,3) forwarded_signals [OF assms(3)] by (rule mailbox_holds_signals)
  then have "mailbox_holds w (map compute_request xs)" by (simp add: xs(1))
  from mailbox_serves [OF this primary_serves [OF assms(4)], of "''PrimaryComputeActor''" "ar_id ar"]
  show ?thesis by (metis stopped_with.simps(1))
qed

text \<open>
  C12. The gateway of \<open>forward_with_fallback.rs\<close>, asked for computations. Without a primary actor it answers
  each of them itself, on the channel of its asker. With one whose mailbox has room for them it sends no
  reply; the primary, whose mailbox they reach in their order, answers each on that same channel. What
  an asker opens has the same form in both cases: the answer, or its error wrapped once.
\<close>

theorem gateway_is_transparent:
  fixes w :: "('h gateway_value, 'c gateway_env) actor_world"
  assumes asked: "mailbox_holds w (map compute_request xs)" "en_user (w_env w) = (st, out)"
    and channel: "bounded_room ops h capacity q" "ar_mailbox ar = Bounded h" "q (mb_chan st) = []" "length xs \<le> capacity"
      "current \<noteq> Some (ar_id ar)"
    and fits: "\<forall>x \<in> set xs. fits checks (fst x) 2 \<and> fits checks (fst x) 3"
  shows "(\<exists>b w'. abortable_actor_loop (actor_of ''GatewayActor'' gateway_replies (gateway_vtable ops metrics current checks) None) False
        (new_from_actor None i) w = Some (Ran Normal, b, w') \<and> en_replies (w_env w') = en_replies (w_env w) @ map gateway_reply xs) \<and>
    (\<exists>b w'. abortable_actor_loop (actor_of ''GatewayActor'' gateway_replies (gateway_vtable ops metrics current checks) (Some ar)) False
        (new_from_actor (Some ar) i) w = Some (Ran Normal, b, w') \<and> en_replies (w_env w') = en_replies (w_env w) \<and>
      (\<forall>ss1 ss2 (wp :: ('h gateway_value, 'u) actor_world).
        q (mb_chan (fst (en_user (w_env w')))) = ss1 @ ss2 \<longrightarrow> en_inbox (w_env wp) = ss1 @ StartupFinished # ss2 \<longrightarrow>
        (\<exists>bp wp'. abortable_actor_loop (actor_of ''PrimaryComputeActor'' gateway_replies (primary_vtable checks) ()) False
            (new_from_actor () (ar_id ar)) wp = Some (Ran Normal, bp, wp') \<and>
          en_replies (w_env wp') = en_replies (w_env wp) @ map primary_reply xs))) \<and>
    (\<forall>x. gateway_opens (snd (gateway_reply x)) =
        Done (map_err (\<lambda>e. HandlerError (GatewayError (HandlerError e))) (fallback_answer (fst x) :: ('h gateway_value, _) result)) \<and>
      gateway_opens (snd (primary_reply x)) =
        Done (map_err (\<lambda>e. HandlerError (GatewayError (HandlerError e))) (primary_answer (fst x) :: ('h gateway_value, _) result)))"
proof (intro conjI allI)
  have own: "\<forall>x \<in> set xs. fits checks (fst x) 3" and theirs: "\<forall>x \<in> set xs. fits checks (fst x) 2" using fits by auto
  obtain out' where "serve_all gateway_replies (gateway_vtable ops metrics current checks) (map compute_request xs) None (en_user (w_env w)) =
      (Ran Continue, None, (st, out'), map gateway_reply xs)"
    using gateway_falls_back [OF own] asked(2) by metis
  from mailbox_serves [OF asked(1) this, of "''GatewayActor''" i]
  show "\<exists>b w'. abortable_actor_loop (actor_of ''GatewayActor'' gateway_replies (gateway_vtable ops metrics current checks) None) False
        (new_from_actor None i) w = Some (Ran Normal, b, w') \<and> en_replies (w_env w') = en_replies (w_env w) @ map gateway_reply xs"
    by (metis stopped_with.simps(1))
  obtain st' out2 where forwards: "serve_all gateway_replies (gateway_vtable ops metrics current checks) (map compute_request xs) (Some ar)
      (en_user (w_env w)) = (Ran Continue, Some ar, (st', out2), [])" "q (mb_chan st') = map (forwarded_signal current ar) xs"
    using gateway_forwards [OF channel(1,2), of st xs metrics current checks out] channel(3,4) asked(2) by auto
  obtain b w' where run: "abortable_actor_loop (actor_of ''GatewayActor'' gateway_replies (gateway_vtable ops metrics current checks) (Some ar))
      False (new_from_actor (Some ar) i) w = Some (Ran Normal, b, w')" "en_user (w_env w') = (st', out2)"
      "en_replies (w_env w') = en_replies (w_env w)"
    using mailbox_serves [OF asked(1) forwards(1), of "''GatewayActor''" i] by (metis append_Nil2 stopped_with.simps(1))
  show "\<exists>b w'. abortable_actor_loop (actor_of ''GatewayActor'' gateway_replies (gateway_vtable ops metrics current checks) (Some ar)) False
        (new_from_actor (Some ar) i) w = Some (Ran Normal, b, w') \<and> en_replies (w_env w') = en_replies (w_env w) \<and>
      (\<forall>ss1 ss2 (wp :: ('h gateway_value, 'u) actor_world).
        q (mb_chan (fst (en_user (w_env w')))) = ss1 @ ss2 \<longrightarrow> en_inbox (w_env wp) = ss1 @ StartupFinished # ss2 \<longrightarrow>
        (\<exists>bp wp'. abortable_actor_loop (actor_of ''PrimaryComputeActor'' gateway_replies (primary_vtable checks) ()) False
            (new_from_actor () (ar_id ar)) wp = Some (Ran Normal, bp, wp') \<and>
          en_replies (w_env wp') = en_replies (w_env wp) @ map primary_reply xs))"
    by (intro exI [of _ b] exI [of _ w'] conjI allI impI run(1,3) primary_answers_forwarded [OF _ _ channel(5) theirs])
       (simp_all add: run(2) forwards(2))
qed (simp_all add: gateway_opens_def gateway_answers_alike)

text \<open>
  C25. The example prints that nothing panics when forwarding fails. But once the primary actor has stopped,
  the first computation the gateway is asked for, or told, ends the gateway itself with a panic: it sends
  no reply, and what is left in its mailbox is not handled.
\<close>

theorem gateway_dies_with_its_primary:
  assumes "mailbox_holds w ((Any TyComputeRequest (ComputeRequest v), tx) # rest)"
    and "channel_closed ops h" and "ar_mailbox ar = Bounded h"
  shows "\<exists>e b w'. abortable_actor_loop (actor_of ''GatewayActor'' gateway_replies (gateway_vtable ops metrics current checks) (Some ar)) False
      (new_from_actor (Some ar) i) w = Some (Ran (PanickedWith e), b, w') \<and> en_replies (w_env w') = en_replies (w_env w)"
proof -
  obtain st out where user: "en_user (w_env w) = (st, out)" by (cases "en_user (w_env w)")
  obtain e u where "serve_one gateway_replies (gateway_vtable ops metrics current checks)
      (Any TyComputeRequest (ComputeRequest v), tx) (Some ar) (st, out) = (Ran (Break (PanickedWith e)), Some ar, u, [])"
    using gateway_serves_dead_primary [OF assms(2,3)] by blast
  then have "serve_all gateway_replies (gateway_vtable ops metrics current checks)
      ((Any TyComputeRequest (ComputeRequest v), tx) # rest) (Some ar) (en_user (w_env w)) = (Ran (Break (PanickedWith e)), Some ar, u, [])"
    by (simp add: user)
  from mailbox_serves [OF assms(1) this, of "''GatewayActor''" i] show ?thesis
    unfolding stopped_with.simps append_Nil2 by metis
qed

text \<open>
  C13. The actor of \<open>stream.rs\<close>: however the messages of its two attached streams are interleaved in its
  mailbox, all of them are handled, it counts the sum of all items, and it asks itself to stop exactly
  once: with the last message of all, so that nothing of either stream is lost behind the stop signal.
\<close>

theorem streams_counted_then_stopped:
  assumes sent: "ms \<in> shuffles (attach_script s1 f1 ns1) (attach_script s2 f2 ns2)"
    and mailbox: "mailbox_holds w (map stream_request ms)" "en_user (w_env w) = (st, out)"
    and room: "bounded_room ops h capacity q" "ar_mailbox ar = Bounded h" "length (q (mb_chan st)) + 2 < capacity"
    and small: "(\<Sum>n\<leftarrow>ns1 @ ns2. uint n) < 2 ^ 63"
  shows "(\<exists>b w'. abortable_actor_loop (actor_of ''MyActor'' stream_replies (stream_vtable ops metrics checks ar) \<lparr>st_count = 0, st_complete = 0\<rparr>)
        False (new_from_actor \<lparr>st_count = 0, st_complete = 0\<rparr> (ar_id ar)) w = Some (Ran Normal, b, w') \<and>
      sint (st_count (ab_state b)) = (\<Sum>n\<leftarrow>ns1 @ ns2. uint n) \<and> st_complete (ab_state b) = 2 \<and>
      q (mb_chan (fst (en_user (w_env w')))) = q (mb_chan st) @ [Stop]) \<and>
    (\<forall>ys zs. ms = ys @ zs \<longrightarrow> zs \<noteq> [] \<longrightarrow> (\<exists>a st' out'.
      serve_all stream_replies (stream_vtable ops metrics checks ar) (map stream_request ys) \<lparr>st_count = 0, st_complete = 0\<rparr> (st, out) =
        (Ran Continue, a, (st', out'), []) \<and> q (mb_chan st') = q (mb_chan st)))"
proof (intro conjI allI impI)
  let ?a = "\<lparr>st_count = 0, st_complete = 0\<rparr>"
  obtain a st' out' where "serve_all stream_replies (stream_vtable ops metrics checks ar) (map stream_request ms) ?a (en_user (w_env w)) =
      (Ran Continue, a, (st', out'), [])" "sint (st_count a) = (\<Sum>n\<leftarrow>ns1 @ ns2. uint n)" "st_complete a = 2"
      "q (mb_chan st') = q (mb_chan st) @ [Stop]"
    using stream_serves [OF room(1,2), of st ?a ms metrics checks out] room(3) small
    by (auto simp: shuffled_sums [OF sent] mailbox(2) word_unat_eq_iff)
  from mailbox_serves [OF mailbox(1) this(1), of "''MyActor''" "ar_id ar"] this(2-4)
  show "\<exists>b w'. abortable_actor_loop (actor_of ''MyActor'' stream_replies (stream_vtable ops metrics checks ar) ?a)
        False (new_from_actor ?a (ar_id ar)) w = Some (Ran Normal, b, w') \<and>
      sint (st_count (ab_state b)) = (\<Sum>n\<leftarrow>ns1 @ ns2. uint n) \<and> st_complete (ab_state b) = 2 \<and>
      q (mb_chan (fst (en_user (w_env w')))) = q (mb_chan st) @ [Stop]"
    by (metis fst_conv stopped_with.simps(1))
next
  fix ys zs
  assume split: "ms = ys @ zs" "zs \<noteq> []"
  have "stream_end (last zs) = 1"
    using last_shuffles [OF sent] split by (auto simp: attach_script_def)
  then have "1 \<in> set (map stream_end zs)"
    using split(2) by (metis image_eqI last_in_set list.set_map)
  then have "1 \<le> sum_list (map stream_end zs)" by (rule member_le_sum_list) simp
  then have "sum_list (map stream_end ys) \<le> 1" "(\<Sum>m\<leftarrow>ys. stream_amount m) \<le> (\<Sum>n\<leftarrow>ns1 @ ns2. uint n)"
    using shuffled_sums [OF sent] amounts_nonneg [of zs] by (simp_all add: split(1))
  then show "\<exists>a st' out'. serve_all stream_replies (stream_vtable ops metrics checks ar) (map stream_request ys) \<lparr>st_count = 0, st_complete = 0\<rparr> (st, out) =
        (Ran Continue, a, (st', out'), []) \<and> q (mb_chan st') = q (mb_chan st)"
    using stream_serves [OF room(1,2), of st "\<lparr>st_count = 0, st_complete = 0\<rparr>" ys metrics checks out] room(3) small by auto
qed

section \<open>The examples run\<close>

definition example_world :: "'v signal list \<Rightarrow> 'u \<Rightarrow> ('v, 'u) actor_world" where
  "example_world ss u = \<lparr>w_links = [], w_startup_result = None, w_shutdown_result = None, w_error_hook_calls = [],
     w_registry = registry_new, w_notices = [], w_env = \<lparr>en_inbox = ss, en_replies = [], en_user = u\<rparr>\<rparr>"

lemma example_world_simps [simp]:
  "en_inbox (w_env (example_world ss u)) = ss" "en_replies (w_env (example_world ss u)) = []" "en_user (w_env (example_world ss u)) = u"
  by (simp_all add: example_world_def)

definition started_with :: "('v any \<times> nat option) list \<Rightarrow> 'v signal list" where
  "started_with rs = StartupFinished # signals_of (ActorId 1) rs"

lemma mailbox_holds_started: "mailbox_holds (example_world (started_with rs) u) rs"
  using mailbox_holds_signals [of "example_world (started_with rs) u" "ActorId 1" "[]" rs]
  by (simp add: started_with_def signals_of_def)

definition idle_mailbox :: "(nat \<times> 's list) mailbox_state" where
  "idle_mailbox = \<lparr>mb_chan = (0, []), mb_sent = \<lparr>c_messages = 0, c_lifecycle = 0, c_link_died = 0\<rparr>,
     mb_received = \<lparr>c_messages = 0, c_lifecycle = 0, c_link_died = 0\<rparr>\<rparr>"

lemma queue_room: "bounded_room queue_ops () n snd"
  by (auto simp: bounded_room_def queue_ops_def)

text \<open>The requests of \<open>main\<close>, with the channels of its three asks: the last of them is never answered.\<close>

theorem counter_stops_at_its_error_witness:
  "\<exists>b w'. abortable_actor_loop (actor_of ''MyActor'' basic_replies (my_actor_vtable True) 0) False (new_from_actor 0 (ActorId 1))
      (example_world (started_with (map2 (\<lambda>r tx. (request_message r, tx)) basic_main [Some 0, None, Some 1, None, Some 2])) []) =
    Some (Ran (PanickedWith (panic_error_new (Any TyI32 (I32 3)) OnMessage)), b, w') \<and> sint (ab_state b) = 55 \<and>
    en_replies (w_env w') = [(0, Ok (Any TyI64 (I64 3))), (1, Ok (Any TyI64 (I64 55)))]"
proof -
  let ?xs = "[(3, Some 0), (50, None), (2, Some 1)] :: (u32 \<times> nat option) list"
  have requests: "map2 (\<lambda>r tx. (request_message r, tx)) basic_main [Some 0, None, Some 1, None, Some 2] =
      map inc_request ?xs @ (Any TyForceErr ForceErr, None) # [(Any TyInc (Inc 2), Some 2)]"
    by (simp add: basic_main_def inc_request_def)
  have answers: "inc_answers 0 ?xs = (55, [(0, Ok (Any TyI64 (I64 3))), (1, Ok (Any TyI64 (I64 55)))])" by simp
  let ?rs = "map inc_request ?xs @ (Any TyForceErr ForceErr, None) # [(Any TyInc (Inc 2), Some 2)]"
  have holds: "mailbox_holds (example_world (started_with ?rs) []) ?rs" by (rule mailbox_holds_started)
  show ?thesis
    unfolding requests
    using counter_stops_at_its_error [OF holds _ answers, of True "ActorId 1"] by auto
qed

definition primary_ref :: "unit actor_ref" where "primary_ref = \<lparr>ar_id = ActorId 2, ar_mailbox = Bounded ()\<rparr>"

theorem gateway_is_transparent_witness:
  "\<exists>b w'. abortable_actor_loop (actor_of ''GatewayActor'' gateway_replies (gateway_vtable queue_ops True (Some (ActorId 1)) True) None) False
      (new_from_actor None (ActorId 1)) (example_world (started_with (map compute_request [(5, 1), (0, 2)])) (idle_mailbox, [])) =
      Some (Ran Normal, b, w') \<and>
    en_replies (w_env w') = [(1, Ok (Any TyI32 (Computed 15))), (2, Ok (Any TyI32 (Computed 1)))]"
proof -
  let ?xs = "[(5, 1), (0, 2)] :: (u32 \<times> nat) list"
  have fits: "\<forall>x \<in> set ?xs. fits True (fst x) 2 \<and> fits True (fst x) 3" by (simp add: fits_def)
  have replies: "(map gateway_reply ?xs :: (nat \<times> unit gateway_value boxed_reply) list) =
      [(1, Ok (Any TyI32 (Computed 15))), (2, Ok (Any TyI32 (Computed 1)))]"
    by (simp add: gateway_reply_def fallback_answer_def boxed_result_def compute_reply_def)
  show ?thesis
    using gateway_is_transparent [OF mailbox_holds_started _ queue_room, where xs = ?xs and ar = primary_ref and capacity = 64 and
        st = idle_mailbox and current = "Some (ActorId 1)" and metrics = True and checks = True and i = "ActorId 1", THEN conjunct1] fits
    unfolding replies by (simp add: primary_ref_def idle_mailbox_def)
qed

definition closed_ops :: "(unit, unit, unit, 's, nat \<times> 's list) mpsc_send" where
  "closed_ops = queue_ops\<lparr>mp_send := \<lambda>h s c. Some (Err s, c)\<rparr>"

lemma closed_primary: "channel_closed closed_ops ()"
  by (simp add: channel_closed_def closed_ops_def)

theorem gateway_dies_with_its_primary_witness:
  "\<exists>e b w'. abortable_actor_loop (actor_of ''GatewayActor'' gateway_replies (gateway_vtable closed_ops False (Some (ActorId 1)) True) (Some primary_ref))
      False (new_from_actor (Some primary_ref) (ActorId 1))
      (example_world (started_with [(Any TyComputeRequest (ComputeRequest 5), Some 1)]) (idle_mailbox, [])) =
    Some (Ran (PanickedWith e), b, w') \<and> en_replies (w_env w') = []"
  using gateway_dies_with_its_primary [OF mailbox_holds_started closed_primary, where ar = primary_ref and metrics = False and
      current = "Some (ActorId 1)" and checks = True and i = "ActorId 1"]
  by (simp add: primary_ref_def)

theorem streams_counted_then_stopped_witness:
  "\<exists>b w'. abortable_actor_loop (actor_of ''MyActor'' stream_replies (stream_vtable queue_ops True True primary_ref) \<lparr>st_count = 0, st_complete = 0\<rparr>)
      False (new_from_actor \<lparr>st_count = 0, st_complete = 0\<rparr> (ActorId 2))
      (example_world (started_with (map stream_request (splice first_stream second_stream))) (idle_mailbox, [])) = Some (Ran Normal, b, w') \<and>
    sint (st_count (ab_state b)) = 10 \<and> snd (mb_chan (fst (en_user (w_env w')))) = [Stop]"
proof -
  let ?ms = "splice first_stream second_stream"
  have sent: "?ms \<in> shuffles (attach_script ''1st stream'' ''1st stream'' (replicate 5 1)) (attach_script ''2nd stream'' ''2nd stream'' (replicate 5 1))"
    by (simp add: first_stream_def second_stream_def)
  have holds: "mailbox_holds (example_world (started_with (map stream_request ?ms)) (idle_mailbox, [])) (map stream_request ?ms)"
    by (rule mailbox_holds_started)
  have mailbox: "ar_mailbox primary_ref = Bounded ()" by (simp add: primary_ref_def)
  have room: "length (snd (mb_chan (idle_mailbox :: (nat \<times> stream_value signal list) mailbox_state))) + 2 < 64"
    by (simp add: idle_mailbox_def)
  show ?thesis
    using streams_counted_then_stopped [OF sent holds _ queue_room mailbox room, of "[]" True True, THEN conjunct1]
    by (auto simp: primary_ref_def idle_mailbox_def numeral_eq_Suc)
qed

end
