(* ===== verification/Spec2Isabelle.thy ===== *)
theory Spec2Isabelle
  imports Type_Hash Wire_Protocol Exactly_Once Errors Mailbox Registry Links Actor_Behaviour Lifecycle Streaming
    Delivery Message_Queue Broker Message_Bus Pubsub Request Reply Actor_Pool Actor_Ref Scheduler Remote_Link
    Handle_Cache Remote_Handlers Location_Metadata Transport Distributed_Ref V2_Bootstrap Recipient Spawning
    Message_Macro Derive_Macros Actor_System Error_Text Remote_Request
    Event_System Local_Examples
begin

text \<open>
  A verification development for kameo, a library of actors for Rust. An actor is a state machine
  with a mailbox; requests put signals into it, replies come back on oneshot channels, linked actors
  learn of each other's end, and actors of other nodes are reached through a gossip registry. This
  theory imports all the others.

  \<^bold>\<open>Parts and theories.\<close> Paths are relative to \<open>src/\<close>, where \<open>src/src\<close> is the crate \<open>kameo\<close>,
  \<open>src/actors\<close> the crate of ready-made actors, and \<open>src/macros\<close> and \<open>src/kameo_type_hash_macros\<close> the
  macro crates.

  \<^item> \<open>Kameo_Prelude\<close>: machine words, \<open>Result\<close> (\<open>Ok\<close>, \<open>Err\<close>), code that may unwind (\<open>outcome\<close>), hash
    maps as association lists, little-endian words, and the interfaces several parts share: \<open>keyed_store\<close>
    (tables by key), \<open>byte_codec\<close> and \<open>stream_codec\<close> (encoders and decoders), \<open>protocol\<close> and
    \<open>working_protocol\<close> (step relations with an invariant, and those whose work runs out).
  \<^item> \<open>Errors\<close>, \<open>Error_Text\<close> (\<open>src/error.rs\<close>), \<open>Mailbox\<close> (\<open>src/mailbox.rs\<close>): the error types, the values they
    carry and what they print; senders, receivers, signals and metrics over the channels.
  \<^item> \<open>Registry\<close> (\<open>src/registry.rs\<close>), \<open>Links\<close> (\<open>link\<close>, \<open>unlink\<close> in \<open>src/actor/actor_ref.rs\<close>, and the notices of
    \<open>src/actor/spawn.rs\<close>, a step relation over the phases of the actors' lives), \<open>Actor_Behaviour\<close> (\<open>src/actor/kind.rs\<close>, the default hooks of \<open>src/actor.rs\<close>),
    \<open>Lifecycle\<close> (\<open>src/actor/spawn.rs\<close>): names, links, the reaction to a signal, and the loop that runs
    an actor from its start to its end.
  \<^item> \<open>Request\<close> (\<open>src/request/ask.rs\<close>, \<open>src/request/tell.rs\<close>), \<open>Reply\<close> (\<open>src/reply.rs\<close>, \<open>src/message.rs\<close>): what a
    caller sends and gets, and what a handler answers.
  \<^item> \<open>Actor_Ref\<close> (the rest of \<open>src/actor/actor_ref.rs\<close>): weak references, waiting for an actor's start and
    end, and the task that feeds it a stream, a step relation. \<open>Recipient\<close> (with \<open>src/request.rs\<close>): the builders
    of requests, and recipients, which hide the actor's type. \<open>Spawning\<close> (\<open>src/actor.rs\<close>, \<open>src/actor/spawn.rs\<close>):
    how actors come to run. \<open>Actor_System\<close> puts handlers, loop, mailbox and clients together.
  \<^item> \<open>Message_Macro\<close> (\<open>macros/src/messages.rs\<close>), \<open>Derive_Macros\<close> (the other macros of \<open>macros/src\<close>): the procedural macros,
    functions from syntax trees to the parts of the declarations they emit; handlers and messages that
    the rest of the development takes as parameters are made by them.
  \<^item> \<open>Delivery\<close>, \<open>Message_Queue\<close>, \<open>Broker\<close>, \<open>Message_Bus\<close>, \<open>Pubsub\<close>, \<open>Actor_Pool\<close> (\<open>actors/src\<close>): the
    ready-made actors; the locale \<open>subscription_table\<close> is the contract three of them share when they
    drop recipients that stopped. \<open>Scheduler\<close>, one more of them, sends messages later and repeatedly.
    \<open>Event_System\<close> puts the routing actors before the mailboxes and loops of their subscribers; its
    locales \<open>post_refinement\<close>, \<open>broker_refinement\<close>, \<open>bus_refinement\<close>, \<open>queue_refinement\<close> are the refinement of
    the post office the theorems of the routing actors are stated with.
  \<^item> \<open>Type_Hash\<close>, \<open>Wire_Protocol\<close>, \<open>Streaming\<close>, \<open>Exactly_Once\<close>, \<open>Location_Metadata\<close> (\<open>src/remote\<close>, \<open>src/actor/id.rs\<close>):
    what goes over the wire and how it is checked there; the locale \<open>dedup_cache\<close> is the contract of
    the two exactly-once caches.
  \<^item> \<open>Transport\<close>, \<open>Remote_Handlers\<close>, \<open>Distributed_Ref\<close>, \<open>Remote_Request\<close>, \<open>Remote_Link\<close>, \<open>Handle_Cache\<close>, \<open>V2_Bootstrap\<close>
    (\<open>src/remote\<close>):
    a node: names in the gossip registry, what it does with a message from another node, references
    to actors of other nodes, links to them, their connections' liveness, and how all of it is started.
  \<^item> \<open>Local_Examples\<close> (\<open>examples/local\<close>, \<open>examples/hello_world.rs\<close>): programs that use the library, on the model of it.

  \<^bold>\<open>State and operations.\<close> A definition keeps the name of the function or type it models, with a prefix
  where HOL or another part has the name. State is passed explicitly: a record per component, and a
  \<open>node\<close> for the statics of a process. A lock held for a whole function makes that function one step.
  Fallible code returns a \<open>result\<close>, code that can panic an \<open>outcome\<close>, and code that may wait for ever
  an \<open>option\<close> whose \<open>None\<close> is not returning. Iteration over a hash map is in the order of its list,
  which stands for any order.

  \<^bold>\<open>Parameters.\<close> Code that is not in the repository is an argument: tokio's channels and oneshots
  (\<open>mpsc_send\<close>, \<open>mpsc_recv\<close>, \<open>oneshot_ops\<close>), timers and task sets (\<open>timer_ops\<close>,
  \<open>join_set_ops\<close>), rkyv (\<open>rkyv\<close>, \<open>metadata_codec\<close>), the gossip library
  kameo\_remote (\<open>gossip\<close>), glob patterns, blake3, and the parser of syn (\<open>syn_ops\<close>); and so is what a user writes: hooks and handlers
  (\<open>actor_impl\<close>), reply types, factories, filters. What a theorem needs of a parameter is a named
  predicate (\<open>rkyv_roundtrip\<close>, \<open>location_faithful\<close>, \<open>names_sound\<close>, \<open>frames_delivered\<close>, \<open>fifo_channels\<close>, \<open>open_mailboxes\<close>,
  \<open>bounded_room\<close>, \<open>gives_back\<close>, \<open>weak_senders_upgrade\<close>, \<open>mailbox_actor\<close>), and the
  theorem's witness gives an instance of it.

  \<^bold>\<open>Termination and bounds.\<close> The actor's loop may run for ever and is a \<open>partial_function\<close>; that it ends
  when the mailbox is closed or a stop is pending is proved. The dispatch of the pool recurses over
  its number of workers, the start of a registry over five retries, and a stream over its chunks; all
  of them are total. Chunk counts, ports, hashes and headers are words of their width, and the
  theorems say where they wrap around or panic.

  \<^bold>\<open>What the lemmas show.\<close>
  \<^item> The whole: clients' requests are answered, each once, as by an actor that handles one message
    after the other in their order, which the rest of the library relies on (\<open>Actor_System\<close>); what is
    published is handled by exactly the subscribers of its topic, in order (\<open>Event_System\<close>).
  \<^item> Actors: the loop ends and notifies, the startup buffer is invisible up to the first message that
    fails, behind which it loses what it holds, panics are recovered from (\<open>Lifecycle\<close>, \<open>Actor_Behaviour\<close>);
    links are mutual and a death is told once to each link, unless \<open>on_stop\<close> unwinds (\<open>Links\<close>); who waits
    for an end is told what \<open>on_stop\<close> returned, and an attached stream loses nothing and comes to its
    end (\<open>Actor_Ref\<close>).
  \<^item> Requests: a reply arrives as it was given, a failed send returns its message, a forward is
    transparent (\<open>Request\<close>, \<open>Reply\<close>); a request is sent with the timeouts it was built with, through a
    reference or a recipient (\<open>Recipient\<close>).
  \<^item> Macros: a generated handler calls its method with the right arguments in order, methods are
    extracted one by one, and exactly which methods make the macro itself unwind (\<open>Message_Macro\<close>).
  \<^item> Ready-made actors: each publish delivers to exactly the right recipients and drops exactly the
    stopped ones; the message queue keeps its invariant; the pool keeps its workers.
  \<^item> Wire: codecs are exact, a stream is put together again within bounded memory, and an
    exactly-once cache computes a reply once.
  \<^item> Nodes: what a lookup finds was registered under that name (nothing is assumed about when a
    registration is seen by other nodes), a remote request is a local request on the other node, a lost
    peer's references die before its links are told, the link table refines a partial function, and a
    peer that comes back is linked again (\<open>Distributed_Ref\<close>, \<open>V2_Bootstrap\<close>, \<open>Remote_Link\<close>).
  \<^item> Where the code does not do what it means to, a theorem states what it does: forwards that
    panic, waiters that are never told, a dispatch that tries one worker, a node deaf to its peers, handlers
    taken over, links to an actor that never started, generics a macro does not find, a gateway that panics
    where its example says that nothing does.
  \<^item> Programs: what the local examples answer and print follows from the above: a counter's answers up to
    the error that ends it, a gateway nobody notices, two streams that lose nothing (\<open>Local_Examples\<close>).

  \<^bold>\<open>Not modelled.\<close> Logging, the derived \<open>Debug\<close> texts and metrics export; how the procedural macros
  parse and print tokens, and what the compiler makes of the emitted text; memory ordering and the
  interleaving inside one locked section; the TLS and gossip protocols of kameo\_remote; \<open>src/remote/actor_message_handler.rs\<close>,
  which is not part of the crate; the defaults of \<open>RemoteMessage\<close>, which nothing calls, and the macros that
  only list types for \<open>impl_type_hash!\<close>; the remote examples, the benches, the console and the tests.
\<close>

end
